(* ===== verification/Prelude.thy ===== *)
theory Prelude
  imports Main "HOL-Library.Sublist"
begin

text \<open>
  Shared vocabulary of the development: the Rust standard-library operations that the
  sources use on strings, byte vectors, \<open>u64\<close> values and \<open>Duration\<close>s, the \<open>Result\<close>
  plumbing behind the \<open>?\<close> operator, and the generic lemmas the component theories share.

  A Rust \<open>String\<close> or \<open>Vec<u8>\<close> is a list of bytes, here \<^typ>\<open>string\<close> (a character is a byte).
  A \<open>u64\<close> is a \<^typ>\<open>nat\<close> with the width written out by the operations below, and a
  \<open>Duration\<close> or \<open>Instant\<close> is a number of nanoseconds.
\<close>

named_theorems prog_simps \<open>equations that execute effectful programs\<close>
named_theorems store_laws \<open>laws of the transient store\<close>
named_theorems path_elims \<open>what the traces of an operation look like\<close>

type_synonym bytes = string
type_synonym duration = nat

section \<open>Unsigned 64-bit arithmetic\<close>

definition u64_max :: nat where
  "u64_max = 18446744073709551615"

definition saturating_add :: "nat \<Rightarrow> nat \<Rightarrow> nat" where
  "saturating_add a b = min (a + b) u64_max"

definition saturating_sub :: "nat \<Rightarrow> nat \<Rightarrow> nat" where
  "saturating_sub a b = a - b"

definition saturating_mul :: "nat \<Rightarrow> nat \<Rightarrow> nat" where
  "saturating_mul a b = min (a * b) u64_max"

definition checked_add :: "nat \<Rightarrow> nat \<Rightarrow> nat option" where
  "checked_add a b = (if a + b \<le> u64_max then Some (a + b) else None)"

definition checked_sub :: "nat \<Rightarrow> nat \<Rightarrow> nat option" where
  "checked_sub a b = (if b \<le> a then Some (a - b) else None)"

text \<open>The cast \<open>x as u64\<close> of a wider unsigned integer.\<close>

definition as_u64 :: "nat \<Rightarrow> nat" where
  "as_u64 n = n mod (u64_max + 1)"

lemma saturating_add_le: "saturating_add a b \<le> a + b"
  by (simp add: saturating_add_def)

lemma saturating_add_bound: "saturating_add a b \<le> u64_max"
  by (simp add: saturating_add_def)

lemma saturating_add_exact: "a + b \<le> u64_max \<Longrightarrow> saturating_add a b = a + b"
  by (simp add: saturating_add_def)

lemma as_u64_id: "n \<le> u64_max \<Longrightarrow> as_u64 n = n"
  by (simp add: as_u64_def)

lemma as_u64_bound: "as_u64 n \<le> u64_max"
  by (simp add: as_u64_def less_Suc_eq_le [symmetric])

section \<open>Durations\<close>

definition from_secs :: "nat \<Rightarrow> duration" where
  "from_secs n = n * 1000000000"

definition from_millis :: "nat \<Rightarrow> duration" where
  "from_millis n = n * 1000000"

definition as_secs :: "duration \<Rightarrow> nat" where
  "as_secs d = d div 1000000000"

definition subsec_nanos :: "duration \<Rightarrow> nat" where
  "subsec_nanos d = d mod 1000000000"

definition as_millis :: "duration \<Rightarrow> nat" where
  "as_millis d = d div 1000000"

lemma as_millis_from_millis [simp]: "as_millis (from_millis n) = n"
  by (simp add: as_millis_def from_millis_def)

lemma as_millis_from_secs [simp]: "as_millis (from_secs n) = 1000 * n"
  by (simp add: as_millis_def from_secs_def)

lemma as_secs_from_secs [simp]: "as_secs (from_secs n) = n"
  by (simp add: as_secs_def from_secs_def)

lemma from_millis_pos [simp]: "0 < from_millis n \<longleftrightarrow> 0 < n"
  by (simp add: from_millis_def)

lemma from_millis_eq_0 [simp]: "from_millis n = 0 \<longleftrightarrow> n = 0"
  by (simp add: from_millis_def)

section \<open>Results\<close>

text \<open>\<open>Result<T, E>\<close> is \<open>E + T\<close>; \<open>bind_result\<close> is the \<open>?\<close> operator in straight-line code.\<close>

fun bind_result :: "'e + 'a \<Rightarrow> ('a \<Rightarrow> 'e + 'b) \<Rightarrow> 'e + 'b" where
  "bind_result (Inl e) f = Inl e"
| "bind_result (Inr x) f = f x"

definition ok_or :: "'e \<Rightarrow> 'a option \<Rightarrow> 'e + 'a" where
  "ok_or e x = (case x of None \<Rightarrow> Inl e | Some v \<Rightarrow> Inr v)"

fun is_ok :: "'e + 'a \<Rightarrow> bool" where
  "is_ok (Inl e) = False"
| "is_ok (Inr x) = True"

fun ok :: "'e + 'a \<Rightarrow> 'a option" where
  "ok (Inl e) = None"
| "ok (Inr x) = Some x"

definition when_err :: "bool \<Rightarrow> 'e \<Rightarrow> 'e + unit" where
  "when_err b e = (if b then Inl e else Inr ())"

text \<open>A \<open>for\<close> loop whose body may return an error: the first error ends it.\<close>

fun try_each :: "('a \<Rightarrow> 'e + unit) \<Rightarrow> 'a list \<Rightarrow> 'e + unit" where
  "try_each f [] = Inr ()"
| "try_each f (x # xs) = bind_result (f x) (\<lambda>_. try_each f xs)"

text \<open>\<open>iter().map(f).collect::<Result<Vec<_>, _>>()\<close>.\<close>

fun try_map :: "('a \<Rightarrow> 'e + 'b) \<Rightarrow> 'a list \<Rightarrow> 'e + 'b list" where
  "try_map f [] = Inr []"
| "try_map f (x # xs) =
     bind_result (f x) (\<lambda>y. bind_result (try_map f xs) (\<lambda>ys. Inr (y # ys)))"

lemma bind_result_Inr_iff:
  "bind_result r f = Inr y \<longleftrightarrow> (\<exists>x. r = Inr x \<and> f x = Inr y)"
  by (cases r) auto

lemma when_err_Inr [simp]: "when_err b e = Inr u \<longleftrightarrow> \<not> b"
  by (simp add: when_err_def)

lemma ok_or_Inr [simp]: "ok_or e x = Inr v \<longleftrightarrow> x = Some v"
  by (cases x) (auto simp: ok_or_def)

lemma is_ok_iff: "is_ok r \<longleftrightarrow> (\<exists>x. r = Inr x)"
  by (cases r) auto

lemma unit_result_ok: "(r :: 'e + unit) = Inr () \<longleftrightarrow> is_ok r"
  by (cases r) auto

lemma try_each_ok: "is_ok (try_each f xs) \<longleftrightarrow> (\<forall>x\<in>set xs. is_ok (f x))"
proof (induction xs)
  case Nil
  show ?case by simp
next
  case (Cons x xs)
  then show ?case by (cases "f x") auto
qed

lemma try_map_Inr: "try_map f xs = Inr ys \<longleftrightarrow> list_all2 (\<lambda>x y. f x = Inr y) xs ys"
  by (induction xs arbitrary: ys) (auto simp: bind_result_Inr_iff list_all2_Cons1)

text \<open>
  A loop that checks every element and rejects a repeated identity, keeping the identities
  seen so far in a \<open>HashSet\<close>; it returns that set.
\<close>

fun scan_unique ::
    "('a \<Rightarrow> 'e + unit) \<Rightarrow> ('a \<Rightarrow> 'k) \<Rightarrow> 'e \<Rightarrow> 'k list \<Rightarrow> 'a list \<Rightarrow> 'e + 'k list" where
  "scan_unique check ident dup seen [] = Inr seen"
| "scan_unique check ident dup seen (x # xs) =
     bind_result (check x) (\<lambda>_.
       if ident x \<in> set seen then Inl dup
       else scan_unique check ident dup (ident x # seen) xs)"

lemma scan_unique_Inr:
  "scan_unique check ident dup seen xs = Inr seen' \<longleftrightarrow>
     (\<forall>x\<in>set xs. is_ok (check x)) \<and> distinct (map ident xs) \<and>
     ident ` set xs \<inter> set seen = {} \<and> seen' = rev (map ident xs) @ seen"
proof (induction xs arbitrary: seen)
  case Nil
  show ?case by auto
next
  case (Cons x xs)
  then show ?case by (cases "check x") auto
qed

section \<open>Bytes\<close>

definition byte_value :: "char \<Rightarrow> nat" where
  "byte_value c = of_char c"

definition is_ascii :: "char \<Rightarrow> bool" where
  "is_ascii c \<longleftrightarrow> byte_value c < 128"

definition is_ascii_digit :: "char \<Rightarrow> bool" where
  "is_ascii_digit c \<longleftrightarrow> 48 \<le> byte_value c \<and> byte_value c \<le> 57"

definition is_ascii_alphabetic :: "char \<Rightarrow> bool" where
  "is_ascii_alphabetic c \<longleftrightarrow>
     65 \<le> byte_value c \<and> byte_value c \<le> 90 \<or> 97 \<le> byte_value c \<and> byte_value c \<le> 122"

definition is_ascii_alphanumeric :: "char \<Rightarrow> bool" where
  "is_ascii_alphanumeric c \<longleftrightarrow> is_ascii_alphabetic c \<or> is_ascii_digit c"

text \<open>Space, tab, line feed, form feed and carriage return, as \<open>u8::is_ascii_whitespace\<close>.\<close>

definition is_ascii_whitespace :: "char \<Rightarrow> bool" where
  "is_ascii_whitespace c \<longleftrightarrow> byte_value c \<in> {9, 10, 12, 13, 32}"

definition to_ascii_lowercase :: "char \<Rightarrow> char" where
  "to_ascii_lowercase c =
     (if 65 \<le> byte_value c \<and> byte_value c \<le> 90 then char_of (byte_value c + 32) else c)"

definition lowercase :: "string \<Rightarrow> string" where
  "lowercase s = map to_ascii_lowercase s"

definition eq_ignore_ascii_case :: "string \<Rightarrow> string \<Rightarrow> bool" where
  "eq_ignore_ascii_case a b \<longleftrightarrow> lowercase a = lowercase b"

lemmas byte_class_defs =
  byte_value_def is_ascii_def is_ascii_digit_def is_ascii_alphabetic_def
  is_ascii_alphanumeric_def is_ascii_whitespace_def to_ascii_lowercase_def

lemma alphanumeric_ascii: "is_ascii_alphanumeric c \<Longrightarrow> is_ascii c"
  by (auto simp: byte_class_defs)

lemma alphanumeric_not_special [simp]:
  "\<not> is_ascii_alphanumeric (CHR ''/'')"
  "\<not> is_ascii_alphanumeric (CHR ''.'')"
  "\<not> is_ascii_alphanumeric (CHR '':'')"
  by (simp_all add: byte_class_defs)

section \<open>Strings\<close>

definition starts_with :: "string \<Rightarrow> string \<Rightarrow> bool" where
  "starts_with p s \<longleftrightarrow> take (length p) s = p"

definition ends_with :: "string \<Rightarrow> string \<Rightarrow> bool" where
  "ends_with p s \<longleftrightarrow> length p \<le> length s \<and> drop (length s - length p) s = p"

definition strip_prefix :: "'a list \<Rightarrow> 'a list \<Rightarrow> 'a list option" where
  "strip_prefix p s = (if take (length p) s = p then Some (drop (length p) s) else None)"

definition strip_suffix :: "'a list \<Rightarrow> 'a list \<Rightarrow> 'a list option" where
  "strip_suffix p s =
     (if length p \<le> length s \<and> drop (length s - length p) s = p
      then Some (take (length s - length p) s) else None)"

definition trim_start_matches :: "char \<Rightarrow> string \<Rightarrow> string" where
  "trim_start_matches c s = dropWhile (\<lambda>x. x = c) s"

definition trim_end_matches :: "char \<Rightarrow> string \<Rightarrow> string" where
  "trim_end_matches c s = rev (dropWhile (\<lambda>x. x = c) (rev s))"

definition trim_matches :: "char \<Rightarrow> string \<Rightarrow> string" where
  "trim_matches c s = trim_end_matches c (trim_start_matches c s)"

fun split_on :: "'a \<Rightarrow> 'a list \<Rightarrow> 'a list list" where
  "split_on c [] = [[]]"
| "split_on c (x # xs) =
     (if x = c then [] # split_on c xs
      else case split_on c xs of [] \<Rightarrow> [[x]] | y # ys \<Rightarrow> (x # y) # ys)"

text \<open>\<open>[..].join(sep)\<close>.\<close>

fun join :: "'a list \<Rightarrow> 'a list list \<Rightarrow> 'a list" where
  "join sep [] = []"
| "join sep [x] = x"
| "join sep (x # y # ys) = x @ sep @ join sep (y # ys)"

fun split_once :: "'a list \<Rightarrow> 'a list \<Rightarrow> ('a list \<times> 'a list) option" where
  "split_once p [] = (if p = [] then Some ([], []) else None)"
| "split_once p (x # xs) =
     (case strip_prefix p (x # xs) of
        Some r \<Rightarrow> Some ([], r)
      | None \<Rightarrow> map_option (\<lambda>(a, b). (x # a, b)) (split_once p xs))"

fun rsplit_once :: "'a \<Rightarrow> 'a list \<Rightarrow> ('a list \<times> 'a list) option" where
  "rsplit_once c [] = None"
| "rsplit_once c (x # xs) =
     (case rsplit_once c xs of
        Some (a, b) \<Rightarrow> Some (x # a, b)
      | None \<Rightarrow> if x = c then Some ([], xs) else None)"

lemma strip_prefix_Some: "strip_prefix p s = Some r \<longleftrightarrow> s = p @ r"
  by (auto simp: strip_prefix_def) (metis append_take_drop_id)

lemma strip_prefix_append [simp]: "strip_prefix p (p @ r) = Some r"
  by (simp add: strip_prefix_def)

lemma strip_prefix_None: "strip_prefix p s = None \<longleftrightarrow> \<not> (\<exists>r. s = p @ r)"
  by (metis not_Some_eq strip_prefix_Some)

lemma starts_with_iff: "starts_with p s \<longleftrightarrow> (\<exists>r. s = p @ r)"
  by (auto simp: starts_with_def) (metis append_take_drop_id)

lemma starts_with_append [simp]: "starts_with p (p @ r)"
  by (simp add: starts_with_def)

lemma split_on_not_Nil [simp]: "split_on c s \<noteq> []"
  by (induction s) (auto split: list.splits)

lemma split_on_no_sep: "c \<notin> set s \<Longrightarrow> split_on c s = [s]"
  by (induction s) auto

lemma split_on_append_sep: "c \<notin> set a \<Longrightarrow> split_on c (a @ c # b) = a # split_on c b"
  by (induction a) auto

lemma split_on_append: "split_on c (a @ c # b) = split_on c a @ split_on c b"
proof (induction a)
  case Nil
  show ?case by simp
next
  case (Cons x a)
  obtain y ys where "split_on c a = y # ys" by (metis list.exhaust split_on_not_Nil)
  with Cons show ?case by simp
qed

lemma join_split_on: "join [c] (split_on c s) = s"
proof (induction s)
  case Nil
  show ?case by simp
next
  case (Cons x s)
  obtain y ys where "split_on c s = y # ys" by (metis list.exhaust split_on_not_Nil)
  with Cons show ?case by (cases ys) auto
qed

lemma split_on_join:
  assumes "ps \<noteq> []" and "\<forall>p\<in>set ps. c \<notin> set p"
  shows "split_on c (join [c] ps) = ps"
  using assms
proof (induction "[c]" ps rule: join.induct)
  case 1
  then show ?case by simp
next
  case (2 x)
  then show ?case by (simp add: split_on_no_sep)
next
  case (3 x y ys)
  then show ?case by (simp add: split_on_append_sep)
qed

lemma split_on_parts: "p \<in> set (split_on c s) \<Longrightarrow> c \<notin> set p"
proof (induction s arbitrary: p)
  case Nil
  then show ?case by simp
next
  case (Cons x s)
  obtain y ys where "split_on c s = y # ys" by (metis list.exhaust split_on_not_Nil)
  with Cons show ?case by (auto split: if_splits)
qed

lemma trim_start_id: "s = [] \<or> hd s \<noteq> c \<Longrightarrow> trim_start_matches c s = s"
  by (cases s) (auto simp: trim_start_matches_def)

lemma trim_end_id: "s = [] \<or> last s \<noteq> c \<Longrightarrow> trim_end_matches c s = s"
proof -
  assume a: "s = [] \<or> last s \<noteq> c"
  have "dropWhile (\<lambda>x. x = c) (rev s) = rev s"
    using a by (cases s rule: rev_cases) auto
  then show ?thesis by (simp add: trim_end_matches_def)
qed

lemma split_once_Some: "split_once p s = Some (a, b) \<Longrightarrow> s = a @ p @ b"
proof (induction s arbitrary: a)
  case Nil
  then show ?case by (simp split: if_splits)
next
  case (Cons x s)
  then show ?case
    by (auto split: option.splits simp: strip_prefix_Some)
qed

lemma rsplit_once_Some:
  "rsplit_once c s = Some (a, b) \<Longrightarrow> s = a @ c # b \<and> c \<notin> set b"
proof (induction s arbitrary: a b)
  case Nil
  then show ?case by simp
next
  case (Cons x s)
  have none: "rsplit_once c s = None \<Longrightarrow> c \<notin> set s"
    by (induction s) (auto split: option.splits if_splits)
  from Cons none show ?case by (auto split: option.splits if_splits)
qed

text \<open>
  \<open>str::chars\<close> on the UTF-8 bytes of a \<open>String\<close>: the scalar values of one- to four-byte
  sequences. A \<open>String\<close> is valid UTF-8, so the sequences are complete.
\<close>

fun chars :: "string \<Rightarrow> nat list" where
  "chars [] = []"
| "chars (a # s) =
     (let b = byte_value a in
      if b < 128 then b # chars s
      else if b < 224 then
        (case s of
           c1 # s1 \<Rightarrow> ((b mod 32) * 64 + byte_value c1 mod 64) # chars s1
         | _ \<Rightarrow> [])
      else if b < 240 then
        (case s of
           c1 # c2 # s2 \<Rightarrow>
             ((b mod 16) * 4096 + (byte_value c1 mod 64) * 64 + byte_value c2 mod 64) # chars s2
         | _ \<Rightarrow> [])
      else
        (case s of
           c1 # c2 # c3 # s3 \<Rightarrow>
             ((b mod 8) * 262144 + (byte_value c1 mod 64) * 4096
               + (byte_value c2 mod 64) * 64 + byte_value c3 mod 64) # chars s3
         | _ \<Rightarrow> []))"

lemma chars_ascii: "\<forall>c\<in>set s. is_ascii c \<Longrightarrow> chars s = map byte_value s"
  by (induction s) (auto simp: is_ascii_def Let_def)

section \<open>Hash maps as association lists\<close>

text \<open>
  \<open>HashMap::insert\<close> on the association-list reading of a map: an existing key is
  overwritten in place.
\<close>

fun al_insert :: "'k \<Rightarrow> 'v \<Rightarrow> ('k \<times> 'v) list \<Rightarrow> ('k \<times> 'v) list" where
  "al_insert k v [] = [(k, v)]"
| "al_insert k v ((k', v') # kvs) =
     (if k = k' then (k, v) # kvs else (k', v') # al_insert k v kvs)"

definition al_remove :: "'k \<Rightarrow> ('k \<times> 'v) list \<Rightarrow> ('k \<times> 'v) list" where
  "al_remove k kvs = filter (\<lambda>kv. fst kv \<noteq> k) kvs"

lemma map_of_al_insert [simp]: "map_of (al_insert k v kvs) = (map_of kvs)(k \<mapsto> v)"
  by (induction kvs) auto

lemma map_of_al_remove [simp]: "map_of (al_remove k kvs) = (map_of kvs)(k := None)"
  by (induction kvs) (auto simp: al_remove_def fun_eq_iff)

lemma fst_set_al_insert: "set (map fst (al_insert k v kvs)) = insert k (set (map fst kvs))"
  by (induction k v kvs rule: al_insert.induct) (simp_all add: insert_commute)

lemma distinct_al_insert:
  "distinct (map fst kvs) \<Longrightarrow> distinct (map fst (al_insert k v kvs))"
proof (induction k v kvs rule: al_insert.induct)
  case (1 k v)
  show ?case by simp
next
  case (2 k v k' v' kvs)
  then show ?case using fst_set_al_insert [of k v kvs] by simp
qed

end
