(* ===== verification/Libs.thy ===== *)
theory Libs
  imports Prelude
begin

text \<open>
  The values and functions of the third-party crates that the sources call. Their data
  types are modelled (a parsed URL by what its accessors return, a \<open>serde_json::Value\<close> by
  its variants); their functions are not: they are the fields of the record \<open>libs\<close>, which
  every definition that calls one takes as an argument. What the sources rely on is stated
  where it is used, as a named hypothesis about those fields.
\<close>

section \<open>URLs (crate \<open>url\<close>)\<close>

datatype host = Domain string | Ipv4 "nat" | Ipv6 "nat"

text \<open>A parsed \<open>Url\<close>, as its accessors describe it. The addresses are the 32-bit and 128-bit values.\<close>

record url =
  scheme :: string
  username :: string
  password :: "string option"
  host_of :: "host option"
  host_str :: "string option"
  port :: "nat option"
  port_or_known_default :: "nat option"
  path_of :: string
  query :: "string option"
  fragment :: "string option"
  as_str :: string

text \<open>\<open>Ipv4Addr::LOCALHOST\<close> is 127.0.0.1; \<open>Ipv6Addr::is_loopback\<close> holds of ::1 only.\<close>

definition ipv4_localhost :: nat where
  "ipv4_localhost = 2130706433"

definition ipv6_is_loopback :: "nat \<Rightarrow> bool" where
  "ipv6_is_loopback a \<longleftrightarrow> a = 1"

section \<open>JSON values (crate \<open>serde_json\<close>)\<close>

datatype json_number = PosInt nat | NegInt int | Float string

datatype json =
    JNull
  | JBool bool
  | JNumber json_number
  | JString string
  | JArray "json list"
  | JObject "(string \<times> json) list"

fun as_bool :: "json \<Rightarrow> bool option" where
  "as_bool (JBool b) = Some b"
| "as_bool _ = None"

fun as_string :: "json \<Rightarrow> string option" where
  "as_string (JString s) = Some s"
| "as_string _ = None"

fun as_array :: "json \<Rightarrow> json list option" where
  "as_array (JArray xs) = Some xs"
| "as_array _ = None"

fun as_unsigned :: "json \<Rightarrow> nat option" where
  "as_unsigned (JNumber (PosInt n)) = Some n"
| "as_unsigned _ = None"

fun is_object :: "json \<Rightarrow> bool" where
  "is_object (JObject _) = True"
| "is_object _ = False"

fun json_get :: "json \<Rightarrow> string \<Rightarrow> json option" where
  "json_get (JObject kvs) name = map_of kvs name"
| "json_get _ name = None"

section \<open>Library functions\<close>

record libs =
  sha256 :: "bytes \<Rightarrow> bytes"
  b64url_encode :: "bytes \<Rightarrow> string"
  b64url_decode :: "string \<Rightarrow> bytes option"
  b64_encode :: "bytes \<Rightarrow> string"
  b64_decode :: "bytes \<Rightarrow> bytes option"
  utf8_valid :: "bytes \<Rightarrow> bool"
  url_parse :: "string \<Rightarrow> url option"
  ipv6_parse :: "string \<Rightarrow> nat option"
  url_with_path :: "url \<Rightarrow> string \<Rightarrow> url"
  url_without_query :: "url \<Rightarrow> url"
  url_without_fragment :: "url \<Rightarrow> url"
  url_append_pairs :: "url \<Rightarrow> (string \<times> string) list \<Rightarrow> url"
  form_parse :: "bytes \<Rightarrow> (string \<times> string) list"
  form_serialize :: "(string \<times> string) list \<Rightarrow> string"
  byte_serialize :: "string \<Rightarrow> string"
  json_parse :: "bytes \<Rightarrow> json option"
  members_parse :: "bytes \<Rightarrow> (string \<times> string) list option"
  members_print :: "(string \<times> string) list \<Rightarrow> bytes option"
  raw_string_parse :: "string \<Rightarrow> string option"
  raw_string_print :: "string \<Rightarrow> string option"
  utf8_lossy :: "bytes \<Rightarrow> string"
  header_valid :: "string \<Rightarrow> bool"

text \<open>
  The functions above are, in order: \<open>Sha256::digest\<close>; \<open>URL_SAFE_NO_PAD\<close> and \<open>STANDARD\<close> of
  \<open>base64\<close>; \<open>std::str::from_utf8\<close>'s test; \<open>Url::parse\<close>; \<open>Ipv6Addr::from_str\<close>; \<open>Url::set_path\<close>,
  \<open>set_query(None)\<close>, \<open>set_fragment(None)\<close> and appending to \<open>query_pairs_mut\<close>;
  \<open>form_urlencoded::parse\<close>, its \<open>Serializer\<close> and \<open>byte_serialize\<close>; \<open>serde_json\<close>'s reading
  of a \<open>Value\<close>, of the members of an object (names with the raw text of their values) and of a
  string, and their printing; \<open>String::from_utf8_lossy\<close>; \<open>HeaderValue::from_str\<close>'s test.
\<close>

end
