(* ===== verification/Id_Token_Policy.thy ===== *)
theory Id_Token_Policy
  imports Libs "HOL-Library.While_Combinator"
begin

text \<open>
  The admission rules of \<open>oauthrelay-core/src/id_token_policy.rs\<close>: typed matchers over the
  claims of a verified ID token, and the glob matcher \<open>string_like\<close>, whose backtracking loop is
  proved equal to the textbook definition of a glob.
\<close>

section \<open>The glob matcher\<close>

definition star_char :: nat where "star_char = 42"
definition question_char :: nat where "question_char = 63"

text \<open>
  The loop state: the positions in the pattern and in the value, the position of the last
  \<open>*\<close> and the value position to retry from. A step either continues or returns.
\<close>

record like_state =
  at_p :: nat
  at_v :: nat
  star :: "nat option"
  retry :: nat

definition like_step :: "nat list \<Rightarrow> nat list \<Rightarrow> like_state \<Rightarrow> like_state + bool" where
  "like_step pattern value st =
     (let p = at_p st; v = at_v st in
      if v < length value then
        if p < length pattern \<and>
           (pattern ! p = question_char \<or> (pattern ! p \<noteq> star_char \<and> pattern ! p = value ! v))
        then Inl (st\<lparr>at_p := p + 1, at_v := v + 1\<rparr>)
        else if p < length pattern \<and> pattern ! p = star_char
        then Inl (st\<lparr>star := Some p, at_p := p + 1, retry := v\<rparr>)
        else (case star st of
                Some index \<Rightarrow> Inl (st\<lparr>retry := retry st + 1, at_v := retry st + 1, at_p := index + 1\<rparr>)
              | None \<Rightarrow> Inr False)
      else Inr (\<forall>c\<in>set (drop p pattern). c = star_char))"

definition like_init :: like_state where
  "like_init = \<lparr>at_p = 0, at_v = 0, star = None, retry = 0\<rparr>"

definition like_loop :: "nat list \<Rightarrow> nat list \<Rightarrow> (like_state + bool) option" where
  "like_loop pattern value =
     while_option isl (\<lambda>s. like_step pattern value (projl s)) (Inl like_init)"

definition string_like :: "string \<Rightarrow> string \<Rightarrow> bool" where
  "string_like pattern value =
     (case like_loop (chars pattern) (chars value) of Some (Inr b) \<Rightarrow> b | _ \<Rightarrow> False)"

text \<open>
  What the loop is meant to compute: a \<open>*\<close> matches any sequence, a \<open>?\<close> one character, any
  other pattern character itself.
\<close>

fun glob :: "nat list \<Rightarrow> nat list \<Rightarrow> bool" where
  "glob [] s \<longleftrightarrow> s = []"
| "glob (p # ps) [] \<longleftrightarrow> p = star_char \<and> glob ps []"
| "glob (p # ps) (c # cs) \<longleftrightarrow>
     (if p = star_char then glob ps (c # cs) \<or> glob (p # ps) cs
      else (p = question_char \<or> p = c) \<and> glob ps cs)"

lemma star_not_question [simp]: "star_char \<noteq> question_char" "question_char \<noteq> star_char"
  by (simp_all add: star_char_def question_char_def)

lemma glob_Nil: "glob ps [] \<longleftrightarrow> (\<forall>c\<in>set ps. c = star_char)"
  by (induction ps) auto

lemma glob_star: "glob (star_char # ps) s \<longleftrightarrow> (\<exists>k\<le>length s. glob ps (drop k s))"
proof (induction s)
  case Nil
  show ?case by simp
next
  case (Cons c s)
  have "(\<exists>k\<le>length (c # s). glob ps (drop k (c # s))) \<longleftrightarrow>
      glob ps (c # s) \<or> (\<exists>k\<le>length s. glob ps (drop k s))"
    by (metis Suc_le_mono drop0 drop_Suc_Cons le0 length_Cons not0_implies_Suc)
  with Cons show ?case by simp
qed

lemma glob_star_absorb:
  assumes "glob (star_char # ps) (drop m s)" and "v \<le> m"
  shows "glob (star_char # ps) (drop v s)"
proof -
  obtain k where k: "k \<le> length (drop m s)" "glob ps (drop k (drop m s))"
    using assms(1) by (auto simp: glob_star)
  have "drop (k + m - v) (drop v s) = drop k (drop m s)" using assms(2) by simp
  moreover have "k + m - v \<le> length (drop v s) \<or> length s < m"
    using k(1) assms(2) by auto
  ultimately show ?thesis
    using k by (cases "length s < m") (auto simp: glob_star intro: exI [of _ "length s - v"])
qed

text \<open>A star-free segment consumes exactly its length.\<close>

lemma glob_segment:
  "star_char \<notin> set seg \<Longrightarrow> glob (seg @ ps) s \<Longrightarrow>
     length seg \<le> length s \<and> glob ps (drop (length seg) s)"
proof (induction seg arbitrary: s)
  case Nil
  then show ?case by simp
next
  case (Cons p seg)
  then show ?case by (cases s) auto
qed

section \<open>Correctness of the loop\<close>

text \<open>
  Behind the last star lies a star-free segment of the pattern that matches the value from
  the retry position on; whether the whole value matches is decided by the current position
  or by moving the segment further.
\<close>

definition like_inv :: "nat list \<Rightarrow> nat list \<Rightarrow> like_state \<Rightarrow> bool" where
  "like_inv pattern value st \<longleftrightarrow>
     at_p st \<le> length pattern \<and> at_v st \<le> length value \<and>
     (case star st of
        None \<Rightarrow> glob pattern value = glob (drop (at_p st) pattern) (drop (at_v st) value)
      | Some i \<Rightarrow>
          i < at_p st \<and> pattern ! i = star_char \<and>
          star_char \<notin> set (take (at_p st - Suc i) (drop (Suc i) pattern)) \<and>
          at_v st = retry st + (at_p st - Suc i) \<and>
          glob pattern value =
            (glob (drop (at_p st) pattern) (drop (at_v st) value) \<or>
             (retry st < length value \<and> glob (drop i pattern) (drop (Suc (retry st)) value))))"

definition like_inv_result :: "nat list \<Rightarrow> nat list \<Rightarrow> like_state + bool \<Rightarrow> bool" where
  "like_inv_result pattern value s =
     (case s of Inl st \<Rightarrow> like_inv pattern value st | Inr b \<Rightarrow> b = glob pattern value)"

text \<open>Moving the segment further: where it then ends.\<close>

lemma moved_segment:
  assumes inv: "like_inv pattern value st" and st: "star st = Some i"
    and alt: "retry st < length value" "glob (drop i pattern) (drop (Suc (retry st)) value)"
  shows "\<exists>m. at_v st < m \<and> m \<le> length value \<and> glob (drop (at_p st) pattern) (drop m value)"
proof -
  let ?seg = "take (at_p st - Suc i) (drop (Suc i) pattern)"
  have i: "i < at_p st" "at_p st \<le> length pattern" "pattern ! i = star_char"
    "star_char \<notin> set ?seg" "at_v st = retry st + (at_p st - Suc i)"
    using inv st by (auto simp: like_inv_def)
  have "drop i pattern = star_char # drop (Suc i) pattern"
    using i by (metis Cons_nth_drop_Suc less_le_trans)
  moreover have "drop (Suc i) pattern = ?seg @ drop (at_p st) pattern"
    using i by (metis append_take_drop_id drop_drop le_add_diff_inverse2 Suc_leI)
  ultimately obtain k where k: "k \<le> length (drop (Suc (retry st)) value)"
      "glob (?seg @ drop (at_p st) pattern) (drop k (drop (Suc (retry st)) value))"
    using alt(2) by (metis glob_star)
  from glob_segment [OF i(4) k(2)]
  have seg: "length ?seg \<le> length (drop k (drop (Suc (retry st)) value))"
    "glob (drop (at_p st) pattern) (drop (length ?seg) (drop k (drop (Suc (retry st)) value)))"
    by auto
  have len: "length ?seg = at_p st - Suc i" using i by simp
  let ?m = "at_p st - Suc i + k + Suc (retry st)"
  have "glob (drop (at_p st) pattern) (drop ?m value)" using seg(2) len by (simp add: ac_simps)
  moreover have "?m \<le> length value" using seg(1) len k(1) alt(1) by simp
  ultimately show ?thesis using i(5) by (intro exI [of _ ?m]) simp
qed

lemma like_inv_init: "like_inv pattern value like_init"
  by (simp add: like_inv_def like_init_def)

lemma drop_nth: "p < length xs \<Longrightarrow> drop p xs = xs ! p # drop (Suc p) xs"
  by (metis Cons_nth_drop_Suc)

text \<open>The current character matches: both positions advance.\<close>

lemma like_inv_match:
  assumes inv: "like_inv pattern value st" and v: "at_v st < length value"
    and p: "at_p st < length pattern"
    and m: "pattern ! at_p st = question_char \<or>
      (pattern ! at_p st \<noteq> star_char \<and> pattern ! at_p st = value ! at_v st)"
  shows "like_inv pattern value (st\<lparr>at_p := at_p st + 1, at_v := at_v st + 1\<rparr>)"
proof -
  have here: "glob (drop (at_p st) pattern) (drop (at_v st) value) =
      glob (drop (Suc (at_p st)) pattern) (drop (Suc (at_v st)) value)"
    using m by (auto simp: drop_nth [OF p] drop_nth [OF v])
  have seg: "star_char \<notin> set (take (Suc (at_p st) - Suc i) (drop (Suc i) pattern))"
    if "i < at_p st" "star_char \<notin> set (take (at_p st - Suc i) (drop (Suc i) pattern))" for i
  proof -
    have "Suc (at_p st) - Suc i = Suc (at_p st - Suc i)" using that(1) by simp
    moreover have "at_p st - Suc i < length (drop (Suc i) pattern)" using that(1) p by simp
    moreover have "drop (Suc i) pattern ! (at_p st - Suc i) = pattern ! at_p st"
      using that(1) p by simp
    ultimately show ?thesis using that(2) m by (auto simp: take_Suc_conv_app_nth)
  qed
  show ?thesis
    using inv v p here seg by (auto simp: like_inv_def split: option.splits)
qed

text \<open>A star: the segment restarts behind it, the earlier star is no longer needed.\<close>

lemma like_inv_star:
  assumes inv: "like_inv pattern value st" and v: "at_v st < length value"
    and p: "at_p st < length pattern" and s: "pattern ! at_p st = star_char"
  shows "like_inv pattern value (st\<lparr>star := Some (at_p st), at_p := at_p st + 1, retry := at_v st\<rparr>)"
proof -
  have whole: "glob pattern value = glob (drop (at_p st) pattern) (drop (at_v st) value)"
  proof (cases "star st")
    case None
    then show ?thesis using inv by (simp add: like_inv_def)
  next
    case (Some i)
    have "glob (drop (at_p st) pattern) (drop (at_v st) value)"
      if alt: "retry st < length value" "glob (drop i pattern) (drop (Suc (retry st)) value)"
    proof -
      obtain m where "at_v st < m" "glob (drop (at_p st) pattern) (drop m value)"
        using moved_segment [OF inv Some alt] by auto
      then show ?thesis
        using glob_star_absorb [of "drop (Suc (at_p st)) pattern" m "value" "at_v st"] s
        by (simp add: drop_nth [OF p])
    qed
    then show ?thesis using inv Some by (auto simp: like_inv_def)
  qed
  have "glob (drop (at_p st) pattern) (drop (at_v st) value) \<longleftrightarrow>
      glob (drop (Suc (at_p st)) pattern) (drop (at_v st) value) \<or>
      glob (drop (at_p st) pattern) (drop (Suc (at_v st)) value)"
    using s by (simp add: drop_nth [OF p] drop_nth [OF v])
  with whole v p s inv show ?thesis by (simp add: like_inv_def)
qed

text \<open>A mismatch behind a star: the segment is tried one position further.\<close>

lemma like_inv_backtrack:
  assumes inv: "like_inv pattern value st" and v: "at_v st < length value"
    and behind: "star st = Some i"
    and no: "\<not> glob (drop (at_p st) pattern) (drop (at_v st) value)"
  shows "like_inv pattern value (st\<lparr>retry := retry st + 1, at_v := retry st + 1, at_p := i + 1\<rparr>)"
proof -
  have i: "i < at_p st" "at_p st \<le> length pattern" "pattern ! i = star_char"
    "retry st \<le> at_v st"
    "glob pattern value =
       (retry st < length value \<and> glob (drop i pattern) (drop (Suc (retry st)) value))"
    using inv behind no by (auto simp: like_inv_def)
  have p: "i < length pattern" using i by simp
  have "glob pattern value = glob (drop i pattern) (drop (Suc (retry st)) value)"
    using i v by simp
  also have "\<dots> = (glob (drop (Suc i) pattern) (drop (Suc (retry st)) value) \<or>
      (Suc (retry st) < length value \<and> glob (drop i pattern) (drop (Suc (Suc (retry st))) value)))"
  proof (cases "Suc (retry st) < length value")
    case True
    then show ?thesis using i(3) by (simp add: drop_nth [OF p] drop_nth [OF True])
  next
    case False
    then show ?thesis using i(3) by (simp add: drop_nth [OF p])
  qed
  finally show ?thesis using i v behind p by (simp add: like_inv_def)
qed

lemma like_step_inv:
  assumes inv: "like_inv pattern value st"
  shows "like_inv_result pattern value (like_step pattern value st)"
proof (cases "at_v st < length value")
  case v: True
  let ?p = "at_p st"
  let ?match = "?p < length pattern \<and> (pattern ! ?p = question_char \<or>
      (pattern ! ?p \<noteq> star_char \<and> pattern ! ?p = value ! at_v st))"
  let ?star = "?p < length pattern \<and> pattern ! ?p = star_char"
  consider (match) ?match | (star) "\<not> ?match" ?star | (stuck) "\<not> ?match" "\<not> ?star" by blast
  then show ?thesis
  proof cases
    case match
    then show ?thesis using v like_inv_match [OF inv v]
      by (simp add: like_step_def like_inv_result_def Let_def)
  next
    case star
    then show ?thesis using v like_inv_star [OF inv v]
      by (simp add: like_step_def like_inv_result_def Let_def)
  next
    case stuck
    have no: "\<not> glob (drop ?p pattern) (drop (at_v st) value)"
    proof (cases "?p < length pattern")
      case True
      then show ?thesis using stuck by (auto simp: drop_nth [OF True] drop_nth [OF v])
    next
      case False
      then show ?thesis using v by simp
    qed
    show ?thesis
    proof (cases "star st")
      case None
      then show ?thesis using v stuck no inv
        by (auto simp: like_step_def like_inv_result_def like_inv_def Let_def)
    next
      case (Some i)
      then show ?thesis using v stuck like_inv_backtrack [OF inv v Some no]
        by (auto simp: like_step_def like_inv_result_def Let_def)
    qed
  qed
next
  case False
  then have v: "at_v st = length value" using inv by (simp add: like_inv_def)
  have "glob pattern value = glob (drop (at_p st) pattern) []"
  proof (cases "star st")
    case None
    then show ?thesis using inv v by (simp add: like_inv_def)
  next
    case (Some i)
    then show ?thesis using inv v moved_segment [OF inv Some]
      by (auto simp: like_inv_def)
  qed
  then show ?thesis using False by (simp add: like_step_def like_inv_result_def glob_Nil Let_def)
qed

text \<open>The loop ends: a new star, a later retry or a later value position, in that order.\<close>

definition lex3 :: "nat \<Rightarrow> nat \<Rightarrow> nat \<Rightarrow> nat \<Rightarrow> nat" where
  "lex3 n a b c = (a * Suc n + b) * Suc n + c"

definition like_measure :: "nat list \<Rightarrow> nat list \<Rightarrow> like_state + bool \<Rightarrow> nat" where
  "like_measure pattern value s =
     (case s of
        Inr b \<Rightarrow> 0
      | Inl st \<Rightarrow>
          Suc (lex3 (length value)
                 (length pattern - (case star st of None \<Rightarrow> 0 | Some i \<Rightarrow> Suc i))
                 (length value - retry st)
                 (length value - at_v st)))"

lemma lex3_last: "c' < c \<Longrightarrow> lex3 n a b c' < lex3 n a b c"
  by (simp add: lex3_def)

lemma lex3_middle:
  assumes "b' < b" and "c' \<le> n"
  shows "lex3 n a b' c' < lex3 n a b c"
proof -
  have "Suc (a * Suc n + b') * Suc n \<le> (a * Suc n + b) * Suc n"
    using assms(1) by (intro mult_le_mono1) simp
  moreover have "(a * Suc n + b') * Suc n + c' < Suc (a * Suc n + b') * Suc n"
    using assms(2) by simp
  ultimately show ?thesis unfolding lex3_def by linarith
qed

lemma lex3_first:
  assumes "a' < a" and "b' \<le> n" and "c' \<le> n"
  shows "lex3 n a' b' c' < lex3 n a b c"
proof -
  have "a' * Suc n + b' < Suc a' * Suc n" using assms(2) by simp
  also have "\<dots> \<le> a * Suc n" using assms(1) by (intro mult_le_mono1) simp
  finally have "Suc (a' * Suc n + b') \<le> a * Suc n + b" by simp
  then have "Suc (a' * Suc n + b') * Suc n \<le> (a * Suc n + b) * Suc n" by (rule mult_le_mono1)
  moreover have "(a' * Suc n + b') * Suc n + c' < Suc (a' * Suc n + b') * Suc n"
    using assms(3) by simp
  ultimately show ?thesis unfolding lex3_def by linarith
qed

lemma like_step_decreases:
  assumes inv: "like_inv pattern value st"
  shows "like_measure pattern value (like_step pattern value st) < like_measure pattern value (Inl st)"
proof -
  have starred: "(case star st of None \<Rightarrow> 0 | Some i \<Rightarrow> Suc i) < Suc (at_p st)"
    using inv by (auto simp: like_inv_def split: option.splits)
  have retried: "retry st \<le> at_v st" if "star st = Some i" for i
    using inv that by (auto simp: like_inv_def)
  have newstar: "length pattern - Suc (at_p st) <
      length pattern - (case star st of None \<Rightarrow> 0 | Some i \<Rightarrow> Suc i)" if "at_p st < length pattern"
    using starred that by linarith
  show ?thesis
    using newstar retried
    by (auto simp: like_step_def like_measure_def Let_def
        split: option.splits intro!: lex3_first lex3_middle lex3_last)
qed

lemma like_loop_total: "\<exists>b. like_loop pattern value = Some (Inr b)"
proof -
  have "\<exists>t. while_option isl (\<lambda>s. like_step pattern value (projl s)) (Inl like_init) = Some t"
  proof (rule measure_while_option_Some
      [where P = "like_inv_result pattern value" and f = "like_measure pattern value"])
    fix s assume "like_inv_result pattern value s" and "isl s"
    then obtain st where "s = Inl st" "like_inv pattern value st"
      by (cases s) (auto simp: like_inv_result_def)
    then show "like_inv_result pattern value (like_step pattern value (projl s)) \<and>
        like_measure pattern value (like_step pattern value (projl s)) < like_measure pattern value s"
      using like_step_inv like_step_decreases by simp
  next
    show "like_inv_result pattern value (Inl like_init)"
      by (simp add: like_inv_result_def like_inv_init)
  qed
  then obtain t where t: "like_loop pattern value = Some t" by (auto simp: like_loop_def)
  then have "\<not> isl t" using while_option_stop by (fastforce simp: like_loop_def)
  with t show ?thesis by (cases t) auto
qed

lemma like_loop_glob: "like_loop pattern value = Some (Inr (glob pattern value))"
proof -
  obtain b where b: "like_loop pattern value = Some (Inr b)" using like_loop_total by blast
  have "like_inv_result pattern value (Inr b)"
  proof (rule while_option_rule [where b = isl and
        c = "\<lambda>s. like_step pattern value (projl s)" and s = "Inl like_init"])
    fix s assume "like_inv_result pattern value s" and "isl s"
    then show "like_inv_result pattern value (like_step pattern value (projl s))"
      using like_step_inv by (cases s) (auto simp: like_inv_result_def)
  next
    show "like_inv_result pattern value (Inl like_init)"
      by (simp add: like_inv_result_def like_inv_init)
  next
    show "while_option isl (\<lambda>s. like_step pattern value (projl s)) (Inl like_init) = Some (Inr b)"
      using b by (simp add: like_loop_def)
  qed
  with b show ?thesis by (simp add: like_inv_result_def)
qed

section \<open>Matchers and policies\<close>

datatype id_token_claim_matcher =
    StringEquals string
  | StringIn "string list"
  | StringLike string
  | BooleanEquals bool
  | ArrayContainsAny "string list"
  | ArrayContainsAll "string list"
  | ArrayLikeAny string

type_synonym id_token_claim_set = "(string \<times> id_token_claim_matcher) list"

record id_token_policy =
  required :: "id_token_claim_set option"
  any_of :: "id_token_claim_set list option"

fun operator :: "id_token_claim_matcher \<Rightarrow> string" where
  "operator (StringEquals _) = ''stringEquals''"
| "operator (StringIn _) = ''stringIn''"
| "operator (StringLike _) = ''stringLike''"
| "operator (BooleanEquals _) = ''booleanEquals''"
| "operator (ArrayContainsAny _) = ''arrayContainsAny''"
| "operator (ArrayContainsAll _) = ''arrayContainsAll''"
| "operator (ArrayLikeAny _) = ''arrayLikeAny''"

fun value_list :: "id_token_claim_matcher \<Rightarrow> string list option" where
  "value_list (StringIn values) = Some values"
| "value_list (ArrayContainsAny values) = Some values"
| "value_list (ArrayContainsAll values) = Some values"
| "value_list _ = None"

definition validate_set :: "id_token_claim_set \<Rightarrow> string + unit" where
  "validate_set rules =
     (if rules = [] then Inl ''idTokenPolicy claim sets must not be empty''
      else try_each (\<lambda>(claim, matcher).
        if claim = [] then Inl ''idTokenPolicy must not contain an empty claim name''
        else (case value_list matcher of
                Some values \<Rightarrow>
                  if values = []
                  then Inl (''idTokenPolicy.'' @ operator matcher @ '' must not be empty'')
                  else Inr ()
              | None \<Rightarrow> Inr ())) rules)"

definition validate_policy :: "id_token_policy \<Rightarrow> string + unit" where
  "validate_policy policy =
     (if required policy = None \<and> any_of policy = None
      then Inl ''idTokenPolicy must contain required or anyOf''
      else bind_result (case required policy of None \<Rightarrow> Inr () | Some rules \<Rightarrow> validate_set rules) (\<lambda>_.
        case any_of policy of
          None \<Rightarrow> Inr ()
        | Some branches \<Rightarrow>
            if branches = [] then Inl ''idTokenPolicy.anyOf must not be empty''
            else try_each validate_set branches))"

text \<open>The elements of an array whose elements are all strings.\<close>

fun collect_strings :: "json list \<Rightarrow> string list option" where
  "collect_strings [] = Some []"
| "collect_strings (x # xs) =
     (case as_string x of
        None \<Rightarrow> None
      | Some s \<Rightarrow> map_option (\<lambda>ss. s # ss) (collect_strings xs))"

definition string_array :: "json \<Rightarrow> string list option" where
  "string_array value = (case as_array value of None \<Rightarrow> None | Some xs \<Rightarrow> collect_strings xs)"

text \<open>Whether the claim matches, and the reason that is logged.\<close>

definition reasoned :: "bool \<Rightarrow> bool \<times> string" where
  "reasoned matched = (matched, if matched then ''matched'' else ''value_mismatch'')"

definition evaluate_array :: "json \<Rightarrow> (string list \<Rightarrow> bool) \<Rightarrow> bool \<times> string" where
  "evaluate_array actual test =
     (case string_array actual of
        None \<Rightarrow> (False, ''wrong_type'')
      | Some elements \<Rightarrow> reasoned (elements \<noteq> [] \<and> test elements))"

definition evaluate_string :: "json \<Rightarrow> (string \<Rightarrow> bool) \<Rightarrow> bool \<times> string" where
  "evaluate_string actual test =
     (case as_string actual of None \<Rightarrow> (False, ''wrong_type'') | Some s \<Rightarrow> reasoned (test s))"

fun evaluate_matcher :: "id_token_claim_matcher \<Rightarrow> json option \<Rightarrow> bool \<times> string" where
  "evaluate_matcher m None = (False, ''missing_claim'')"
| "evaluate_matcher (BooleanEquals value) (Some actual) =
     (case as_bool actual of None \<Rightarrow> (False, ''wrong_type'') | Some b \<Rightarrow> reasoned (b = value))"
| "evaluate_matcher (ArrayContainsAny values) (Some actual) =
     evaluate_array actual (\<lambda>elements. \<exists>element\<in>set elements. \<exists>value\<in>set values. value = element)"
| "evaluate_matcher (ArrayContainsAll values) (Some actual) =
     evaluate_array actual (\<lambda>elements. \<forall>value\<in>set values. \<exists>element\<in>set elements. element = value)"
| "evaluate_matcher (ArrayLikeAny pattern) (Some actual) =
     evaluate_array actual (\<lambda>elements. \<exists>element\<in>set elements. string_like pattern element)"
| "evaluate_matcher (StringEquals value) (Some actual) = evaluate_string actual (\<lambda>s. s = value)"
| "evaluate_matcher (StringIn values) (Some actual) =
     evaluate_string actual (\<lambda>s. \<exists>value\<in>set values. value = s)"
| "evaluate_matcher (StringLike pattern) (Some actual) =
     evaluate_string actual (string_like pattern)"

text \<open>Every rule is evaluated, also after a mismatch, as the loops of the source do.\<close>

definition evaluate_set :: "id_token_claim_set \<Rightarrow> json \<Rightarrow> bool" where
  "evaluate_set rules claims =
     foldl (\<lambda>accepted (claim, matcher).
       let (matched, reason) = evaluate_matcher matcher (json_get claims claim)
       in accepted \<and> matched) True rules"

definition evaluate_policy :: "id_token_policy \<Rightarrow> json \<Rightarrow> bool" where
  "evaluate_policy policy claims =
     (let req = (case required policy of None \<Rightarrow> True | Some rules \<Rightarrow> evaluate_set rules claims);
          anyof = (case any_of policy of
                     None \<Rightarrow> True
                   | Some branches \<Rightarrow>
                       foldl (\<lambda>accepted rules. let matched = evaluate_set rules claims
                                               in accepted \<or> matched) False branches)
      in req \<and> anyof)"

section \<open>What a policy means\<close>

fun satisfies :: "id_token_claim_matcher \<Rightarrow> json \<Rightarrow> bool" where
  "satisfies (StringEquals v) c \<longleftrightarrow> c = JString v"
| "satisfies (StringIn vs) c \<longleftrightarrow> (\<exists>s\<in>set vs. c = JString s)"
| "satisfies (StringLike p) c \<longleftrightarrow> (\<exists>s. c = JString s \<and> glob (chars p) (chars s))"
| "satisfies (BooleanEquals b) c \<longleftrightarrow> c = JBool b"
| "satisfies (ArrayContainsAny vs) c \<longleftrightarrow>
     (\<exists>ss. c = JArray (map JString ss) \<and> set ss \<inter> set vs \<noteq> {})"
| "satisfies (ArrayContainsAll vs) c \<longleftrightarrow>
     (\<exists>ss. c = JArray (map JString ss) \<and> ss \<noteq> [] \<and> set vs \<subseteq> set ss)"
| "satisfies (ArrayLikeAny p) c \<longleftrightarrow>
     (\<exists>ss. c = JArray (map JString ss) \<and> (\<exists>s\<in>set ss. glob (chars p) (chars s)))"

definition set_satisfied :: "id_token_claim_set \<Rightarrow> json \<Rightarrow> bool" where
  "set_satisfied rules claims \<longleftrightarrow>
     (\<forall>(claim, m)\<in>set rules. \<exists>c. json_get claims claim = Some c \<and> satisfies m c)"

lemma string_like_glob: "string_like pattern value = glob (chars pattern) (chars value)"
  by (simp add: string_like_def like_loop_glob)

lemma as_string_Some: "as_string v = Some s \<longleftrightarrow> v = JString s"
  by (cases v) auto

lemma as_bool_Some: "as_bool v = Some b \<longleftrightarrow> v = JBool b"
  by (cases v) auto

lemma collect_strings_Some: "collect_strings xs = Some ss \<longleftrightarrow> xs = map JString ss"
  by (induction xs arbitrary: ss) (auto simp: as_string_Some split: option.splits)

lemma string_array_Some: "string_array v = Some ss \<longleftrightarrow> v = JArray (map JString ss)"
  by (cases v) (auto simp: string_array_def collect_strings_Some)

lemma evaluate_array_True:
  "fst (evaluate_array v test) \<longleftrightarrow> (\<exists>ss. v = JArray (map JString ss) \<and> ss \<noteq> [] \<and> test ss)"
proof (cases "string_array v")
  case None
  then have "\<not> (\<exists>ss. v = JArray (map JString ss))" by (metis option.distinct(1) string_array_Some)
  with None show ?thesis by (auto simp: evaluate_array_def)
next
  case (Some ss)
  then have v: "v = JArray (map JString ss)" by (simp add: string_array_Some)
  have "map JString ss = map JString ss' \<longleftrightarrow> ss' = ss" for ss'
    by (auto simp: inj_map_eq_map inj_def)
  with Some v show ?thesis by (simp add: evaluate_array_def reasoned_def)
qed

lemma evaluate_string_True:
  "fst (evaluate_string v test) \<longleftrightarrow> (\<exists>s. v = JString s \<and> test s)"
  by (cases v) (auto simp: evaluate_string_def reasoned_def)

lemma evaluate_matcher_satisfies:
  "fst (evaluate_matcher m actual) \<longleftrightarrow> (\<exists>c. actual = Some c \<and> satisfies m c)"
proof (cases actual)
  case None
  then show ?thesis by simp
next
  case (Some c)
  then show ?thesis
  proof (cases m)
    case (BooleanEquals b)
    with Some show ?thesis by (cases c) (auto simp: reasoned_def)
  qed (auto simp: evaluate_string_True evaluate_array_True string_like_glob)
qed

lemma evaluate_set_satisfied: "evaluate_set rules claims \<longleftrightarrow> set_satisfied rules claims"
proof -
  have "foldl (\<lambda>accepted (claim, matcher).
       let (matched, reason) = evaluate_matcher matcher (json_get claims claim)
       in accepted \<and> matched) acc rules \<longleftrightarrow> acc \<and> set_satisfied rules claims" for acc
    by (induction rules arbitrary: acc)
      (auto simp: set_satisfied_def case_prod_unfold Let_def evaluate_matcher_satisfies)
  then show ?thesis by (simp add: evaluate_set_def)
qed

lemma evaluate_branches:
  "foldl (\<lambda>accepted rules. let matched = evaluate_set rules claims in accepted \<or> matched) acc branches
     \<longleftrightarrow> acc \<or> (\<exists>rules\<in>set branches. set_satisfied rules claims)"
  by (induction branches arbitrary: acc) (auto simp: evaluate_set_satisfied)

lemma validate_set_nonempty: "is_ok (validate_set rules) \<Longrightarrow> rules \<noteq> []"
  by (auto simp: validate_set_def)

lemma satisfied_needs_claim: "set_satisfied rules (JObject []) \<Longrightarrow> rules = []"
  by (cases rules) (auto simp: set_satisfied_def)

end
