(* ===== verification/Model.thy ===== *)
theory Model
  imports Id_Token_Policy
begin

text \<open>
  The resources of \<open>oauthrelay-core/src/model.rs\<close>: resource keys, upstreams, relays, and the
  redirect matchers with the checks that decide which application redirects and browser
  origins a relay accepts. A \<open>ResourceKey\<close> and a \<open>SecretString\<close> are their strings, an
  \<open>Origin\<close> is its parsed URL; functions that call \<open>Url::parse\<close> or \<open>Ipv6Addr::from_str\<close> take
  the library record.
\<close>

section \<open>Resource keys\<close>

definition key_byte :: "char \<Rightarrow> bool" where
  "key_byte b \<longleftrightarrow> is_ascii_alphanumeric b \<or> b \<in> {CHR ''-'', CHR ''_'', CHR ''.''}"

definition resource_key_new :: "string \<Rightarrow> string + string" where
  "resource_key_new value =
     (if value = [] \<or> starts_with ''/'' value \<or> ends_with ''/'' value \<or>
         (\<exists>part\<in>set (split_on (CHR ''/'') value).
            part = [] \<or> part = ''.'' \<or> part = ''..'' \<or> \<not> (\<forall>b\<in>set part. key_byte b))
      then Inl ''must contain non-empty URL-safe path segments other than `.` and `..`''
      else Inr value)"

definition key_segment :: "string \<Rightarrow> bool" where
  "key_segment part \<longleftrightarrow>
     part \<noteq> [] \<and> part \<noteq> ''.'' \<and> part \<noteq> ''..'' \<and> (\<forall>b\<in>set part. key_byte b)"

lemma key_byte_not_slash: "\<not> key_byte (CHR ''/'')"
  by (simp add: key_byte_def)

lemma key_segment_no_slash: "key_segment part \<Longrightarrow> CHR ''/'' \<notin> set part"
  using key_byte_not_slash by (auto simp: key_segment_def)

text \<open>A key is exactly a non-empty list of segments joined by slashes.\<close>

lemma resource_key_segments:
  "resource_key_new value = Inr key \<longleftrightarrow>
     key = value \<and> (\<forall>part\<in>set (split_on (CHR ''/'') value). key_segment part)"
proof -
  have first: "starts_with ''/'' value \<Longrightarrow> [] \<in> set (split_on (CHR ''/'') value)"
    by (auto simp: starts_with_iff)
  have "ends_with ''/'' value \<Longrightarrow> \<exists>a. value = a @ ''/''"
    by (auto simp: ends_with_def) (metis append_take_drop_id)
  moreover have "[] \<in> set (split_on (CHR ''/'') (a @ ''/''))" for a
    by (simp add: split_on_append)
  ultimately have last: "ends_with ''/'' value \<Longrightarrow> [] \<in> set (split_on (CHR ''/'') value)"
    by auto
  show ?thesis
    using first last by (auto simp: resource_key_new_def key_segment_def)
qed

section \<open>Resources\<close>

datatype token_endpoint_auth_method = ClientSecretPost | ClientSecretBasic

record upstream =
  u_key :: string
  issuer_url :: url
  authorization_endpoint :: "url option"
  token_endpoint :: "url option"
  jwks_uri :: "url option"
  client_id :: string
  client_secret :: string
  token_endpoint_auth_method :: token_endpoint_auth_method

datatype refresh_token_mode = Passthrough | Sealed | Rotating

record refresh_tokens =
  mode :: refresh_token_mode
  grace_period_seconds :: nat
  max_lifetime_seconds :: nat

record redirect_options =
  allow_localhost_loopback :: bool
  allow_http_origins :: bool

datatype redirect_matcher =
    Uri string
  | Origin url
  | Loopback string
  | LoopbackOrigin url

datatype client_jwks = JwksUrl url | JwksInline json

datatype client_auth =
    UpstreamClient
  | Public
  | ClientSecret string string
  | PrivateKeyJwt bool string "string option" "string option" "string option" "client_jwks option"

record relay =
  r_key :: string
  r_upstream :: string
  generation :: "string option"
  client_auth :: client_auth
  scopes :: "string list"
  allowed_scopes :: "string list option"
  required_id_token_claims :: "(string \<times> string) list"
  id_token_policy :: "id_token_policy option"
  refresh_tokens :: refresh_tokens
  redirect_policy :: "redirect_matcher list"

definition DEFAULT_GRACE_PERIOD_SECONDS :: nat where "DEFAULT_GRACE_PERIOD_SECONDS = 30"
definition MAX_GRACE_PERIOD_SECONDS :: nat where "MAX_GRACE_PERIOD_SECONDS = 5 * 60"
definition DEFAULT_MAX_LIFETIME_SECONDS :: nat where
  "DEFAULT_MAX_LIFETIME_SECONDS = 30 * 24 * 60 * 60"
definition MAX_MAX_LIFETIME_SECONDS :: nat where
  "MAX_MAX_LIFETIME_SECONDS = 10 * 365 * 24 * 60 * 60"

definition refresh_tokens_default :: refresh_tokens where
  "refresh_tokens_default =
     \<lparr>mode = Passthrough, grace_period_seconds = DEFAULT_GRACE_PERIOD_SECONDS,
      max_lifetime_seconds = DEFAULT_MAX_LIFETIME_SECONDS\<rparr>"

definition refresh_tokens_validate :: "refresh_tokens \<Rightarrow> string + unit" where
  "refresh_tokens_validate rt =
     (if \<not> (1 \<le> grace_period_seconds rt \<and> grace_period_seconds rt \<le> MAX_GRACE_PERIOD_SECONDS)
      then Inl ''refresh_tokens.grace_period_seconds must be between 1 and 300''
      else if max_lifetime_seconds rt < grace_period_seconds rt \<or>
              MAX_MAX_LIFETIME_SECONDS < max_lifetime_seconds rt
      then Inl ''refresh_tokens.max_lifetime_seconds must be between grace_period_seconds and 315360000''
      else Inr ())"

section \<open>Raw URIs and hosts\<close>

definition validate_raw_uri :: "string \<Rightarrow> string + unit" where
  "validate_raw_uri value =
     (if \<not> (\<forall>b\<in>set value. is_ascii b) \<or>
         (\<exists>b\<in>set value. is_ascii_whitespace b \<or> b = CHR 0x5C)
      then Inl ''must use an ASCII URI without whitespace or backslashes''
      else Inr ())"

definition is_ip_loopback :: "url \<Rightarrow> bool" where
  "is_ip_loopback u =
     (case host_of u of
        Some (Ipv4 address) \<Rightarrow> address = ipv4_localhost
      | Some (Ipv6 address) \<Rightarrow> ipv6_is_loopback address
      | _ \<Rightarrow> False)"

definition valid_redirect_url :: "url \<Rightarrow> bool" where
  "valid_redirect_url u \<longleftrightarrow>
     scheme u \<in> {''http'', ''https''} \<and> host_of u \<noteq> None \<and> fragment u = None \<and>
     username u = [] \<and> password u = None"

definition valid_origin_url :: "url \<Rightarrow> bool" where
  "valid_origin_url u \<longleftrightarrow> valid_redirect_url u \<and> path_of u = ''/'' \<and> query u = None"

definition valid_discovery_url :: "url \<Rightarrow> bool" where
  "valid_discovery_url u \<longleftrightarrow>
     (scheme u = ''https'' \<or> (scheme u = ''http'' \<and> is_ip_loopback u)) \<and>
     host_str u \<noteq> None \<and> username u = [] \<and> password u = None \<and> query u = None \<and> fragment u = None"

text \<open>The raw authority between \<open>://\<close> and the first slash, question mark or hash: host and port.\<close>

definition raw_authority :: "string \<Rightarrow> (string \<times> string option) option" where
  "raw_authority raw =
     (case split_once ''://'' raw of
        None \<Rightarrow> None
      | Some (_, rest) \<Rightarrow>
          let authority = takeWhile (\<lambda>c. c \<notin> {CHR ''/'', CHR ''?'', CHR ''#''}) rest in
          if starts_with ''['' authority then
            if CHR '']'' \<notin> set authority then None
            else let host = takeWhile (\<lambda>c. c \<noteq> CHR '']'') authority @ '']'';
                     tail = drop (length host) authority
                 in if tail = [] then Some (host, None)
                    else (case strip_prefix '':'' tail of
                            None \<Rightarrow> None
                          | Some prt \<Rightarrow> Some (host, Some prt))
          else (case rsplit_once (CHR '':'') authority of
                  Some (host, prt) \<Rightarrow> Some (host, Some prt)
                | None \<Rightarrow> Some (authority, None)))"

definition raw_path_and_query :: "string \<Rightarrow> string option" where
  "raw_path_and_query value =
     (case split_once ''://'' value of
        None \<Rightarrow> None
      | Some (_, authority) \<Rightarrow> Some (dropWhile (\<lambda>c. c \<notin> {CHR ''/'', CHR ''?''}) authority))"

text \<open>\<open>str::parse::<u16>()\<close> of a non-empty string of digits.\<close>

definition parse_u16 :: "string \<Rightarrow> nat option" where
  "parse_u16 s =
     (let n = foldl (\<lambda>acc c. acc * 10 + (byte_value c - 48)) 0 s
      in if n \<le> 65535 then Some n else None)"

definition canonical_authority :: "'z libs_scheme \<Rightarrow> string \<Rightarrow> url \<Rightarrow> bool" where
  "canonical_authority L raw u =
     (case split_once ''://'' raw of
        None \<Rightarrow> False
      | Some (sch, _) \<Rightarrow>
          (case raw_authority raw of
             None \<Rightarrow> False
           | Some (host, prt) \<Rightarrow>
               let host_matches =
                     (case host_of u of
                        Some (Ipv6 address) \<Rightarrow>
                          Option.bind (Option.bind (strip_prefix ''['' host) (strip_suffix '']''))
                            (ipv6_parse L) = Some address
                      | Some _ \<Rightarrow>
                          (case host_str u of
                             None \<Rightarrow> False
                           | Some parsed \<Rightarrow> eq_ignore_ascii_case host parsed)
                      | None \<Rightarrow> False);
                   port_matches =
                     (case prt of
                        None \<Rightarrow> url.port u = None
                      | Some p \<Rightarrow>
                          p \<noteq> [] \<and> (\<forall>b\<in>set p. is_ascii_digit b) \<and>
                          (p = ''0'' \<or> \<not> starts_with ''0'' p) \<and>
                          parse_u16 p = port_or_known_default u)
               in eq_ignore_ascii_case sch (scheme u) \<and> host_matches \<and> port_matches))"

definition is_localhost_name :: "string \<Rightarrow> bool" where
  "is_localhost_name d =
     (let domain = lowercase d in
      domain = ''localhost'' \<or>
      (length domain \<le> 253 \<and>
       (case strip_suffix ''.localhost'' domain of
          None \<Rightarrow> False
        | Some labels \<Rightarrow>
            labels \<noteq> [] \<and>
            (\<forall>label\<in>set (split_on (CHR ''.'') labels).
               1 \<le> length label \<and> length label \<le> 63 \<and>
               (\<forall>b\<in>set label. is_ascii_alphanumeric b \<or> b = CHR ''-'') \<and>
               \<not> starts_with ''-'' label \<and> \<not> ends_with ''-'' label))))"

definition loopback_host_matches :: "url \<Rightarrow> url \<Rightarrow> bool \<Rightarrow> bool" where
  "loopback_host_matches base candidate allow_localhost \<longleftrightarrow>
     host_of base = host_of candidate \<or>
     (allow_localhost \<and>
      (case host_of candidate of Some (Domain domain) \<Rightarrow> is_localhost_name domain | _ \<Rightarrow> False))"

definition same_origin :: "url \<Rightarrow> url \<Rightarrow> bool" where
  "same_origin a b \<longleftrightarrow>
     scheme a = scheme b \<and>
     map_option (\<lambda>h. lowercase (trim_end_matches (CHR ''.'') h)) (host_str a) =
     map_option (\<lambda>h. lowercase (trim_end_matches (CHR ''.'') h)) (host_str b) \<and>
     port_or_known_default a = port_or_known_default b"

section \<open>Redirect matchers\<close>

definition origin_parse :: "'z libs_scheme \<Rightarrow> string \<Rightarrow> string + url" where
  "origin_parse L value =
     bind_result (ok_or ''invalid URL'' (url_parse L value)) (\<lambda>u.
       if scheme u \<notin> {''http'', ''https''} \<or> host_str u = None
       then Inl ''must be an http(s) origin''
       else if path_of u \<noteq> ''/'' \<or> query u \<noteq> None \<or> fragment u \<noteq> None
       then Inl ''must contain only scheme, host, and optional port''
       else if username u \<noteq> [] \<or> password u \<noteq> None
       then Inl ''must not contain user information''
       else Inr u)"

definition validate_exact_uri :: "'z libs_scheme \<Rightarrow> string \<Rightarrow> string + unit" where
  "validate_exact_uri L value =
     bind_result (validate_raw_uri value) (\<lambda>_.
     bind_result (ok_or ''invalid URL'' (url_parse L value)) (\<lambda>u.
       if \<not> valid_redirect_url u
       then Inl ''must be an absolute redirect URI without user information or fragment''
       else if scheme u = ''https'' \<or> (scheme u = ''http'' \<and> is_ip_loopback u)
       then Inr ()
       else Inl ''must use https unless it targets an IP-literal loopback host''))"

definition validate_loopback_base :: "url \<Rightarrow> string + unit" where
  "validate_loopback_base u =
     (if scheme u \<noteq> ''http'' \<or> \<not> is_ip_loopback u \<or> url.port u \<noteq> None \<or> fragment u \<noteq> None \<or>
         username u \<noteq> [] \<or> password u \<noteq> None
      then Inl ''must be an http URI on 127.0.0.1 or ::1 without a port, user information, or fragment''
      else Inr ())"

definition validate_loopback_uri :: "'z libs_scheme \<Rightarrow> string \<Rightarrow> string + unit" where
  "validate_loopback_uri L value =
     bind_result (validate_raw_uri value) (\<lambda>_.
     bind_result (ok_or ''invalid URL'' (url_parse L value)) validate_loopback_base)"

definition validate_loopback_origin :: "url \<Rightarrow> string + unit" where
  "validate_loopback_origin origin =
     bind_result (validate_loopback_base origin) (\<lambda>_.
       if path_of origin \<noteq> ''/'' \<or> query origin \<noteq> None
       then Inl ''loopback origin must not contain a path or query'' else Inr ())"

definition origin_permitted :: "url \<Rightarrow> redirect_options \<Rightarrow> bool" where
  "origin_permitted origin options =
     (if scheme origin = ''https'' then True
      else if scheme origin = ''http'' then allow_http_origins options
      else False)"

definition matcher_uri :: "'z libs_scheme \<Rightarrow> string \<Rightarrow> string + redirect_matcher" where
  "matcher_uri L value = bind_result (validate_exact_uri L value) (\<lambda>_. Inr (Uri value))"

definition matcher_origin :: "'z libs_scheme \<Rightarrow> string \<Rightarrow> string + redirect_matcher" where
  "matcher_origin L value =
     bind_result (origin_parse L value) (\<lambda>origin.
       if scheme origin \<noteq> ''https'' then Inl ''must use https'' else Inr (Origin origin))"

definition matcher_http_origin :: "'z libs_scheme \<Rightarrow> string \<Rightarrow> string + redirect_matcher" where
  "matcher_http_origin L value =
     bind_result (validate_raw_uri value) (\<lambda>_.
     bind_result (origin_parse L value) (\<lambda>origin.
       if scheme origin \<noteq> ''http'' then Inl ''must use http''
       else if raw_path_and_query value \<notin> {Some '''', Some ''/''} \<or>
               \<not> canonical_authority L value origin
       then Inl ''must be spelled canonically as http://host or http://host:port, without a path''
       else Inr (Origin origin)))"

definition matcher_loopback :: "'z libs_scheme \<Rightarrow> string \<Rightarrow> string + redirect_matcher" where
  "matcher_loopback L value =
     bind_result (validate_loopback_uri L value) (\<lambda>_. Inr (Loopback value))"

definition matcher_loopback_origin :: "'z libs_scheme \<Rightarrow> string \<Rightarrow> string + redirect_matcher" where
  "matcher_loopback_origin L value =
     (let err = ''must be http://127.0.0.1 or http://[::1] without a port, path, query, user information, or fragment''
      in bind_result (validate_raw_uri value) (\<lambda>_.
         if raw_path_and_query value \<notin> {Some '''', Some ''/''} then Inl err
         else (case origin_parse L value of
                 Inl _ \<Rightarrow> Inl err
               | Inr origin \<Rightarrow>
                   if \<not> is_ok (validate_loopback_origin origin) then Inl err
                   else if \<not> canonical_authority L value origin \<or>
                           (case raw_authority value of None \<Rightarrow> True | Some (_, prt) \<Rightarrow> prt \<noteq> None)
                   then Inl err
                   else Inr (LoopbackOrigin origin))))"

fun matcher_identity :: "redirect_matcher \<Rightarrow> string" where
  "matcher_identity (Uri value) = ''uri'' @ [CHR 0x00] @ value"
| "matcher_identity (Origin value) = ''origin'' @ [CHR 0x00] @ as_str value"
| "matcher_identity (Loopback value) = ''loopback'' @ [CHR 0x00] @ value"
| "matcher_identity (LoopbackOrigin value) = ''loopback_origin'' @ [CHR 0x00] @ as_str value"

fun redirect_matches ::
    "'z libs_scheme \<Rightarrow> redirect_options \<Rightarrow> string \<Rightarrow> url \<Rightarrow> redirect_matcher \<Rightarrow> bool" where
  "redirect_matches L options redirect u (Uri value) \<longleftrightarrow>
     is_ok (validate_exact_uri L value) \<and> value = redirect"
| "redirect_matches L options redirect u (Origin origin) \<longleftrightarrow>
     origin_permitted origin options \<and> same_origin origin u \<and>
     (scheme u = ''https'' \<or> canonical_authority L redirect u)"
| "redirect_matches L options redirect u (Loopback value) =
     (case url_parse L value of
        None \<Rightarrow> False
      | Some base \<Rightarrow>
          is_ok (validate_loopback_uri L value) \<and> scheme u = ''http'' \<and>
          loopback_host_matches base u (allow_localhost_loopback options) \<and>
          canonical_authority L redirect u \<and>
          (case raw_path_and_query value of
             None \<Rightarrow> False
           | Some tail \<Rightarrow> raw_path_and_query redirect = Some tail))"
| "redirect_matches L options redirect u (LoopbackOrigin base) \<longleftrightarrow>
     is_ok (validate_loopback_origin base) \<and> scheme u = ''http'' \<and>
     loopback_host_matches base u (allow_localhost_loopback options) \<and>
     canonical_authority L redirect u"

definition redirect_allowed ::
    "'z libs_scheme \<Rightarrow> relay \<Rightarrow> string \<Rightarrow> redirect_options \<Rightarrow> bool" where
  "redirect_allowed L r redirect options =
     (if \<not> is_ok (validate_raw_uri redirect) then False
      else (case url_parse L redirect of
              None \<Rightarrow> False
            | Some u \<Rightarrow>
                if \<not> valid_redirect_url u then False
                else (\<exists>m\<in>set (redirect_policy r). redirect_matches L options redirect u m)))"

fun cors_matches ::
    "'z libs_scheme \<Rightarrow> redirect_options \<Rightarrow> url \<Rightarrow> redirect_matcher \<Rightarrow> bool" where
  "cors_matches L options origin (Uri value) \<longleftrightarrow>
     is_ok (validate_exact_uri L value) \<and>
     (case url_parse L value of None \<Rightarrow> False | Some redirect \<Rightarrow> same_origin redirect origin)"
| "cors_matches L options origin (Origin allowed) \<longleftrightarrow>
     origin_permitted allowed options \<and> same_origin allowed origin"
| "cors_matches L options origin (Loopback value) =
     (case url_parse L value of
        None \<Rightarrow> False
      | Some base \<Rightarrow>
          is_ok (validate_loopback_uri L value) \<and> scheme origin = ''http'' \<and>
          loopback_host_matches base origin (allow_localhost_loopback options))"
| "cors_matches L options origin (LoopbackOrigin base) \<longleftrightarrow>
     is_ok (validate_loopback_origin base) \<and> scheme origin = ''http'' \<and>
     loopback_host_matches base origin (allow_localhost_loopback options)"

definition cors_origin_allowed ::
    "'z libs_scheme \<Rightarrow> relay \<Rightarrow> url \<Rightarrow> redirect_options \<Rightarrow> bool" where
  "cors_origin_allowed L r origin options =
     (if \<not> valid_origin_url origin then False
      else (\<exists>m\<in>set (redirect_policy r). cors_matches L options origin m))"

section \<open>Validation of resources\<close>

definition valid_scope_token :: "string \<Rightarrow> bool" where
  "valid_scope_token s \<longleftrightarrow>
     s \<noteq> [] \<and>
     (\<forall>c\<in>set s. let b = byte_value c in
        b = 33 \<or> (35 \<le> b \<and> b \<le> 91) \<or> (93 \<le> b \<and> b \<le> 126))"

text \<open>The configured endpoints in the order \<open>Upstream::validate\<close> visits them.\<close>

definition upstream_urls :: "upstream \<Rightarrow> (string \<times> url) list" where
  "upstream_urls u =
     (''issuer_url'', issuer_url u) #
     (case authorization_endpoint u of None \<Rightarrow> [] | Some x \<Rightarrow> [(''authorization_endpoint'', x)]) @
     (case token_endpoint u of None \<Rightarrow> [] | Some x \<Rightarrow> [(''token_endpoint'', x)]) @
     (case jwks_uri u of None \<Rightarrow> [] | Some x \<Rightarrow> [(''jwks_uri'', x)])"

definition absolute_http :: "url \<Rightarrow> bool" where
  "absolute_http u \<longleftrightarrow> scheme u \<in> {''http'', ''https''} \<and> host_str u \<noteq> None"

definition upstream_validate :: "upstream \<Rightarrow> string + unit" where
  "upstream_validate u =
     bind_result (try_each (\<lambda>(field, x).
        when_err (\<not> absolute_http x) (field @ '' must be an absolute http(s) URL'')) (upstream_urls u)) (\<lambda>_.
       if client_id u = [] then Inl ''client_id must not be empty''
       else if client_secret u = [] then Inl ''client_secret must not be empty''
       else Inr ())"

fun validate_matcher :: "'z libs_scheme \<Rightarrow> redirect_matcher \<Rightarrow> string + unit" where
  "validate_matcher L (Uri value) = validate_exact_uri L value"
| "validate_matcher L (Origin _) = Inr ()"
| "validate_matcher L (Loopback value) = validate_loopback_uri L value"
| "validate_matcher L (LoopbackOrigin value) = validate_loopback_origin value"

definition validate_scopes :: "relay \<Rightarrow> string + unit" where
  "validate_scopes r =
     bind_result (scan_unique
        (\<lambda>s. when_err (\<not> valid_scope_token s) ''scopes.default must contain valid RFC 6749 scope tokens'')
        (\<lambda>s. s) ''scopes.default must not contain duplicates'' [] (scopes r)) (\<lambda>configured.
      case allowed_scopes r of
        None \<Rightarrow> Inr ()
      | Some allowed \<Rightarrow>
          bind_result (scan_unique
            (\<lambda>s. when_err (\<not> valid_scope_token s) ''scopes.allowed must contain valid RFC 6749 scope tokens'')
            (\<lambda>s. s) ''scopes.allowed must not contain duplicates'' [] allowed) (\<lambda>allowed_set.
          if \<not> set configured \<subseteq> set allowed_set
          then Inl ''scopes.default must be contained in scopes.allowed'' else Inr ()))"

definition validate_redirects :: "'z libs_scheme \<Rightarrow> relay \<Rightarrow> string + unit" where
  "validate_redirects L r =
     (if redirect_policy r = [] then Inl ''redirect_policy must contain at least one matcher''
      else bind_result (scan_unique (validate_matcher L) matcher_identity
             ''redirect_policy must not contain duplicates'' [] (redirect_policy r)) (\<lambda>_. Inr ()))"

fun validate_client_auth :: "'z libs_scheme \<Rightarrow> client_auth \<Rightarrow> string + unit" where
  "validate_client_auth L UpstreamClient = Inr ()"
| "validate_client_auth L Public = Inr ()"
| "validate_client_auth L (ClientSecret cid secret) =
     (if cid = [] \<or> secret = [] then Inl ''clientAuthentication credentials must not be empty'' else Inr ())"
| "validate_client_auth L (PrivateKeyJwt single cid issuer subject audience jwks) =
     (if cid = [] then Inl ''clientAuthentication.clientId must not be empty''
      else bind_result (case issuer of
              None \<Rightarrow> Inr ()
            | Some iss \<Rightarrow>
                bind_result (ok_or ''clientAuthentication.issuer must be an absolute HTTPS URL'' (url_parse L iss)) (\<lambda>u.
                  when_err (\<not> valid_discovery_url u)
                    ''clientAuthentication.issuer must use HTTPS (HTTP on loopback) without user information, query, or fragment'')) (\<lambda>_.
        if subject = Some [] then Inl ''clientAuthentication.subject must not be empty''
        else if audience = Some [] then Inl ''clientAuthentication.audience must not be empty''
        else (case jwks of
                None \<Rightarrow>
                  if issuer = None then Inl ''clientAuthentication requires jwks or issuer discovery''
                  else Inr ()
              | Some (JwksUrl u) \<Rightarrow>
                  if \<not> absolute_http u
                  then Inl ''clientAuthentication.jwks must be an absolute http(s) URL'' else Inr ()
              | Some (JwksInline value) \<Rightarrow>
                  if \<not> (case Option.bind (json_get value ''keys'') as_array of
                          None \<Rightarrow> False | Some keys \<Rightarrow> keys \<noteq> [])
                  then Inl ''clientAuthentication.jwks must contain a non-empty keys array''
                  else Inr ())))"

definition public_needs_rotating :: string where
  "public_needs_rotating = 
     ''clientAuthentication.type: Public requires refreshTokens.mode: rotating, '' @
     ''because a public client's refresh tokens must be rotated; set refreshTokens.mode '' @
     ''to rotating, or authenticate the relying party with ClientSecret, UpstreamClient '' @
     ''or PrivateKeyJwt. rotating needs a transient store shared by every serving '' @
     ''instance (OAUTHRELAY_STORE, e.g. dynamodb or kubernetes); the default memory '' @
     ''store only suits a single instance''"

definition relay_validate :: "'z libs_scheme \<Rightarrow> relay \<Rightarrow> string + unit" where
  "relay_validate L r =
     (if \<exists>(claim, v)\<in>set (required_id_token_claims r). claim = []
      then Inl ''required_id_token_claims must not contain an empty claim name''
      else
        bind_result (case id_token_policy r of None \<Rightarrow> Inr () | Some policy \<Rightarrow> validate_policy policy) (\<lambda>_.
        bind_result (refresh_tokens_validate (refresh_tokens r)) (\<lambda>_.
        if client_auth r = Public \<and> mode (refresh_tokens r) \<noteq> Rotating then Inl public_needs_rotating
        else
          bind_result (validate_scopes r) (\<lambda>_.
          bind_result (validate_redirects L r) (\<lambda>_.
          validate_client_auth L (client_auth r))))))"

definition relay_validate_for :: "'z libs_scheme \<Rightarrow> relay \<Rightarrow> redirect_options \<Rightarrow> string + unit" where
  "relay_validate_for L r options =
     bind_result (relay_validate L r) (\<lambda>_.
       if \<not> allow_http_origins options \<and>
          (\<exists>m\<in>set (redirect_policy r). case m of Origin origin \<Rightarrow> scheme origin \<noteq> ''https'' | _ \<Rightarrow> False)
       then Inl ''redirect_policy origin uses http, which requires allow_http_origins (OAUTHRELAY_ALLOW_HTTP_ORIGINS)''
       else Inr ())"

section \<open>What the checks establish\<close>

lemma loopback_base_ok:
  "is_ok (validate_loopback_base u) \<Longrightarrow> scheme u = ''http'' \<and> is_ip_loopback u"
  by (auto simp: validate_loopback_base_def split: if_splits)

lemma loopback_uri_ok:
  "is_ok (validate_loopback_uri L value) \<Longrightarrow> url_parse L value = Some base \<Longrightarrow>
     is_ip_loopback base"
  using loopback_base_ok [of base]
  by (auto simp: validate_loopback_uri_def is_ok_iff bind_result_Inr_iff)

lemma loopback_origin_ok: "is_ok (validate_loopback_origin u) \<Longrightarrow> is_ip_loopback u"
  using loopback_base_ok [of u]
  by (auto simp: validate_loopback_origin_def is_ok_iff bind_result_Inr_iff)

lemma loopback_host_strict:
  "loopback_host_matches base u False \<Longrightarrow> is_ip_loopback base \<Longrightarrow> is_ip_loopback u"
  by (simp add: loopback_host_matches_def is_ip_loopback_def)

lemma exact_uri_ok:
  "is_ok (validate_exact_uri L value) \<Longrightarrow> url_parse L value = Some u \<Longrightarrow>
     scheme u = ''https'' \<or> scheme u = ''http'' \<and> is_ip_loopback u"
  by (auto simp: validate_exact_uri_def is_ok_iff bind_result_Inr_iff split: if_splits)

text \<open>A redirect that some matcher admits, in every combination of the development options.\<close>

definition redirect_target_ok :: "redirect_options \<Rightarrow> url \<Rightarrow> bool" where
  "redirect_target_ok options u \<longleftrightarrow>
     scheme u = ''https'' \<or>
     scheme u = ''http'' \<and>
       (is_ip_loopback u \<or> allow_http_origins options \<or>
        allow_localhost_loopback options \<and>
          (\<exists>d. host_of u = Some (Domain d) \<and> is_localhost_name d))"

lemma loopback_target:
  assumes "loopback_host_matches base u b" and "is_ip_loopback base" and "scheme u = ''http''"
    and "b = allow_localhost_loopback options"
  shows "redirect_target_ok options u"
  using assms
  by (auto simp: redirect_target_ok_def loopback_host_matches_def is_ip_loopback_def
      split: option.splits host.splits)

lemma matched_target:
  assumes "redirect_matches L options redirect u m" and "url_parse L redirect = Some u"
  shows "redirect_target_ok options u"
proof (cases m)
  case (Uri v)
  then show ?thesis using assms exact_uri_ok [of L redirect u]
    by (auto simp: redirect_target_ok_def)
next
  case (Origin origin)
  then show ?thesis using assms
    by (auto simp: redirect_target_ok_def origin_permitted_def same_origin_def split: if_splits)
next
  case (Loopback v)
  then show ?thesis using assms loopback_uri_ok loopback_target
    by (fastforce split: option.splits)
next
  case (LoopbackOrigin base)
  then show ?thesis using assms loopback_origin_ok loopback_target by auto
qed

lemma relay_validate_ok:
  assumes "is_ok (relay_validate L r)"
  shows "is_ok (refresh_tokens_validate (refresh_tokens r))"
    and "client_auth r = Public \<longrightarrow> mode (refresh_tokens r) = Rotating"
    and "is_ok (validate_scopes r)" and "is_ok (validate_redirects L r)"
    and "is_ok (validate_client_auth L (client_auth r))"
  using assms
  by (auto simp: relay_validate_def is_ok_iff bind_result_Inr_iff split: if_splits)

lemma validate_scopes_ok:
  "is_ok (validate_scopes r) \<longleftrightarrow>
     (\<forall>s\<in>set (scopes r). valid_scope_token s) \<and> distinct (scopes r) \<and>
     (\<forall>allowed. allowed_scopes r = Some allowed \<longrightarrow>
        (\<forall>s\<in>set allowed. valid_scope_token s) \<and> distinct allowed \<and> set (scopes r) \<subseteq> set allowed)"
proof (cases "allowed_scopes r")
  case None
  then show ?thesis
    by (auto simp: validate_scopes_def is_ok_iff bind_result_Inr_iff scan_unique_Inr)
next
  case (Some allowed)
  then show ?thesis
    by (auto simp: validate_scopes_def is_ok_iff bind_result_Inr_iff scan_unique_Inr)
qed

end
