(* ===== verification/Requests.thy ===== *)
theory Requests
  imports Model
begin

text \<open>
  The pure parts of \<open>oauthrelay-core/src/router.rs\<close>: reading the parameters of the authorize,
  callback and token requests, the scope check, HTTP Basic credentials, PKCE, freshness, and
  the relay's own description in the discovery document.
\<close>

section \<open>Authorize requests\<close>

record authorize_request =
  a_redirect_uri :: "string option"
  a_state :: "string option"
  a_code_challenge :: "string option"
  a_code_challenge_method :: "string option"
  a_id_token_nonce :: "string option"
  a_scope :: "string option"
  a_forwarded :: "(string \<times> string) list"

definition empty_authorize :: authorize_request where
  "empty_authorize =
     \<lparr>a_redirect_uri = None, a_state = None, a_code_challenge = None, a_code_challenge_method = None,
      a_id_token_nonce = None, a_scope = None, a_forwarded = []\<rparr>"

definition authorize_singletons :: "string list" where
  "authorize_singletons =
     [''redirect_uri'', ''state'', ''client_id'', ''response_type'', ''response_mode'', ''code_challenge'',
      ''code_challenge_method'', ''scope'', ''nonce'', ''prompt'', ''login_hint'', ''request'', ''request_uri'']"

definition query_pairs :: "'z libs_scheme \<Rightarrow> string option \<Rightarrow> (string \<times> string) list" where
  "query_pairs L q = form_parse L (case q of None \<Rightarrow> [] | Some s \<Rightarrow> s)"

text \<open>One parameter; \<open>None\<close> is the early return \<open>Err(())\<close>.\<close>

definition authorize_parameter :: "string \<Rightarrow> string \<Rightarrow> authorize_request \<Rightarrow> authorize_request option" where
  "authorize_parameter name v r =
     (if name = ''redirect_uri'' then Some (r\<lparr>a_redirect_uri := Some v\<rparr>)
      else if name = ''state'' then Some (r\<lparr>a_state := Some v\<rparr>)
      else if name = ''client_id'' then Some r
      else if name = ''response_type'' then (if v = ''code'' then Some r else None)
      else if name = ''response_mode''
        then (if v = ''query'' then Some (r\<lparr>a_forwarded := a_forwarded r @ [(name, v)]\<rparr>) else None)
      else if name = ''code_challenge'' then Some (r\<lparr>a_code_challenge := Some v\<rparr>)
      else if name = ''code_challenge_method'' then Some (r\<lparr>a_code_challenge_method := Some v\<rparr>)
      else if name = ''scope'' then Some (r\<lparr>a_scope := Some v\<rparr>)
      else if name = ''nonce''
        then Some (r\<lparr>a_id_token_nonce := Some v, a_forwarded := a_forwarded r @ [(name, v)]\<rparr>)
      else if name = ''request'' \<or> name = ''request_uri'' then None
      else Some (r\<lparr>a_forwarded := a_forwarded r @ [(name, v)]\<rparr>))"

fun authorize_parameters ::
    "string list \<Rightarrow> (string \<times> string) list \<Rightarrow> authorize_request \<Rightarrow> authorize_request option" where
  "authorize_parameters seen [] r = Some r"
| "authorize_parameters seen ((name, v) # pairs) r =
     (if name \<in> set authorize_singletons \<and> name \<in> set seen then None
      else Option.bind (authorize_parameter name v r)
             (authorize_parameters (if name \<in> set authorize_singletons then name # seen else seen) pairs))"

definition parse_authorize_request :: "'z libs_scheme \<Rightarrow> string option \<Rightarrow> authorize_request option" where
  "parse_authorize_request L q = authorize_parameters [] (query_pairs L q) empty_authorize"

section \<open>Callback requests\<close>

record callback_request =
  c_code :: "string option"
  c_state :: string
  c_error :: bool
  c_forwarded :: "(string \<times> string) list"

text \<open>The loop's variables: code, state, error, forwarded.\<close>

type_synonym callback_vars = "string option \<times> string option \<times> bool \<times> (string \<times> string) list"

definition callback_singletons :: "string list" where
  "callback_singletons = [''code'', ''state'', ''error'']"

definition callback_parameter :: "string \<Rightarrow> string \<Rightarrow> callback_vars \<Rightarrow> callback_vars" where
  "callback_parameter name v acc =
     (case acc of (code, st, err, fwd) \<Rightarrow>
        if name = ''code'' then (Some v, st, err, fwd)
        else if name = ''state'' then (code, Some v, err, fwd)
        else if name = ''error'' then (code, st, True, fwd @ [(name, v)])
        else (code, st, err, fwd @ [(name, v)]))"

fun callback_parameters ::
    "string list \<Rightarrow> (string \<times> string) list \<Rightarrow> callback_vars \<Rightarrow> callback_vars option" where
  "callback_parameters seen [] acc = Some acc"
| "callback_parameters seen ((name, v) # pairs) acc =
     (if name \<in> set callback_singletons \<and> name \<in> set seen then None
      else callback_parameters (if name \<in> set callback_singletons then name # seen else seen) pairs
             (callback_parameter name v acc))"

definition parse_callback_request :: "'z libs_scheme \<Rightarrow> string option \<Rightarrow> callback_request option" where
  "parse_callback_request L q =
     (case callback_parameters [] (query_pairs L q) (None, None, False, []) of
        None \<Rightarrow> None
      | Some (code, st, err, fwd) \<Rightarrow>
          if (code \<noteq> None) = err then None
          else (case st of
                  None \<Rightarrow> None
                | Some s \<Rightarrow> Some \<lparr>c_code = code, c_state = s, c_error = err, c_forwarded = fwd\<rparr>))"

section \<open>Token requests\<close>

record token_request =
  t_grant_type :: string
  t_code :: "string option"
  t_refresh_token :: "string option"
  t_redirect_uri :: "string option"
  t_client_id :: "string option"
  t_client_secret :: "string option"
  t_code_verifier :: "string option"
  t_scope :: "string option"
  t_client_assertion_type :: "string option"
  t_client_assertion :: "string option"
  t_pairs :: "(string \<times> string) list"

definition token_parameters :: "string list" where
  "token_parameters =
     [''grant_type'', ''code'', ''refresh_token'', ''redirect_uri'', ''client_id'', ''client_secret'',
      ''code_verifier'', ''scope'', ''client_assertion_type'', ''client_assertion'']"

text \<open>
  The loop fills one variable per parameter name and fails on the second value of a name, so
  its variables are the association list of the values seen so far.
\<close>

fun token_values :: "(string \<times> string) list \<Rightarrow> (string \<times> string) list \<Rightarrow> (string \<times> string) list option" where
  "token_values vals [] = Some vals"
| "token_values vals ((name, v) # pairs) =
     (if name \<notin> set token_parameters then token_values vals pairs
      else if name \<in> fst ` set vals then None
      else token_values ((name, v) # vals) pairs)"

definition parse_token_request :: "'z libs_scheme \<Rightarrow> bytes \<Rightarrow> token_request option" where
  "parse_token_request L body =
     (let pairs = form_parse L body in
      case token_values [] pairs of
        None \<Rightarrow> None
      | Some vals \<Rightarrow>
          (case map_of vals ''grant_type'' of
             None \<Rightarrow> None
           | Some g \<Rightarrow>
               Some \<lparr>t_grant_type = g, t_code = map_of vals ''code'',
                 t_refresh_token = map_of vals ''refresh_token'', t_redirect_uri = map_of vals ''redirect_uri'',
                 t_client_id = map_of vals ''client_id'', t_client_secret = map_of vals ''client_secret'',
                 t_code_verifier = map_of vals ''code_verifier'', t_scope = map_of vals ''scope'',
                 t_client_assertion_type = map_of vals ''client_assertion_type'',
                 t_client_assertion = map_of vals ''client_assertion'', t_pairs = pairs\<rparr>))"

section \<open>Scopes\<close>

definition scope_allowed :: "relay \<Rightarrow> string \<Rightarrow> bool" where
  "scope_allowed r scope =
     (let parts = split_on (CHR '' '') scope in
      \<not> (parts = [] \<or> list_ex (\<lambda>s. \<not> valid_scope_token s) parts)
      \<and> (case allowed_scopes r of
           None \<Rightarrow> True
         | Some allowed \<Rightarrow> list_all (\<lambda>s. list_ex (\<lambda>candidate. candidate = s) allowed) parts))"

section \<open>HTTP Basic credentials\<close>

definition basic_scheme :: "bytes \<Rightarrow> bytes option" where
  "basic_scheme v =
     (if length v < 5 then None
      else let scheme = take 5 v; rest = drop 5 v in
           if eq_ignore_ascii_case scheme ''basic'' \<and> (rest = [] \<or> hd rest = CHR '' '') then Some rest
           else None)"

fun to_digit16 :: "char \<Rightarrow> nat option" where
  "to_digit16 c =
     (let n = byte_value c in
      if 48 \<le> n \<and> n \<le> 57 then Some (n - 48)
      else if 97 \<le> n \<and> n \<le> 102 then Some (n - 87)
      else if 65 \<le> n \<and> n \<le> 70 then Some (n - 55)
      else None)"

text \<open>The bytes; \<open>String::from_utf8\<close> is checked at the end.\<close>

fun urldecode_bytes :: "bytes \<Rightarrow> bytes option" where
  "urldecode_bytes [] = Some []"
| "urldecode_bytes (c # cs) =
     (if c = CHR ''+'' then map_option (Cons (CHR '' '')) (urldecode_bytes cs)
      else if c = CHR ''%''
      then (case cs of
              h # l # rest \<Rightarrow>
                (case (to_digit16 h, to_digit16 l) of
                   (Some hi, Some lo) \<Rightarrow> map_option (Cons (char_of (hi * 16 + lo))) (urldecode_bytes rest)
                 | _ \<Rightarrow> None)
            | _ \<Rightarrow> None)
      else map_option (Cons c) (urldecode_bytes cs))"

definition form_urldecode :: "'z libs_scheme \<Rightarrow> bytes \<Rightarrow> string option" where
  "form_urldecode L input =
     (case urldecode_bytes input of
        None \<Rightarrow> None
      | Some out \<Rightarrow> if utf8_valid L out then Some out else None)"

definition parse_basic_credentials :: "'z libs_scheme \<Rightarrow> bytes \<Rightarrow> (string \<times> string) option" where
  "parse_basic_credentials L v =
     Option.bind (basic_scheme v) (\<lambda>rest.
     Option.bind (strip_prefix '' '' rest) (\<lambda>token.
     Option.bind (b64_decode L (dropWhile is_ascii_whitespace token)) (\<lambda>decoded.
     Option.bind (split_once '':'' decoded) (\<lambda>(ident, secret).
     Option.bind (form_urldecode L ident) (\<lambda>ident.
     Option.bind (form_urldecode L secret) (\<lambda>secret. Some (ident, secret)))))))"

definition header_values :: "string \<Rightarrow> (string \<times> string) list \<Rightarrow> string list" where
  "header_values name hs = map snd (filter (\<lambda>(n, _). n = name) hs)"

datatype auth_failure = InvalidClient bool | MultipleMethods

text \<open>\<open>constant_eq\<close> compares byte strings, in time that does not depend on where they differ.\<close>

definition constant_eq :: "bytes \<Rightarrow> bytes \<Rightarrow> bool" where
  "constant_eq a b \<longleftrightarrow> a = b"

definition unwrap_or_default :: "string option \<Rightarrow> string" where
  "unwrap_or_default x = (case x of None \<Rightarrow> [] | Some s \<Rightarrow> s)"

definition password_credentials ::
    "'z libs_scheme \<Rightarrow> (string \<times> string) list \<Rightarrow> token_request \<Rightarrow> auth_failure + (string \<times> string \<times> bool)" where
  "password_credentials L hs form =
     (let body = Inr (unwrap_or_default (t_client_id form), unwrap_or_default (t_client_secret form), False) in
      case header_values ''authorization'' hs of
        [] \<Rightarrow> body
      | first # others \<Rightarrow>
          if others \<noteq> [] then Inl (InvalidClient True)
          else if basic_scheme first = None then body
          else (case parse_basic_credentials L first of
                  None \<Rightarrow> Inl (InvalidClient True)
                | Some (ident, secret) \<Rightarrow>
                    let repeats_id = (case t_client_id form of None \<Rightarrow> True | Some b \<Rightarrow> constant_eq b ident) in
                    if \<not> repeats_id \<or> t_client_secret form \<noteq> None \<or> t_client_assertion_type form \<noteq> None
                       \<or> t_client_assertion form \<noteq> None
                    then Inl MultipleMethods
                    else Inr (ident, secret, True)))"

definition public_client_header_allowed ::
    "'z libs_scheme \<Rightarrow> (string \<times> string) list \<Rightarrow> token_request \<Rightarrow> bool" where
  "public_client_header_allowed L hs form =
     (case filter (\<lambda>v. basic_scheme v \<noteq> None) (header_values ''authorization'' hs) of
        [] \<Rightarrow> True
      | v # others \<Rightarrow>
          if others \<noteq> [] then False
          else (case parse_basic_credentials L v of
                  Some (ident, secret) \<Rightarrow>
                    secret = [] \<and> (case t_client_id form of None \<Rightarrow> True | Some b \<Rightarrow> constant_eq b ident)
                | None \<Rightarrow> False))"

section \<open>PKCE, freshness, redirects\<close>

definition FLOW_TTL :: nat where "FLOW_TTL = 10 * 60"
definition CODE_TTL :: nat where "CODE_TTL = 5 * 60"

definition pkce_challenge :: "'z libs_scheme \<Rightarrow> string \<Rightarrow> string" where
  "pkce_challenge L verifier = b64url_encode L (sha256 L verifier)"

definition valid_pkce_challenge :: "string \<Rightarrow> bool" where
  "valid_pkce_challenge challenge \<longleftrightarrow>
     length challenge = 43 \<and> list_all (\<lambda>b. is_ascii_alphanumeric b \<or> b = CHR ''-'' \<or> b = CHR ''_'') challenge"

definition valid_pkce_verifier :: "string \<Rightarrow> bool" where
  "valid_pkce_verifier verifier \<longleftrightarrow>
     43 \<le> length verifier \<and> length verifier \<le> 128
     \<and> list_all (\<lambda>b. is_ascii_alphanumeric b \<or> b = CHR ''-'' \<or> b = CHR ''.'' \<or> b = CHR ''_'' \<or> b = CHR ''~'')
         verifier"

text \<open>\<open>fresh\<close>, at the time the clock shows.\<close>

definition fresh_at :: "nat \<Rightarrow> nat \<Rightarrow> nat \<Rightarrow> bool" where
  "fresh_at now issued_at ttl \<longleftrightarrow>
     issued_at \<le> saturating_add now 30 \<and> saturating_sub now issued_at \<le> ttl"

definition append_query_pairs :: "'z libs_scheme \<Rightarrow> string \<Rightarrow> (string \<times> string) list \<Rightarrow> string" where
  "append_query_pairs L u pairs =
     (if pairs = [] then u
      else (if CHR ''?'' \<notin> set u then u @ ''?''
            else if \<not> (ends_with ''?'' u \<or> ends_with ''&'' u) then u @ ''&'' else u)
           @ form_serialize L pairs)"

section \<open>The discovery document\<close>

definition UPSTREAM_ONLY_METADATA :: "string list" where
  "UPSTREAM_ONLY_METADATA =
     [''require_pushed_authorization_requests'',
      ''backchannel_authentication_request_signing_alg_values_supported'',
      ''backchannel_token_delivery_modes_supported'', ''backchannel_user_code_parameter_supported'',
      ''mtls_endpoint_aliases'', ''tls_client_certificate_bound_access_tokens'',
      ''dpop_signing_alg_values_supported'', ''require_request_uri_registration'',
      ''require_signed_request_object'', ''request_object_signing_alg_values_supported'',
      ''request_object_encryption_alg_values_supported'', ''request_object_encryption_enc_values_supported'',
      ''authorization_signing_alg_values_supported'', ''authorization_encryption_alg_values_supported'',
      ''authorization_encryption_enc_values_supported'', ''check_session_iframe'',
      ''frontchannel_logout_supported'', ''frontchannel_logout_session_supported'',
      ''backchannel_logout_supported'', ''backchannel_logout_session_supported'',
      ''http_logout_supported'', ''signed_metadata'']"

definition RELAY_CLIENT_ENDPOINTS :: "string list" where
  "RELAY_CLIENT_ENDPOINTS =
     [''authorization_endpoint'', ''token_endpoint'', ''userinfo_endpoint'', ''end_session_endpoint'',
      ''revocation_endpoint'', ''introspection_endpoint'']"

definition UPSTREAM_TOKEN_MANAGEMENT_METADATA :: "string list" where
  "UPSTREAM_TOKEN_MANAGEMENT_METADATA =
     [''revocation_endpoint'', ''revocation_endpoint_auth_methods_supported'',
      ''revocation_endpoint_auth_signing_alg_values_supported'', ''introspection_endpoint'',
      ''introspection_endpoint_auth_methods_supported'',
      ''introspection_endpoint_auth_signing_alg_values_supported'',
      ''introspection_signing_alg_values_supported'', ''introspection_encryption_alg_values_supported'',
      ''introspection_encryption_enc_values_supported'']"

definition client_assertion_algorithms :: "string list" where
  "client_assertion_algorithms =
     [''RS256'', ''RS384'', ''RS512'', ''PS256'', ''PS384'', ''PS512'', ''ES256'', ''ES384'', ''EdDSA'']"

definition json_strings :: "string list \<Rightarrow> json" where
  "json_strings xs = JArray (map JString xs)"

definition refresh_supported :: "(string \<times> json) list \<Rightarrow> bool" where
  "refresh_supported doc =
     (case Option.bind (map_of doc ''grant_types_supported'') as_array of
        None \<Rightarrow> True
      | Some upstream \<Rightarrow> list_ex (\<lambda>v. v = JString ''refresh_token'') upstream)"

definition auth_methods :: "client_auth \<Rightarrow> string list" where
  "auth_methods auth =
     (case auth of
        UpstreamClient \<Rightarrow> [''client_secret_basic'', ''client_secret_post'']
      | ClientSecret _ _ \<Rightarrow> [''client_secret_basic'', ''client_secret_post'']
      | Public \<Rightarrow> [''none'']
      | PrivateKeyJwt _ _ _ _ _ _ \<Rightarrow> [''private_key_jwt''])"

definition retain_relay_metadata :: "relay \<Rightarrow> (string \<times> json) list \<Rightarrow> (string \<times> json) list" where
  "retain_relay_metadata r doc =
     (let doc = filter (\<lambda>(name, _). name \<notin> set UPSTREAM_ONLY_METADATA
                  \<and> (\<not> ends_with ''_endpoint'' name \<or> name \<in> set RELAY_CLIENT_ENDPOINTS)) doc in
      if mode (refresh_tokens r) \<noteq> Passthrough
      then filter (\<lambda>(name, _). name \<notin> set UPSTREAM_TOKEN_MANAGEMENT_METADATA) doc else doc)"

definition describe_relay :: "relay \<Rightarrow> (string \<times> json) list \<Rightarrow> (string \<times> json) list" where
  "describe_relay r doc =
     (let doc = retain_relay_metadata r doc;
          doc = al_insert ''response_types_supported'' (json_strings [''code'']) doc;
          doc = al_insert ''response_modes_supported'' (json_strings [''query'']) doc;
          doc = al_insert ''grant_types_supported''
                  (json_strings (if refresh_supported doc then [''authorization_code'', ''refresh_token'']
                                 else [''authorization_code''])) doc;
          doc = al_insert ''code_challenge_methods_supported'' (json_strings [''S256'']) doc;
          doc = al_insert ''request_parameter_supported'' (JBool False) doc;
          doc = al_insert ''request_uri_parameter_supported'' (JBool False) doc;
          doc = (case allowed_scopes r of
                   None \<Rightarrow> doc
                 | Some allowed \<Rightarrow> al_insert ''scopes_supported'' (json_strings allowed) doc);
          doc = al_insert ''token_endpoint_auth_methods_supported'' (json_strings (auth_methods (client_auth r))) doc
      in case client_auth r of
           PrivateKeyJwt _ _ _ _ _ _ \<Rightarrow>
             al_insert ''token_endpoint_auth_signing_alg_values_supported''
               (json_strings client_assertion_algorithms) doc
         | _ \<Rightarrow> al_remove ''token_endpoint_auth_signing_alg_values_supported'' doc)"

section \<open>Reading parameters\<close>

text \<open>The parameters the relay consumes; everything else is forwarded to the upstream.\<close>

definition authorize_consumed :: "string list" where
  "authorize_consumed =
     [''redirect_uri'', ''state'', ''client_id'', ''response_type'', ''code_challenge'', ''code_challenge_method'', ''scope'']"

lemma authorize_parameter_Some:
  assumes "authorize_parameter name v r = Some r'"
  shows "a_forwarded r' = a_forwarded r @ (if name \<in> set authorize_consumed then [] else [(name, v)])"
    and "name \<noteq> ''request'' \<and> name \<noteq> ''request_uri''"
    and "name = ''response_type'' \<Longrightarrow> v = ''code''" and "name = ''response_mode'' \<Longrightarrow> v = ''query''"
    and "a_redirect_uri r' = (if name = ''redirect_uri'' then Some v else a_redirect_uri r)"
    and "a_code_challenge r' = (if name = ''code_challenge'' then Some v else a_code_challenge r)"
  using assms by (auto simp: authorize_parameter_def authorize_consumed_def split: if_splits)

text \<open>What a sequence of authorize parameters has to satisfy.\<close>

definition authorize_ok :: "(string \<times> string) list \<Rightarrow> bool" where
  "authorize_ok pairs \<longleftrightarrow>
     distinct (filter (\<lambda>n. n \<in> set authorize_singletons) (map fst pairs))
     \<and> ''request'' \<notin> fst ` set pairs \<and> ''request_uri'' \<notin> fst ` set pairs
     \<and> (\<forall>(n, v)\<in>set pairs. (n = ''response_type'' \<longrightarrow> v = ''code'') \<and> (n = ''response_mode'' \<longrightarrow> v = ''query''))"

lemma authorize_parameters_Some:
  "authorize_parameters seen pairs r = Some r' \<Longrightarrow>
     authorize_ok pairs
     \<and> set seen \<inter> set authorize_singletons \<inter> fst ` set pairs = {}
     \<and> a_forwarded r' = a_forwarded r @ filter (\<lambda>(n, _). n \<notin> set authorize_consumed) pairs
     \<and> a_redirect_uri r' = (case map_of pairs ''redirect_uri'' of Some v \<Rightarrow> Some v | None \<Rightarrow> a_redirect_uri r)
     \<and> a_code_challenge r' = (case map_of pairs ''code_challenge'' of Some v \<Rightarrow> Some v | None \<Rightarrow> a_code_challenge r)"
proof (induction seen pairs r rule: authorize_parameters.induct)
  case (1 seen r)
  then show ?case by (simp add: authorize_ok_def)
next
  case (2 seen name v pairs r)
  have singles: "''redirect_uri'' \<in> set authorize_singletons" "''code_challenge'' \<in> set authorize_singletons"
    by (simp_all add: authorize_singletons_def)
  obtain r1 where r1: "authorize_parameter name v r = Some r1"
    and rest: "authorize_parameters (if name \<in> set authorize_singletons then name # seen else seen) pairs r1 = Some r'"
    and new: "\<not> (name \<in> set authorize_singletons \<and> name \<in> set seen)"
    using "2.prems" by (auto simp: bind_eq_Some_conv split: if_splits)
  note step = authorize_parameter_Some [OF r1]
  from "2.IH" [OF new r1 rest]
  have ih: "authorize_ok pairs"
      "set (if name \<in> set authorize_singletons then name # seen else seen) \<inter> set authorize_singletons \<inter> fst ` set pairs = {}"
      "a_forwarded r' = a_forwarded r1 @ filter (\<lambda>(n, _). n \<notin> set authorize_consumed) pairs"
      "a_redirect_uri r' = (case map_of pairs ''redirect_uri'' of Some v \<Rightarrow> Some v | None \<Rightarrow> a_redirect_uri r1)"
      "a_code_challenge r' = (case map_of pairs ''code_challenge'' of Some v \<Rightarrow> Some v | None \<Rightarrow> a_code_challenge r1)"
    by simp_all
  have fresh: "name \<in> set authorize_singletons \<Longrightarrow> name \<notin> fst ` set pairs" using ih(2) by auto
  then have none: "name \<in> set authorize_singletons \<Longrightarrow> map_of pairs name = None" by (simp add: map_of_eq_None_iff)
  have "authorize_ok ((name, v) # pairs)"
    using ih(1) fresh step(2-4) unfolding authorize_ok_def by auto
  moreover have "set seen \<inter> set authorize_singletons \<inter> fst ` set ((name, v) # pairs) = {}"
    using ih(2) new by (auto split: if_splits)
  moreover have "a_forwarded r' = a_forwarded r @ filter (\<lambda>(n, _). n \<notin> set authorize_consumed) ((name, v) # pairs)"
    using ih(3) step(1) by auto
  moreover have "a_redirect_uri r' =
      (case map_of ((name, v) # pairs) ''redirect_uri'' of Some v \<Rightarrow> Some v | None \<Rightarrow> a_redirect_uri r)"
    using ih(4) step(5) none singles by (auto split: option.splits)
  moreover have "a_code_challenge r' =
      (case map_of ((name, v) # pairs) ''code_challenge'' of Some v \<Rightarrow> Some v | None \<Rightarrow> a_code_challenge r)"
    using ih(5) step(6) none singles by (auto split: option.splits)
  ultimately show ?case by blast
qed

lemma token_values_Some:
  "token_values vals pairs = Some vals' \<Longrightarrow>
     distinct (filter (\<lambda>n. n \<in> set token_parameters) (map fst pairs))
     \<and> set token_parameters \<inter> fst ` set vals \<inter> fst ` set pairs = {}
     \<and> (\<forall>n\<in>set token_parameters.
          map_of vals' n = (case map_of vals n of Some v \<Rightarrow> Some v | None \<Rightarrow> map_of pairs n))"
proof (induction vals pairs rule: token_values.induct)
  case (1 vals)
  then show ?case by (auto split: option.splits)
next
  case (2 vals name v pairs)
  show ?case
  proof (cases "name \<in> set token_parameters")
    case False
    with 2 show ?thesis by (auto split: option.splits)
  next
    case True
    then have new: "name \<notin> fst ` set vals" and rest: "token_values ((name, v) # vals) pairs = Some vals'"
      using "2.prems" by (auto split: if_splits)
    from "2.IH"(2) [OF _ new rest] True
    have ih: "distinct (filter (\<lambda>n. n \<in> set token_parameters) (map fst pairs))"
        "set token_parameters \<inter> fst ` set ((name, v) # vals) \<inter> fst ` set pairs = {}"
        "\<forall>n\<in>set token_parameters. map_of vals' n =
           (case map_of ((name, v) # vals) n of Some v \<Rightarrow> Some v | None \<Rightarrow> map_of pairs n)"
      by simp_all
    have "map_of vals name = None" using new by (simp add: map_of_eq_None_iff)
    with ih True new show ?thesis by (auto split: option.splits)
  qed
qed

text \<open>
  An authorize request is accepted only if no parameter the relay interprets is repeated, no
  request object is passed, and the response type and mode, if given, are \<open>code\<close> and \<open>query\<close>;
  then the relay reads exactly the one value of each parameter and forwards, in order, exactly
  the parameters it does not consume itself. The client's \<open>redirect_uri\<close>, \<open>state\<close> and PKCE
  challenge are never forwarded.
\<close>

theorem authorize_request_read:
  assumes "parse_authorize_request L q = Some r"
  shows "authorize_ok (query_pairs L q)
    \<and> a_forwarded r = filter (\<lambda>(n, _). n \<notin> set authorize_consumed) (query_pairs L q)
    \<and> a_redirect_uri r = map_of (query_pairs L q) ''redirect_uri''
    \<and> a_code_challenge r = map_of (query_pairs L q) ''code_challenge''"
  using authorize_parameters_Some [OF assms [unfolded parse_authorize_request_def]]
  by (auto simp: empty_authorize_def split: option.splits)

lemma token_request_fields:
  assumes "parse_token_request L body = Some r"
  shows "distinct (filter (\<lambda>n. n \<in> set token_parameters) (map fst (form_parse L body)))
    \<and> t_pairs r = form_parse L body
    \<and> Some (t_grant_type r) = map_of (form_parse L body) ''grant_type''
    \<and> t_code r = map_of (form_parse L body) ''code''
    \<and> t_refresh_token r = map_of (form_parse L body) ''refresh_token''
    \<and> t_client_id r = map_of (form_parse L body) ''client_id''
    \<and> t_client_secret r = map_of (form_parse L body) ''client_secret''
    \<and> t_code_verifier r = map_of (form_parse L body) ''code_verifier''"
proof -
  obtain vals where v: "token_values [] (form_parse L body) = Some vals"
    and r: "map_of vals ''grant_type'' = Some (t_grant_type r)" "t_code r = map_of vals ''code''"
      "t_refresh_token r = map_of vals ''refresh_token''" "t_client_id r = map_of vals ''client_id''"
      "t_client_secret r = map_of vals ''client_secret''" "t_code_verifier r = map_of vals ''code_verifier''"
      "t_pairs r = form_parse L body"
    using assms by (auto simp: parse_token_request_def Let_def split: option.splits)
  have "map_of vals n = map_of (form_parse L body) n" if "n \<in> set token_parameters" for n
    using token_values_Some [OF v] that by simp
  then show ?thesis
    using r token_values_Some [OF v] by (simp add: token_parameters_def)
qed

text \<open>
  A token request is accepted only if every parameter the relay reads occurs at most once,
  and each is then read as that one occurrence: two values of \<open>grant_type\<close>, of a credential or
  of a code are never silently reduced to one.
\<close>

theorem token_request_read:
  assumes "parse_token_request L body = Some r"
  shows "distinct (filter (\<lambda>n. n \<in> set token_parameters) (map fst (form_parse L body)))
    \<and> t_pairs r = form_parse L body
    \<and> Some (t_grant_type r) = map_of (form_parse L body) ''grant_type''
    \<and> t_code r = map_of (form_parse L body) ''code''
    \<and> t_refresh_token r = map_of (form_parse L body) ''refresh_token''
    \<and> t_client_id r = map_of (form_parse L body) ''client_id''
    \<and> t_client_secret r = map_of (form_parse L body) ''client_secret''
    \<and> t_code_verifier r = map_of (form_parse L body) ''code_verifier''"
  by (rule token_request_fields [OF assms])

section \<open>Scopes, freshness, percent-decoding, discovery\<close>

text \<open>
  The scope check admits a scope string exactly if it is a single-space separated list of
  well-formed scope tokens, each of them on the relay's list when the relay has one.
\<close>

theorem scope_allowed_iff:
  "scope_allowed r (join '' '' ss) \<longleftrightarrow>
     (\<forall>s\<in>set ss. valid_scope_token s) \<and>
     (\<forall>allowed. allowed_scopes r = Some allowed \<longrightarrow> set ss \<subseteq> set allowed)"
  if "ss \<noteq> []" and "\<forall>s\<in>set ss. CHR '' '' \<notin> set s"
proof -
  have "split_on (CHR '' '') (join '' '' ss) = ss"
    using that by (intro split_on_join) auto
  then show ?thesis
    using that(1) by (auto simp: scope_allowed_def Let_def list_ex_iff list_all_iff split: option.splits)
qed

text \<open>The reference encoder: every byte as a percent-escape with two upper-case hex digits.\<close>

definition hex_digit :: "nat \<Rightarrow> char" where
  "hex_digit n = char_of (if n < 10 then 48 + n else 55 + n)"

definition percent_encode :: "bytes \<Rightarrow> bytes" where
  "percent_encode s = concat (map (\<lambda>c. [CHR ''%'', hex_digit (byte_value c div 16), hex_digit (byte_value c mod 16)]) s)"

lemma to_digit16_hex: "n < 16 \<Longrightarrow> to_digit16 (hex_digit n) = Some n"
  by (simp add: hex_digit_def byte_value_def Let_def)

text \<open>
  Decoding inverts percent-encoding for every byte string, so a client identifier or secret
  survives the Basic header whatever bytes it contains.
\<close>

theorem urldecode_percent_encode: "urldecode_bytes (percent_encode s) = Some s"
proof (induction s)
  case (Cons c s)
  have "byte_value c div 16 < 16" "byte_value c mod 16 < 16"
    using nat_of_char_less_256 [of c] by (simp_all add: byte_value_def less_mult_imp_div_less)
  then have d: "to_digit16 (hex_digit (byte_value c div 16)) = Some (byte_value c div 16)"
      "to_digit16 (hex_digit (byte_value c mod 16)) = Some (byte_value c mod 16)"
    by (simp_all add: to_digit16_hex del: to_digit16.simps)
  have "char_of (byte_value c div 16 * 16 + byte_value c mod 16) = c"
    by (simp add: byte_value_def)
  with Cons d show ?case by (simp add: percent_encode_def del: to_digit16.simps)
qed (simp add: percent_encode_def)

definition relay_metadata :: "string list" where
  "relay_metadata =
     [''response_types_supported'', ''response_modes_supported'', ''grant_types_supported'',
      ''code_challenge_methods_supported'', ''request_parameter_supported'', ''request_uri_parameter_supported'',
      ''scopes_supported'', ''token_endpoint_auth_methods_supported'', ''token_endpoint_auth_signing_alg_values_supported'']"

lemma al_remove_names: "fst ` set (al_remove k kvs) = fst ` set kvs - {k}"
  by (force simp: al_remove_def)

lemma al_insert_names: "fst ` set (al_insert k v kvs) = insert k (fst ` set kvs)"
  using fst_set_al_insert [of k v kvs] by simp

lemma describe_relay_names:
  "fst ` set (describe_relay r doc) \<subseteq> fst ` set (retain_relay_metadata r doc) \<union> set relay_metadata"
  unfolding describe_relay_def Let_def relay_metadata_def
  by (auto simp: al_insert_names al_remove_names image_iff [symmetric] simp del: image_iff
      split: option.splits client_auth.splits)

definition relay_member_ok :: "relay \<Rightarrow> string \<Rightarrow> bool" where
  "relay_member_ok r name \<longleftrightarrow>
     name \<notin> set UPSTREAM_ONLY_METADATA
     \<and> (ends_with ''_endpoint'' name \<longrightarrow> name \<in> set RELAY_CLIENT_ENDPOINTS)
     \<and> (mode (refresh_tokens r) \<noteq> Passthrough \<longrightarrow> name \<notin> set UPSTREAM_TOKEN_MANAGEMENT_METADATA)"

lemma relay_metadata_ok: "\<forall>name\<in>set relay_metadata. relay_member_ok r name"
  by (simp add: relay_metadata_def relay_member_ok_def UPSTREAM_ONLY_METADATA_def
      UPSTREAM_TOKEN_MANAGEMENT_METADATA_def ends_with_def)

text \<open>
  The discovery document the relay serves names no upstream endpoint its clients cannot use:
  every member that ends in \<open>_endpoint\<close> is one the relay supports, none of the upstream-only
  members survives, and a relay that hands out its own handles does not point its clients at the
  upstream's revocation or introspection endpoints.
\<close>

theorem describe_relay_members: "(name, v) \<in> set (describe_relay r doc) \<Longrightarrow> relay_member_ok r name"
proof -
  assume "(name, v) \<in> set (describe_relay r doc)"
  then have "name \<in> fst ` set (describe_relay r doc)" by force
  then consider "name \<in> fst ` set (retain_relay_metadata r doc)" | "name \<in> set relay_metadata"
    using describe_relay_names by blast
  then show ?thesis
  proof cases
    case 1
    then show ?thesis by (auto simp: retain_relay_metadata_def relay_member_ok_def Let_def split: if_splits)
  qed (use relay_metadata_ok in blast)
qed

end
