(* ===== verification/Effects.thy ===== *)
theory Effects
  imports Libs
begin

text \<open>
  Effectful code as resumption trees. The async functions of the router and of the rotation
  state machine do nothing but call a handful of interfaces (the transient store, the sealer,
  the clocks, the random generator, the HTTP client and its policy, the response caches) and
  compute in between. A value of type \<open>'r prog\<close> is such a function: \<open>Ret\<close>, or one call with
  the continuation that receives its answer. Because a program says nothing about the answers,
  a statement about all its traces (\<open>path\<close>) holds for every behaviour of the environment:
  failures, timeouts and the interleaved writes of any number of concurrent requests. Running a
  program against one concrete environment (\<open>run\<close>) gives its functional behaviour.
\<close>

section \<open>Interfaces\<close>

datatype store_error = StoreInvalid string | StoreBackend

record entry =
  value_of :: bytes
  expires_in :: duration

datatype seal_error = InvalidKey | InvalidEnvelope | SealerDown

datatype outbound_purpose =
    Discovery | Jwks | TokenExchange | Refresh | ClientAssertionMetadata | ClientAssertionJwks

record outbound_request =
  offered_url :: url
  offered_purpose :: outbound_purpose
  offered_relay :: "string option"
  offered_upstream :: "string option"

datatype http_method = GET | POST | OPTIONS | OtherMethod

record http_request =
  req_method :: http_method
  req_url :: url
  req_headers :: "(string \<times> string) list"
  req_form :: "(string \<times> string) list"
  req_timeout :: "duration option"

text \<open>\<open>res_body\<close> is \<open>None\<close> when reading the body fails.\<close>

record http_response =
  res_status :: nat
  res_url :: url
  res_content_type :: "string option"
  res_body :: "bytes option"

text \<open>
  The mutex-protected maps of the router's \<open>AppState\<close>: the two document caches, the
  markers of absent discovery documents, and the client-assertion key sets with the instant
  before which they are not fetched again.
\<close>

datatype cache_id = DocumentCache | AbsentDiscovery | AssertionMetadata | AssertionJwks | AssertionRetry

record cached_json =
  fetched :: nat
  cached_value :: json

section \<open>Programs\<close>

datatype 'r prog =
    Ret 'r
  | PutIfAbsent string bytes duration "(store_error + bool) \<Rightarrow> 'r prog"
  | GetEntry string "(store_error + entry option) \<Rightarrow> 'r prog"
  | CompareAndSwap string bytes bytes duration "(store_error + bool) \<Rightarrow> 'r prog"
  | DeleteKey string "(store_error + unit) \<Rightarrow> 'r prog"
  | Seal bytes bytes "(seal_error + string) \<Rightarrow> 'r prog"
  | Unseal string bytes "(seal_error + bytes) \<Rightarrow> 'r prog"
  | ClockMs "nat \<Rightarrow> 'r prog"
  | UnixNow "nat \<Rightarrow> 'r prog"
  | InstantNow "nat \<Rightarrow> 'r prog"
  | Sleep duration "unit \<Rightarrow> 'r prog"
  | Deadline duration "bool \<Rightarrow> 'r prog"
  | RandomBytes nat "bytes \<Rightarrow> 'r prog"
  | PolicyCheck outbound_request "bool \<Rightarrow> 'r prog"
  | Execute http_request "http_response option \<Rightarrow> 'r prog"
  | CacheGet cache_id string "cached_json option \<Rightarrow> 'r prog"
  | CachePut cache_id string cached_json "unit \<Rightarrow> 'r prog"
  | CacheRemove cache_id string "unit \<Rightarrow> 'r prog"

text \<open>
  \<open>Deadline\<close> answers whether the deadline of an enclosing \<open>tokio::time::timeout\<close> has passed.
  The clocks are the wall clock in milliseconds and in seconds and the monotonic clock in
  nanoseconds. A \<open>PolicyCheck\<close> answers whether the outbound policy allows the request.
\<close>

primrec bind :: "'a prog \<Rightarrow> ('a \<Rightarrow> 'b prog) \<Rightarrow> 'b prog" where
  "bind (Ret x) f = f x"
| "bind (PutIfAbsent k v t c) f = PutIfAbsent k v t (\<lambda>a. bind (c a) f)"
| "bind (GetEntry k c) f = GetEntry k (\<lambda>a. bind (c a) f)"
| "bind (CompareAndSwap k e n t c) f = CompareAndSwap k e n t (\<lambda>a. bind (c a) f)"
| "bind (DeleteKey k c) f = DeleteKey k (\<lambda>a. bind (c a) f)"
| "bind (Seal p d c) f = Seal p d (\<lambda>a. bind (c a) f)"
| "bind (Unseal s d c) f = Unseal s d (\<lambda>a. bind (c a) f)"
| "bind (ClockMs c) f = ClockMs (\<lambda>a. bind (c a) f)"
| "bind (UnixNow c) f = UnixNow (\<lambda>a. bind (c a) f)"
| "bind (InstantNow c) f = InstantNow (\<lambda>a. bind (c a) f)"
| "bind (Sleep d c) f = Sleep d (\<lambda>a. bind (c a) f)"
| "bind (Deadline d c) f = Deadline d (\<lambda>a. bind (c a) f)"
| "bind (RandomBytes n c) f = RandomBytes n (\<lambda>a. bind (c a) f)"
| "bind (PolicyCheck r c) f = PolicyCheck r (\<lambda>a. bind (c a) f)"
| "bind (Execute r c) f = Execute r (\<lambda>a. bind (c a) f)"
| "bind (CacheGet i k c) f = CacheGet i k (\<lambda>a. bind (c a) f)"
| "bind (CachePut i k v c) f = CachePut i k v (\<lambda>a. bind (c a) f)"
| "bind (CacheRemove i k c) f = CacheRemove i k (\<lambda>a. bind (c a) f)"

text \<open>The \<open>?\<close> operator on the result of an awaited call.\<close>

definition bindE :: "('e + 'a) prog \<Rightarrow> ('a \<Rightarrow> ('e + 'b) prog) \<Rightarrow> ('e + 'b) prog" where
  "bindE p f = bind p (\<lambda>r. case r of Inl e \<Rightarrow> Ret (Inl e) | Inr x \<Rightarrow> f x)"

text \<open>
  \<open>tokio::time::timeout(d, p)\<close>: the deadline is looked at after every call of \<open>p\<close>, and once it
  has passed the future is dropped and nothing more of it runs.
\<close>

primrec timeout :: "duration \<Rightarrow> 'a prog \<Rightarrow> 'a option prog" where
  "timeout d (Ret x) = Ret (Some x)"
| "timeout d (PutIfAbsent k v t c) =
     PutIfAbsent k v t (\<lambda>a. Deadline d (\<lambda>late. if late then Ret None else timeout d (c a)))"
| "timeout d (GetEntry k c) =
     GetEntry k (\<lambda>a. Deadline d (\<lambda>late. if late then Ret None else timeout d (c a)))"
| "timeout d (CompareAndSwap k e n t c) =
     CompareAndSwap k e n t (\<lambda>a. Deadline d (\<lambda>late. if late then Ret None else timeout d (c a)))"
| "timeout d (DeleteKey k c) =
     DeleteKey k (\<lambda>a. Deadline d (\<lambda>late. if late then Ret None else timeout d (c a)))"
| "timeout d (Seal p x c) =
     Seal p x (\<lambda>a. Deadline d (\<lambda>late. if late then Ret None else timeout d (c a)))"
| "timeout d (Unseal s x c) =
     Unseal s x (\<lambda>a. Deadline d (\<lambda>late. if late then Ret None else timeout d (c a)))"
| "timeout d (ClockMs c) =
     ClockMs (\<lambda>a. Deadline d (\<lambda>late. if late then Ret None else timeout d (c a)))"
| "timeout d (UnixNow c) =
     UnixNow (\<lambda>a. Deadline d (\<lambda>late. if late then Ret None else timeout d (c a)))"
| "timeout d (InstantNow c) =
     InstantNow (\<lambda>a. Deadline d (\<lambda>late. if late then Ret None else timeout d (c a)))"
| "timeout d (Sleep s c) =
     Sleep s (\<lambda>a. Deadline d (\<lambda>late. if late then Ret None else timeout d (c a)))"
| "timeout d (Deadline s c) =
     Deadline s (\<lambda>a. Deadline d (\<lambda>late. if late then Ret None else timeout d (c a)))"
| "timeout d (RandomBytes n c) =
     RandomBytes n (\<lambda>a. Deadline d (\<lambda>late. if late then Ret None else timeout d (c a)))"
| "timeout d (PolicyCheck r c) =
     PolicyCheck r (\<lambda>a. Deadline d (\<lambda>late. if late then Ret None else timeout d (c a)))"
| "timeout d (Execute r c) =
     Execute r (\<lambda>a. Deadline d (\<lambda>late. if late then Ret None else timeout d (c a)))"
| "timeout d (CacheGet i k c) =
     CacheGet i k (\<lambda>a. Deadline d (\<lambda>late. if late then Ret None else timeout d (c a)))"
| "timeout d (CachePut i k v c) =
     CachePut i k v (\<lambda>a. Deadline d (\<lambda>late. if late then Ret None else timeout d (c a)))"
| "timeout d (CacheRemove i k c) =
     CacheRemove i k (\<lambda>a. Deadline d (\<lambda>late. if late then Ret None else timeout d (c a)))"

lemma bind_Ret [simp]: "bind p Ret = p"
  by (induction p) auto

lemma bind_assoc [simp]: "bind (bind p f) g = bind p (\<lambda>x. bind (f x) g)"
  by (induction p) auto

lemma bindE_simps [simp]:
  "bindE (Ret (Inl err)) f = Ret (Inl err)"
  "bindE (Ret (Inr x)) f = f x"
  "bindE (PutIfAbsent k v t c1) f = PutIfAbsent k v t (\<lambda>a. bindE (c1 a) f)"
  "bindE (GetEntry k c2) f = GetEntry k (\<lambda>a. bindE (c2 a) f)"
  "bindE (CompareAndSwap k e n t c3) f = CompareAndSwap k e n t (\<lambda>a. bindE (c3 a) f)"
  "bindE (DeleteKey k c4) f = DeleteKey k (\<lambda>a. bindE (c4 a) f)"
  "bindE (Seal p d c5) f = Seal p d (\<lambda>a. bindE (c5 a) f)"
  "bindE (Unseal s d c6) f = Unseal s d (\<lambda>a. bindE (c6 a) f)"
  "bindE (ClockMs c7) f = ClockMs (\<lambda>a. bindE (c7 a) f)"
  "bindE (RandomBytes m c8) f = RandomBytes m (\<lambda>a. bindE (c8 a) f)"
  "bindE (UnixNow c9) f = UnixNow (\<lambda>a. bindE (c9 a) f)"
  "bindE (InstantNow c10) f = InstantNow (\<lambda>a. bindE (c10 a) f)"
  "bindE (Sleep du c11) f = Sleep du (\<lambda>a. bindE (c11 a) f)"
  "bindE (Deadline du c12) f = Deadline du (\<lambda>a. bindE (c12 a) f)"
  "bindE (PolicyCheck q c13) f = PolicyCheck q (\<lambda>a. bindE (c13 a) f)"
  "bindE (Execute hq c14) f = Execute hq (\<lambda>a. bindE (c14 a) f)"
  "bindE (CacheGet i k c15) f = CacheGet i k (\<lambda>a. bindE (c15 a) f)"
  "bindE (CachePut i k cv c16) f = CachePut i k cv (\<lambda>a. bindE (c16 a) f)"
  "bindE (CacheRemove i k c17) f = CacheRemove i k (\<lambda>a. bindE (c17 a) f)"
  by (simp_all add: bindE_def)

section \<open>Traces\<close>

datatype event =
    EPut string bytes duration "store_error + bool"
  | EGet string "store_error + entry option"
  | ECas string bytes bytes duration "store_error + bool"
  | EDelete string "store_error + unit"
  | ESeal bytes bytes "seal_error + string"
  | EUnseal string bytes "seal_error + bytes"
  | EClockMs nat
  | EUnixNow nat
  | EInstantNow nat
  | ESleep duration
  | EDeadline duration bool
  | ERandom nat bytes
  | EPolicy outbound_request bool
  | EExecute http_request "http_response option"
  | ECacheGet cache_id string "cached_json option"
  | ECachePut cache_id string cached_json
  | ECacheRemove cache_id string

text \<open>\<open>path p es r\<close>: the answers recorded in \<open>es\<close> lead \<open>p\<close> to the result \<open>r\<close>.\<close>

inductive path :: "'r prog \<Rightarrow> event list \<Rightarrow> 'r \<Rightarrow> bool" where
  path_Ret: "path (Ret x) [] x"
| path_Put: "path (c a) es r \<Longrightarrow> path (PutIfAbsent k v t c) (EPut k v t a # es) r"
| path_Get: "path (c a) es r \<Longrightarrow> path (GetEntry k c) (EGet k a # es) r"
| path_Cas: "path (c a) es r \<Longrightarrow> path (CompareAndSwap k e n t c) (ECas k e n t a # es) r"
| path_Delete: "path (c a) es r \<Longrightarrow> path (DeleteKey k c) (EDelete k a # es) r"
| path_Seal: "path (c a) es r \<Longrightarrow> path (Seal p d c) (ESeal p d a # es) r"
| path_Unseal: "path (c a) es r \<Longrightarrow> path (Unseal s d c) (EUnseal s d a # es) r"
| path_ClockMs: "path (c a) es r \<Longrightarrow> path (ClockMs c) (EClockMs a # es) r"
| path_UnixNow: "path (c a) es r \<Longrightarrow> path (UnixNow c) (EUnixNow a # es) r"
| path_InstantNow: "path (c a) es r \<Longrightarrow> path (InstantNow c) (EInstantNow a # es) r"
| path_Sleep: "path (c ()) es r \<Longrightarrow> path (Sleep d c) (ESleep d # es) r"
| path_Deadline: "path (c a) es r \<Longrightarrow> path (Deadline d c) (EDeadline d a # es) r"
| path_Random: "path (c a) es r \<Longrightarrow> length a = n \<Longrightarrow> path (RandomBytes n c) (ERandom n a # es) r"
| path_Policy: "path (c a) es r \<Longrightarrow> path (PolicyCheck q c) (EPolicy q a # es) r"
| path_Execute: "path (c a) es r \<Longrightarrow> path (Execute q c) (EExecute q a # es) r"
| path_CacheGet: "path (c a) es r \<Longrightarrow> path (CacheGet i k c) (ECacheGet i k a # es) r"
| path_CachePut: "path (c ()) es r \<Longrightarrow> path (CachePut i k v c) (ECachePut i k v # es) r"
| path_CacheRemove: "path (c ()) es r \<Longrightarrow> path (CacheRemove i k c) (ECacheRemove i k # es) r"

inductive_simps path_simps [simp]:
  "path (Ret x) es r"
  "path (PutIfAbsent k v t c) es r"
  "path (GetEntry k c) es r"
  "path (CompareAndSwap k e n t c) es r"
  "path (DeleteKey k c) es r"
  "path (Seal p d c) es r"
  "path (Unseal s d c) es r"
  "path (ClockMs c) es r"
  "path (UnixNow c) es r"
  "path (InstantNow c) es r"
  "path (Sleep d c) es r"
  "path (Deadline d c) es r"
  "path (RandomBytes n c) es r"
  "path (PolicyCheck q c) es r"
  "path (Execute q c) es r"
  "path (CacheGet i k c) es r"
  "path (CachePut i k v c) es r"
  "path (CacheRemove i k c) es r"

lemma path_bind:
  "path (bind p f) es r \<longleftrightarrow>
     (\<exists>es1 x es2. path p es1 x \<and> path (f x) es2 r \<and> es = es1 @ es2)"
proof (induction p arbitrary: es)
  case (Ret x)
  show ?case by simp
qed (simp; metis append_Cons)+

lemma path_bindE:
  "path (bindE p f) es r \<longleftrightarrow>
     (\<exists>e. path p es (Inl e) \<and> r = Inl e) \<or>
     (\<exists>es1 x es2. path p es1 (Inr x) \<and> path (f x) es2 r \<and> es = es1 @ es2)"
  unfolding bindE_def path_bind
proof (safe, goal_cases)
  case (1 es1 x es2)
  then show ?case by (cases x) auto
next
  case (2 e)
  then show ?case by (intro exI [of _ es] exI [of _ "Inl e"] exI [of _ "[]"]) simp
next
  case (3 es1 x es2)
  then show ?case by (intro exI [of _ es1] exI [of _ "Inr x"] exI [of _ es2]) simp
qed

text \<open>Matching on the result of a call.\<close>

lemma path_bind_sum:
  "path (bind p (\<lambda>r. case r of Inl e \<Rightarrow> f e | Inr x \<Rightarrow> g x)) es y \<longleftrightarrow>
     (\<exists>es1 e es2. path p es1 (Inl e) \<and> path (f e) es2 y \<and> es = es1 @ es2) \<or>
     (\<exists>es1 x es2. path p es1 (Inr x) \<and> path (g x) es2 y \<and> es = es1 @ es2)"
  by (simp add: path_bind split_sum_ex ex_disj_distrib)

lemma path_bind_option:
  "path (bind p (\<lambda>r. case r of None \<Rightarrow> f | Some x \<Rightarrow> g x)) es y \<longleftrightarrow>
     (\<exists>es1 es2. path p es1 None \<and> path f es2 y \<and> es = es1 @ es2) \<or>
     (\<exists>es1 x es2. path p es1 (Some x) \<and> path (g x) es2 y \<and> es = es1 @ es2)"
  by (simp add: path_bind split_option_ex ex_disj_distrib)

end
