(* ===== verification/Trace_Logic.thy ===== *)
theory Trace_Logic
  imports Effects
begin

text \<open>
  A program logic for the traces of a program. \<open>wp G p h Q\<close> says: whatever the environment
  answers, every call \<open>p\<close> makes after the history \<open>h\<close> satisfies the guarantee \<open>G\<close>, which
  sees the calls made before it with their answers, and the result and the final history
  satisfy \<open>Q\<close>. It computes by the structure of the program, so the proofs about the router
  and the rotation state machine are symbolic executions; \<open>wp_path\<close> turns them into
  statements about \<open>path\<close>.
\<close>

section \<open>Weakest preconditions over traces\<close>

primrec wp :: "(event list \<Rightarrow> event \<Rightarrow> bool) \<Rightarrow> 'r prog \<Rightarrow> event list \<Rightarrow> ('r \<Rightarrow> event list \<Rightarrow> bool) \<Rightarrow> bool" where
  "wp G (Ret x) h Q \<longleftrightarrow> Q x h"
| "wp G (PutIfAbsent k v t c) h Q \<longleftrightarrow>
     (\<forall>a. G h (EPut k v t a) \<and> wp G (c a) (h @ [EPut k v t a]) Q)"
| "wp G (GetEntry k c) h Q \<longleftrightarrow>
     (\<forall>a. G h (EGet k a) \<and> wp G (c a) (h @ [EGet k a]) Q)"
| "wp G (CompareAndSwap k x y t c) h Q \<longleftrightarrow>
     (\<forall>a. G h (ECas k x y t a) \<and> wp G (c a) (h @ [ECas k x y t a]) Q)"
| "wp G (DeleteKey k c) h Q \<longleftrightarrow>
     (\<forall>a. G h (EDelete k a) \<and> wp G (c a) (h @ [EDelete k a]) Q)"
| "wp G (Seal p d c) h Q \<longleftrightarrow>
     (\<forall>a. G h (ESeal p d a) \<and> wp G (c a) (h @ [ESeal p d a]) Q)"
| "wp G (Unseal s d c) h Q \<longleftrightarrow>
     (\<forall>a. G h (EUnseal s d a) \<and> wp G (c a) (h @ [EUnseal s d a]) Q)"
| "wp G (ClockMs c) h Q \<longleftrightarrow>
     (\<forall>a. G h (EClockMs a) \<and> wp G (c a) (h @ [EClockMs a]) Q)"
| "wp G (UnixNow c) h Q \<longleftrightarrow>
     (\<forall>a. G h (EUnixNow a) \<and> wp G (c a) (h @ [EUnixNow a]) Q)"
| "wp G (InstantNow c) h Q \<longleftrightarrow>
     (\<forall>a. G h (EInstantNow a) \<and> wp G (c a) (h @ [EInstantNow a]) Q)"
| "wp G (Sleep d c) h Q \<longleftrightarrow>
     (G h (ESleep d) \<and> wp G (c ()) (h @ [ESleep d]) Q)"
| "wp G (Deadline d c) h Q \<longleftrightarrow>
     (\<forall>a. G h (EDeadline d a) \<and> wp G (c a) (h @ [EDeadline d a]) Q)"
| "wp G (RandomBytes n c) h Q \<longleftrightarrow>
     (\<forall>a. length a = n \<longrightarrow> G h (ERandom n a) \<and> wp G (c a) (h @ [ERandom n a]) Q)"
| "wp G (PolicyCheck q c) h Q \<longleftrightarrow>
     (\<forall>a. G h (EPolicy q a) \<and> wp G (c a) (h @ [EPolicy q a]) Q)"
| "wp G (Execute q c) h Q \<longleftrightarrow>
     (\<forall>a. G h (EExecute q a) \<and> wp G (c a) (h @ [EExecute q a]) Q)"
| "wp G (CacheGet i k c) h Q \<longleftrightarrow>
     (\<forall>a. G h (ECacheGet i k a) \<and> wp G (c a) (h @ [ECacheGet i k a]) Q)"
| "wp G (CachePut i k v c) h Q \<longleftrightarrow>
     (G h (ECachePut i k v) \<and> wp G (c ()) (h @ [ECachePut i k v]) Q)"
| "wp G (CacheRemove i k c) h Q \<longleftrightarrow>
     (G h (ECacheRemove i k) \<and> wp G (c ()) (h @ [ECacheRemove i k]) Q)"

lemma wp_bind [simp]: "wp G (bind p f) h Q \<longleftrightarrow> wp G p h (\<lambda>x h'. wp G (f x) h' Q)"
  by (induction p arbitrary: h) simp_all

lemma wp_bindE [simp]:
  "wp G (bindE p f) h Q \<longleftrightarrow>
     wp G p h (\<lambda>r h'. case r of Inl e \<Rightarrow> Q (Inl e) h' | Inr x \<Rightarrow> wp G (f x) h' Q)"
  unfolding bindE_def wp_bind
  by (rule arg_cong [where f = "wp G p h"]) (auto simp: fun_eq_iff split: sum.splits)

section \<open>Soundness and completeness\<close>

definition guaranteed :: "(event list \<Rightarrow> event \<Rightarrow> bool) \<Rightarrow> event list \<Rightarrow> event list \<Rightarrow> bool" where
  "guaranteed G h es \<longleftrightarrow> (\<forall>pre e post. es = pre @ e # post \<longrightarrow> G (h @ pre) e)"

lemma guaranteed_Nil [simp]: "guaranteed G h []"
  by (simp add: guaranteed_def)

lemma guaranteed_Cons [simp]: "guaranteed G h (e # es) \<longleftrightarrow> G h e \<and> guaranteed G (h @ [e]) es"
  unfolding guaranteed_def
proof (safe, goal_cases)
  case 1
  then show ?case by force
next
  case (2 pre e' post)
  then show ?case by (metis append.assoc append_Cons append_Nil)
next
  case (3 pre e' post)
  then show ?case by (cases pre) auto
qed

lemma guaranteed_all: "guaranteed (\<lambda>_. P) h es \<longleftrightarrow> list_all P es"
  by (induction es arbitrary: h) auto

lemma wp_sound: "path p es r \<Longrightarrow> wp G p h Q \<Longrightarrow> guaranteed G h es \<and> Q r (h @ es)"
  by (induction arbitrary: h rule: path.induct) (simp, fastforce+)

lemma path_exists: "\<exists>es r. path p es r"
proof (induction p)
  case (RandomBytes n c)
  then have "\<exists>es r. path (c (replicate n (CHR ''0''))) es r" by blast
  then obtain es r where "path (c (replicate n (CHR ''0''))) es r" by blast
  then have "path (RandomBytes n c) (ERandom n (replicate n (CHR ''0'')) # es) r"
    by (intro path_Random) simp_all
  then show ?case by blast
qed (blast intro: path.intros)+

text \<open>One call, seen from its continuation: \<open>E\<close> is the event of the call.\<close>

lemma continue_path:
  assumes "\<And>es r. path p es r \<Longrightarrow> guaranteed G h (E # es) \<and> Q r (h @ E # es)"
    and "(\<And>es r. path p es r \<Longrightarrow> guaranteed G (h @ [E]) es \<and> Q r ((h @ [E]) @ es)) \<Longrightarrow> wp G p (h @ [E]) Q"
  shows "G h E \<and> wp G p (h @ [E]) Q"
  using assms path_exists [of p] by auto

lemma wp_complete:
  "(\<And>es r. path p es r \<Longrightarrow> guaranteed G h es \<and> Q r (h @ es)) \<Longrightarrow> wp G p h Q"
proof (induction p arbitrary: h)
  case (Ret x)
  then show ?case using path_Ret by fastforce
qed (subst wp.simps, (intro allI impI)?, rule continue_path, blast intro: path.intros, blast)+

lemma wp_iff: "wp G p h Q \<longleftrightarrow> (\<forall>es r. path p es r \<longrightarrow> guaranteed G h es \<and> Q r (h @ es))"
  using wp_sound wp_complete by metis

lemma wp_pathD:
  assumes "wp G p [] Q" and "path p es r"
  shows "guaranteed G [] es" and "Q r es"
  using wp_sound [OF assms(2,1)] by auto

section \<open>Rules\<close>

lemma wp_mono: "wp G p h Q \<Longrightarrow> (\<And>x h'. Q x h' \<Longrightarrow> Q' x h') \<Longrightarrow> wp G p h Q'"
  by (simp add: wp_iff)

lemma wp_conj: "wp G p h Q \<Longrightarrow> wp G p h Q' \<Longrightarrow> wp G p h (\<lambda>x h'. Q x h' \<and> Q' x h')"
  by (simp add: wp_iff)

text \<open>Histories only grow.\<close>

lemma wp_grows: "wp G p h Q \<Longrightarrow> (\<And>x es. Q x (h @ es) \<Longrightarrow> Q' x (h @ es)) \<Longrightarrow> wp G p h Q'"
  by (simp add: wp_iff)

text \<open>A program about which nothing is known, run where nothing can violate the guarantee.\<close>

lemma wp_any:
  assumes "\<And>es e. G (h @ es) e" and "\<And>x es. Q x (h @ es)"
  shows "wp G p h Q"
  using assms by (simp add: wp_iff guaranteed_def)

text \<open>Properties of every single call.\<close>

definition always :: "(event \<Rightarrow> bool) \<Rightarrow> 'r prog \<Rightarrow> bool" where
  "always P p \<longleftrightarrow> wp (\<lambda>_. P) p [] (\<lambda>_ _. True)"

lemma always_iff: "always P p \<longleftrightarrow> (\<forall>es r. path p es r \<longrightarrow> list_all P es)"
  by (simp add: always_def wp_iff guaranteed_all)

lemma wp_always:
  assumes "always P p" and "\<And>es e. P e \<Longrightarrow> G (h @ es) e" and "\<And>x es. list_all P es \<Longrightarrow> Q x (h @ es)"
  shows "wp G p h Q"
  using assms by (auto simp: wp_iff always_iff guaranteed_def)

text \<open>Giving a program a deadline adds nothing but looking at the clock.\<close>

inductive_cases path_call:
  "path (PutIfAbsent k v t c) es r"
  "path (GetEntry k c) es r"
  "path (CompareAndSwap k e n t c) es r"
  "path (DeleteKey k c) es r"
  "path (Seal p d c) es r"
  "path (Unseal s d c) es r"
  "path (ClockMs c) es r"
  "path (UnixNow c) es r"
  "path (InstantNow c) es r"
  "path (Sleep d c) es r"
  "path (Deadline d c) es r"
  "path (RandomBytes n c) es r"
  "path (PolicyCheck q c) es r"
  "path (Execute q c) es r"
  "path (CacheGet i k c) es r"
  "path (CachePut i k v c) es r"
  "path (CacheRemove i k c) es r"

lemma timeout_call:
  assumes "path (if b then Ret None else timeout d p) es r"
    and "\<And>es. path (timeout d p) es r \<Longrightarrow>
      \<exists>es' r'. path p es' r' \<and> set es \<subseteq> set es' \<union> {EDeadline d b | b. True}"
    and "\<And>es r. path p es r \<Longrightarrow> path q (E # es) r"
  shows "\<exists>es' r'. path q es' r' \<and> set (E # EDeadline d b # es) \<subseteq> set es' \<union> {EDeadline d b | b. True}"
proof -
  obtain es' r' where "path p es' r'" and "set es \<subseteq> set es' \<union> {EDeadline d b | b. True}"
  proof (cases b)
    case True
    then show thesis using that assms(1) path_exists [of p] by auto
  next
    case False
    then show thesis using that assms(1) assms(2) [of es] by auto
  qed
  then have "path q (E # es') r'" and "set (E # EDeadline d b # es) \<subseteq> set (E # es') \<union> {EDeadline d b | b. True}"
    using assms(3) by auto
  then show ?thesis by blast
qed

lemma path_timeout:
  "path (timeout d p) es r \<Longrightarrow>
     \<exists>es' r'. path p es' r' \<and> set es \<subseteq> set es' \<union> {EDeadline d b | b. True}"
proof (induction p arbitrary: es)
  case (Ret x)
  then show ?case by auto
qed (unfold timeout.simps, (elim path_call, hypsubst, rule timeout_call, assumption, blast,
    (rule path.intros; simp))+)

lemma always_timeout:
  "(\<And>b. P (EDeadline d b)) \<Longrightarrow> always P p \<Longrightarrow> always P (timeout d p)"
  unfolding always_iff list_all_iff using path_timeout by blast

section \<open>Guarantees that only look for calls in the history\<close>

text \<open>
  For a guarantee that, once it allows a call, goes on allowing it, programs compose without
  regard to the history they start from.
\<close>

definition monotone_guarantee :: "(event list \<Rightarrow> event \<Rightarrow> bool) \<Rightarrow> bool" where
  "monotone_guarantee G \<longleftrightarrow> (\<forall>h h' e. G h e \<longrightarrow> set h \<subseteq> set h' \<longrightarrow> G h' e)"

definition guarded :: "(event list \<Rightarrow> event \<Rightarrow> bool) \<Rightarrow> 'r prog \<Rightarrow> bool" where
  "guarded G p \<longleftrightarrow> (\<forall>h. wp G p h (\<lambda>_ _. True))"

lemma guarded_Ret [intro, simp]: "guarded G (Ret x)"
  by (simp add: guarded_def)

lemma guarded_bind [intro]: "guarded G p \<Longrightarrow> (\<And>x. guarded G (f x)) \<Longrightarrow> guarded G (bind p f)"
  unfolding guarded_def wp_bind by (blast intro: wp_mono)

lemma guarded_bindE [intro]: "guarded G p \<Longrightarrow> (\<And>x. guarded G (f x)) \<Longrightarrow> guarded G (bindE p f)"
  unfolding bindE_def by (rule guarded_bind) (auto split: sum.split)

lemma guarded_wp: "guarded G p \<Longrightarrow> wp G p h (\<lambda>_ _. True)"
  by (simp add: guarded_def)

lemma guarded_path: "guarded G p \<Longrightarrow> path p es r \<Longrightarrow> guaranteed G [] es"
  using wp_pathD(1) [of G p "\<lambda>_ _. True"] by (simp add: guarded_def)

lemma timeout_step:
  assumes "monotone_guarantee G" and "\<And>h b. G h (EDeadline d b)" and "set h \<subseteq> set h'"
    and "G h E \<and> wp G p (h @ [E]) (\<lambda>_ _. True)"
    and "\<And>h h'. wp G p h (\<lambda>_ _. True) \<Longrightarrow> set h \<subseteq> set h' \<Longrightarrow> wp G (timeout d p) h' (\<lambda>_ _. True)"
  shows "G h' E \<and> (\<forall>b. G (h' @ [E]) (EDeadline d b)
    \<and> wp G (if b then Ret None else timeout d p) ((h' @ [E]) @ [EDeadline d b]) (\<lambda>_ _. True))"
proof -
  have "G h' E" using assms(1,3,4) unfolding monotone_guarantee_def by blast
  moreover have "wp G (timeout d p) ((h' @ [E]) @ [EDeadline d b]) (\<lambda>_ _. True)" for b
    by (rule assms(5) [of "h @ [E]"]) (use assms(3,4) in auto)
  ultimately show ?thesis using assms(2) by simp
qed

lemma wp_timeout_monotone:
  assumes "monotone_guarantee G" and "\<And>h b. G h (EDeadline d b)"
  shows "wp G p h (\<lambda>_ _. True) \<Longrightarrow> set h \<subseteq> set h' \<Longrightarrow> wp G (timeout d p) h' (\<lambda>_ _. True)"
proof (induction p arbitrary: h h')
  case (Ret x)
  then show ?case by simp
qed (simp only: timeout.simps wp.simps, (intro allI impI)?,
    rule timeout_step [OF assms], assumption, blast, blast)+

lemma guarded_timeout:
  "monotone_guarantee G \<Longrightarrow> (\<And>h b. G h (EDeadline d b)) \<Longrightarrow> guarded G p \<Longrightarrow> guarded G (timeout d p)"
  unfolding guarded_def using wp_timeout_monotone by blast

end
