(* ===== verification/Outbound.thy ===== *)
theory Outbound
  imports Requests Trace_Logic
begin

text \<open>
  Requests the relay sends: \<open>oauthrelay-core/src/outbound.rs\<close> (\<open>send_checked\<close>) and the fetching
  and caching of metadata documents in \<open>router.rs\<close>. Building a \<open>reqwest::Request\<close> from a parsed
  URL is taken to succeed.
\<close>

section \<open>Sending a request\<close>

record scope =
  scope_relay :: "string option"
  scope_upstream :: "string option"

datatype send_error = Denied | SendFailed

definition is_redirection :: "nat \<Rightarrow> bool" where
  "is_redirection status \<longleftrightarrow> 300 \<le> status \<and> status < 400"

definition is_success_status :: "nat \<Rightarrow> bool" where
  "is_success_status status \<longleftrightarrow> 200 \<le> status \<and> status < 300"

text \<open>\<open>policy\<close> says whether an outbound policy is configured.\<close>

definition send_checked ::
    "bool \<Rightarrow> http_request \<Rightarrow> outbound_purpose \<Rightarrow> scope \<Rightarrow> (send_error + http_response) prog" where
  "send_checked policy req purpose sc =
     (let u = req_url req;
          send = Execute req (\<lambda>r.
            case r of
              None \<Rightarrow> Ret (Inl SendFailed)
            | Some response \<Rightarrow>
                if res_url response \<noteq> u \<or> is_redirection (res_status response) then Ret (Inl SendFailed)
                else Ret (Inr response))
      in if policy
         then PolicyCheck \<lparr>offered_url = u, offered_purpose = purpose, offered_relay = scope_relay sc,
                offered_upstream = scope_upstream sc\<rparr> (\<lambda>allowed.
                if \<not> allowed then Ret (Inl Denied) else send)
         else send)"

section \<open>Metadata documents\<close>

definition DISCOVERY_TTL :: duration where "DISCOVERY_TTL = from_secs (60 * 60)"
definition JWKS_TTL :: duration where "JWKS_TTL = from_secs (10 * 60)"
definition JWKS_REFRESH_COOLDOWN :: duration where "JWKS_REFRESH_COOLDOWN = from_secs 30"
definition DISCOVERY_ABSENT_COOLDOWN :: duration where "DISCOVERY_ABSENT_COOLDOWN = from_secs 30"
definition METADATA_FETCH_TIMEOUT :: duration where "METADATA_FETCH_TIMEOUT = from_secs 10"

datatype fetch_failure = Absent | FetchUnavailable

definition get_request :: "url \<Rightarrow> duration option \<Rightarrow> http_request" where
  "get_request u t = \<lparr>req_method = GET, req_url = u, req_headers = [], req_form = [], req_timeout = t\<rparr>"

definition fetch_json_object ::
    "'z libs_scheme \<Rightarrow> bool \<Rightarrow> scope \<Rightarrow> url \<Rightarrow> outbound_purpose \<Rightarrow> (fetch_failure + json) prog" where
  "fetch_json_object L policy sc u purpose =
     bind (send_checked policy (get_request u (Some METADATA_FETCH_TIMEOUT)) purpose sc) (\<lambda>r.
       Ret (case r of
              Inl _ \<Rightarrow> Inl FetchUnavailable
            | Inr response \<Rightarrow>
                if res_status response = 404 \<or> res_status response = 410 then Inl Absent
                else if \<not> is_success_status (res_status response) then Inl FetchUnavailable
                else (case res_body response of
                        None \<Rightarrow> Inl FetchUnavailable
                      | Some body \<Rightarrow>
                          (case json_parse L body of
                             None \<Rightarrow> Inl Absent
                           | Some v \<Rightarrow> if is_object v then Inr v else Inl Absent))))"

fun purpose_str :: "outbound_purpose \<Rightarrow> string" where
  "purpose_str Discovery = ''discovery''"
| "purpose_str Jwks = ''jwks''"
| "purpose_str TokenExchange = ''token_exchange''"
| "purpose_str Refresh = ''refresh''"
| "purpose_str ClientAssertionMetadata = ''client_assertion_metadata''"
| "purpose_str ClientAssertionJwks = ''client_assertion_jwks''"

definition cache_key :: "outbound_purpose \<Rightarrow> url \<Rightarrow> string" where
  "cache_key purpose u = purpose_str purpose @ ''|'' @ as_str u"

text \<open>
  A cached entry that is younger than \<open>ttl\<close>, judged by the monotonic clock, which is read only
  when there is an entry.
\<close>

definition cache_lookup :: "cache_id \<Rightarrow> string \<Rightarrow> duration \<Rightarrow> cached_json option prog" where
  "cache_lookup i key ttl =
     CacheGet i key (\<lambda>e.
       case e of
         None \<Rightarrow> Ret None
       | Some entry \<Rightarrow> InstantNow (\<lambda>now. Ret (if now - fetched entry < ttl then Some entry else None)))"

definition cache_store :: "cache_id \<Rightarrow> string \<Rightarrow> json \<Rightarrow> unit prog" where
  "cache_store i key v = InstantNow (\<lambda>now. CachePut i key \<lparr>fetched = now, cached_value = v\<rparr> Ret)"

text \<open>Failures are HTTP status codes; every one of them is a 502 here.\<close>

definition cached_json_with_client ::
    "'z libs_scheme \<Rightarrow> cache_id \<Rightarrow> bool \<Rightarrow> scope \<Rightarrow> url \<Rightarrow> duration \<Rightarrow> outbound_purpose \<Rightarrow> (nat + json) prog" where
  "cached_json_with_client L i policy sc u ttl purpose =
     (let key = cache_key purpose u in
      bind (cache_lookup i key ttl) (\<lambda>hit.
        case hit of
          Some entry \<Rightarrow> Ret (Inr (cached_value entry))
        | None \<Rightarrow>
            bind (fetch_json_object L policy sc u purpose) (\<lambda>r.
              case r of
                Inl _ \<Rightarrow> Ret (Inl 502)
              | Inr v \<Rightarrow> bind (cache_store i key v) (\<lambda>_. Ret (Inr v)))))"

definition cached_json ::
    "'z libs_scheme \<Rightarrow> bool \<Rightarrow> scope \<Rightarrow> url \<Rightarrow> duration \<Rightarrow> outbound_purpose \<Rightarrow> (nat + json) prog" where
  "cached_json L policy sc u ttl purpose = cached_json_with_client L DocumentCache policy sc u ttl purpose"

section \<open>Endpoints of an upstream\<close>

record resolved_endpoints =
  e_authorization_endpoint :: url
  e_token_endpoint :: url
  e_jwks_uri :: "url option"

definition scope_of :: "relay \<Rightarrow> upstream \<Rightarrow> scope" where
  "scope_of r u = \<lparr>scope_relay = Some (r_key r), scope_upstream = Some (u_key u)\<rparr>"

definition discovery_url :: "'z libs_scheme \<Rightarrow> url \<Rightarrow> url" where
  "discovery_url L issuer =
     url_without_fragment L (url_without_query L
       (url_with_path L issuer (trim_end_matches (CHR ''/'') (path_of issuer) @ ''/.well-known/openid-configuration'')))"

definition url_field :: "'z libs_scheme \<Rightarrow> json \<Rightarrow> string \<Rightarrow> url option" where
  "url_field L doc name = Option.bind (Option.bind (json_get doc name) as_string) (url_parse L)"

definition endpoints_need_discovery :: "upstream \<Rightarrow> bool" where
  "endpoints_need_discovery u \<longleftrightarrow> authorization_endpoint u = None \<or> token_endpoint u = None"

definition or_else :: "'a option \<Rightarrow> 'a option \<Rightarrow> 'a option" where
  "or_else a b = (case a of None \<Rightarrow> b | Some x \<Rightarrow> Some x)"

definition resolve_endpoints_from_doc :: "'z libs_scheme \<Rightarrow> upstream \<Rightarrow> json \<Rightarrow> nat + resolved_endpoints" where
  "resolve_endpoints_from_doc L u doc =
     bind_result (ok_or 502 (or_else (authorization_endpoint u) (url_field L doc ''authorization_endpoint''))) (\<lambda>a.
     bind_result (ok_or 502 (or_else (token_endpoint u) (url_field L doc ''token_endpoint''))) (\<lambda>t.
       Inr \<lparr>e_authorization_endpoint = a, e_token_endpoint = t,
            e_jwks_uri = or_else (jwks_uri u) (url_field L doc ''jwks_uri'')\<rparr>))"

definition resolve_endpoints ::
    "'z libs_scheme \<Rightarrow> bool \<Rightarrow> relay \<Rightarrow> upstream \<Rightarrow> (nat + resolved_endpoints) prog" where
  "resolve_endpoints L policy r u =
     (if \<not> endpoints_need_discovery u then Ret (resolve_endpoints_from_doc L u (JObject []))
      else bindE (cached_json L policy (scope_of r u) (discovery_url L (issuer_url u)) DISCOVERY_TTL Discovery) (\<lambda>doc.
             Ret (resolve_endpoints_from_doc L u doc)))"

definition optional_discovery ::
    "'z libs_scheme \<Rightarrow> bool \<Rightarrow> relay \<Rightarrow> upstream \<Rightarrow> (nat + json option) prog" where
  "optional_discovery L policy r u =
     (let du = discovery_url L (issuer_url u); key = cache_key Discovery du in
      bind (cache_lookup DocumentCache key DISCOVERY_TTL) (\<lambda>hit.
        case hit of
          Some entry \<Rightarrow> Ret (Inr (Some (cached_value entry)))
        | None \<Rightarrow>
            bind (cache_lookup AbsentDiscovery key DISCOVERY_ABSENT_COOLDOWN) (\<lambda>absent.
              case absent of
                Some _ \<Rightarrow> Ret (Inr None)
              | None \<Rightarrow>
                  bind (fetch_json_object L policy (scope_of r u) du Discovery) (\<lambda>f.
                    case f of
                      Inr doc \<Rightarrow>
                        CacheRemove AbsentDiscovery key (\<lambda>_.
                        bind (cache_store DocumentCache key doc) (\<lambda>_. Ret (Inr (Some doc))))
                    | Inl Absent \<Rightarrow>
                        bind (cache_store AbsentDiscovery key JNull) (\<lambda>_. Ret (Inr None))
                    | Inl FetchUnavailable \<Rightarrow> Ret (Inl 502)))))"

definition resolve_jwks_uri ::
    "'z libs_scheme \<Rightarrow> bool \<Rightarrow> relay \<Rightarrow> upstream \<Rightarrow> (nat + url option) prog" where
  "resolve_jwks_uri L policy r u =
     (if jwks_uri u \<noteq> None then Ret (Inr (jwks_uri u))
      else bindE (optional_discovery L policy r u) (\<lambda>doc.
             Ret (Inr (Option.bind doc (\<lambda>d. url_field L d ''jwks_uri'')))))"

section \<open>Token requests to the upstream\<close>

definition basic_authorization :: "'z libs_scheme \<Rightarrow> string \<Rightarrow> string \<Rightarrow> string" where
  "basic_authorization L cid secret =
     ''Basic '' @ b64_encode L (byte_serialize L cid @ '':'' @ byte_serialize L secret)"

definition upstream_token_request ::
    "'z libs_scheme \<Rightarrow> upstream \<Rightarrow> url \<Rightarrow> (string \<times> string) list \<Rightarrow> http_request" where
  "upstream_token_request L u endpoint form =
     (case token_endpoint_auth_method u of
        ClientSecretPost \<Rightarrow>
          \<lparr>req_method = POST, req_url = endpoint, req_headers = [(''accept'', ''application/json'')],
           req_form = form @ [(''client_id'', client_id u), (''client_secret'', client_secret u)], req_timeout = None\<rparr>
      | ClientSecretBasic \<Rightarrow>
          \<lparr>req_method = POST, req_url = endpoint,
           req_headers = [(''accept'', ''application/json''),
             (''authorization'', basic_authorization L (client_id u) (client_secret u))],
           req_form = form, req_timeout = None\<rparr>)"

definition send_upstream_token_request ::
    "'z libs_scheme \<Rightarrow> bool \<Rightarrow> relay \<Rightarrow> upstream \<Rightarrow> url \<Rightarrow> (string \<times> string) list \<Rightarrow> outbound_purpose
       \<Rightarrow> (send_error + http_response) prog" where
  "send_upstream_token_request L policy r u endpoint form purpose =
     send_checked policy (upstream_token_request L u endpoint form) purpose (scope_of r u)"

definition client_credential_names :: "string list" where
  "client_credential_names = [''client_id'', ''client_secret'', ''client_assertion_type'', ''client_assertion'']"

text \<open>The form of a refresh grant, with the upstream's token in place of a handle.\<close>

definition refresh_form :: "(string \<times> string) list \<Rightarrow> string option \<Rightarrow> (string \<times> string) list" where
  "refresh_form pairs upstream_token =
     map (\<lambda>(name, v). case upstream_token of
            Some token \<Rightarrow> if name = ''refresh_token'' then (name, token) else (name, v)
          | None \<Rightarrow> (name, v))
       (filter (\<lambda>(name, _). name \<notin> set client_credential_names) pairs)"

end
