(* ===== verification/Store.thy ===== *)
theory Store
  imports Effects
begin

text \<open>
  The transient store of \<open>oauthrelay-core/src/store.rs\<close>: the checks every backend makes, the
  in-process \<open>MemoryStore\<close>, and the contract of the \<open>TransientStore\<close> trait as a locale. The
  contract speaks about the live value a key has at an instant; the two facts the callers
  build on (one winner among conditional creations, one winner among compare-and-swaps of the
  same bytes) are proved once, from the contract, for every history of operations.
\<close>

section \<open>Request validation\<close>

definition MAX_KEY_BYTES :: nat where
  "MAX_KEY_BYTES = 1024"

definition validate_key :: "string \<Rightarrow> store_error + unit" where
  "validate_key key =
     (if key = [] then Inl (StoreInvalid ''key must not be empty'')
      else if MAX_KEY_BYTES < length key then Inl (StoreInvalid ''key exceeds 1024 bytes'')
      else Inr ())"

definition validate_ttl :: "duration \<Rightarrow> store_error + unit" where
  "validate_ttl ttl =
     (if ttl = 0 then Inl (StoreInvalid ''ttl must be greater than zero'') else Inr ())"

definition valid_request :: "string \<Rightarrow> duration \<Rightarrow> bool" where
  "valid_request key ttl \<longleftrightarrow> is_ok (validate_key key) \<and> is_ok (validate_ttl ttl)"

lemma validate_key_cases: "validate_key key = Inr () \<or> (\<exists>m. validate_key key = Inl (StoreInvalid m))"
  by (simp add: validate_key_def)

lemma valid_requestD:
  assumes "valid_request key ttl"
  shows "validate_key key = Inr ()" and "validate_ttl ttl = Inr ()" and "0 < ttl"
  using assms
  by (auto simp: valid_request_def is_ok_iff validate_ttl_def validate_key_def split: if_splits)

section \<open>The in-process store\<close>

definition MEMORY_SWEEP_INTERVAL :: duration where
  "MEMORY_SWEEP_INTERVAL = from_secs 30"

record memory_record =
  mem_value :: bytes
  mem_expires :: nat

record memory_state =
  records :: "string \<rightharpoonup> memory_record"
  next_sweep :: nat

definition memory_new :: "nat \<Rightarrow> memory_state" where
  "memory_new now = \<lparr>records = Map.empty, next_sweep = now + MEMORY_SWEEP_INTERVAL\<rparr>"

text \<open>
  \<open>MemoryStore::lock\<close>: drops the expired records when a sweep is due. The instant is the
  clock reading every operation starts with.
\<close>

definition retain_live :: "nat \<Rightarrow> (string \<rightharpoonup> memory_record) \<Rightarrow> (string \<rightharpoonup> memory_record)" where
  "retain_live now m =
     (\<lambda>k. case m k of None \<Rightarrow> None | Some r \<Rightarrow> if now < mem_expires r then Some r else None)"

definition memory_lock :: "nat \<Rightarrow> memory_state \<Rightarrow> memory_state" where
  "memory_lock now st =
     (if next_sweep st \<le> now
      then st\<lparr>records := retain_live now (records st), next_sweep := now + MEMORY_SWEEP_INTERVAL\<rparr>
      else st)"

definition memory_put_if_absent ::
    "nat \<Rightarrow> string \<Rightarrow> bytes \<Rightarrow> duration \<Rightarrow> memory_state \<Rightarrow> (store_error + bool) \<times> memory_state" where
  "memory_put_if_absent now key value ttl st =
     (case bind_result (validate_key key) (\<lambda>_. validate_ttl ttl) of
        Inl e \<Rightarrow> (Inl e, st)
      | Inr _ \<Rightarrow>
          let st = memory_lock now st in
          if (case records st key of None \<Rightarrow> False | Some r \<Rightarrow> now < mem_expires r)
          then (Inr False, st)
          else (Inr True,
                st\<lparr>records := (records st)(key \<mapsto> \<lparr>mem_value = value, mem_expires = now + ttl\<rparr>)\<rparr>))"

definition memory_get ::
    "nat \<Rightarrow> string \<Rightarrow> memory_state \<Rightarrow> (store_error + entry option) \<times> memory_state" where
  "memory_get now key st =
     (case validate_key key of
        Inl e \<Rightarrow> (Inl e, st)
      | Inr _ \<Rightarrow>
          let st = memory_lock now st in
          (Inr (case records st key of
                  None \<Rightarrow> None
                | Some r \<Rightarrow>
                    if now < mem_expires r
                    then Some \<lparr>value_of = mem_value r, expires_in = mem_expires r - now\<rparr>
                    else None), st))"

definition memory_compare_and_swap ::
    "nat \<Rightarrow> string \<Rightarrow> bytes \<Rightarrow> bytes \<Rightarrow> duration \<Rightarrow> memory_state
     \<Rightarrow> (store_error + bool) \<times> memory_state" where
  "memory_compare_and_swap now key expected new ttl st =
     (case bind_result (validate_key key) (\<lambda>_. validate_ttl ttl) of
        Inl e \<Rightarrow> (Inl e, st)
      | Inr _ \<Rightarrow>
          let st = memory_lock now st in
          (case records st key of
             Some r \<Rightarrow>
               if now < mem_expires r \<and> mem_value r = expected
               then (Inr True,
                     st\<lparr>records := (records st)(key \<mapsto> \<lparr>mem_value = new, mem_expires = now + ttl\<rparr>)\<rparr>)
               else (Inr False, st)
           | None \<Rightarrow> (Inr False, st)))"

definition memory_delete ::
    "nat \<Rightarrow> string \<Rightarrow> memory_state \<Rightarrow> (store_error + unit) \<times> memory_state" where
  "memory_delete now key st =
     (case validate_key key of
        Inl e \<Rightarrow> (Inl e, st)
      | Inr _ \<Rightarrow>
          let st = memory_lock now st in (Inr (), st\<lparr>records := (records st)(key := None)\<rparr>))"

text \<open>The live value of a key at an instant, and the whole live record with its expiry.\<close>

definition memory_view :: "memory_state \<Rightarrow> nat \<Rightarrow> string \<Rightarrow> bytes option" where
  "memory_view st t key =
     (case records st key of
        None \<Rightarrow> None
      | Some r \<Rightarrow> if t < mem_expires r then Some (mem_value r) else None)"

lemma memory_lock_view: "now \<le> t \<Longrightarrow> memory_view (memory_lock now st) t key = memory_view st t key"
  by (auto simp: memory_lock_def memory_view_def retain_live_def split: option.splits)

text \<open>A sweep that was due removes every expired record.\<close>

lemma memory_lock_sweeps:
  "next_sweep st \<le> now \<Longrightarrow> records (memory_lock now st) key = Some r \<Longrightarrow> now < mem_expires r"
  by (auto simp: memory_lock_def retain_live_def split: option.splits if_splits)

section \<open>The contract of a transient store\<close>

text \<open>
  Histories: one timed operation after another. An operation of the contract either writes
  (a conditional creation or a compare-and-swap, which report whether they applied) or does
  not; \<open>exec_ops\<close> returns for each operation whether it was a write that applied.
\<close>

datatype store_op =
    SPut string bytes duration
  | SGet string
  | SCas string bytes bytes duration
  | SDelete string

fun exec_op ::
    "(nat \<Rightarrow> string \<Rightarrow> bytes \<Rightarrow> duration \<Rightarrow> 's \<Rightarrow> (store_error + bool) \<times> 's) \<Rightarrow>
     (nat \<Rightarrow> string \<Rightarrow> 's \<Rightarrow> (store_error + entry option) \<times> 's) \<Rightarrow>
     (nat \<Rightarrow> string \<Rightarrow> bytes \<Rightarrow> bytes \<Rightarrow> duration \<Rightarrow> 's \<Rightarrow> (store_error + bool) \<times> 's) \<Rightarrow>
     (nat \<Rightarrow> string \<Rightarrow> 's \<Rightarrow> (store_error + unit) \<times> 's) \<Rightarrow>
     nat \<Rightarrow> store_op \<Rightarrow> 's \<Rightarrow> bool \<times> 's" where
  "exec_op put get cas del now (SPut k v ttl) s = (let (r, s') = put now k v ttl s in (r = Inr True, s'))"
| "exec_op put get cas del now (SGet k) s = (let (r, s') = get now k s in (False, s'))"
| "exec_op put get cas del now (SCas k e n ttl) s = (let (r, s') = cas now k e n ttl s in (r = Inr True, s'))"
| "exec_op put get cas del now (SDelete k) s = (let (r, s') = del now k s in (False, s'))"

fun exec_ops ::
    "(nat \<Rightarrow> string \<Rightarrow> bytes \<Rightarrow> duration \<Rightarrow> 's \<Rightarrow> (store_error + bool) \<times> 's) \<Rightarrow>
     (nat \<Rightarrow> string \<Rightarrow> 's \<Rightarrow> (store_error + entry option) \<times> 's) \<Rightarrow>
     (nat \<Rightarrow> string \<Rightarrow> bytes \<Rightarrow> bytes \<Rightarrow> duration \<Rightarrow> 's \<Rightarrow> (store_error + bool) \<times> 's) \<Rightarrow>
     (nat \<Rightarrow> string \<Rightarrow> 's \<Rightarrow> (store_error + unit) \<times> 's) \<Rightarrow>
     (nat \<times> store_op) list \<Rightarrow> 's \<Rightarrow> bool list \<times> 's" where
  "exec_ops put get cas del [] s = ([], s)"
| "exec_ops put get cas del ((now, op) # ops) s =
     (let (b, s') = exec_op put get cas del now op s;
          (bs, s'') = exec_ops put get cas del ops s'
      in (b # bs, s''))"

fun op_key :: "store_op \<Rightarrow> string" where
  "op_key (SPut k v ttl) = k"
| "op_key (SGet k) = k"
| "op_key (SCas k e n ttl) = k"
| "op_key (SDelete k) = k"

text \<open>The value an operation would write, and the time to live it would give it.\<close>

fun op_writes :: "store_op \<Rightarrow> (bytes \<times> duration) option" where
  "op_writes (SPut k v ttl) = Some (v, ttl)"
| "op_writes (SCas k e n ttl) = Some (n, ttl)"
| "op_writes _ = None"

fun is_put_on :: "string \<Rightarrow> store_op \<Rightarrow> bool" where
  "is_put_on k (SPut k' v ttl) \<longleftrightarrow> k' = k"
| "is_put_on k _ \<longleftrightarrow> False"

fun is_cas_of :: "string \<Rightarrow> bytes \<Rightarrow> store_op \<Rightarrow> bool" where
  "is_cas_of k e (SCas k' e' n ttl) \<longleftrightarrow> k' = k \<and> e' = e"
| "is_cas_of k e _ \<longleftrightarrow> False"

text \<open>How many operations of a kind applied in a history.\<close>

definition wins :: "(store_op \<Rightarrow> bool) \<Rightarrow> (nat \<times> store_op) list \<Rightarrow> bool list \<Rightarrow> nat" where
  "wins P ops bs = length (filter (\<lambda>((t, op), b). P op \<and> b) (zip ops bs))"

definition valid_op :: "store_op \<Rightarrow> bool" where
  "valid_op op \<longleftrightarrow>
     is_ok (validate_key (op_key op)) \<and>
     (case op_writes op of None \<Rightarrow> True | Some (v, ttl) \<Rightarrow> is_ok (validate_ttl ttl))"

lemma wins_Nil [simp]: "wins P [] bs = 0"
  by (simp add: wins_def)

lemma wins_Cons [simp]:
  "wins P ((t, op) # ops) (b # bs) = (if P op \<and> b then 1 else 0) + wins P ops bs"
  by (simp add: wins_def)

text \<open>The keys and values a history tries to write.\<close>

fun written :: "(nat \<times> store_op) list \<Rightarrow> (string \<times> bytes) list" where
  "written [] = []"
| "written ((t, op) # ops) =
     (case op_writes op of None \<Rightarrow> written ops | Some (v, ttl) \<Rightarrow> (op_key op, v) # written ops)"

text \<open>
  A history as the callers of the trait produce it: well-formed requests at non-decreasing
  instants, every written value different from every other one written to that key.
\<close>

definition proper_history :: "(nat \<times> store_op) list \<Rightarrow> bool" where
  "proper_history ops \<longleftrightarrow>
     sorted (map fst ops) \<and> (\<forall>(t, op)\<in>set ops. valid_op op) \<and> distinct (written ops)"

lemma proper_history_Cons:
  "proper_history ((t, op) # ops) \<longleftrightarrow>
     valid_op op \<and> (\<forall>(t', op')\<in>set ops. t \<le> t') \<and> proper_history ops \<and>
     (\<forall>v ttl. op_writes op = Some (v, ttl) \<longrightarrow> (op_key op, v) \<notin> set (written ops))"
  by (cases "op_writes op") (auto simp: proper_history_def)

text \<open>None of the values the history writes is live yet.\<close>

definition unwritten ::
    "('s \<Rightarrow> nat \<Rightarrow> string \<Rightarrow> bytes option) \<Rightarrow> (nat \<times> store_op) list \<Rightarrow> nat \<Rightarrow> 's \<Rightarrow> bool" where
  "unwritten view ops now s \<longleftrightarrow>
     (\<forall>(k, v)\<in>set (written ops). \<forall>t\<ge>now. view s t k \<noteq> Some v)"

text \<open>
  Every write of the history happens at an instant and with a time to live the backend's clock
  can represent.
\<close>

definition in_range :: "(nat \<Rightarrow> duration \<Rightarrow> bool) \<Rightarrow> (nat \<times> store_op) list \<Rightarrow> bool" where
  "in_range fits ops \<longleftrightarrow>
     (\<forall>(t, op)\<in>set ops. \<forall>v ttl. op_writes op = Some (v, ttl) \<longrightarrow> fits t ttl)"

lemma in_range_Cons [simp]:
  "in_range fits ((t, op) # ops) \<longleftrightarrow>
     (\<forall>v ttl. op_writes op = Some (v, ttl) \<longrightarrow> fits t ttl) \<and> in_range fits ops"
  by (simp add: in_range_def)

lemma in_range_always [simp]: "in_range (\<lambda>_ _. True) ops"
  by (auto simp: in_range_def)

text \<open>
  \<open>until now ttl\<close> is the first instant at which a record written at \<open>now\<close> is gone, and
  \<open>fits now ttl\<close> says that the backend's clock can represent it. The write laws carry the
  caller's obligation of the trait, that a written value is not already there.
\<close>

locale transient_store =
  fixes put :: "nat \<Rightarrow> string \<Rightarrow> bytes \<Rightarrow> duration \<Rightarrow> 's \<Rightarrow> (store_error + bool) \<times> 's"
    and get :: "nat \<Rightarrow> string \<Rightarrow> 's \<Rightarrow> (store_error + entry option) \<times> 's"
    and cas :: "nat \<Rightarrow> string \<Rightarrow> bytes \<Rightarrow> bytes \<Rightarrow> duration \<Rightarrow> 's \<Rightarrow> (store_error + bool) \<times> 's"
    and del :: "nat \<Rightarrow> string \<Rightarrow> 's \<Rightarrow> (store_error + unit) \<times> 's"
    and view :: "'s \<Rightarrow> nat \<Rightarrow> string \<Rightarrow> bytes option"
    and until :: "nat \<Rightarrow> duration \<Rightarrow> nat"
    and fits :: "nat \<Rightarrow> duration \<Rightarrow> bool"
  assumes put_ok: "\<lbrakk>valid_request k ttl; view s now k \<noteq> Some v; fits now ttl\<rbrakk> \<Longrightarrow>
      fst (put now k v ttl s) = Inr (view s now k = None)"
    and put_view: "\<lbrakk>valid_request k ttl; view s now k \<noteq> Some v; fits now ttl; now \<le> t\<rbrakk> \<Longrightarrow>
      view (snd (put now k v ttl s)) t k' =
        (if k' = k \<and> view s now k = None then (if t < until now ttl then Some v else None)
         else view s t k')"
    and get_ok: "is_ok (validate_key k) \<Longrightarrow>
      \<exists>e. fst (get now k s) = Inr e \<and> map_option value_of e = view s now k"
    and get_view: "\<lbrakk>is_ok (validate_key k); now \<le> t\<rbrakk> \<Longrightarrow> view (snd (get now k s)) t k' = view s t k'"
    and cas_ok: "\<lbrakk>valid_request k ttl; view s now k \<noteq> Some n; fits now ttl\<rbrakk> \<Longrightarrow>
      fst (cas now k e n ttl s) = Inr (view s now k = Some e)"
    and cas_view: "\<lbrakk>valid_request k ttl; view s now k \<noteq> Some n; fits now ttl; now \<le> t\<rbrakk> \<Longrightarrow>
      view (snd (cas now k e n ttl s)) t k' =
        (if k' = k \<and> view s now k = Some e then (if t < until now ttl then Some n else None)
         else view s t k')"
    and del_ok: "is_ok (validate_key k) \<Longrightarrow> fst (del now k s) = Inr ()"
    and del_view: "\<lbrakk>is_ok (validate_key k); now \<le> t\<rbrakk> \<Longrightarrow>
      view (snd (del now k s)) t k' = (if k' = k then None else view s t k')"
    and view_mono: "\<lbrakk>view s t k = None; t \<le> t'\<rbrakk> \<Longrightarrow> view s t' k = None"
    and until_lasts: "fits now ttl \<Longrightarrow> now + ttl \<le> until now ttl"
begin

lemmas write_laws = put_ok put_view get_view cas_ok cas_view del_view

text \<open>One operation, seen at the contract's level.\<close>

lemma exec_op_view:
  assumes "valid_op op" and "now \<le> t"
    and "\<forall>v ttl. op_writes op = Some (v, ttl) \<longrightarrow> fits now ttl \<and> view s now (op_key op) \<noteq> Some v"
  shows "view (snd (exec_op put get cas del now op s)) t k =
    (case op of
       SPut k' v ttl \<Rightarrow>
         if k = k' \<and> view s now k = None then (if t < until now ttl then Some v else None)
         else view s t k
     | SGet k' \<Rightarrow> view s t k
     | SCas k' e n ttl \<Rightarrow>
         if k = k' \<and> view s now k = Some e then (if t < until now ttl then Some n else None)
         else view s t k
     | SDelete k' \<Rightarrow> if k = k' then None else view s t k)"
proof (cases op)
  case (SPut k' v ttl)
  then have "valid_request k' ttl" using assms(1) by (auto simp: valid_op_def valid_request_def)
  then show ?thesis using SPut assms put_view [of k' ttl s now v t k]
    by (auto simp: case_prod_unfold Let_def)
next
  case (SGet k')
  then show ?thesis using assms get_view [of k' now t s k]
    by (auto simp: case_prod_unfold Let_def valid_op_def)
next
  case (SCas k' e n ttl)
  then have "valid_request k' ttl" using assms(1) by (auto simp: valid_op_def valid_request_def)
  then show ?thesis using SCas assms cas_view [of k' ttl s now n t e k]
    by (auto simp: case_prod_unfold Let_def)
next
  case (SDelete k')
  then show ?thesis using assms del_view [of k' now t s k]
    by (auto simp: case_prod_unfold Let_def valid_op_def)
qed

lemma exec_op_wins:
  assumes "valid_op op"
    and "\<forall>v ttl. op_writes op = Some (v, ttl) \<longrightarrow> fits now ttl \<and> view s now (op_key op) \<noteq> Some v"
  shows "fst (exec_op put get cas del now op s) \<longleftrightarrow>
    (case op of SPut k v ttl \<Rightarrow> view s now k = None | SCas k e n ttl \<Rightarrow> view s now k = Some e
     | _ \<Rightarrow> False)"
proof (cases op)
  case (SPut k v ttl)
  then have "valid_request k ttl" using assms(1) by (auto simp: valid_op_def valid_request_def)
  then show ?thesis using SPut assms put_ok [of k ttl s now v]
    by (auto simp: case_prod_unfold Let_def)
next
  case (SCas k e n ttl)
  then have "valid_request k ttl" using assms(1) by (auto simp: valid_op_def valid_request_def)
  then show ?thesis using SCas assms cas_ok [of k ttl s now n e]
    by (auto simp: case_prod_unfold Let_def)
qed (auto simp: case_prod_unfold Let_def)

lemma unwritten_step:
  assumes "proper_history ((now, op) # ops)" and "in_range fits ((now, op) # ops)" and "unwritten view ((now, op) # ops) now s"
    and "now \<le> now'"
  shows "unwritten view ops now' (snd (exec_op put get cas del now op s))"
proof -
  have valid: "valid_op op"
    and fresh: "\<forall>v ttl. op_writes op = Some (v, ttl) \<longrightarrow> fits now ttl \<and> view s now (op_key op) \<noteq> Some v"
    using assms(1,2,3) by (auto simp: proper_history_Cons unwritten_def)
  show ?thesis
    unfolding unwritten_def
  proof (clarify)
    fix k v t assume kv: "(k, v) \<in> set (written ops)" and t: "now' \<le> t"
    have "view s t k \<noteq> Some v"
      using assms(3,4) kv t by (cases "op_writes op") (auto simp: unwritten_def)
    moreover have "op_writes op = Some (v, ttl) \<Longrightarrow> op_key op = k \<Longrightarrow> False" for ttl
      using assms(1) kv by (auto simp: proper_history_Cons)
    moreover assume "view (snd (exec_op put get cas del now op s)) t k = Some v"
    ultimately show False
      using exec_op_view [OF valid _ fresh, of t k] assms(4) t by (cases op) (auto split: if_splits)
  qed
qed

lemma history_fresh:
  assumes "proper_history ((now, op) # ops)" and "in_range fits ((now, op) # ops)" and "unwritten view ((now, op) # ops) now s"
  shows "valid_op op"
    and "\<forall>v ttl. op_writes op = Some (v, ttl) \<longrightarrow> fits now ttl \<and> view s now (op_key op) \<noteq> Some v"
  using assms by (auto simp: proper_history_Cons unwritten_def)

text \<open>A value that is gone, and that nobody writes, is never swapped for another one.\<close>

lemma gone_value_never_matches:
  assumes "proper_history ops" and "in_range fits ops" and "unwritten view ops now s" and "\<forall>(t, op)\<in>set ops. now \<le> t"
    and "(k, e) \<notin> set (written ops)" and "\<forall>t\<ge>now. view s t k \<noteq> Some e"
  shows "wins (is_cas_of k e) ops (fst (exec_ops put get cas del ops s)) = 0"
  using assms
proof (induction ops arbitrary: now s)
  case Nil
  show ?case by simp
next
  case (Cons x ops)
  obtain t op where x: "x = (t, op)" by force
  let ?s = "snd (exec_op put get cas del t op s)"
  have le: "now \<le> t" using Cons.prems(4) x by simp
  have un: "unwritten view ((t, op) # ops) t s"
    using Cons.prems(3) le x by (auto simp: unwritten_def)
  have hist: "proper_history ((t, op) # ops)" using Cons.prems(1) x by simp
  have range: "in_range fits ((t, op) # ops)" using Cons.prems(2) x by simp
  note fresh = history_fresh [OF hist range un]
  have gone: "view ?s u k \<noteq> Some e" if "t \<le> u" for u
  proof -
    have "view s u k \<noteq> Some e" using Cons.prems(6) le that by simp
    moreover have "op_writes op = Some (e, ttl) \<Longrightarrow> op_key op = k \<Longrightarrow> False" for ttl
      using Cons.prems(5) x by auto
    ultimately show ?thesis
      using exec_op_view [OF fresh(1) that fresh(2), of k] by (cases op) auto
  qed
  have "wins (is_cas_of k e) ops (fst (exec_ops put get cas del ops ?s)) = 0"
  proof (rule Cons.IH [of t])
    show "proper_history ops" using hist by (simp add: proper_history_Cons)
    show "in_range fits ops" using range by simp
    show "unwritten view ops t ?s" using unwritten_step [OF hist range un] by simp
    show "\<forall>(t', op)\<in>set ops. t \<le> t'" using hist by (simp add: proper_history_Cons)
    show "(k, e) \<notin> set (written ops)"
      using Cons.prems(5) x by (cases "op_writes op") auto
    show "\<forall>u\<ge>t. view ?s u k \<noteq> Some e" using gone by simp
  qed
  moreover have "\<not> (is_cas_of k e op \<and> fst (exec_op put get cas del t op s))"
    using exec_op_wins [OF fresh] Cons.prems(6) le by (cases op) auto
  ultimately show ?case
    unfolding x by (simp add: case_prod_unfold Let_def)
qed

text \<open>At most one compare-and-swap of the same bytes applies, whoever issues them.\<close>

lemma cas_single_winner:
  assumes "proper_history ops" and "in_range fits ops" and "unwritten view ops now s" and "\<forall>(t, op)\<in>set ops. now \<le> t"
    and "(k, e) \<notin> set (written ops)"
  shows "wins (is_cas_of k e) ops (fst (exec_ops put get cas del ops s)) \<le> 1"
  using assms
proof (induction ops arbitrary: now s)
  case Nil
  show ?case by simp
next
  case (Cons x ops)
  obtain t op where x: "x = (t, op)" by force
  let ?s = "snd (exec_op put get cas del t op s)"
  have le: "now \<le> t" using Cons.prems(4) x by simp
  have un: "unwritten view ((t, op) # ops) t s"
    using Cons.prems(3) le x by (auto simp: unwritten_def)
  have hist: "proper_history ((t, op) # ops)" using Cons.prems(1) x by simp
  have range: "in_range fits ((t, op) # ops)" using Cons.prems(2) x by simp
  note fresh = history_fresh [OF hist range un]
  have rest: "proper_history ops" "in_range fits ops" "unwritten view ops t ?s" "\<forall>(t', op)\<in>set ops. t \<le> t'"
    "(k, e) \<notin> set (written ops)"
    using hist range unwritten_step [OF hist range un] Cons.prems(5) x
    by (auto simp: proper_history_Cons split: option.splits)
  show ?case
  proof (cases "is_cas_of k e op \<and> fst (exec_op put get cas del t op s)")
    case True
    then obtain n ttl where op: "op = SCas k e n ttl" by (cases op) auto
    have "n \<noteq> e" using Cons.prems(5) x op by auto
    then have "\<forall>u\<ge>t. view ?s u k \<noteq> Some e"
      using exec_op_view [OF fresh(1) _ fresh(2), of _ k] exec_op_wins [OF fresh] True op by auto
    from gone_value_never_matches [OF rest this] True show ?thesis
      unfolding x by (simp add: case_prod_unfold Let_def)
  next
    case False
    with Cons.IH [OF rest] show ?thesis
      unfolding x by (auto simp: case_prod_unfold Let_def)
  qed
qed

text \<open>
  Conditional creations of one key: as long as nobody deletes or replaces the record and the
  history is shorter than the time to live, at most one of them applies.
\<close>

lemma present_key_never_created:
  assumes "proper_history ops" and "in_range fits ops" and "unwritten view ops now s" and "\<forall>(t, op)\<in>set ops. now \<le> t"
    and "\<forall>(t, op)\<in>set ops. op_key op = k \<longrightarrow> is_put_on k op \<or> op = SGet k"
    and "\<forall>(t, op)\<in>set ops. view s t k \<noteq> None"
  shows "wins (is_put_on k) ops (fst (exec_ops put get cas del ops s)) = 0"
  using assms
proof (induction ops arbitrary: now s)
  case Nil
  show ?case by simp
next
  case (Cons x ops)
  obtain t op where x: "x = (t, op)" by force
  let ?s = "snd (exec_op put get cas del t op s)"
  have le: "now \<le> t" using Cons.prems(4) x by simp
  have un: "unwritten view ((t, op) # ops) t s"
    using Cons.prems(3) le x by (auto simp: unwritten_def)
  have hist: "proper_history ((t, op) # ops)" using Cons.prems(1) x by simp
  have range: "in_range fits ((t, op) # ops)" using Cons.prems(2) x by simp
  note fresh = history_fresh [OF hist range un]
  have here: "view s t k \<noteq> None" using Cons.prems(6) x by simp
  have keep: "view ?s u k = view s u k" if "t \<le> u" for u
    using exec_op_view [OF fresh(1) that fresh(2), of k] here Cons.prems(5) x
    by (cases op) auto
  have "wins (is_put_on k) ops (fst (exec_ops put get cas del ops ?s)) = 0"
  proof (rule Cons.IH [of t])
    show "proper_history ops" using hist by (simp add: proper_history_Cons)
    show "in_range fits ops" using range by simp
    show "unwritten view ops t ?s" using unwritten_step [OF hist range un] by simp
    show later: "\<forall>(t', op)\<in>set ops. t \<le> t'" using hist by (simp add: proper_history_Cons)
    show "\<forall>(t, op)\<in>set ops. op_key op = k \<longrightarrow> is_put_on k op \<or> op = SGet k"
      using Cons.prems(5) x by simp
    show "\<forall>(t', op)\<in>set ops. view ?s t' k \<noteq> None"
      using Cons.prems(6) x later keep by fastforce
  qed
  moreover have "\<not> (is_put_on k op \<and> fst (exec_op put get cas del t op s))"
    using exec_op_wins [OF fresh] here by (cases op) auto
  ultimately show ?case
    unfolding x by (simp add: case_prod_unfold Let_def)
qed

lemma put_single_winner:
  assumes "proper_history ops" and "in_range fits ops" and "unwritten view ops now s" and "\<forall>(t, op)\<in>set ops. now \<le> t"
    and "\<forall>(t, op)\<in>set ops. op_key op = k \<longrightarrow> is_put_on k op \<or> op = SGet k"
    and "\<forall>(t, op)\<in>set ops. \<forall>v ttl. op = SPut k v ttl \<longrightarrow> (\<forall>(t', op')\<in>set ops. t' < t + ttl)"
  shows "wins (is_put_on k) ops (fst (exec_ops put get cas del ops s)) \<le> 1"
  using assms
proof (induction ops arbitrary: now s)
  case Nil
  show ?case by simp
next
  case (Cons x ops)
  obtain t op where x: "x = (t, op)" by force
  let ?s = "snd (exec_op put get cas del t op s)"
  have le: "now \<le> t" using Cons.prems(4) x by simp
  have un: "unwritten view ((t, op) # ops) t s"
    using Cons.prems(3) le x by (auto simp: unwritten_def)
  have hist: "proper_history ((t, op) # ops)" using Cons.prems(1) x by simp
  have range: "in_range fits ((t, op) # ops)" using Cons.prems(2) x by simp
  note fresh = history_fresh [OF hist range un]
  have rest: "proper_history ops" "in_range fits ops" "unwritten view ops t ?s" "\<forall>(t', op)\<in>set ops. t \<le> t'"
    "\<forall>(t, op)\<in>set ops. op_key op = k \<longrightarrow> is_put_on k op \<or> op = SGet k"
    using hist range unwritten_step [OF hist range un] Cons.prems(5) x
    by (simp_all add: proper_history_Cons)
  show ?case
  proof (cases "is_put_on k op \<and> fst (exec_op put get cas del t op s)")
    case True
    then obtain v ttl where op: "op = SPut k v ttl" by (cases op) auto
    have "view ?s t' k \<noteq> None" if in_ops: "(t', op') \<in> set ops" for t' op'
    proof -
      have "t' < t + ttl" using Cons.prems(6) x op in_ops by fastforce
      then have "t' < until t ttl" using until_lasts [of t ttl] range op by simp
      moreover have "t \<le> t'" using rest(4) in_ops by auto
      ultimately show ?thesis
        using exec_op_view [OF fresh(1) _ fresh(2), of t' k] exec_op_wins [OF fresh] True op
        by auto
    qed
    then have "\<forall>(t', op')\<in>set ops. view ?s t' k \<noteq> None" by blast
    from present_key_never_created [OF rest this] True show ?thesis
      unfolding x by (simp add: case_prod_unfold Let_def)
  next
    case False
    have "\<forall>(t, op)\<in>set ops. \<forall>v ttl. op = SPut k v ttl \<longrightarrow> (\<forall>(t', op')\<in>set ops. t' < t + ttl)"
      using Cons.prems(6) x by fastforce
    from Cons.IH [OF rest this] False show ?thesis
      unfolding x by (auto simp: case_prod_unfold Let_def)
  qed
qed

end

section \<open>The in-process store keeps the contract\<close>

interpretation memory: transient_store memory_put_if_absent memory_get memory_compare_and_swap
  memory_delete memory_view "\<lambda>now ttl. now + ttl" "\<lambda>_ _. True"
proof (unfold_locales, goal_cases)
  case (1 k ttl s now v)
  then show ?case
    using memory_lock_view [of now now s k] valid_requestD [of k ttl]
    by (auto simp: memory_put_if_absent_def memory_view_def Let_def split: option.splits if_splits)
next
  case (2 k ttl s now v t k')
  then show ?case
    using memory_lock_view [of now now s k] memory_lock_view [of now t s k'] valid_requestD [of k ttl]
    by (auto simp: memory_put_if_absent_def memory_view_def Let_def split: option.splits if_splits)
next
  case (3 k now s)
  then show ?case
    using memory_lock_view [of now now s k]
    by (auto simp: memory_get_def memory_view_def is_ok_iff Let_def split: option.splits if_splits)
next
  case (4 k now t s k')
  then show ?case
    using memory_lock_view [of now t s k'] by (auto simp: memory_get_def is_ok_iff Let_def)
next
  case (5 k ttl s now n e)
  then show ?case
    using memory_lock_view [of now now s k] valid_requestD [of k ttl]
    by (auto simp: memory_compare_and_swap_def memory_view_def Let_def split: option.splits if_splits)
next
  case (6 k ttl s now n t e k')
  then show ?case
    using memory_lock_view [of now now s k] memory_lock_view [of now t s k'] valid_requestD [of k ttl]
    by (auto simp: memory_compare_and_swap_def memory_view_def Let_def split: option.splits if_splits)
next
  case (7 k now s)
  then show ?case by (auto simp: memory_delete_def is_ok_iff Let_def)
next
  case (8 k now t s k')
  then show ?case
    using memory_lock_view [of now t s k']
    by (auto simp: memory_delete_def memory_view_def is_ok_iff Let_def)
next
  case (9 s t k t')
  then show ?case by (auto simp: memory_view_def split: option.splits if_splits)
next
  case (10 now ttl)
  show ?case by simp
qed

end
