(* ===== verification/Sealing.thy ===== *)
theory Sealing
  imports Effects
begin

text \<open>
  The sealer of \<open>oauthrelay-core/src/seal.rs\<close>: \<open>XChaChaSealer\<close> with its current and previous
  key, over the cipher of the crate \<open>chacha20poly1305\<close>, which is a parameter. The contract of
  the \<open>Sealer\<close> trait is a locale; \<open>XChaChaSealer\<close> keeps it whenever the cipher is an
  authenticated encryption.
\<close>

section \<open>The sealer\<close>

text \<open>Encryption and decryption take the key, the nonce, the associated data and the message.\<close>

record seal_libs = libs +
  aead_encrypt :: "bytes \<Rightarrow> bytes \<Rightarrow> bytes \<Rightarrow> bytes \<Rightarrow> bytes option"
  aead_decrypt :: "bytes \<Rightarrow> bytes \<Rightarrow> bytes \<Rightarrow> bytes \<Rightarrow> bytes option"

record xchacha_sealer =
  current :: bytes
  previous :: "bytes option"

definition xchacha_new :: "bytes \<Rightarrow> bytes option \<Rightarrow> seal_error + xchacha_sealer" where
  "xchacha_new cur prev =
     (if length cur \<noteq> 32 then Inl InvalidKey
      else (case prev of
              None \<Rightarrow> Inr \<lparr>current = cur, previous = None\<rparr>
            | Some key \<Rightarrow>
                if length key \<noteq> 32 then Inl InvalidKey
                else Inr \<lparr>current = cur, previous = Some key\<rparr>))"

definition try_unseal ::
    "'z seal_libs_scheme \<Rightarrow> bytes \<Rightarrow> bytes \<Rightarrow> bytes \<Rightarrow> bytes \<Rightarrow> seal_error + bytes" where
  "try_unseal L key nonce ciphertext associated_data =
     ok_or InvalidEnvelope (aead_decrypt L key nonce associated_data ciphertext)"

text \<open>\<open>seal\<close> draws a 24-byte nonce, the argument here.\<close>

definition xchacha_seal ::
    "'z seal_libs_scheme \<Rightarrow> xchacha_sealer \<Rightarrow> bytes \<Rightarrow> bytes \<Rightarrow> bytes \<Rightarrow> seal_error + string" where
  "xchacha_seal L S nonce plaintext associated_data =
     bind_result (ok_or InvalidEnvelope (aead_encrypt L (current S) nonce associated_data plaintext))
       (\<lambda>ciphertext. Inr (''v1.'' @ b64url_encode L (nonce @ ciphertext)))"

definition xchacha_unseal ::
    "'z seal_libs_scheme \<Rightarrow> xchacha_sealer \<Rightarrow> string \<Rightarrow> bytes \<Rightarrow> seal_error + bytes" where
  "xchacha_unseal L S envelope associated_data =
     bind_result (ok_or InvalidEnvelope (strip_prefix ''v1.'' envelope)) (\<lambda>encoded.
     bind_result (ok_or InvalidEnvelope (b64url_decode L encoded)) (\<lambda>bs.
       if length bs \<le> 24 then Inl InvalidEnvelope
       else let nonce = take 24 bs; ciphertext = drop 24 bs in
            case try_unseal L (current S) nonce ciphertext associated_data of
              Inr plaintext \<Rightarrow> Inr plaintext
            | Inl _ \<Rightarrow>
                bind_result (ok_or InvalidEnvelope (previous S)) (\<lambda>key.
                  try_unseal L key nonce ciphertext associated_data)))"

section \<open>What is assumed of the libraries\<close>

definition b64url_ok :: "'z libs_scheme \<Rightarrow> bool" where
  "b64url_ok L \<longleftrightarrow> (\<forall>x. b64url_decode L (b64url_encode L x) = Some x)"

text \<open>Decryption inverts encryption, and a ciphertext carries a tag, so it is not empty.\<close>

definition aead_ok :: "'z seal_libs_scheme \<Rightarrow> bool" where
  "aead_ok L \<longleftrightarrow>
     (\<forall>k n d m c. aead_encrypt L k n d m = Some c \<longrightarrow> c \<noteq> [] \<and> aead_decrypt L k n d c = Some m)"

text \<open>
  Authenticity, idealised: whatever decrypts was encrypted with that key, nonce and associated
  data, and one ciphertext belongs to one key and one associated data only.
\<close>

definition aead_authentic :: "'z seal_libs_scheme \<Rightarrow> bool" where
  "aead_authentic L \<longleftrightarrow>
     (\<forall>k n d m c. aead_decrypt L k n d c = Some m \<longrightarrow> aead_encrypt L k n d m = Some c) \<and>
     (\<forall>k n d m k' n' d' m' c. aead_encrypt L k n d m = Some c \<longrightarrow>
        aead_encrypt L k' n' d' m' = Some c \<longrightarrow> k = k' \<and> n = n' \<and> d = d' \<and> m = m')"

section \<open>The contract of a sealer\<close>

locale sealer =
  fixes seal :: "bytes \<Rightarrow> bytes \<Rightarrow> bytes \<Rightarrow> seal_error + string"
    and unseal :: "string \<Rightarrow> bytes \<Rightarrow> seal_error + bytes"
  assumes unseal_seal:
      "length n = 24 \<Longrightarrow> seal n p d = Inr e \<Longrightarrow> unseal e d = Inr p"
    and unseal_bound:
      "length n = 24 \<Longrightarrow> seal n p d = Inr e \<Longrightarrow> unseal e d' = Inr p' \<Longrightarrow> d' = d"
    and seal_fresh:
      "length n = 24 \<Longrightarrow> length n' = 24 \<Longrightarrow> seal n p d = Inr e \<Longrightarrow> seal n' p' d' = Inr e \<Longrightarrow> n = n'"
begin

text \<open>An envelope opens exactly under the associated data it was sealed with.\<close>

lemma unseal_iff:
  "length n = 24 \<Longrightarrow> seal n p d = Inr e \<Longrightarrow> unseal e d' = Inr p' \<longleftrightarrow> d' = d \<and> p' = p"
  using unseal_seal unseal_bound by fastforce

text \<open>Two values sealed with different nonces are never equal, whatever they hold.\<close>

lemma sealed_values_differ:
  "length n = 24 \<Longrightarrow> length n' = 24 \<Longrightarrow> n \<noteq> n' \<Longrightarrow> seal n p d = Inr e \<Longrightarrow> seal n' p' d' = Inr e' \<Longrightarrow>
     e \<noteq> e'"
  using seal_fresh by blast

end

section \<open>XChaChaSealer keeps the contract\<close>

lemma xchacha_seal_Inr:
  "xchacha_seal L S n p d = Inr e \<longleftrightarrow>
     (\<exists>c. aead_encrypt L (current S) n d p = Some c \<and> e = ''v1.'' @ b64url_encode L (n @ c))"
  by (auto simp: xchacha_seal_def bind_result_Inr_iff)

lemma try_unseal_Inr: "try_unseal L k n c d = Inr p \<longleftrightarrow> aead_decrypt L k n d c = Some p"
  by (simp add: try_unseal_def)

lemma xchacha_unseal_sealed:
  assumes "b64url_ok L" and "length n = 24" and "c \<noteq> []"
  shows "xchacha_unseal L S (''v1.'' @ b64url_encode L (n @ c)) d =
    (case aead_decrypt L (current S) n d c of
       Some p \<Rightarrow> Inr p
     | None \<Rightarrow>
         (case previous S of
            None \<Rightarrow> Inl InvalidEnvelope
          | Some k \<Rightarrow> ok_or InvalidEnvelope (aead_decrypt L k n d c)))"
proof -
  have dec: "b64url_decode L (b64url_encode L (n @ c)) = Some (n @ c)"
    using assms(1) by (simp add: b64url_ok_def)
  have strip: "strip_prefix ''v1.'' (''v1.'' @ b64url_encode L (n @ c)) = Some (b64url_encode L (n @ c))"
    by (rule strip_prefix_append)
  have len: "\<not> length (n @ c) \<le> 24" using assms(2,3) by (cases c) auto
  have parts: "take 24 (n @ c) = n" "drop 24 (n @ c) = c" using assms(2) by simp_all
  show ?thesis
    unfolding xchacha_unseal_def strip ok_or_def option.case bind_result.simps dec Let_def parts
    using len
    by (simp add: try_unseal_def ok_or_def split: option.splits)
qed

text \<open>A value sealed under the current key or under what is now the previous key opens.\<close>

lemma xchacha_rotation:
  assumes "b64url_ok L" and "aead_ok L" and "length n = 24"
    and "xchacha_seal L S n p d = Inr e"
    and "current S' = current S \<or>
      previous S' = Some (current S) \<and> aead_decrypt L (current S') n d (drop 24 (the (b64url_decode L (drop 3 e)))) = None"
  shows "xchacha_unseal L S' e d = Inr p"
proof -
  obtain c where c: "aead_encrypt L (current S) n d p = Some c" "e = ''v1.'' @ b64url_encode L (n @ c)"
    using assms(4) by (auto simp: xchacha_seal_Inr)
  have ne: "c \<noteq> []" and dec: "aead_decrypt L (current S) n d c = Some p"
    using assms(2) c(1) by (auto simp: aead_ok_def)
  have "the (b64url_decode L (drop 3 e)) = n @ c"
    using assms(1) c(2) by (simp add: b64url_ok_def)
  then show ?thesis
    using assms(3,5) dec unfolding c(2) xchacha_unseal_sealed [OF assms(1,3) ne]
    by (auto simp: ok_or_def)
qed

lemma xchacha_is_sealer:
  assumes "b64url_ok L" and "aead_ok L" and "aead_authentic L"
  shows "sealer (xchacha_seal L S) (xchacha_unseal L S)"
proof
  fix n p d e
  assume n: "length (n :: bytes) = 24" and s: "xchacha_seal L S n p d = Inr e"
  then show "xchacha_unseal L S e d = Inr p"
    using xchacha_rotation [OF assms(1,2) n s, of S] by simp
  fix d' p' assume u: "xchacha_unseal L S e d' = Inr p'"
  obtain c where c: "aead_encrypt L (current S) n d p = Some c" "e = ''v1.'' @ b64url_encode L (n @ c)"
    using s by (auto simp: xchacha_seal_Inr)
  have ne: "c \<noteq> []" using assms(2) c(1) by (auto simp: aead_ok_def)
  have "\<exists>k. aead_decrypt L k n d' c = Some p'"
    using u unfolding c(2) xchacha_unseal_sealed [OF assms(1) n ne]
    by (auto split: option.splits)
  then show "d' = d"
    using assms(3) c(1) unfolding aead_authentic_def by blast
next
  fix n n' p d e p' d'
  assume n: "length (n :: bytes) = 24" "length (n' :: bytes) = 24"
    and s: "xchacha_seal L S n p d = Inr e" "xchacha_seal L S n' p' d' = Inr e"
  obtain c where "e = ''v1.'' @ b64url_encode L (n @ c)"
    using s(1) by (auto simp: xchacha_seal_Inr)
  moreover obtain c' where "e = ''v1.'' @ b64url_encode L (n' @ c')"
    using s(2) by (auto simp: xchacha_seal_Inr)
  ultimately have "b64url_encode L (n @ c) = b64url_encode L (n' @ c')" by simp
  then have "n @ c = n' @ c'" using assms(1) by (metis b64url_ok_def option.inject)
  then show "n = n'" using n by simp
qed

section \<open>A concrete instance of the library functions\<close>

text \<open>
  An executable stand-in for the parameters, used to evaluate the theorems at concrete inputs:
  the base64, hash and string-literal functions are the identity, the members of an object are
  written framed by their lengths, and the cipher writes its key, nonce and associated data,
  framed too, in front of the message.
\<close>

definition frame :: "bytes \<Rightarrow> bytes" where
  "frame x = replicate (length x) (CHR ''1'') @ CHR ''0'' # x"

definition framed_context :: "bytes \<Rightarrow> bytes \<Rightarrow> bytes \<Rightarrow> bytes" where
  "framed_context k n d = frame k @ frame n @ frame d"

lemma frame_length_inj:
  "replicate a (CHR ''1'') @ CHR ''0'' # x = replicate b (CHR ''1'') @ CHR ''0'' # y \<Longrightarrow> a = b"
proof (induction a arbitrary: b)
  case 0
  then show ?case by (cases b) auto
next
  case (Suc a)
  then show ?case by (cases b) auto
qed

lemma frame_inj: "frame x @ a = frame y @ b \<longleftrightarrow> x = y \<and> a = b"
proof
  assume eq: "frame x @ a = frame y @ b"
  then have "length x = length y"
    using frame_length_inj [of "length x" "x @ a" "length y" "y @ b"] by (simp add: frame_def)
  with eq show "x = y \<and> a = b" by (simp add: frame_def)
qed simp

definition unframe :: "bytes \<Rightarrow> (bytes \<times> bytes) option" where
  "unframe s =
     (let n = length (takeWhile (\<lambda>c. c = CHR ''1'') s) in
      case drop n s of
        [] \<Rightarrow> None
      | c # t \<Rightarrow> if c = CHR ''0'' \<and> n \<le> length t then Some (take n t, drop n t) else None)"

lemma unframe_frame [simp]: "unframe (frame x @ r) = Some (x, r)"
  by (simp add: unframe_def frame_def takeWhile_append)

lemma unframe_shorter: "unframe s = Some (x, r) \<Longrightarrow> length r < length s"
  by (auto simp: unframe_def Let_def split: list.splits if_splits
      dest!: arg_cong [where f = length])

function demo_members_parse :: "bytes \<Rightarrow> (string \<times> string) list option" where
  "demo_members_parse s =
     (if s = [] then Some []
      else case unframe s of
             None \<Rightarrow> None
           | Some (name, r) \<Rightarrow>
               (case unframe r of
                  None \<Rightarrow> None
                | Some (v, r') \<Rightarrow> map_option (Cons (name, v)) (demo_members_parse r')))"
  by pat_completeness auto
termination
  by (relation "measure length") (auto dest!: unframe_shorter)

definition demo_members_print :: "(string \<times> string) list \<Rightarrow> bytes" where
  "demo_members_print ms = concat (map (\<lambda>(name, v). frame name @ frame v) ms)"

lemma frame_not_Nil [simp]: "frame x \<noteq> []"
  by (simp add: frame_def)

declare demo_members_parse.simps [simp del]

lemma demo_members_roundtrip: "demo_members_parse (demo_members_print ms) = Some ms"
  by (induction ms) (auto simp: demo_members_print_def demo_members_parse.simps)

definition demo_url :: "string \<Rightarrow> url" where
  "demo_url s =
     \<lparr>scheme = ''https'', username = [], password = None, host_of = Some (Domain ''app.example''),
      host_str = Some ''app.example'', port = None, port_or_known_default = Some 443,
      path_of = ''/cb'', query = None, fragment = None, as_str = s\<rparr>"

definition demo_libs :: seal_libs where
  "demo_libs =
     \<lparr>sha256 = (\<lambda>x. x), b64url_encode = (\<lambda>x. x), b64url_decode = Some,
      b64_encode = (\<lambda>x. x), b64_decode = Some, utf8_valid = (\<lambda>_. True),
      url_parse = (\<lambda>s. if starts_with ''https://app.example'' s then Some (demo_url s) else None),
      ipv6_parse = (\<lambda>_. None), url_with_path = (\<lambda>u p. u\<lparr>path_of := p\<rparr>),
      url_without_query = (\<lambda>u. u\<lparr>query := None\<rparr>), url_without_fragment = (\<lambda>u. u\<lparr>fragment := None\<rparr>),
      url_append_pairs = (\<lambda>u ps. u), form_parse = (\<lambda>_. []), form_serialize = (\<lambda>_. []),
      byte_serialize = (\<lambda>s. s), json_parse = (\<lambda>_. None), members_parse = demo_members_parse,
      members_print = (\<lambda>ms. Some (demo_members_print ms)),
      raw_string_parse = Some, raw_string_print = Some,
      utf8_lossy = (\<lambda>s. s), header_valid = (\<lambda>_. True),
      aead_encrypt = (\<lambda>k n d m. Some (framed_context k n d @ m)),
      aead_decrypt = (\<lambda>k n d c. strip_prefix (framed_context k n d) c)\<rparr>"

lemma demo_libs_ok: "b64url_ok demo_libs" "aead_ok demo_libs" "aead_authentic demo_libs"
  by (auto simp: b64url_ok_def aead_ok_def aead_authentic_def demo_libs_def framed_context_def
      strip_prefix_Some frame_inj)

definition demo_sealer :: xchacha_sealer where
  "demo_sealer = \<lparr>current = replicate 32 (CHR ''k''), previous = None\<rparr>"

interpretation xchacha: sealer "xchacha_seal demo_libs demo_sealer" "xchacha_unseal demo_libs demo_sealer"
  by (rule xchacha_is_sealer) (rule demo_libs_ok)+

end
