(* ===== verification/Execution.thy ===== *)
theory Execution
  imports Store Sealing
begin

text \<open>
  Running a program in one process: the \<open>MemoryStore\<close>, a sealer, a random generator, an HTTP
  peer and one clock, which only \<open>sleep\<close> advances. This gives the functional behaviour of a
  request that nothing else disturbs; the statements about \<open>path\<close> cover every other behaviour
  of the environment, and \<open>run_path\<close> says that a run is one of those behaviours.
\<close>

section \<open>The machine and its world\<close>

text \<open>\<open>draw i n\<close> is the \<open>i\<close>-th draw of the generator, of \<open>n\<close> bytes; sealing draws a nonce of 24.\<close>

record 'h machine =
  seal_with :: "bytes \<Rightarrow> bytes \<Rightarrow> bytes \<Rightarrow> seal_error + string"
  unseal_with :: "string \<Rightarrow> bytes \<Rightarrow> seal_error + bytes"
  draw :: "nat \<Rightarrow> nat \<Rightarrow> bytes"
  allows :: "outbound_request \<Rightarrow> bool"
  answer :: "http_request \<Rightarrow> 'h \<Rightarrow> http_response option \<times> 'h"

record 'h world =
  mem :: memory_state
  now_ns :: nat
  draws :: nat
  peer :: 'h
  caches :: "cache_id \<Rightarrow> string \<Rightarrow> cached_json option"

primrec run :: "'h machine \<Rightarrow> 'r prog \<Rightarrow> 'h world \<Rightarrow> 'r \<times> 'h world" where
  "run M (Ret x) w = (x, w)"
| "run M (PutIfAbsent k v t c) w =
     (let (a, st) = memory_put_if_absent (now_ns w) k v t (mem w) in run M (c a) (w\<lparr>mem := st\<rparr>))"
| "run M (GetEntry k c) w =
     (let (a, st) = memory_get (now_ns w) k (mem w) in run M (c a) (w\<lparr>mem := st\<rparr>))"
| "run M (CompareAndSwap k e n t c) w =
     (let (a, st) = memory_compare_and_swap (now_ns w) k e n t (mem w) in run M (c a) (w\<lparr>mem := st\<rparr>))"
| "run M (DeleteKey k c) w =
     (let (a, st) = memory_delete (now_ns w) k (mem w) in run M (c a) (w\<lparr>mem := st\<rparr>))"
| "run M (Seal p d c) w =
     run M (c (seal_with M (draw M (draws w) 24) p d)) (w\<lparr>draws := draws w + 1\<rparr>)"
| "run M (Unseal s d c) w = run M (c (unseal_with M s d)) w"
| "run M (ClockMs c) w = run M (c (now_ns w div 1000000)) w"
| "run M (UnixNow c) w = run M (c (now_ns w div 1000000000)) w"
| "run M (InstantNow c) w = run M (c (now_ns w)) w"
| "run M (Sleep d c) w = run M (c ()) (w\<lparr>now_ns := now_ns w + d\<rparr>)"
| "run M (Deadline d c) w = run M (c False) w"
| "run M (RandomBytes n c) w = run M (c (draw M (draws w) n)) (w\<lparr>draws := draws w + 1\<rparr>)"
| "run M (PolicyCheck r c) w = run M (c (allows M r)) w"
| "run M (Execute r c) w = (let (a, h) = answer M r (peer w) in run M (c a) (w\<lparr>peer := h\<rparr>))"
| "run M (CacheGet i k c) w = run M (c (caches w i k)) w"
| "run M (CachePut i k v c) w =
     run M (c ()) (w\<lparr>caches := (caches w)(i := (caches w i)(k \<mapsto> v))\<rparr>)"
| "run M (CacheRemove i k c) w =
     run M (c ()) (w\<lparr>caches := (caches w)(i := (caches w i)(k := None))\<rparr>)"

lemma run_bind: "run M (bind p f) w = (let (x, w') = run M p w in run M (f x) w')"
  by (induction p arbitrary: w) (simp_all add: case_prod_unfold Let_def)

lemma run_bindE:
  "run M (bindE p f) w =
     (let (r, w') = run M p w in case r of Inl e \<Rightarrow> (Inl e, w') | Inr x \<Rightarrow> run M (f x) w')"
  by (auto simp: bindE_def run_bind case_prod_unfold Let_def split: sum.splits)

text \<open>With one clock that the calls do not advance, no deadline passes inside a call.\<close>

lemma run_timeout: "run M (timeout d p) w = (let (x, w') = run M p w in (Some x, w'))"
  by (induction p arbitrary: w) (simp_all add: case_prod_unfold Let_def)

text \<open>A run is one of the program's traces.\<close>

lemma run_path:
  assumes "\<forall>i n. length (draw M i n) = n"
  shows "\<exists>es. path p es (fst (run M p w))"
proof (induction p arbitrary: w)
  case (Ret x)
  show ?case by simp
qed (simp add: case_prod_unfold Let_def; metis rangeI assms)+

text \<open>A machine whose sealer keeps its contract and whose generator fills its buffers.\<close>

definition machine_ok :: "'h machine \<Rightarrow> bool" where
  "machine_ok M \<longleftrightarrow>
     sealer (seal_with M) (unseal_with M) \<and> (\<forall>i n. length (draw M i n) = n)"

section \<open>The store as a map\<close>

text \<open>
  The specification of the store: a map of live records, from which a record disappears at its
  expiry. \<open>spec_run\<close> is \<open>run\<close> over this map.
\<close>

definition spec_put ::
    "nat \<Rightarrow> string \<Rightarrow> bytes \<Rightarrow> duration \<Rightarrow> (string \<rightharpoonup> memory_record) \<Rightarrow> (store_error + bool) \<times> (string \<rightharpoonup> memory_record)" where
  "spec_put now k v ttl m =
     (case bind_result (validate_key k) (\<lambda>_. validate_ttl ttl) of
        Inl e \<Rightarrow> (Inl e, m)
      | Inr _ \<Rightarrow> if m k = None then (Inr True, m(k \<mapsto> \<lparr>mem_value = v, mem_expires = now + ttl\<rparr>))
                 else (Inr False, m))"

definition spec_get ::
    "nat \<Rightarrow> string \<Rightarrow> (string \<rightharpoonup> memory_record) \<Rightarrow> store_error + entry option" where
  "spec_get now k m =
     (case validate_key k of
        Inl e \<Rightarrow> Inl e
      | Inr _ \<Rightarrow> Inr (map_option (\<lambda>r. \<lparr>value_of = mem_value r, expires_in = mem_expires r - now\<rparr>) (m k)))"

definition spec_cas ::
    "nat \<Rightarrow> string \<Rightarrow> bytes \<Rightarrow> bytes \<Rightarrow> duration \<Rightarrow> (string \<rightharpoonup> memory_record)
       \<Rightarrow> (store_error + bool) \<times> (string \<rightharpoonup> memory_record)" where
  "spec_cas now k e n ttl m =
     (case bind_result (validate_key k) (\<lambda>_. validate_ttl ttl) of
        Inl err \<Rightarrow> (Inl err, m)
      | Inr _ \<Rightarrow> if map_option mem_value (m k) = Some e
                 then (Inr True, m(k \<mapsto> \<lparr>mem_value = n, mem_expires = now + ttl\<rparr>))
                 else (Inr False, m))"

definition spec_delete ::
    "string \<Rightarrow> (string \<rightharpoonup> memory_record) \<Rightarrow> (store_error + unit) \<times> (string \<rightharpoonup> memory_record)" where
  "spec_delete k m =
     (case validate_key k of Inl e \<Rightarrow> (Inl e, m) | Inr _ \<Rightarrow> (Inr (), m(k := None)))"

record 'h spec_world =
  s_store :: "string \<rightharpoonup> memory_record"
  s_now :: nat
  s_draws :: nat
  s_peer :: 'h
  s_caches :: "cache_id \<Rightarrow> string \<Rightarrow> cached_json option"

primrec spec_run :: "'h machine \<Rightarrow> 'r prog \<Rightarrow> 'h spec_world \<Rightarrow> 'r \<times> 'h spec_world" where
  "spec_run M (Ret x) w = (x, w)"
| "spec_run M (PutIfAbsent k v t c) w =
     (let (a, m) = spec_put (s_now w) k v t (s_store w) in spec_run M (c a) (w\<lparr>s_store := m\<rparr>))"
| "spec_run M (GetEntry k c) w = spec_run M (c (spec_get (s_now w) k (s_store w))) w"
| "spec_run M (CompareAndSwap k e n t c) w =
     (let (a, m) = spec_cas (s_now w) k e n t (s_store w) in spec_run M (c a) (w\<lparr>s_store := m\<rparr>))"
| "spec_run M (DeleteKey k c) w =
     (let (a, m) = spec_delete k (s_store w) in spec_run M (c a) (w\<lparr>s_store := m\<rparr>))"
| "spec_run M (Seal p d c) w =
     spec_run M (c (seal_with M (draw M (s_draws w) 24) p d)) (w\<lparr>s_draws := s_draws w + 1\<rparr>)"
| "spec_run M (Unseal s d c) w = spec_run M (c (unseal_with M s d)) w"
| "spec_run M (ClockMs c) w = spec_run M (c (s_now w div 1000000)) w"
| "spec_run M (UnixNow c) w = spec_run M (c (s_now w div 1000000000)) w"
| "spec_run M (InstantNow c) w = spec_run M (c (s_now w)) w"
| "spec_run M (Sleep d c) w =
     spec_run M (c ()) (w\<lparr>s_now := s_now w + d, s_store := retain_live (s_now w + d) (s_store w)\<rparr>)"
| "spec_run M (Deadline d c) w = spec_run M (c False) w"
| "spec_run M (RandomBytes n c) w =
     spec_run M (c (draw M (s_draws w) n)) (w\<lparr>s_draws := s_draws w + 1\<rparr>)"
| "spec_run M (PolicyCheck r c) w = spec_run M (c (allows M r)) w"
| "spec_run M (Execute r c) w =
     (let (a, h) = answer M r (s_peer w) in spec_run M (c a) (w\<lparr>s_peer := h\<rparr>))"
| "spec_run M (CacheGet i k c) w = spec_run M (c (s_caches w i k)) w"
| "spec_run M (CachePut i k v c) w =
     spec_run M (c ()) (w\<lparr>s_caches := (s_caches w)(i := (s_caches w i)(k \<mapsto> v))\<rparr>)"
| "spec_run M (CacheRemove i k c) w =
     spec_run M (c ()) (w\<lparr>s_caches := (s_caches w)(i := (s_caches w i)(k := None))\<rparr>)"

text \<open>The live records of a world: expired ones may still be there, waiting for a sweep.\<close>

definition abs_world :: "'h world \<Rightarrow> 'h spec_world" where
  "abs_world w =
     \<lparr>s_store = retain_live (now_ns w) (records (mem w)), s_now = now_ns w, s_draws = draws w,
      s_peer = peer w, s_caches = caches w\<rparr>"

lemma retain_live_lock: "retain_live now (records (memory_lock now st)) = retain_live now (records st)"
  by (auto simp: memory_lock_def retain_live_def fun_eq_iff split: option.splits)

lemma retain_live_at: "retain_live now m k = (case m k of None \<Rightarrow> None | Some r \<Rightarrow> if now < mem_expires r then Some r else None)"
  by (simp add: retain_live_def)

lemma retain_live_later: "retain_live (now + d) (retain_live now m) = retain_live (now + d) m"
  by (auto simp: retain_live_def fun_eq_iff split: option.splits)

lemma retain_live_insert:
  "0 < ttl \<Longrightarrow> retain_live now (m(k \<mapsto> \<lparr>mem_value = v, mem_expires = now + ttl\<rparr>)) =
     (retain_live now m)(k \<mapsto> \<lparr>mem_value = v, mem_expires = now + ttl\<rparr>)"
  by (auto simp: retain_live_def fun_eq_iff)

lemma retain_live_remove: "retain_live now (m(k := None)) = (retain_live now m)(k := None)"
  by (auto simp: retain_live_def fun_eq_iff)

lemmas memory_refines_simps =
  Let_def validate_key_def validate_ttl_def retain_live_insert retain_live_remove retain_live_at

lemma memory_put_refines:
  "map_prod id (\<lambda>st. retain_live now (records st)) (memory_put_if_absent now k v ttl st) =
     spec_put now k v ttl (retain_live now (records st))"
  using fun_cong [OF retain_live_lock [of now st], of k, unfolded retain_live_at]
  by (auto simp: memory_put_if_absent_def spec_put_def retain_live_lock memory_refines_simps
      split: option.splits if_splits)

lemma memory_get_refines:
  "map_prod id (\<lambda>st. retain_live now (records st)) (memory_get now k st) =
     (spec_get now k (retain_live now (records st)), retain_live now (records st))"
  using fun_cong [OF retain_live_lock [of now st], of k, unfolded retain_live_at]
  by (auto simp: memory_get_def spec_get_def retain_live_lock memory_refines_simps split: option.splits if_splits)

lemma memory_cas_refines:
  "map_prod id (\<lambda>st. retain_live now (records st)) (memory_compare_and_swap now k e n ttl st) =
     spec_cas now k e n ttl (retain_live now (records st))"
  using fun_cong [OF retain_live_lock [of now st], of k, unfolded retain_live_at]
  by (auto simp: memory_compare_and_swap_def spec_cas_def retain_live_lock memory_refines_simps
      split: option.splits if_splits)

lemma memory_delete_refines:
  "map_prod id (\<lambda>st. retain_live now (records st)) (memory_delete now k st) =
     spec_delete k (retain_live now (records st))"
  using fun_cong [OF retain_live_lock [of now st], of k, unfolded retain_live_at]
  by (auto simp: memory_delete_def spec_delete_def retain_live_lock memory_refines_simps
      split: option.splits if_splits)

lemma run_refines:
  "map_prod id abs_world (run M p w) = spec_run M p (abs_world w)"
proof (induction p arbitrary: w)
  case (PutIfAbsent k v ttl c)
  obtain a st where m: "memory_put_if_absent (now_ns w) k v ttl (mem w) = (a, st)" by fastforce
  with memory_put_refines [of "now_ns w" k v ttl "mem w", symmetric]
  show ?case
    using PutIfAbsent [of "c a" "w\<lparr>mem := st\<rparr>"] by (simp add: abs_world_def)
next
  case (GetEntry k c)
  obtain a st where m: "memory_get (now_ns w) k (mem w) = (a, st)" by fastforce
  with memory_get_refines [of "now_ns w" k "mem w", symmetric]
  show ?case
    using GetEntry [of "c a" "w\<lparr>mem := st\<rparr>"] by (auto simp: abs_world_def)
next
  case (CompareAndSwap k e n ttl c)
  obtain a st where m: "memory_compare_and_swap (now_ns w) k e n ttl (mem w) = (a, st)" by fastforce
  with memory_cas_refines [of "now_ns w" k e n ttl "mem w", symmetric]
  show ?case
    using CompareAndSwap [of "c a" "w\<lparr>mem := st\<rparr>"] by (simp add: abs_world_def)
next
  case (DeleteKey k c)
  obtain a st where m: "memory_delete (now_ns w) k (mem w) = (a, st)" by fastforce
  with memory_delete_refines [of "now_ns w" k "mem w", symmetric]
  show ?case
    using DeleteKey [of "c a" "w\<lparr>mem := st\<rparr>"] by (simp add: abs_world_def)
qed (auto simp: abs_world_def case_prod_unfold Let_def retain_live_later)

lemma spec_run_bind: "spec_run M (bind p f) w = (let (x, w') = spec_run M p w in spec_run M (f x) w')"
  by (induction p arbitrary: w) (simp_all add: case_prod_unfold Let_def)

lemma spec_run_bindE:
  "spec_run M (bindE p f) w =
     (let (r, w') = spec_run M p w in case r of Inl e \<Rightarrow> (Inl e, w') | Inr x \<Rightarrow> spec_run M (f x) w')"
  by (auto simp: bindE_def spec_run_bind case_prod_unfold Let_def split: sum.splits)

lemma spec_run_timeout: "spec_run M (timeout d p) w = (let (x, w') = spec_run M p w in (Some x, w'))"
  by (induction p arbitrary: w) (simp_all add: case_prod_unfold Let_def)

text \<open>Time does not run backwards.\<close>

lemma spec_run_now_mono: "t \<le> s_now w \<Longrightarrow> t \<le> s_now (snd (spec_run M p w))"
  by (induction p arbitrary: w) (simp_all add: case_prod_unfold Let_def)

end
