(* ===== verification/Refresh_Handle.thy ===== *)
theory Refresh_Handle
  imports Model Execution
begin

text \<open>
  Sealed refresh-token handles, \<open>oauthrelay-core/src/refresh_handle.rs\<close>: the binding of a
  handle to its relay and upstream identity, sealing and opening, recognising a handle, and the
  substitution of the \<open>refresh_token\<close> member of a token response. \<open>postcard\<close>'s encoding of the
  sealed struct and \<open>serde_json\<close>'s reading of object members are parameters.
\<close>

section \<open>The upstream identity of a handle\<close>

definition issuer_identifier :: "url \<Rightarrow> string" where
  "issuer_identifier u =
     (if path_of u = ''/'' \<and> query u = None \<and> fragment u = None
      then trim_end_matches (CHR ''/'') (as_str u) else as_str u)"

definition FINGERPRINT_DOMAIN :: bytes where
  "FINGERPRINT_DOMAIN = ''oauthrelay refresh-token binding v1''"

text \<open>\<open>u64::to_be_bytes\<close>.\<close>

definition to_be_bytes :: "nat \<Rightarrow> bytes" where
  "to_be_bytes n = map (\<lambda>i. char_of (n div 256 ^ (7 - i) mod 256)) [0..<8]"

definition fingerprint_field :: "string option \<Rightarrow> bytes" where
  "fingerprint_field v =
     (case v of
        None \<Rightarrow> [CHR 0x00]
      | Some s \<Rightarrow> CHR 0x01 # to_be_bytes (as_u64 (length s)) @ s)"

text \<open>The bytes fed to the hasher, then the hash.\<close>

definition fingerprint_preimage :: "relay \<Rightarrow> upstream \<Rightarrow> bytes" where
  "fingerprint_preimage r u =
     FINGERPRINT_DOMAIN @ fingerprint_field (generation r)
       @ fingerprint_field (Some (issuer_identifier (issuer_url u)))
       @ fingerprint_field (map_option as_str (token_endpoint u))
       @ fingerprint_field (Some (client_id u))"

definition fingerprint :: "'z libs_scheme \<Rightarrow> relay \<Rightarrow> upstream \<Rightarrow> bytes" where
  "fingerprint L r u = sha256 L (fingerprint_preimage r u)"

record handle_binding =
  b_relay :: string
  b_fingerprint :: bytes

definition binding_new :: "'z libs_scheme \<Rightarrow> relay \<Rightarrow> upstream \<Rightarrow> handle_binding" where
  "binding_new L r u = \<lparr>b_relay = r_key r, b_fingerprint = fingerprint L r u\<rparr>"

text \<open>What the fingerprint identifies.\<close>

definition upstream_identity :: "relay \<Rightarrow> upstream \<Rightarrow> string option \<times> string \<times> string option \<times> string" where
  "upstream_identity r u =
     (generation r, issuer_identifier (issuer_url u), map_option as_str (token_endpoint u), client_id u)"

subsection \<open>No two identities share an encoding\<close>

lemma length_to_be_bytes [simp]: "length (to_be_bytes n) = 8"
  by (simp add: to_be_bytes_def)

lemma base_256_inj:
  "(a :: nat) < 256 ^ k \<Longrightarrow> b < 256 ^ k \<Longrightarrow>
     (\<And>i. i < k \<Longrightarrow> a div 256 ^ i mod 256 = b div 256 ^ i mod 256) \<Longrightarrow> a = b"
proof (induction k arbitrary: a b)
  case (Suc k)
  have "a div 256 = b div 256"
  proof (rule Suc.IH)
    fix i assume "i < k"
    then show "a div 256 div 256 ^ i mod 256 = b div 256 div 256 ^ i mod 256"
      using Suc.prems(3) [of "Suc i"] by (simp add: div_mult2_eq)
  qed (use Suc.prems in auto)
  moreover have "a mod 256 = b mod 256" using Suc.prems(3) [of 0] by simp
  ultimately show ?case by (metis div_mult_mod_eq)
qed simp

lemma to_be_bytes_inj:
  assumes "a \<le> u64_max" and "b \<le> u64_max" and "to_be_bytes a = to_be_bytes b"
  shows "a = b"
proof (rule base_256_inj [where k = 8])
  fix i :: nat assume "i < 8"
  then have "to_be_bytes a ! (7 - i) = to_be_bytes b ! (7 - i)" using assms(3) by simp
  moreover have "[0..<8] ! (7 - i) = 7 - i" using \<open>i < 8\<close> by (subst nth_upt) auto
  ultimately show "a div 256 ^ i mod 256 = b div 256 ^ i mod 256"
    using \<open>i < 8\<close> by (simp add: to_be_bytes_def)
qed (use assms in \<open>auto simp: u64_max_def\<close>)

definition fits :: "string option \<Rightarrow> bool" where
  "fits v \<longleftrightarrow> (\<forall>s. v = Some s \<longrightarrow> length s \<le> u64_max)"

text \<open>One field, followed by anything, is read off in one way.\<close>

lemma fingerprint_field_inj:
  assumes "fits v" and "fits w" and "fingerprint_field v @ x = fingerprint_field w @ y"
  shows "v = w \<and> x = y"
proof (cases v; cases w)
  fix s t assume v: "v = Some s" and w: "w = Some t"
  have eq: "to_be_bytes (length s) @ s @ x = to_be_bytes (length t) @ t @ y"
    using assms v w by (simp add: fingerprint_field_def fits_def as_u64_id)
  then have "to_be_bytes (length s) = to_be_bytes (length t)" by (simp add: append_eq_append_conv)
  then have "length s = length t"
    using to_be_bytes_inj assms(1,2) v w by (auto simp: fits_def)
  with eq v w show ?thesis by simp
qed (use assms in \<open>auto simp: fingerprint_field_def\<close>)

definition identity_fits :: "relay \<Rightarrow> upstream \<Rightarrow> bool" where
  "identity_fits r u \<longleftrightarrow>
     fits (generation r) \<and> fits (Some (issuer_identifier (issuer_url u)))
     \<and> fits (map_option as_str (token_endpoint u)) \<and> fits (Some (client_id u))"

lemma fingerprint_preimage_inj:
  assumes "identity_fits r u" and "identity_fits r' u'"
  shows "fingerprint_preimage r u = fingerprint_preimage r' u' \<longleftrightarrow>
    upstream_identity r u = upstream_identity r' u'"
proof
  note fits = assms [unfolded identity_fits_def]
  assume "fingerprint_preimage r u = fingerprint_preimage r' u'"
  then have eq: "fingerprint_field (generation r)
      @ fingerprint_field (Some (issuer_identifier (issuer_url u)))
      @ fingerprint_field (map_option as_str (token_endpoint u)) @ fingerprint_field (Some (client_id u))
    = fingerprint_field (generation r')
      @ fingerprint_field (Some (issuer_identifier (issuer_url u')))
      @ fingerprint_field (map_option as_str (token_endpoint u')) @ fingerprint_field (Some (client_id u'))"
    by (simp add: fingerprint_preimage_def)
  note e1 = fingerprint_field_inj [OF _ _ eq]
  have 1: "generation r = generation r'" using e1 fits by blast
  note e2 = fingerprint_field_inj [OF _ _ e1 [THEN conjunct2]]
  have 2: "Some (issuer_identifier (issuer_url u)) = Some (issuer_identifier (issuer_url u'))"
    using e2 fits by blast
  note e3 = fingerprint_field_inj [OF _ _ e2 [THEN conjunct2]]
  have 3: "map_option as_str (token_endpoint u) = map_option as_str (token_endpoint u')"
    using e3 fits by blast
  have "fingerprint_field (Some (client_id u)) = fingerprint_field (Some (client_id u'))"
    using e3 fits by blast
  then have "Some (client_id u) = Some (client_id u')"
    using fingerprint_field_inj [of "Some (client_id u)" "Some (client_id u')" "[]" "[]"] fits by simp
  with 1 2 3 show "upstream_identity r u = upstream_identity r' u'"
    by (simp add: upstream_identity_def)
qed (simp add: fingerprint_preimage_def upstream_identity_def)

section \<open>Sealing and opening a handle\<close>

definition HANDLE_PREFIX :: string where "HANDLE_PREFIX = ''rrt1.''"
definition REFRESH_TOKEN_MEMBER :: string where "REFRESH_TOKEN_MEMBER = ''refresh_token''"

record refresh_handle =
  h_upstream_token :: string
  h_issued_at :: nat

record handle_libs = seal_libs +
  handle_encode :: "refresh_handle \<Rightarrow> bytes option"
  handle_decode :: "bytes \<Rightarrow> refresh_handle option"

definition associated_data :: "handle_binding \<Rightarrow> bytes" where
  "associated_data b = ''refresh:'' @ b_relay b @ [CHR 0x00] @ b_fingerprint b"

datatype handle_error = HandleInvalid | HandleSealerUnavailable

fun handle_error_from :: "seal_error \<Rightarrow> handle_error" where
  "handle_error_from SealerDown = HandleSealerUnavailable"
| "handle_error_from InvalidKey = HandleInvalid"
| "handle_error_from InvalidEnvelope = HandleInvalid"

definition seal_handle ::
    "'z handle_libs_scheme \<Rightarrow> handle_binding \<Rightarrow> string \<Rightarrow> nat \<Rightarrow> (handle_error + string) prog" where
  "seal_handle L b upstream_token issued_at =
     (case handle_encode L \<lparr>h_upstream_token = upstream_token, h_issued_at = issued_at\<rparr> of
        None \<Rightarrow> Ret (Inl HandleInvalid)
      | Some plaintext \<Rightarrow>
          Seal plaintext (associated_data b) (\<lambda>r.
            case r of
              Inl err \<Rightarrow> Ret (Inl (handle_error_from err))
            | Inr envelope \<Rightarrow> Ret (Inr (HANDLE_PREFIX @ envelope))))"

definition open_handle ::
    "'z handle_libs_scheme \<Rightarrow> handle_binding \<Rightarrow> string \<Rightarrow> (handle_error + refresh_handle) prog" where
  "open_handle L b handle =
     (case strip_prefix HANDLE_PREFIX handle of
        None \<Rightarrow> Ret (Inl HandleInvalid)
      | Some envelope \<Rightarrow>
          Unseal envelope (associated_data b) (\<lambda>r.
            case r of
              Inl err \<Rightarrow> Ret (Inl (handle_error_from err))
            | Inr plaintext \<Rightarrow> Ret (ok_or HandleInvalid (handle_decode L plaintext))))"

definition has_handle_prefix :: "string \<Rightarrow> bool" where
  "has_handle_prefix token =
     (case strip_prefix ''rrt'' token of
        None \<Rightarrow> False
      | Some rest \<Rightarrow>
          (let digits = length (takeWhile is_ascii_digit rest) in
           0 < digits \<and> starts_with ''.'' (drop digits rest)))"

lemma associated_data_inj:
  assumes "CHR 0x00 \<notin> set (b_relay b)" and "CHR 0x00 \<notin> set (b_relay b')"
  shows "associated_data b = associated_data b' \<longleftrightarrow> b = b'"
proof
  assume "associated_data b = associated_data b'"
  then have eq: "b_relay b @ CHR 0x00 # b_fingerprint b
      = b_relay b' @ CHR 0x00 # b_fingerprint b'"
    by (simp add: associated_data_def)
  have "takeWhile (\<lambda>c. c \<noteq> CHR 0x00) (b_relay b @ CHR 0x00 # b_fingerprint b) = b_relay b"
    using assms(1) by (auto simp: takeWhile_tail takeWhile_eq_all_conv [THEN iffD2])
  moreover have
    "takeWhile (\<lambda>c. c \<noteq> CHR 0x00) (b_relay b' @ CHR 0x00 # b_fingerprint b') = b_relay b'"
    using assms(2) by (auto simp: takeWhile_tail takeWhile_eq_all_conv [THEN iffD2])
  ultimately have "b_relay b = b_relay b'" using eq by simp
  with eq show "b = b'" by simp
qed simp

text \<open>Every handle of every version is recognised, whatever follows the dot.\<close>

lemma has_handle_prefix_iff:
  "has_handle_prefix t \<longleftrightarrow>
     (\<exists>ds rest. t = ''rrt'' @ ds @ ''.'' @ rest \<and> ds \<noteq> [] \<and> list_all is_ascii_digit ds)"
proof
  assume "has_handle_prefix t"
  then obtain r where r: "t = ''rrt'' @ r" "takeWhile is_ascii_digit r \<noteq> []"
      "starts_with ''.'' (drop (length (takeWhile is_ascii_digit r)) r)"
    by (auto simp: has_handle_prefix_def Let_def strip_prefix_Some split: option.splits)
  then obtain rest where "dropWhile is_ascii_digit r = ''.'' @ rest"
    by (auto simp: starts_with_iff dropWhile_eq_drop)
  then have "r = takeWhile is_ascii_digit r @ ''.'' @ rest"
    using takeWhile_dropWhile_id [of is_ascii_digit r] by simp
  moreover have "list_all is_ascii_digit (takeWhile is_ascii_digit r)"
    by (auto simp: list_all_iff dest: set_takeWhileD)
  ultimately show "\<exists>ds rest. t = ''rrt'' @ ds @ ''.'' @ rest \<and> ds \<noteq> [] \<and> list_all is_ascii_digit ds"
    using r(1,2) by blast
next
  assume "\<exists>ds rest. t = ''rrt'' @ ds @ ''.'' @ rest \<and> ds \<noteq> [] \<and> list_all is_ascii_digit ds"
  then obtain ds rest where t: "t = ''rrt'' @ ds @ ''.'' @ rest" "ds \<noteq> []" "list_all is_ascii_digit ds"
    by blast
  have strip: "strip_prefix ''rrt'' t = Some (ds @ ''.'' @ rest)"
    unfolding t(1) by (rule strip_prefix_append)
  have "takeWhile is_ascii_digit (ds @ ''.'' @ rest) = ds"
    using t(3) by (auto simp: list_all_iff takeWhile_append byte_class_defs)
  then show "has_handle_prefix t"
    using t(2) unfolding has_handle_prefix_def strip by (simp add: starts_with_def)
qed

section \<open>Substitution in a token response\<close>

datatype substitution_error = Sealing | SubstSealerUnavailable | UnrecognizedBody

fun substitution_error_of :: "handle_error \<Rightarrow> substitution_error" where
  "substitution_error_of HandleSealerUnavailable = SubstSealerUnavailable"
| "substitution_error_of HandleInvalid = Sealing"

text \<open>\<open>char::is_whitespace\<close>, the Unicode property \<open>White_Space\<close>.\<close>

definition is_whitespace :: "nat \<Rightarrow> bool" where
  "is_whitespace c \<longleftrightarrow>
     9 \<le> c \<and> c \<le> 13 \<or> c = 32 \<or> c = 133 \<or> c = 160 \<or> c = 5760 \<or> 8192 \<le> c \<and> c \<le> 8202
     \<or> c = 8232 \<or> c = 8233 \<or> c = 8239 \<or> c = 8287 \<or> c = 12288"

text \<open>What follows each of the successive matches of a pattern (\<open>str::match_indices\<close>).\<close>

function match_rests :: "'a list \<Rightarrow> 'a list \<Rightarrow> 'a list list" where
  "match_rests p s =
     (if s = [] \<or> p = [] then []
      else if take (length p) s = p
      then drop (length p) s # match_rests p (drop (length p) s)
      else match_rests p (tl s))"
  by pat_completeness auto
termination
  by (relation "measure (\<lambda>(p, s). length s)") auto

declare match_rests.simps [simp del]

definition names_refresh_token :: "'z libs_scheme \<Rightarrow> bytes \<Rightarrow> bool" where
  "names_refresh_token L body =
     list_ex
       (\<lambda>rest. case dropWhile is_whitespace (dropWhile (\<lambda>c. c = 34 \<or> c = 39) rest) of
                 [] \<Rightarrow> False
               | c # _ \<Rightarrow> c = 61 \<or> c = 58)
       (match_rests (map byte_value REFRESH_TOKEN_MEMBER) (chars (utf8_lossy L body)))"

definition success_status :: "nat \<Rightarrow> bool" where
  "success_status status \<longleftrightarrow> 200 \<le> status \<and> status < 300"

primrec seal_members ::
    "'z handle_libs_scheme \<Rightarrow> handle_binding \<Rightarrow> nat \<Rightarrow> (string \<times> string) list
       \<Rightarrow> (substitution_error + (string \<times> string) list \<times> bool) prog" where
  "seal_members L b issued_at [] = Ret (Inr ([], False))"
| "seal_members L b issued_at (m # ms) =
     (let skip = bindE (seal_members L b issued_at ms) (\<lambda>(ms', replaced). Ret (Inr (m # ms', replaced))) in
      if fst m \<noteq> REFRESH_TOKEN_MEMBER then skip
      else case raw_string_parse L (snd m) of
             None \<Rightarrow> skip
           | Some token \<Rightarrow>
               if token = [] then skip
               else bind (seal_handle L b token issued_at) (\<lambda>r.
                 case r of
                   Inl err \<Rightarrow> Ret (Inl (substitution_error_of err))
                 | Inr handle \<Rightarrow>
                     (case raw_string_print L handle of
                        None \<Rightarrow> Ret (Inl Sealing)
                      | Some v \<Rightarrow>
                          bindE (seal_members L b issued_at ms) (\<lambda>(ms', _).
                            Ret (Inr ((fst m, v) # ms', True))))))"

definition seal_token_response ::
    "'z handle_libs_scheme \<Rightarrow> handle_binding \<Rightarrow> nat \<Rightarrow> bytes \<Rightarrow> nat
       \<Rightarrow> (substitution_error + bytes option) prog" where
  "seal_token_response L b status body issued_at =
     (if \<not> success_status status then Ret (Inr None)
      else case members_parse L body of
             None \<Rightarrow>
               if names_refresh_token L body then Ret (Inl UnrecognizedBody) else Ret (Inr None)
           | Some members \<Rightarrow>
               bindE (seal_members L b issued_at members) (\<lambda>(members', replaced).
                 if \<not> replaced then Ret (Inr None)
                 else Ret (map_sum (\<lambda>_. Sealing) Some (ok_or () (members_print L members')))))"

text \<open>A member that carries an upstream token, as the code recognises one.\<close>

definition carries_token :: "'z libs_scheme \<Rightarrow> string \<times> string \<Rightarrow> string option" where
  "carries_token L m =
     (if fst m = REFRESH_TOKEN_MEMBER
      then case raw_string_parse L (snd m) of
             Some t \<Rightarrow> if t \<noteq> [] then Some t else None
           | None \<Rightarrow> None
      else None)"

definition upstream_refresh_token :: "'z libs_scheme \<Rightarrow> nat \<Rightarrow> bytes \<Rightarrow> string option" where
  "upstream_refresh_token L status body =
     (if \<not> success_status status then None
      else case members_parse L body of
             None \<Rightarrow> None
           | Some members \<Rightarrow>
               find (\<lambda>token. token \<noteq> [])
                 (List.map_filter (\<lambda>(_, v). raw_string_parse L v)
                   (filter (\<lambda>(name, _). name = REFRESH_TOKEN_MEMBER) members)))"

definition with_refresh_token :: "'z libs_scheme \<Rightarrow> nat \<Rightarrow> bytes \<Rightarrow> string \<Rightarrow> bytes option" where
  "with_refresh_token L status body token =
     (if \<not> success_status status then None
      else case members_parse L body of
             None \<Rightarrow> None
           | Some members \<Rightarrow>
               (case raw_string_print L token of
                  None \<Rightarrow> None
                | Some v \<Rightarrow>
                    members_print L
                      (let members' = map (\<lambda>(name, existing).
                             (name, if name = REFRESH_TOKEN_MEMBER then v else existing)) members in
                       if list_ex (\<lambda>(name, _). name = REFRESH_TOKEN_MEMBER) members then members'
                       else members' @ [(REFRESH_TOKEN_MEMBER, v)])))"

section \<open>What the library functions are assumed to do\<close>

definition handle_codec_ok :: "'z handle_libs_scheme \<Rightarrow> bool" where
  "handle_codec_ok L \<longleftrightarrow> (\<forall>h e. handle_encode L h = Some e \<longrightarrow> handle_decode L e = Some h)"

text \<open>\<open>serde_json\<close> reads back the members and the strings it prints.\<close>

definition members_ok :: "'z libs_scheme \<Rightarrow> bool" where
  "members_ok L \<longleftrightarrow>
     (\<forall>ms body. members_print L ms = Some body \<longrightarrow> members_parse L body = Some ms) \<and>
     (\<forall>s raw. raw_string_print L s = Some raw \<longrightarrow> raw_string_parse L raw = Some s)"

section \<open>A handle opens only under its binding\<close>

lemma set_join: "set (join sep xs) \<subseteq> set sep \<union> \<Union> (set ` set xs)"
  by (induction sep xs rule: join.induct) auto

lemma resource_key_no_nul: "resource_key_new s = Inr key \<Longrightarrow> CHR 0x00 \<notin> set key"
proof
  assume "resource_key_new s = Inr key" and nul: "CHR 0x00 \<in> set key"
  then have parts: "\<forall>part\<in>set (split_on (CHR ''/'') key). key_segment part"
    using resource_key_segments [of s key] by auto
  have "CHR 0x00 \<in> set (join ''/'' (split_on (CHR ''/'') key))"
    using nul by (simp add: join_split_on)
  then have "CHR 0x00 \<in> insert (CHR ''/'') (\<Union> (set ` set (split_on (CHR ''/'') key)))"
    using set_join [of "''/''"] by auto
  then obtain part where "part \<in> set (split_on (CHR ''/'') key)" "CHR 0x00 \<in> set part"
    by auto
  with parts have "key_byte (CHR 0x00)" by (auto simp: key_segment_def)
  then show False by (simp add: key_byte_def byte_class_defs)
qed

lemma run_open_handle:
  "fst (run M (open_handle L b (HANDLE_PREFIX @ e)) w) =
     (case unseal_with M e (associated_data b) of
        Inl err \<Rightarrow> Inl (handle_error_from err)
      | Inr p \<Rightarrow> ok_or HandleInvalid (handle_decode L p))"
  by (simp add: open_handle_def split: sum.split)

lemma run_seal_handle_Inr:
  assumes "fst (run M (seal_handle L b tok t) w) = Inr h"
  obtains p e where "handle_encode L \<lparr>h_upstream_token = tok, h_issued_at = t\<rparr> = Some p"
    and "seal_with M (draw M (draws w) 24) p (associated_data b) = Inr e" and "h = HANDLE_PREFIX @ e"
  using assms by (auto simp: seal_handle_def split: option.splits sum.splits)

lemma run_open_sealed:
  assumes "machine_ok M" and "handle_codec_ok L"
    and "CHR 0x00 \<notin> set (b_relay b)" and "CHR 0x00 \<notin> set (b_relay b')"
    and "fst (run M (seal_handle L b tok t) w) = Inr h"
  shows "fst (run M (open_handle L b' h) w') = Inr opened \<longleftrightarrow>
    b' = b \<and> opened = \<lparr>h_upstream_token = tok, h_issued_at = t\<rparr>"
proof -
  obtain p e where pe: "handle_encode L \<lparr>h_upstream_token = tok, h_issued_at = t\<rparr> = Some p"
      "seal_with M (draw M (draws w) 24) p (associated_data b) = Inr e" "h = HANDLE_PREFIX @ e"
    using run_seal_handle_Inr [OF assms(5)] by metis
  have sl: "sealer (seal_with M) (unseal_with M)" and len: "length (draw M (draws w) 24) = 24"
    using assms(1) by (auto simp: machine_ok_def)
  note op = sealer.unseal_iff [OF sl len pe(2), of "associated_data b'" p]
  have dec: "handle_decode L p = Some \<lparr>h_upstream_token = tok, h_issued_at = t\<rparr>"
    using assms(2) pe(1) by (simp add: handle_codec_ok_def)
  show ?thesis
  proof (cases "b' = b")
    case True
    then have "unseal_with M e (associated_data b') = Inr p" using op by simp
    then show ?thesis using True dec by (auto simp: pe(3) run_open_handle ok_or_def)
  next
    case False
    then have "unseal_with M e (associated_data b') \<noteq> Inr q" for q
      using sealer.unseal_iff [OF sl len pe(2), of "associated_data b'" q]
        associated_data_inj [OF assms(4,3)] by simp
    then show ?thesis using False by (auto simp: pe(3) run_open_handle split: sum.splits)
  qed
qed

section \<open>Substituting the token of a response\<close>

lemma with_refresh_token_Some:
  assumes "with_refresh_token L status body token = Some body'"
  obtains ms v where "success_status status" and "members_parse L body = Some ms"
    and "raw_string_print L token = Some v"
    and "members_print L
      (map (\<lambda>(name, existing). (name, if name = REFRESH_TOKEN_MEMBER then v else existing)) ms
       @ (if list_ex (\<lambda>(name, _). name = REFRESH_TOKEN_MEMBER) ms then []
          else [(REFRESH_TOKEN_MEMBER, v)])) = Some body'"
  using assms by (auto simp: with_refresh_token_def Let_def split: if_splits option.splits)

lemma map_filter_filter:
  "List.map_filter (\<lambda>(_, v). f v) (filter (\<lambda>(name, _). name = k) ms) =
     List.map_filter (\<lambda>(name, v). if name = k then f v else None) ms"
  by (induction ms) (auto simp: List.map_filter_def)

lemma upstream_refresh_token_find:
  "success_status status \<Longrightarrow> members_parse L body = Some ms \<Longrightarrow>
     upstream_refresh_token L status body =
       find (\<lambda>token. token \<noteq> []) (List.map_filter (\<lambda>(name, v).
         if name = REFRESH_TOKEN_MEMBER then raw_string_parse L v else None) ms)"
  by (simp add: upstream_refresh_token_def map_filter_filter)

text \<open>The substituted response carries the new token and nothing of the old one.\<close>

lemma with_refresh_token_members:
  assumes "members_ok L" and "with_refresh_token L status body token = Some body'"
  obtains ms ms' v where "members_parse L body = Some ms" and "members_parse L body' = Some ms'"
    and "raw_string_parse L v = Some token"
    and "\<forall>m\<in>set ms'. fst m = REFRESH_TOKEN_MEMBER \<longrightarrow> snd m = v"
    and "REFRESH_TOKEN_MEMBER \<in> fst ` set ms'"
    and "filter (\<lambda>m. fst m \<noteq> REFRESH_TOKEN_MEMBER) ms' = filter (\<lambda>m. fst m \<noteq> REFRESH_TOKEN_MEMBER) ms"
proof -
  obtain ms v where "success_status status"
    and ms: "members_parse L body = Some ms" "raw_string_print L token = Some v"
    and pr: "members_print L
      (map (\<lambda>(name, existing). (name, if name = REFRESH_TOKEN_MEMBER then v else existing)) ms
       @ (if list_ex (\<lambda>(name, _). name = REFRESH_TOKEN_MEMBER) ms then []
          else [(REFRESH_TOKEN_MEMBER, v)])) = Some body'" (is "members_print L ?ms' = _")
    by (rule with_refresh_token_Some [OF assms(2)])
  have "members_parse L body' = Some ?ms'" and "raw_string_parse L v = Some token"
    using assms(1) pr ms(2) by (auto simp: members_ok_def)
  moreover have "filter (\<lambda>m. fst m \<noteq> REFRESH_TOKEN_MEMBER)
      (map (\<lambda>(name, existing). (name, if name = REFRESH_TOKEN_MEMBER then v else existing)) ms) =
      filter (\<lambda>m. fst m \<noteq> REFRESH_TOKEN_MEMBER) ms"
    by (induction ms) auto
  moreover have "\<forall>m\<in>set ?ms'. fst m = REFRESH_TOKEN_MEMBER \<longrightarrow> snd m = v" by auto
  moreover have "REFRESH_TOKEN_MEMBER \<in> fst ` set ?ms'"
    by (auto simp: list_ex_iff image_Un image_image case_prod_unfold) (metis fst_conv image_eqI)
  ultimately show thesis
    using that [of ms ?ms' v] ms(1) by simp
qed

text \<open>
  What becomes of one member: a token is replaced by a handle the sealer made for it during
  the call, everything else is kept.
\<close>

definition sealed_member ::
    "'z handle_libs_scheme \<Rightarrow> handle_binding \<Rightarrow> nat \<Rightarrow> event list \<Rightarrow> string \<times> string \<Rightarrow> string \<times> string \<Rightarrow> bool" where
  "sealed_member L b t es m m' =
     (case carries_token L m of
        None \<Rightarrow> m' = m
      | Some token \<Rightarrow>
          \<exists>p e v. handle_encode L \<lparr>h_upstream_token = token, h_issued_at = t\<rparr> = Some p
            \<and> ESeal p (associated_data b) (Inr e) \<in> set es
            \<and> raw_string_print L (HANDLE_PREFIX @ e) = Some v \<and> m' = (fst m, v))"

lemma sealed_member_mono: "sealed_member L b t es m m' \<Longrightarrow> set es \<subseteq> set es' \<Longrightarrow> sealed_member L b t es' m m'"
  by (fastforce simp: sealed_member_def split: option.splits)

lemma path_seal_handle:
  "path (seal_handle L b tok t) es (Inr h) \<longleftrightarrow>
     (\<exists>p e. handle_encode L \<lparr>h_upstream_token = tok, h_issued_at = t\<rparr> = Some p
        \<and> es = [ESeal p (associated_data b) (Inr e)] \<and> h = HANDLE_PREFIX @ e)"
  by (auto simp: seal_handle_def split_sum_ex split: option.splits)

lemma path_seal_members_Cons:
  "path (seal_members L b t (m # ms)) es (Inr (ms2, rep)) \<Longrightarrow>
     (case carries_token L m of
        None \<Rightarrow> \<exists>ms'. path (seal_members L b t ms) es (Inr (ms', rep)) \<and> ms2 = m # ms'
      | Some token \<Rightarrow>
          \<exists>p e v es' ms' rep'. handle_encode L \<lparr>h_upstream_token = token, h_issued_at = t\<rparr> = Some p
            \<and> es = ESeal p (associated_data b) (Inr e) # es'
            \<and> raw_string_print L (HANDLE_PREFIX @ e) = Some v
            \<and> path (seal_members L b t ms) es' (Inr (ms', rep')) \<and> ms2 = (fst m, v) # ms' \<and> rep)"
proof (cases "carries_token L m")
  assume p: "path (seal_members L b t (m # ms)) es (Inr (ms2, rep))"
  case None
  then have "seal_members L b t (m # ms) =
      bindE (seal_members L b t ms) (\<lambda>(ms', replaced). Ret (Inr (m # ms', replaced)))"
    by (auto simp: carries_token_def Let_def split: if_splits option.splits)
  with None p show ?thesis by (auto simp: path_bindE case_prod_unfold)
next
  assume p: "path (seal_members L b t (m # ms)) es (Inr (ms2, rep))"
  case (Some token)
  then have eq: "seal_members L b t (m # ms) =
      bind (seal_handle L b token t) (\<lambda>r. case r of
          Inl err \<Rightarrow> Ret (Inl (substitution_error_of err))
        | Inr handle \<Rightarrow>
            (case raw_string_print L handle of
               None \<Rightarrow> Ret (Inl Sealing)
             | Some v \<Rightarrow> bindE (seal_members L b t ms) (\<lambda>(ms', _). Ret (Inr ((fst m, v) # ms', True)))))"
    by (auto simp: carries_token_def Let_def split: if_splits option.splits)
  obtain es1 h es2 where h: "path (seal_handle L b token t) es1 (Inr h)"
    and rest: "path (case raw_string_print L h of
               None \<Rightarrow> Ret (Inl Sealing)
             | Some v \<Rightarrow> bindE (seal_members L b t ms) (\<lambda>(ms', _). Ret (Inr ((fst m, v) # ms', True))))
           es2 (Inr (ms2, rep))"
    and es: "es = es1 @ es2"
    using p unfolding eq path_bind_sum by auto
  from rest obtain v ms' rep' where "raw_string_print L h = Some v"
      "path (seal_members L b t ms) es2 (Inr (ms', rep'))" "ms2 = (fst m, v) # ms'" "rep"
    by (auto simp: path_bindE case_prod_unfold split: option.splits)
  then show ?thesis
    using h es Some unfolding path_seal_handle by auto
qed

lemma path_seal_members:
  "path (seal_members L b t ms) es (Inr (ms', rep)) \<Longrightarrow>
     list_all2 (sealed_member L b t es) ms ms' \<and> (rep \<longleftrightarrow> (\<exists>m\<in>set ms. carries_token L m \<noteq> None))"
proof (induction ms arbitrary: es ms' rep)
  case (Cons m ms)
  show ?case
  proof (cases "carries_token L m")
    case None
    with Cons.prems obtain ms'' where "path (seal_members L b t ms) es (Inr (ms'', rep))" "ms' = m # ms''"
      by (auto dest!: path_seal_members_Cons simp del: seal_members.simps)
    with Cons.IH None show ?thesis by (fastforce simp: sealed_member_def)
  next
    case (Some token)
    then obtain p e v es' ms'' rep'
      where "handle_encode L \<lparr>h_upstream_token = token, h_issued_at = t\<rparr> = Some p"
        and es: "es = ESeal p (associated_data b) (Inr e) # es'"
        and "raw_string_print L (HANDLE_PREFIX @ e) = Some v"
        and tail: "path (seal_members L b t ms) es' (Inr (ms'', rep'))"
        and ms': "ms' = (fst m, v) # ms''" "rep"
      using Cons.prems by (auto dest!: path_seal_members_Cons simp del: seal_members.simps)
    then have "sealed_member L b t es m (fst m, v)" using Some by (auto simp: sealed_member_def)
    moreover have "list_all2 (sealed_member L b t es) ms ms''"
      using Cons.IH [OF tail] sealed_member_mono [of L b t es' _ _ es] es
      by (auto elim!: list_all2_mono)
    ultimately show ?thesis using Some ms' by auto
  qed
qed simp

lemma path_seal_token_response:
  "path (seal_token_response L b status body t) es (Inr (Some body')) \<Longrightarrow>
     success_status status \<and>
     (\<exists>ms ms'. members_parse L body = Some ms \<and> members_print L ms' = Some body'
        \<and> list_all2 (sealed_member L b t es) ms ms' \<and> (\<exists>m\<in>set ms. carries_token L m \<noteq> None))"
  by (auto simp: seal_token_response_def path_bindE ok_or_def case_prod_unfold dest!: path_seal_members
      split: if_splits option.splits)

lemma path_seal_token_response_unchanged:
  "path (seal_token_response L b status body t) es (Inr None) \<Longrightarrow>
     \<not> success_status status
     \<or> members_parse L body = None \<and> \<not> names_refresh_token L body
     \<or> (\<exists>ms. members_parse L body = Some ms \<and> (\<forall>m\<in>set ms. carries_token L m = None))"
  by (auto simp: seal_token_response_def path_bindE ok_or_def case_prod_unfold dest!: path_seal_members
      split: if_splits option.splits)

lemma sealed_member_token:
  assumes "members_ok L" and "sealed_member L b t es m m'" and "carries_token L m' = Some token'"
  shows "\<exists>token e. carries_token L m = Some token \<and> token' = HANDLE_PREFIX @ e
    \<and> (\<exists>p. ESeal p (associated_data b) (Inr e) \<in> set es)"
  using assms
  by (auto simp: sealed_member_def carries_token_def members_ok_def split: option.splits if_splits)

end
