(* ===== verification/Rotation.thy ===== *)
theory Rotation
  imports Refresh_Handle
begin

text \<open>
  Rotating refresh-token handles, \<open>oauthrelay-core/src/rotation.rs\<close>: the state machine of
  \<open>Rotator\<close> over the transient store and the sealer. Every function of the source is a
  program of the same name; the upstream refresher is a program the caller passes in. The loop
  of \<open>refresh_rotating\<close> takes the number of polls it may make, and answers \<open>None\<close> when they
  run out.
\<close>

section \<open>Constants and data\<close>

definition ROTATING_PREFIX :: string where "ROTATING_PREFIX = ''rrt2.''"
definition HANDLE_BYTES :: nat where "HANDLE_BYTES = 32"
definition HANDLE_KEY_PREFIX :: string where "HANDLE_KEY_PREFIX = ''refresh:handle:''"
definition GRACE_KEY_PREFIX :: string where "GRACE_KEY_PREFIX = ''refresh:grace:''"
definition REVOKED_KEY_PREFIX :: string where "REVOKED_KEY_PREFIX = ''refresh:revoked:''"
definition HEAD_KEY_PREFIX :: string where "HEAD_KEY_PREFIX = ''refresh:head:''"
definition MAX_ERASE_HOPS :: nat where "MAX_ERASE_HOPS = 1000"
definition RECORD_PURPOSE :: string where "RECORD_PURPOSE = ''refresh-record''"
definition GRACE_PURPOSE :: string where "GRACE_PURPOSE = ''refresh-grace''"
definition GRACE_RESPONSE_MARGIN :: duration where "GRACE_RESPONSE_MARGIN = from_secs 10"

record timing =
  poll_interval :: duration
  resolve_wait :: duration
  upstream_timeout :: duration
  claim_lease :: duration
  sealer_timeout :: duration

definition timing_default :: timing where
  "timing_default =
     \<lparr>poll_interval = from_millis 100, resolve_wait = from_secs 5, upstream_timeout = from_secs 30,
      claim_lease = from_secs 60, sealer_timeout = from_secs 5\<rparr>"

text \<open>\<open>StoredResponse\<close> of the router: what the upstream answered, ready to be passed on.\<close>

record stored_response =
  sr_status :: nat
  sr_content_type :: "string option"
  sr_body :: bytes

datatype upstream_failure = FailedStatus nat | FailedRequest

datatype issue_error = IssueStore | IssueSealerUnavailable | IssueUnrecognizedBody

datatype refresh_outcome =
    Response stored_response
  | InvalidGrant
  | Unavailable
  | UpstreamFailed upstream_failure
  | UpstreamUnusable
  | StoreFailed
  | SealerUnavailable

datatype fault = StoreFault store_error | SealingFault | Unopenable | SealerFault | Conflict

fun from_seal_error :: "seal_error \<Rightarrow> fault" where
  "from_seal_error SealerDown = SealerFault"
| "from_seal_error InvalidKey = SealingFault"
| "from_seal_error InvalidEnvelope = SealingFault"

fun from_unseal_error :: "seal_error \<Rightarrow> fault" where
  "from_unseal_error SealerDown = SealerFault"
| "from_unseal_error InvalidKey = Unopenable"
| "from_unseal_error InvalidEnvelope = Unopenable"

datatype handle_state =
    Active (active_token: string)
  | Claimed string bytes nat
  | Rotated nat bytes string

text \<open>
  \<open>Claimed upstream_token claim_id claimed_ms\<close> and
  \<open>Rotated rotated_ms claim_id successor_key\<close> keep the order of the source's fields.
\<close>

record handle_record =
  family_id :: bytes
  family_expires_ms :: nat
  handle_state :: handle_state

record loaded =
  loaded_bytes :: bytes
  loaded_record :: handle_record

record claim =
  claim_bytes :: bytes
  claim_id :: bytes
  claim_token :: string
  claim_family_id :: bytes
  claim_expires_ms :: nat

datatype commit_result = CommitRotated | CommitLost

record rotator =
  binding :: handle_binding
  grace :: duration
  max_lifetime :: duration
  timing :: timing

definition rotator_new :: "handle_binding \<Rightarrow> refresh_tokens \<Rightarrow> rotator" where
  "rotator_new b settings =
     \<lparr>binding = b, grace = from_secs (grace_period_seconds settings),
      max_lifetime = from_secs (max_lifetime_seconds settings), timing = timing_default\<rparr>"

text \<open>\<open>postcard\<close>'s encodings of the stored values.\<close>

record rotation_libs = handle_libs +
  record_encode :: "handle_record \<Rightarrow> bytes option"
  record_decode :: "bytes \<Rightarrow> handle_record option"
  response_encode :: "stored_response \<Rightarrow> bytes option"
  response_decode :: "bytes \<Rightarrow> stored_response option"

type_synonym refresher = "string \<Rightarrow> (upstream_failure + stored_response) prog"

section \<open>Keys, shapes and times\<close>

definition digest_key :: "'z libs_scheme \<Rightarrow> rotator \<Rightarrow> string \<Rightarrow> bytes list \<Rightarrow> string" where
  "digest_key L R kind material =
     kind @ b64url_encode L (sha256 L
       (b_relay (binding R) @ [CHR 0x00] @ concat (map (\<lambda>part. part @ [CHR 0x00]) material)))"

definition handle_key :: "'z libs_scheme \<Rightarrow> rotator \<Rightarrow> string \<Rightarrow> string" where
  "handle_key L R handle = digest_key L R HANDLE_KEY_PREFIX [handle]"

definition grace_key :: "'z libs_scheme \<Rightarrow> rotator \<Rightarrow> string \<Rightarrow> bytes \<Rightarrow> string" where
  "grace_key L R hkey cid = digest_key L R GRACE_KEY_PREFIX [hkey, cid]"

definition head_key :: "'z libs_scheme \<Rightarrow> rotator \<Rightarrow> bytes \<Rightarrow> string" where
  "head_key L R fid = digest_key L R HEAD_KEY_PREFIX [fid]"

definition family_key :: "'z libs_scheme \<Rightarrow> rotator \<Rightarrow> bytes \<Rightarrow> string" where
  "family_key L R fid = digest_key L R REVOKED_KEY_PREFIX [fid]"

definition rotation_associated_data :: "rotator \<Rightarrow> string \<Rightarrow> string \<Rightarrow> bytes" where
  "rotation_associated_data R purpose key =
     purpose @ [CHR 0x00] @ b_relay (binding R) @ [CHR 0x00] @ key @ [CHR 0x00]
       @ b_fingerprint (binding R)"

definition new_handle :: "'z libs_scheme \<Rightarrow> string prog" where
  "new_handle L = RandomBytes HANDLE_BYTES (\<lambda>bs. Ret (ROTATING_PREFIX @ b64url_encode L bs))"

definition valid_handle_shape :: "'z libs_scheme \<Rightarrow> string \<Rightarrow> bool" where
  "valid_handle_shape L handle =
     (case strip_prefix ROTATING_PREFIX handle of
        None \<Rightarrow> False
      | Some encoded \<Rightarrow>
          (case b64url_decode L encoded of None \<Rightarrow> False | Some bs \<Rightarrow> length bs = HANDLE_BYTES))"

definition ttl_until :: "nat \<Rightarrow> nat \<Rightarrow> duration option" where
  "ttl_until expires_ms now_ms =
     (if now_ms < expires_ms then Some (from_millis (expires_ms - now_ms)) else None)"

definition is_success :: "stored_response \<Rightarrow> bool" where
  "is_success response \<longleftrightarrow> success_status (sr_status response)"

definition is_invalid_grant :: "'z libs_scheme \<Rightarrow> stored_response \<Rightarrow> bool" where
  "is_invalid_grant L response \<longleftrightarrow>
     400 \<le> sr_status response \<and> sr_status response < 500
     \<and> (case json_parse L (sr_body response) of
          None \<Rightarrow> False
        | Some v \<Rightarrow> Option.bind (json_get v ''error'') as_string = Some ''invalid_grant'')"

section \<open>Sealed values in the store\<close>

definition seal_value ::
    "rotator \<Rightarrow> string \<Rightarrow> string \<Rightarrow> bytes option \<Rightarrow> (fault + bytes) prog" where
  "seal_value R purpose key encoded =
     (case encoded of
        None \<Rightarrow> Ret (Inl SealingFault)
      | Some plaintext \<Rightarrow>
          bind (timeout (sealer_timeout (timing R))
                 (Seal plaintext (rotation_associated_data R purpose key) Ret)) (\<lambda>r.
            case r of
              None \<Rightarrow> Ret (Inl SealerFault)
            | Some sealed \<Rightarrow> Ret (map_sum from_seal_error id sealed)))"

definition open_value ::
    "'z libs_scheme \<Rightarrow> rotator \<Rightarrow> (bytes \<Rightarrow> 'v option) \<Rightarrow> string \<Rightarrow> string \<Rightarrow> bytes \<Rightarrow> (fault + 'v) prog" where
  "open_value L R decode purpose key bs =
     (if \<not> utf8_valid L bs then Ret (Inl Unopenable)
      else bind (timeout (sealer_timeout (timing R))
                  (Unseal bs (rotation_associated_data R purpose key) Ret)) (\<lambda>r.
             case r of
               None \<Rightarrow> Ret (Inl SealerFault)
             | Some opened \<Rightarrow>
                 Ret (bind_result (map_sum from_unseal_error id opened) (\<lambda>plaintext.
                   ok_or Unopenable (decode plaintext)))))"

definition seal_record ::
    "'z rotation_libs_scheme \<Rightarrow> rotator \<Rightarrow> string \<Rightarrow> handle_record \<Rightarrow> (fault + bytes) prog" where
  "seal_record L R key rec = seal_value R RECORD_PURPOSE key (record_encode L rec)"

definition load :: "'z rotation_libs_scheme \<Rightarrow> rotator \<Rightarrow> string \<Rightarrow> (fault + loaded option) prog" where
  "load L R key =
     GetEntry key (\<lambda>r.
       case r of
         Inl err \<Rightarrow> Ret (Inl (StoreFault err))
       | Inr None \<Rightarrow> Ret (Inr None)
       | Inr (Some entry) \<Rightarrow>
           bindE (open_value L R (record_decode L) RECORD_PURPOSE key (value_of entry)) (\<lambda>rec.
             Ret (Inr (Some \<lparr>loaded_bytes = value_of entry, loaded_record = rec\<rparr>))))"

definition load_grace_response ::
    "'z rotation_libs_scheme \<Rightarrow> rotator \<Rightarrow> string \<Rightarrow> (fault + stored_response option) prog" where
  "load_grace_response L R key =
     GetEntry key (\<lambda>r.
       case r of
         Inl err \<Rightarrow> Ret (Inl (StoreFault err))
       | Inr None \<Rightarrow> Ret (Inr None)
       | Inr (Some entry) \<Rightarrow>
           bindE (open_value L R (response_decode L) GRACE_PURPOSE key (value_of entry)) (\<lambda>response.
             Ret (Inr (Some response))))"

definition is_revoked :: "'z libs_scheme \<Rightarrow> rotator \<Rightarrow> bytes \<Rightarrow> (fault + bool) prog" where
  "is_revoked L R fid =
     GetEntry (family_key L R fid) (\<lambda>r. Ret (map_sum StoreFault (\<lambda>e. e \<noteq> None) r))"

section \<open>Revocation\<close>

text \<open>\<open>StoreError\<close> becomes a fault through \<open>?\<close>.\<close>

definition delete_key :: "string \<Rightarrow> (fault + unit) prog" where
  "delete_key key = DeleteKey key (\<lambda>r. Ret (map_sum StoreFault id r))"

definition put_key :: "string \<Rightarrow> bytes \<Rightarrow> duration \<Rightarrow> (fault + bool) prog" where
  "put_key key v ttl = PutIfAbsent key v ttl (\<lambda>r. Ret (map_sum StoreFault id r))"

definition swap_key :: "string \<Rightarrow> bytes \<Rightarrow> bytes \<Rightarrow> duration \<Rightarrow> (fault + bool) prog" where
  "swap_key key expected new ttl = CompareAndSwap key expected new ttl (\<lambda>r. Ret (map_sum StoreFault id r))"

primrec erase_hops :: "'z rotation_libs_scheme \<Rightarrow> rotator \<Rightarrow> nat \<Rightarrow> string \<Rightarrow> (fault + unit) prog" where
  "erase_hops L R 0 key = Ret (Inr ())"
| "erase_hops L R (Suc hops) key =
     bind (load L R key) (\<lambda>r.
       case r of
         Inl Unopenable \<Rightarrow> delete_key key
       | Inl fault \<Rightarrow> Ret (Inl fault)
       | Inr None \<Rightarrow> Ret (Inr ())
       | Inr (Some loaded) \<Rightarrow>
           (case handle_state (loaded_record loaded) of
              Active _ \<Rightarrow> delete_key key
            | Claimed _ _ _ \<Rightarrow> delete_key key
            | Rotated _ _ successor_key \<Rightarrow> erase_hops L R hops successor_key))"

definition erase_tokens :: "'z rotation_libs_scheme \<Rightarrow> rotator \<Rightarrow> string \<Rightarrow> (fault + unit) prog" where
  "erase_tokens L R start = erase_hops L R MAX_ERASE_HOPS start"

definition erase_tokens_if_sealer_available ::
    "'z rotation_libs_scheme \<Rightarrow> rotator \<Rightarrow> string \<Rightarrow> (fault + unit) prog" where
  "erase_tokens_if_sealer_available L R start =
     bind (erase_tokens L R start) (\<lambda>r. Ret (if r = Inl SealerFault then Inr () else r))"

definition revoke ::
    "'z rotation_libs_scheme \<Rightarrow> rotator \<Rightarrow> bytes \<Rightarrow> nat \<Rightarrow> string \<Rightarrow> (fault + unit) prog" where
  "revoke L R fid expires_ms known_key =
     ClockMs (\<lambda>now.
       case ttl_until expires_ms now of
         None \<Rightarrow> Ret (Inr ())
       | Some ttl \<Rightarrow>
           RandomBytes 16 (\<lambda>marker.
           bindE (put_key (family_key L R fid) marker ttl) (\<lambda>_.
           GetEntry (head_key L R fid) (\<lambda>r.
             case r of
               Inl err \<Rightarrow> Ret (Inl (StoreFault err))
             | Inr e \<Rightarrow>
                 let head = (case e of
                               None \<Rightarrow> None
                             | Some entry \<Rightarrow>
                                 if utf8_valid L (value_of entry) then Some (value_of entry) else None)
                 in bindE (case head of
                             Some h \<Rightarrow> erase_tokens_if_sealer_available L R h
                           | None \<Rightarrow> Ret (Inr ())) (\<lambda>_.
                    if head \<noteq> Some known_key
                    then erase_tokens_if_sealer_available L R known_key
                    else Ret (Inr ()))))))"

definition reuse_detected ::
    "'z rotation_libs_scheme \<Rightarrow> rotator \<Rightarrow> string \<Rightarrow> handle_record \<Rightarrow> (fault + refresh_outcome) prog" where
  "reuse_detected L R hkey rec =
     bindE (revoke L R (family_id rec) (family_expires_ms rec) hkey) (\<lambda>_. Ret (Inr InvalidGrant))"

section \<open>Claiming, committing and releasing\<close>

definition create_family ::
    "'z rotation_libs_scheme \<Rightarrow> rotator \<Rightarrow> string \<Rightarrow> string \<Rightarrow> (fault + unit) prog" where
  "create_family L R handle upstream_token =
     ClockMs (\<lambda>now.
       let expires_ms = saturating_add now (as_u64 (as_millis (max_lifetime R))) in
       case ttl_until expires_ms now of
         None \<Rightarrow> Ret (Inl Conflict)
       | Some ttl \<Rightarrow>
           let key = handle_key L R handle in
           RandomBytes 16 (\<lambda>fid.
           bindE (seal_record L R key
                   \<lparr>family_id = fid, family_expires_ms = expires_ms, handle_state = Active upstream_token\<rparr>)
             (\<lambda>bs.
           bindE (put_key key bs ttl) (\<lambda>created.
             if \<not> created then Ret (Inl Conflict)
             else bindE (put_key (head_key L R fid) key ttl) (\<lambda>created.
                    if \<not> created then Ret (Inl Conflict) else Ret (Inr ()))))))"

definition take_claim ::
    "'z rotation_libs_scheme \<Rightarrow> rotator \<Rightarrow> string \<Rightarrow> loaded \<Rightarrow> string \<Rightarrow> (fault + claim option) prog" where
  "take_claim L R hkey loaded upstream_token =
     ClockMs (\<lambda>now.
       let rec = loaded_record loaded in
       case ttl_until (family_expires_ms rec) now of
         None \<Rightarrow> Ret (Inr None)
       | Some ttl \<Rightarrow>
           RandomBytes 16 (\<lambda>cid.
           bindE (seal_record L R hkey (rec\<lparr>handle_state := Claimed upstream_token cid now\<rparr>)) (\<lambda>bs.
           bindE (swap_key hkey (loaded_bytes loaded) bs ttl) (\<lambda>won.
             Ret (Inr (if won
               then Some \<lparr>claim_bytes = bs, claim_id = cid, claim_token = upstream_token,
                          claim_family_id = family_id rec, claim_expires_ms = family_expires_ms rec\<rparr>
               else None))))))"

definition release :: "'z rotation_libs_scheme \<Rightarrow> rotator \<Rightarrow> string \<Rightarrow> claim \<Rightarrow> unit prog" where
  "release L R hkey c =
     bind (seal_record L R hkey
            \<lparr>family_id = claim_family_id c, family_expires_ms = claim_expires_ms c,
             handle_state = Active (claim_token c)\<rparr>) (\<lambda>released.
     ClockMs (\<lambda>now.
       case ttl_until (claim_expires_ms c) now of
         None \<Rightarrow> Ret ()
       | Some ttl \<Rightarrow>
           (case released of
              Inl _ \<Rightarrow> Ret ()
            | Inr bs \<Rightarrow> CompareAndSwap hkey (claim_bytes c) bs ttl (\<lambda>_. Ret ()))))"

primrec discard :: "string list \<Rightarrow> unit prog" where
  "discard [] = Ret ()"
| "discard (key # keys) = DeleteKey key (\<lambda>_. discard keys)"

definition prepare_commit ::
    "'z rotation_libs_scheme \<Rightarrow> rotator \<Rightarrow> string \<Rightarrow> claim \<Rightarrow> string \<Rightarrow> string \<Rightarrow> string \<Rightarrow> stored_response
       \<Rightarrow> nat \<Rightarrow> duration \<Rightarrow> duration \<Rightarrow> (fault + bytes) prog" where
  "prepare_commit L R hkey c gkey successor_key successor_token response now family_ttl grace_ttl =
     bindE (seal_value R GRACE_PURPOSE gkey (response_encode L response)) (\<lambda>sealed_response.
     bindE (put_key gkey sealed_response grace_ttl) (\<lambda>created.
       if \<not> created then Ret (Inl Conflict)
       else
         bindE (seal_record L R successor_key
                 \<lparr>family_id = claim_family_id c, family_expires_ms = claim_expires_ms c,
                  handle_state = Active successor_token\<rparr>) (\<lambda>successor.
         bindE (put_key successor_key successor family_ttl) (\<lambda>created.
           if \<not> created then Ret (Inl Conflict)
           else
             seal_record L R hkey
               \<lparr>family_id = claim_family_id c, family_expires_ms = claim_expires_ms c,
                handle_state = Rotated now (claim_id c) successor_key\<rparr>))))"

definition conclude_commit ::
    "'z rotation_libs_scheme \<Rightarrow> rotator \<Rightarrow> string \<Rightarrow> claim \<Rightarrow> string \<Rightarrow> string \<Rightarrow> duration
       \<Rightarrow> fault + bytes \<Rightarrow> (fault + commit_result) prog" where
  "conclude_commit L R hkey c gkey successor_key family_ttl prepared =
     (case prepared of
        Inl fault \<Rightarrow>
          bind (discard [gkey, successor_key]) (\<lambda>_.
          bind (release L R hkey c) (\<lambda>_. Ret (Inl fault)))
      | Inr rotated \<Rightarrow>
          bindE (swap_key hkey (claim_bytes c) rotated family_ttl) (\<lambda>swapped.
            if swapped
            then CompareAndSwap (head_key L R (claim_family_id c)) hkey successor_key family_ttl
                   (\<lambda>_. Ret (Inr CommitRotated))
            else bind (discard [gkey, successor_key]) (\<lambda>_. Ret (Inr CommitLost))))"

definition commit ::
    "'z rotation_libs_scheme \<Rightarrow> rotator \<Rightarrow> string \<Rightarrow> claim \<Rightarrow> string \<Rightarrow> string \<Rightarrow> stored_response
       \<Rightarrow> (fault + commit_result) prog" where
  "commit L R hkey c successor_handle successor_token response =
     ClockMs (\<lambda>now.
       case ttl_until (claim_expires_ms c) now of
         None \<Rightarrow> Ret (Inr CommitLost)
       | Some family_ttl \<Rightarrow>
           let gkey = grace_key L R hkey (claim_id c);
               successor_key = handle_key L R successor_handle;
               grace_ttl = min (grace R + GRACE_RESPONSE_MARGIN) family_ttl
           in bind (prepare_commit L R hkey c gkey successor_key successor_token response
                     now family_ttl grace_ttl)
                (conclude_commit L R hkey c gkey successor_key family_ttl))"

section \<open>Asking the upstream\<close>

definition ask_upstream ::
    "rotator \<Rightarrow> refresher \<Rightarrow> string \<Rightarrow> (upstream_failure + stored_response) prog" where
  "ask_upstream R upstream upstream_token =
     bind (timeout (upstream_timeout (timing R)) (upstream upstream_token)) (\<lambda>r.
       case r of None \<Rightarrow> Ret (Inl FailedRequest) | Some result \<Rightarrow> Ret result)"

definition after_commit ::
    "'z rotation_libs_scheme \<Rightarrow> rotator \<Rightarrow> string \<Rightarrow> claim \<Rightarrow> string \<Rightarrow> stored_response \<Rightarrow> commit_result
       \<Rightarrow> (fault + refresh_outcome) prog" where
  "after_commit L R hkey c successor_handle response result =
     bindE (is_revoked L R (claim_family_id c)) (\<lambda>revoked.
       case result of
         CommitRotated \<Rightarrow>
           if revoked
           then bind (discard [grace_key L R hkey (claim_id c), handle_key L R successor_handle])
                  (\<lambda>_. Ret (Inr InvalidGrant))
           else Ret (Inr (Response response))
       | CommitLost \<Rightarrow> Ret (Inr (if revoked then InvalidGrant else Unavailable)))"

text \<open>What the claim holder does with the upstream's answer; \<open>perform\<close> asks and goes on with it.\<close>

definition record_outcome ::
    "'z rotation_libs_scheme \<Rightarrow> rotator \<Rightarrow> string \<Rightarrow> claim \<Rightarrow> upstream_failure + stored_response
       \<Rightarrow> (fault + refresh_outcome) prog" where
  "record_outcome L R hkey c asked =
     (case asked of
        Inl failure \<Rightarrow> bind (release L R hkey c) (\<lambda>_. Ret (Inr (UpstreamFailed failure)))
      | Inr response \<Rightarrow>
          if is_invalid_grant L response
          then bindE (revoke L R (claim_family_id c) (claim_expires_ms c) hkey)
                 (\<lambda>_. Ret (Inr (Response response)))
          else if \<not> is_success response
          then bind (release L R hkey c) (\<lambda>_. Ret (Inr (Response response)))
          else
            let rotated_upstream = upstream_refresh_token L (sr_status response) (sr_body response);
                successor_token = (case rotated_upstream of Some t \<Rightarrow> t | None \<Rightarrow> claim_token c)
            in bind (new_handle L) (\<lambda>successor_handle.
                 case with_refresh_token L (sr_status response) (sr_body response) successor_handle of
                   None \<Rightarrow> bind (release L R hkey c) (\<lambda>_. Ret (Inr UpstreamUnusable))
                 | Some body \<Rightarrow>
                     let response = response\<lparr>sr_body := body\<rparr>
                     in bindE (commit L R hkey c successor_handle successor_token response) (\<lambda>result.
                          after_commit L R hkey c successor_handle response result)))"

definition perform ::
    "'z rotation_libs_scheme \<Rightarrow> rotator \<Rightarrow> refresher \<Rightarrow> string \<Rightarrow> claim \<Rightarrow> (fault + refresh_outcome) prog" where
  "perform L R upstream hkey c =
     bind (ask_upstream R upstream (claim_token c)) (record_outcome L R hkey c)"

section \<open>The refresh grant\<close>

text \<open>From an opened, still valid sealed handle: refresh, and start a family.\<close>

definition migrate_family ::
    "'z rotation_libs_scheme \<Rightarrow> rotator \<Rightarrow> refresher \<Rightarrow> refresh_handle \<Rightarrow> (fault + refresh_outcome) prog" where
  "migrate_family L R upstream opened =
     bind (ask_upstream R upstream (h_upstream_token opened)) (\<lambda>asked.
       case asked of
         Inl failure \<Rightarrow> Ret (Inr (UpstreamFailed failure))
       | Inr response \<Rightarrow>
           if is_invalid_grant L response then Ret (Inr (Response response))
           else if \<not> is_success response then Ret (Inr (Response response))
           else
             let successor_token =
                   (case upstream_refresh_token L (sr_status response) (sr_body response) of
                      Some t \<Rightarrow> t | None \<Rightarrow> h_upstream_token opened)
             in bind (new_handle L) (\<lambda>handle.
                  case with_refresh_token L (sr_status response) (sr_body response) handle of
                    None \<Rightarrow> Ret (Inr UpstreamUnusable)
                  | Some body \<Rightarrow>
                      bindE (create_family L R handle successor_token) (\<lambda>_.
                        Ret (Inr (Response (response\<lparr>sr_body := body\<rparr>))))))"

definition refresh_sealed_handle ::
    "'z rotation_libs_scheme \<Rightarrow> rotator \<Rightarrow> refresher \<Rightarrow> string \<Rightarrow> (fault + refresh_outcome) prog" where
  "refresh_sealed_handle L R upstream presented =
     bind (timeout (sealer_timeout (timing R)) (open_handle L (binding R) presented)) (\<lambda>r.
       case r of
         None \<Rightarrow> Ret (Inl SealerFault)
       | Some (Inl HandleInvalid) \<Rightarrow> Ret (Inr InvalidGrant)
       | Some (Inl HandleSealerUnavailable) \<Rightarrow> Ret (Inl SealerFault)
       | Some (Inr opened) \<Rightarrow>
           let issued_ms = saturating_mul (h_issued_at opened) 1000 in
           ClockMs (\<lambda>now.
             if saturating_add issued_ms (as_u64 (as_millis (max_lifetime R))) \<le> now
             then Ret (Inr InvalidGrant)
             else migrate_family L R upstream opened))"

text \<open>
  One round of the loop: either the answer (\<open>Some\<close>), or nothing could be decided yet.
\<close>

definition claim_and_perform ::
    "'z rotation_libs_scheme \<Rightarrow> rotator \<Rightarrow> refresher \<Rightarrow> string \<Rightarrow> loaded \<Rightarrow> string
       \<Rightarrow> (fault + refresh_outcome option) prog" where
  "claim_and_perform L R upstream hkey loaded upstream_token =
     bindE (take_claim L R hkey loaded upstream_token) (\<lambda>c.
       case c of
         None \<Rightarrow> Ret (Inr None)
       | Some c \<Rightarrow> bindE (perform L R upstream hkey c) (\<lambda>outcome. Ret (Inr (Some outcome))))"

definition act_on_state ::
    "'z rotation_libs_scheme \<Rightarrow> rotator \<Rightarrow> refresher \<Rightarrow> string \<Rightarrow> loaded \<Rightarrow> nat
       \<Rightarrow> (fault + refresh_outcome option) prog" where
  "act_on_state L R upstream hkey loaded now =
     (case handle_state (loaded_record loaded) of
        Active upstream_token \<Rightarrow> claim_and_perform L R upstream hkey loaded upstream_token
      | Claimed upstream_token _ claimed_ms \<Rightarrow>
          if as_u64 (as_millis (claim_lease (timing R))) < saturating_sub now claimed_ms
          then claim_and_perform L R upstream hkey loaded upstream_token
          else Ret (Inr None)
      | Rotated rotated_ms cid _ \<Rightarrow>
          if \<not> (saturating_sub now rotated_ms \<le> as_u64 (as_millis (grace R)))
          then bindE (reuse_detected L R hkey (loaded_record loaded)) (\<lambda>outcome. Ret (Inr (Some outcome)))
          else bindE (load_grace_response L R (grace_key L R hkey cid)) (\<lambda>response.
                 Ret (Inr (map_option Response response))))"

definition refresh_round ::
    "'z rotation_libs_scheme \<Rightarrow> rotator \<Rightarrow> refresher \<Rightarrow> string \<Rightarrow> (fault + refresh_outcome option) prog" where
  "refresh_round L R upstream hkey =
     bindE (load L R hkey) (\<lambda>l.
       case l of
         None \<Rightarrow> Ret (Inr (Some InvalidGrant))
       | Some loaded \<Rightarrow>
           ClockMs (\<lambda>now.
             if family_expires_ms (loaded_record loaded) \<le> now then Ret (Inr (Some InvalidGrant))
             else bindE (is_revoked L R (family_id (loaded_record loaded))) (\<lambda>revoked.
                    if revoked then Ret (Inr (Some InvalidGrant))
                    else act_on_state L R upstream hkey loaded now)))"

primrec refresh_loop ::
    "nat \<Rightarrow> 'z rotation_libs_scheme \<Rightarrow> rotator \<Rightarrow> refresher \<Rightarrow> string \<Rightarrow> nat
       \<Rightarrow> (fault + refresh_outcome) option prog" where
  "refresh_loop 0 L R upstream hkey started = Ret None"
| "refresh_loop (Suc polls) L R upstream hkey started =
     bind (refresh_round L R upstream hkey) (\<lambda>r.
       case r of
         Inl fault \<Rightarrow> Ret (Some (Inl fault))
       | Inr (Some outcome) \<Rightarrow> Ret (Some (Inr outcome))
       | Inr None \<Rightarrow>
           InstantNow (\<lambda>now.
             if resolve_wait (timing R) \<le> now - started then Ret (Some (Inr Unavailable))
             else Sleep (poll_interval (timing R)) (\<lambda>_.
                    refresh_loop polls L R upstream hkey started)))"

definition refresh_rotating ::
    "nat \<Rightarrow> 'z rotation_libs_scheme \<Rightarrow> rotator \<Rightarrow> refresher \<Rightarrow> string
       \<Rightarrow> (fault + refresh_outcome) option prog" where
  "refresh_rotating polls L R upstream presented =
     (let hkey = handle_key L R presented in
      InstantNow (\<lambda>started. refresh_loop polls L R upstream hkey started))"

fun outcome_of_fault :: "fault \<Rightarrow> refresh_outcome" where
  "outcome_of_fault Unopenable = InvalidGrant"
| "outcome_of_fault SealingFault = InvalidGrant"
| "outcome_of_fault SealerFault = SealerUnavailable"
| "outcome_of_fault (StoreFault _) = StoreFailed"
| "outcome_of_fault Conflict = StoreFailed"

definition unwrap_fault :: "fault + refresh_outcome \<Rightarrow> refresh_outcome" where
  "unwrap_fault r = (case r of Inl fault \<Rightarrow> outcome_of_fault fault | Inr outcome \<Rightarrow> outcome)"

definition rotator_refresh ::
    "nat \<Rightarrow> 'z rotation_libs_scheme \<Rightarrow> rotator \<Rightarrow> refresher \<Rightarrow> string \<Rightarrow> refresh_outcome option prog" where
  "rotator_refresh polls L R upstream presented =
     bind (if starts_with HANDLE_PREFIX presented
           then bind (refresh_sealed_handle L R upstream presented) (\<lambda>r. Ret (Some r))
           else if valid_handle_shape L presented then refresh_rotating polls L R upstream presented
           else Ret (Some (Inr InvalidGrant)))
       (\<lambda>r. Ret (map_option unwrap_fault r))"

section \<open>Issuing the first handle\<close>

definition issue :: "'z rotation_libs_scheme \<Rightarrow> rotator \<Rightarrow> string \<Rightarrow> (issue_error + string) prog" where
  "issue L R upstream_token =
     bind (new_handle L) (\<lambda>handle.
     bind (create_family L R handle upstream_token) (\<lambda>created.
       Ret (case created of
              Inr _ \<Rightarrow> Inr handle
            | Inl SealerFault \<Rightarrow> Inl IssueSealerUnavailable
            | Inl _ \<Rightarrow> Inl IssueStore)))"

definition issue_in_response ::
    "'z rotation_libs_scheme \<Rightarrow> rotator \<Rightarrow> stored_response \<Rightarrow> (issue_error + bytes option) prog" where
  "issue_in_response L R response =
     (case upstream_refresh_token L (sr_status response) (sr_body response) of
        None \<Rightarrow>
          if is_success response
             \<and> \<not> (case json_parse L (sr_body response) of None \<Rightarrow> False | Some v \<Rightarrow> is_object v)
             \<and> names_refresh_token L (sr_body response)
          then Ret (Inl IssueUnrecognizedBody)
          else Ret (Inr None)
      | Some token \<Rightarrow>
          bindE (issue L R token) (\<lambda>handle.
            Ret (map_sum id Some (ok_or IssueUnrecognizedBody
              (with_refresh_token L (sr_status response) (sr_body response) handle)))))"

end
