(* ===== verification/Layout.thy ===== *)
theory Layout
  imports Model
begin

text \<open>
  The URL layout of \<open>oauthrelay-core/src/layout.rs\<close>: the endpoints, the built-in
  \<open>DefaultLayout\<close>, and the contract of the \<open>PathLayout\<close> trait, that \<open>path\<close> inverts \<open>parse\<close>, as
  a locale with what the router builds on it.
\<close>

section \<open>Endpoints and the default layout\<close>

datatype endpoint = Authorize | Callback | Token | DiscoveryDoc | JwksDoc

definition ALL_ENDPOINTS :: "endpoint list" where
  "ALL_ENDPOINTS = [Authorize, Callback, Token, DiscoveryDoc, JwksDoc]"

datatype key_strategy =
    SingleSegment
  | TwoSegment
  | CustomKeys "string list \<Rightarrow> string option"

text \<open>The endpoint a path names, and the segments of its key.\<close>

definition layout_endpoint :: "string list \<Rightarrow> (string list \<times> endpoint) option" where
  "layout_endpoint segments =
     (case segments of
        [] \<Rightarrow> None
      | ns # namespaced \<Rightarrow>
          if ns = ''upstream'' \<and> namespaced \<noteq> [] \<and> last namespaced = ''callback''
          then Some (take (length namespaced - 1) namespaced, Callback)
          else if ns = ''relay'' \<and> 2 \<le> length namespaced \<and>
               drop (length namespaced - 2) namespaced = [''.well-known'', ''openid-configuration'']
          then Some (take (length namespaced - 2) namespaced, DiscoveryDoc)
          else if ns = ''relay'' then
            if namespaced = [] then None
            else let key_parts = take (length namespaced - 1) namespaced in
                 if last namespaced = ''authorize'' then Some (key_parts, Authorize)
                 else if last namespaced = ''token'' then Some (key_parts, Token)
                 else if last namespaced = ''jwks'' then Some (key_parts, JwksDoc)
                 else None
          else None)"

definition layout_key :: "key_strategy \<Rightarrow> string list \<Rightarrow> string option" where
  "layout_key keys key_parts =
     (case keys of
        SingleSegment \<Rightarrow>
          if length key_parts = 1 then ok (resource_key_new (key_parts ! 0)) else None
      | TwoSegment \<Rightarrow>
          if length key_parts = 2 then ok (resource_key_new (key_parts ! 0 @ ''/'' @ key_parts ! 1))
          else None
      | CustomKeys map_key \<Rightarrow> map_key key_parts)"

definition layout_parse :: "key_strategy \<Rightarrow> string \<Rightarrow> (endpoint \<times> string) option" where
  "layout_parse keys path =
     Option.bind (layout_endpoint (split_on (CHR ''/'') (trim_matches (CHR ''/'') path)))
       (\<lambda>(key_parts, endpoint).
          map_option (\<lambda>key. (endpoint, key)) (layout_key keys key_parts))"

fun layout_path :: "endpoint \<Rightarrow> string \<Rightarrow> string" where
  "layout_path Authorize key = ''relay/'' @ key @ ''/authorize''"
| "layout_path Callback key = ''upstream/'' @ key @ ''/callback''"
| "layout_path Token key = ''relay/'' @ key @ ''/token''"
| "layout_path DiscoveryDoc key = ''relay/'' @ key @ ''/.well-known/openid-configuration''"
| "layout_path JwksDoc key = ''relay/'' @ key @ ''/jwks''"

section \<open>The contract of a layout\<close>

locale path_layout =
  fixes parse :: "string \<Rightarrow> (endpoint \<times> string) option"
    and path :: "endpoint \<Rightarrow> string \<Rightarrow> string"
    and serves :: "string \<Rightarrow> bool"
  assumes parse_path: "serves key \<Longrightarrow> parse (path e key) = Some (e, key)"
begin

text \<open>No two endpoints and no two keys share a path.\<close>

lemma path_inj: "serves k \<Longrightarrow> serves k' \<Longrightarrow> path e k = path e' k' \<Longrightarrow> e = e' \<and> k = k'"
  by (metis option.inject parse_path prod.inject)

lemma paths_distinct: "serves k \<Longrightarrow> distinct (map (\<lambda>e. path e k) ALL_ENDPOINTS)"
  by (auto simp: ALL_ENDPOINTS_def dest: path_inj)

end

section \<open>The default layout keeps the contract\<close>

definition single_segment_key :: "string \<Rightarrow> bool" where
  "single_segment_key key \<longleftrightarrow>
     resource_key_new key = Inr key \<and> length (split_on (CHR ''/'') key) = 1"

definition two_segment_key :: "string \<Rightarrow> bool" where
  "two_segment_key key \<longleftrightarrow>
     resource_key_new key = Inr key \<and> length (split_on (CHR ''/'') key) = 2"

fun endpoint_segments :: "endpoint \<Rightarrow> string list \<Rightarrow> string list" where
  "endpoint_segments Authorize ks = ''relay'' # ks @ [''authorize'']"
| "endpoint_segments Callback ks = ''upstream'' # ks @ [''callback'']"
| "endpoint_segments Token ks = ''relay'' # ks @ [''token'']"
| "endpoint_segments DiscoveryDoc ks = ''relay'' # ks @ [''.well-known'', ''openid-configuration'']"
| "endpoint_segments JwksDoc ks = ''relay'' # ks @ [''jwks'']"

lemma layout_endpoint_segments: "layout_endpoint (endpoint_segments e ks) = Some (ks, e)"
  by (cases e) (auto simp: layout_endpoint_def Let_def)

lemma split_layout_path:
  "split_on (CHR ''/'') (layout_path e key) = endpoint_segments e (split_on (CHR ''/'') key)"
proof -
  have rel: "split_on (CHR ''/'') (''relay/'' @ s) = ''relay'' # split_on (CHR ''/'') s" for s
    using split_on_append_sep [of "CHR ''/''" "''relay''" s] by simp
  have up: "split_on (CHR ''/'') (''upstream/'' @ s) = ''upstream'' # split_on (CHR ''/'') s" for s
    using split_on_append_sep [of "CHR ''/''" "''upstream''" s] by simp
  show ?thesis
    using split_on_append [of "CHR ''/''" key] rel up by (cases e) auto
qed

lemma layout_path_trimmed: "trim_matches (CHR ''/'') (layout_path e key) = layout_path e key"
  unfolding trim_matches_def
  by (cases e) (simp_all add: trim_start_matches_def trim_end_matches_def)

lemma layout_parse_path:
  "layout_parse keys (layout_path e key) =
     map_option (\<lambda>k. (e, k)) (layout_key keys (split_on (CHR ''/'') key))"
  by (simp add: layout_parse_def layout_path_trimmed split_layout_path layout_endpoint_segments)

lemma single_key_parts: "single_segment_key key \<Longrightarrow> split_on (CHR ''/'') key = [key]"
proof -
  assume "single_segment_key key"
  then obtain p where "split_on (CHR ''/'') key = [p]"
    by (auto simp: single_segment_key_def length_Suc_conv)
  then show ?thesis using join_split_on [of "CHR ''/''" key] by simp
qed

lemma two_key_parts:
  "two_segment_key key \<Longrightarrow> \<exists>a b. split_on (CHR ''/'') key = [a, b] \<and> key = a @ ''/'' @ b"
proof -
  assume "two_segment_key key"
  then obtain a b where "split_on (CHR ''/'') key = [a, b]"
    by (auto simp: two_segment_key_def numeral_2_eq_2 length_Suc_conv)
  then show ?thesis using join_split_on [of "CHR ''/''" key] by auto
qed

interpretation single: path_layout "layout_parse SingleSegment" layout_path single_segment_key
  by unfold_locales
    (simp add: layout_parse_path layout_key_def single_key_parts, simp add: single_segment_key_def)

interpretation two: path_layout "layout_parse TwoSegment" layout_path two_segment_key
proof
  fix key e assume two: "two_segment_key key"
  then have "resource_key_new key = Inr key" by (simp add: two_segment_key_def)
  with two_key_parts [OF two] show "layout_parse TwoSegment (layout_path e key) = Some (e, key)"
    by (auto simp: layout_parse_path layout_key_def)
qed

lemma layout_parse_valid_key:
  assumes "layout_parse keys p = Some (e, key)" and "keys = SingleSegment \<or> keys = TwoSegment"
  shows "resource_key_new key = Inr key"
proof -
  have "ok (resource_key_new s) = Some key \<Longrightarrow> resource_key_new key = Inr key" for s
    by (cases "resource_key_new s") (auto simp: resource_key_new_def split: if_splits)
  with assms show ?thesis
    by (auto simp: layout_parse_def layout_key_def bind_eq_Some_conv split: if_splits)
qed

end
