(* ===== verification/Router.thy ===== *)
theory Router
  imports Outbound Rotation Layout
begin

text \<open>
  The HTTP endpoints, \<open>oauthrelay-core/src/router.rs\<close>: authorize, callback, token (code exchange
  and refresh), discovery, JWKS and preflight, with client authentication and ID-token admission.
  Every handler is a program of the name it has in the source. JWT decoding and verification
  (\<open>jsonwebtoken\<close>) and the \<open>postcard\<close> codecs are parameters. The refresh handler of a rotating relay
  takes the number of polls of the rotation loop; the answer is \<open>None\<close> only when they run out.
\<close>

section \<open>Parameters and state\<close>

record jwt_header =
  h_alg :: string
  h_kid :: "string option"

record jwk =
  key_id :: "string option"
  key_data :: json

text \<open>\<open>jsonwebtoken::Validation\<close>: what \<open>decode\<close> is told to check.\<close>

record jwt_validation =
  v_alg :: string
  v_issuer :: "string list option"
  v_audience :: "string list option"
  v_required :: "string list"
  v_validate_nbf :: bool
  v_validate_aud :: bool
  v_leeway :: nat

definition validation_new :: "string \<Rightarrow> jwt_validation" where
  "validation_new alg =
     \<lparr>v_alg = alg, v_issuer = None, v_audience = None, v_required = [''exp''], v_validate_nbf = False,
      v_validate_aud = True, v_leeway = 60\<rparr>"

record flow_envelope =
  f_relay_key :: string
  f_app_redirect_uri :: string
  f_app_state :: "string option"
  f_upstream_pkce_verifier :: string
  f_client_code_challenge :: "string option"
  f_client_code_challenge_method :: "string option"
  f_id_token_nonce :: "string option"
  f_issued_at :: nat
  f_nonce :: bytes

record code_envelope =
  ce_relay_key :: string
  ce_envelope_id :: bytes
  ce_issued_at :: nat
  ce_redirect_uri :: string
  ce_client_code_challenge :: "string option"
  ce_id_token_nonce :: "string option"
  ce_upstream_response :: stored_response
  ce_handle_fingerprint :: bytes

record router_libs = rotation_libs +
  flow_encode :: "flow_envelope \<Rightarrow> bytes option"
  flow_decode :: "bytes \<Rightarrow> flow_envelope option"
  code_encode :: "code_envelope \<Rightarrow> bytes option"
  code_decode :: "bytes \<Rightarrow> code_envelope option"
  decode_header :: "string \<Rightarrow> jwt_header option"
  jwkset_of :: "json \<Rightarrow> jwk list option"
  decoding_key :: "jwk \<Rightarrow> bytes option"
  jwt_decode :: "string \<Rightarrow> bytes \<Rightarrow> jwt_validation \<Rightarrow> nat \<Rightarrow> json option"
  sha384 :: "bytes \<Rightarrow> bytes"
  sha512 :: "bytes \<Rightarrow> bytes"
  tuple_json :: "string list \<Rightarrow> bytes option"

text \<open>
  \<open>AppState\<close> with its configuration: the resolver, the public URL, the key layout, whether a
  store and an outbound policy are configured, and the redirect widenings. The store, the sealer,
  the HTTP clients, the policy and the caches are reached through the calls of a program. A
  resolver error is \<open>Inl\<close>.
\<close>

record app_state =
  resolve_relay :: "string \<Rightarrow> unit + relay option"
  resolve_upstream :: "string \<Rightarrow> unit + upstream option"
  public_url :: url
  layout_keys :: key_strategy
  has_store :: bool
  has_policy :: bool
  redirect_opts :: redirect_options

datatype response_body = NoBody | JsonBody json | RawBody bytes

record response =
  rs_status :: nat
  rs_headers :: "(string \<times> string) list"
  rs_body :: response_body

record in_request =
  in_method :: http_method
  in_path :: string
  in_query :: "string option"
  in_headers :: "(string \<times> string) list"
  in_body :: "bytes option"

section \<open>Responses\<close>

definition status_response :: "nat \<Rightarrow> response" where
  "status_response status = \<lparr>rs_status = status, rs_headers = [], rs_body = NoBody\<rparr>"

definition json_response :: "nat \<Rightarrow> json \<Rightarrow> response" where
  "json_response status v =
     \<lparr>rs_status = status, rs_headers = [(''content-type'', ''application/json'')], rs_body = JsonBody v\<rparr>"

definition oauth_error :: "nat \<Rightarrow> string \<Rightarrow> string \<Rightarrow> response" where
  "oauth_error status err description =
     json_response status (JObject [(''error'', JString err), (''error_description'', JString description)])"

definition add_headers :: "(string \<times> string) list \<Rightarrow> response \<Rightarrow> response" where
  "add_headers hs r = r\<lparr>rs_headers := foldl (\<lambda>acc (n, v). al_insert n v acc) (rs_headers r) hs\<rparr>"

definition no_store_headers :: "(string \<times> string) list" where
  "no_store_headers = [(''cache-control'', ''no-store''), (''pragma'', ''no-cache'')]"

definition upstream_request_failed :: response where
  "upstream_request_failed = oauth_error 502 ''server_error'' ''upstream request failed''"

definition sealer_unavailable :: response where
  "sealer_unavailable = oauth_error 503 ''server_error'' ''sealing is unavailable''"

definition refresh_state_unavailable :: response where
  "refresh_state_unavailable = oauth_error 503 ''server_error'' ''refresh token state is unavailable''"

definition rotation_store_required :: response where
  "rotation_store_required =
     oauth_error 500 ''server_error'' ''rotating refresh tokens require a transient store''"

definition required_claims_error :: response where
  "required_claims_error =
     add_headers no_store_headers
       (oauth_error 400 ''invalid_grant'' ''Identity does not satisfy required ID-token claims.'')"

fun substitution_failed :: "substitution_error \<Rightarrow> response" where
  "substitution_failed Sealing = oauth_error 500 ''server_error'' ''token response could not be sealed''"
| "substitution_failed SubstSealerUnavailable = sealer_unavailable"
| "substitution_failed UnrecognizedBody =
     oauth_error 502 ''server_error'' ''upstream token response could not be processed''"

text \<open>\<open>StatusCode::from_u16\<close> accepts 100 to 999.\<close>

definition from_u16 :: "nat \<Rightarrow> nat option" where
  "from_u16 status = (if 100 \<le> status \<and> status \<le> 999 then Some status else None)"

fun upstream_failure_response :: "upstream_failure \<Rightarrow> response" where
  "upstream_failure_response (FailedStatus status) =
     status_response (case from_u16 status of Some s \<Rightarrow> s | None \<Rightarrow> 502)"
| "upstream_failure_response FailedRequest = upstream_request_failed"

definition stored_response :: "'z libs_scheme \<Rightarrow> stored_response \<Rightarrow> response" where
  "stored_response L stored =
     \<lparr>rs_status = (case from_u16 (sr_status stored) of Some s \<Rightarrow> s | None \<Rightarrow> 502),
      rs_headers = no_store_headers @
        (case sr_content_type stored of
           None \<Rightarrow> []
         | Some t \<Rightarrow> if header_valid L t then [(''content-type'', t)] else []),
      rs_body = RawBody (sr_body stored)\<rparr>"

text \<open>\<open>HeaderValue::to_str\<close> accepts visible ASCII and tabs.\<close>

definition header_text :: "string \<Rightarrow> string option" where
  "header_text v = (if list_all (\<lambda>c. byte_value c = 9 \<or> 32 \<le> byte_value c \<and> byte_value c < 127) v then Some v else None)"

definition read_upstream_response :: "http_response \<Rightarrow> stored_response option" where
  "read_upstream_response response =
     (case res_body response of
        None \<Rightarrow> None
      | Some body \<Rightarrow>
          Some \<lparr>sr_status = res_status response,
                sr_content_type = Option.bind (res_content_type response) header_text, sr_body = body\<rparr>)"

definition proxy_response :: "http_response \<Rightarrow> response" where
  "proxy_response response =
     (case res_body response of
        None \<Rightarrow> status_response 502
      | Some body \<Rightarrow>
          \<lparr>rs_status = res_status response,
           rs_headers = no_store_headers @
             (case res_content_type response of None \<Rightarrow> [] | Some t \<Rightarrow> [(''content-type'', t)]),
           rs_body = RawBody body\<rparr>)"

definition found :: "'z libs_scheme \<Rightarrow> string \<Rightarrow> response" where
  "found L location =
     (if header_valid L location
      then \<lparr>rs_status = 302, rs_headers = [(''location'', location)], rs_body = NoBody\<rparr>
      else status_response 500)"

definition auth_failure_response :: "auth_failure \<Rightarrow> response" where
  "auth_failure_response failure =
     (case failure of
        InvalidClient via_header \<Rightarrow>
          let response = oauth_error 401 ''invalid_client'' ''client authentication failed'' in
          if via_header
          then add_headers [(''www-authenticate'', ''Basic realm='' @ [CHR 0x22] @ ''oauthrelay'' @ [CHR 0x22])] response
          else response
      | MultipleMethods \<Rightarrow>
          oauth_error 400 ''invalid_request''
            ''client credentials must use exactly one authentication method'')"

section \<open>CORS\<close>

definition allowed_cors_origin ::
    "'z libs_scheme \<Rightarrow> relay \<Rightarrow> (string \<times> string) list \<Rightarrow> redirect_options \<Rightarrow> string option" where
  "allowed_cors_origin L r hs options =
     (case header_values ''origin'' hs of
        [] \<Rightarrow> None
      | v # _ \<Rightarrow>
          (case Option.bind (header_text v) (url_parse L) of
             None \<Rightarrow> None
           | Some u \<Rightarrow>
               if path_of u \<noteq> ''/'' \<or> query u \<noteq> None \<or> fragment u \<noteq> None then None
               else if cors_origin_allowed L r u options then Some v else None))"

definition with_cors :: "response \<Rightarrow> string option \<Rightarrow> response" where
  "with_cors r origin =
     (case origin of
        None \<Rightarrow> r
      | Some v \<Rightarrow>
          add_headers [(''access-control-allow-origin'', v), (''access-control-allow-methods'', ''POST, OPTIONS''),
            (''access-control-allow-headers'', ''Content-Type''), (''vary'', ''Origin'')] r)"

definition preflight ::
    "'z libs_scheme \<Rightarrow> relay \<Rightarrow> (string \<times> string) list \<Rightarrow> redirect_options \<Rightarrow> response" where
  "preflight L r hs options =
     (let origin = allowed_cors_origin L r hs options in
      if origin = None then status_response 403 else with_cors (status_response 204) origin)"

section \<open>Sealed envelopes and public URLs\<close>

definition seal_postcard :: "string \<Rightarrow> bytes option \<Rightarrow> (nat + string) prog" where
  "seal_postcard key encoded =
     (case encoded of
        None \<Rightarrow> Ret (Inl 500)
      | Some bs \<Rightarrow>
          Seal bs key (\<lambda>r.
            case r of
              Inr v \<Rightarrow> Ret (Inr v)
            | Inl SealerDown \<Rightarrow> Ret (Inl 503)
            | Inl _ \<Rightarrow> Ret (Inl 500)))"

datatype unseal_error = UnsealInvalid | UnsealUnavailable

definition unseal_postcard :: "(bytes \<Rightarrow> 'v option) \<Rightarrow> string \<Rightarrow> string \<Rightarrow> (unseal_error + 'v) prog" where
  "unseal_postcard decode key v =
     Unseal v key (\<lambda>r.
       case r of
         Inl SealerDown \<Rightarrow> Ret (Inl UnsealUnavailable)
       | Inl _ \<Rightarrow> Ret (Inl UnsealInvalid)
       | Inr bs \<Rightarrow> Ret (ok_or UnsealInvalid (decode bs)))"

definition endpoint_url :: "'z libs_scheme \<Rightarrow> app_state \<Rightarrow> endpoint \<Rightarrow> string \<Rightarrow> url" where
  "endpoint_url L S e key =
     url_without_fragment L (url_without_query L
       (url_with_path L (public_url S)
          (trim_end_matches (CHR ''/'') (path_of (public_url S)) @ ''/''
           @ trim_start_matches (CHR ''/'') (layout_path e key))))"

definition public_route_prefix :: "url \<Rightarrow> string" where
  "public_route_prefix u = trim_end_matches (CHR ''/'') (path_of u)"

definition rotation_store_missing :: "app_state \<Rightarrow> relay \<Rightarrow> bool" where
  "rotation_store_missing S r \<longleftrightarrow> mode (refresh_tokens r) = Rotating \<and> \<not> has_store S"

definition random_urlsafe :: "'z libs_scheme \<Rightarrow> nat \<Rightarrow> string prog" where
  "random_urlsafe L n = RandomBytes n (\<lambda>bs. Ret (b64url_encode L bs))"

section \<open>Authorize\<close>

text \<open>The checks before anything is sealed or fetched; the result is the scope to ask for.\<close>

definition authorize_checks ::
    "'z libs_scheme \<Rightarrow> app_state \<Rightarrow> relay \<Rightarrow> authorize_request \<Rightarrow> nat + (string \<times> string option)" where
  "authorize_checks L S r q =
     (if rotation_store_missing S r then Inl 500
      else case a_redirect_uri q of
        None \<Rightarrow> Inl 400
      | Some redirect \<Rightarrow>
          if \<not> redirect_allowed L r redirect (redirect_opts S) then Inl 400
          else if (case a_code_challenge_method q of None \<Rightarrow> False | Some m \<Rightarrow> m \<noteq> ''S256'') then Inl 400
          else if a_code_challenge q = None \<and> a_code_challenge_method q \<noteq> None then Inl 400
          else if client_auth r = Public \<and> a_code_challenge q = None then Inl 400
          else if (case a_code_challenge q of None \<Rightarrow> False | Some c \<Rightarrow> \<not> valid_pkce_challenge c) then Inl 400
          else (case a_scope q of
                  Some sc \<Rightarrow> if scope_allowed r sc then Inr (redirect, Some sc) else Inl 400
                | None \<Rightarrow>
                    if scopes r = [] then Inr (redirect, None) else Inr (redirect, Some (join '' '' (scopes r)))))"

definition authorize :: "'z router_libs_scheme \<Rightarrow> app_state \<Rightarrow> relay \<Rightarrow> upstream \<Rightarrow> authorize_request \<Rightarrow> response prog" where
  "authorize L S r u q =
     (case authorize_checks L S r q of
        Inl status \<Rightarrow> Ret (status_response status)
      | Inr (redirect, sc) \<Rightarrow>
          bind (resolve_endpoints L (has_policy S) r u) (\<lambda>re.
            case re of
              Inl status \<Rightarrow> Ret (status_response status)
            | Inr endpoints \<Rightarrow>
                bind (random_urlsafe L 64) (\<lambda>verifier.
                UnixNow (\<lambda>now.
                RandomBytes 16 (\<lambda>nonce.
                  let flow =
                    \<lparr>f_relay_key = r_key r, f_app_redirect_uri = redirect, f_app_state = a_state q,
                     f_upstream_pkce_verifier = verifier, f_client_code_challenge = a_code_challenge q,
                     f_client_code_challenge_method = map_option (\<lambda>_. ''S256'') (a_code_challenge q),
                     f_id_token_nonce = a_id_token_nonce q, f_issued_at = now, f_nonce = nonce\<rparr>
                  in bind (seal_postcard (u_key u) (flow_encode L flow)) (\<lambda>rs.
                       case rs of
                         Inl status \<Rightarrow> Ret (status_response status)
                       | Inr sealed \<Rightarrow>
                           Ret (found L (as_str (url_append_pairs L (e_authorization_endpoint endpoints)
                             ([(''response_type'', ''code''), (''client_id'', client_id u),
                               (''redirect_uri'', as_str (endpoint_url L S Callback (u_key u))),
                               (''state'', sealed), (''code_challenge'', pkce_challenge L verifier),
                               (''code_challenge_method'', ''S256'')]
                              @ (case sc of None \<Rightarrow> [] | Some x \<Rightarrow> [(''scope'', x)])
                              @ a_forwarded q))))))))))"

section \<open>Callback\<close>

text \<open>\<open>fresh\<close> reads the clock.\<close>

definition fresh :: "nat \<Rightarrow> nat \<Rightarrow> bool prog" where
  "fresh issued_at ttl = UnixNow (\<lambda>now. Ret (fresh_at now issued_at ttl))"

text \<open>The relay of a flow, if it still exists, is valid, belongs to the upstream and allows the redirect.\<close>

definition callback_relay ::
    "'z libs_scheme \<Rightarrow> app_state \<Rightarrow> upstream \<Rightarrow> flow_envelope \<Rightarrow> relay option" where
  "callback_relay L S u flow =
     (case resource_key_new (f_relay_key flow) of
        Inl _ \<Rightarrow> None
      | Inr key \<Rightarrow>
          (case resolve_relay S key of
             Inr (Some r) \<Rightarrow>
               if r_upstream r = u_key u \<and> is_ok (relay_validate_for L r (redirect_opts S))
                  \<and> redirect_allowed L r (f_app_redirect_uri flow) (redirect_opts S)
               then Some r else None
           | _ \<Rightarrow> None))"

definition append_state :: "'z libs_scheme \<Rightarrow> string \<Rightarrow> string option \<Rightarrow> string" where
  "append_state L redirect app_state =
     (case app_state of None \<Rightarrow> redirect | Some s \<Rightarrow> append_query_pairs L redirect [(''state'', s)])"

text \<open>The code exchange of the callback, once the relay is known.\<close>

definition callback_exchange ::
    "'z router_libs_scheme \<Rightarrow> app_state \<Rightarrow> upstream \<Rightarrow> relay \<Rightarrow> flow_envelope \<Rightarrow> callback_request \<Rightarrow> string \<Rightarrow> response prog" where
  "callback_exchange L S u r flow q code =
     bind (resolve_endpoints L (has_policy S) r u) (\<lambda>re.
       case re of
         Inl status \<Rightarrow> Ret (status_response status)
       | Inr endpoints \<Rightarrow>
           bind (send_upstream_token_request L (has_policy S) r u (e_token_endpoint endpoints)
                   [(''grant_type'', ''authorization_code''), (''code'', code),
                    (''redirect_uri'', as_str (endpoint_url L S Callback (u_key u))),
                    (''code_verifier'', f_upstream_pkce_verifier flow)] TokenExchange) (\<lambda>sent.
             case sent of
               Inl _ \<Rightarrow> Ret (status_response 502)
             | Inr reply \<Rightarrow>
                 (case read_upstream_response reply of
                    None \<Rightarrow> Ret (status_response 502)
                  | Some stored \<Rightarrow>
                      RandomBytes 16 (\<lambda>envelope_id.
                      UnixNow (\<lambda>now.
                        let envelope =
                          \<lparr>ce_relay_key = r_key r, ce_envelope_id = envelope_id, ce_issued_at = now,
                           ce_redirect_uri = f_app_redirect_uri flow,
                           ce_client_code_challenge = f_client_code_challenge flow,
                           ce_id_token_nonce = f_id_token_nonce flow, ce_upstream_response = stored,
                           ce_handle_fingerprint = fingerprint L r u\<rparr>
                        in bind (seal_postcard (r_key r) (code_encode L envelope)) (\<lambda>rs.
                             case rs of
                               Inl status \<Rightarrow> Ret (status_response status)
                             | Inr sealed \<Rightarrow>
                                 let redirect = append_query_pairs L (f_app_redirect_uri flow) [(''code'', sealed)];
                                     redirect = append_query_pairs L redirect (c_forwarded q)
                                 in Ret (found L (append_state L redirect (f_app_state flow)))))))))"

definition callback :: "'z router_libs_scheme \<Rightarrow> app_state \<Rightarrow> upstream \<Rightarrow> callback_request \<Rightarrow> response prog" where
  "callback L S u q =
     bind (unseal_postcard (flow_decode L) (u_key u) (c_state q)) (\<lambda>ru.
       case ru of
         Inl UnsealUnavailable \<Rightarrow> Ret (status_response 503)
       | Inl UnsealInvalid \<Rightarrow> Ret (status_response 400)
       | Inr flow \<Rightarrow>
           bind (fresh (f_issued_at flow) FLOW_TTL) (\<lambda>is_fresh.
             if \<not> is_fresh then Ret (status_response 400)
             else case callback_relay L S u flow of
                    None \<Rightarrow> Ret (status_response 400)
                  | Some r \<Rightarrow>
                      if c_error q
                      then Ret (found L (append_state L
                             (append_query_pairs L (f_app_redirect_uri flow) (c_forwarded q)) (f_app_state flow)))
                      else (case c_code q of
                              None \<Rightarrow> Ret (status_response 400)
                            | Some code \<Rightarrow> callback_exchange L S u r flow q code)))"

section \<open>ID-token admission\<close>

datatype id_token_error = Rejected | ValidationUnavailable

definition id_token_algorithms :: "string list" where
  "id_token_algorithms = [''RS256'', ''RS384'', ''RS512'', ''PS256'', ''PS384'', ''PS512'', ''ES256'', ''ES384'']"

definition valid_authorized_party :: "json \<Rightarrow> string \<Rightarrow> bool" where
  "valid_authorized_party claims cid =
     (let multiple = (case Option.bind (json_get claims ''aud'') as_array of
                        None \<Rightarrow> False | Some audiences \<Rightarrow> 1 < length audiences) in
      case json_get claims ''azp'' of
        Some v \<Rightarrow> as_string v = Some cid
      | None \<Rightarrow> \<not> multiple)"

definition access_token_digest :: "'z router_libs_scheme \<Rightarrow> string \<Rightarrow> string \<Rightarrow> bytes option" where
  "access_token_digest L alg token =
     (if alg \<in> {''RS256'', ''PS256'', ''ES256''} then Some (sha256 L token)
      else if alg \<in> {''RS384'', ''PS384'', ''ES384''} then Some (sha384 L token)
      else if alg \<in> {''RS512'', ''PS512''} then Some (sha512 L token)
      else None)"

definition valid_access_token_hash :: "'z router_libs_scheme \<Rightarrow> json \<Rightarrow> json \<Rightarrow> string \<Rightarrow> bool" where
  "valid_access_token_hash L claims token_response alg =
     (case json_get claims ''at_hash'' of
        None \<Rightarrow> True
      | Some v \<Rightarrow>
          (case as_string v of
             None \<Rightarrow> False
           | Some actual \<Rightarrow>
               (case Option.bind (json_get token_response ''access_token'') as_string of
                  None \<Rightarrow> False
                | Some token \<Rightarrow>
                    (case access_token_digest L alg token of
                       None \<Rightarrow> False
                     | Some digest \<Rightarrow>
                         constant_eq actual (b64url_encode L (take (length digest div 2) digest))))))"

definition find_jwk :: "jwk list \<Rightarrow> string option \<Rightarrow> jwk option" where
  "find_jwk keys kid =
     (case kid of
        Some k \<Rightarrow> find (\<lambda>key. key_id key = Some k) keys
      | None \<Rightarrow> if length keys = 1 then Some (hd keys) else None)"

definition legacy_claims_match :: "relay \<Rightarrow> json \<Rightarrow> bool" where
  "legacy_claims_match r claims =
     list_all (\<lambda>(claim, expected). json_get claims claim = Some (JString expected)) (required_id_token_claims r)"

text \<open>
  The checks on verified claims; the clock is read only when there is an \<open>iat\<close> to compare, and
  the skew is added to it in a \<open>u64\<close>, without overflow checks as in a release build.
\<close>

definition check_claims ::
    "'z router_libs_scheme \<Rightarrow> relay \<Rightarrow> upstream \<Rightarrow> json \<Rightarrow> json \<Rightarrow> string \<Rightarrow> string option \<Rightarrow> (id_token_error + unit) prog" where
  "check_claims L r u claims token_response alg expected_nonce =
     (if \<not> (case Option.bind (json_get claims ''sub'') as_string of None \<Rightarrow> False | Some s \<Rightarrow> s \<noteq> [])
      then Ret (Inl Rejected)
      else case Option.bind (json_get claims ''iat'') as_unsigned of
             None \<Rightarrow> Ret (Inl Rejected)
           | Some issued_at \<Rightarrow>
               UnixNow (\<lambda>now.
                 if as_u64 (now + 60) < issued_at
                    \<or> (case expected_nonce of
                         None \<Rightarrow> False
                       | Some expected \<Rightarrow> Option.bind (json_get claims ''nonce'') as_string \<noteq> Some expected)
                    \<or> \<not> valid_authorized_party claims (client_id u)
                    \<or> \<not> valid_access_token_hash L claims token_response alg
                 then Ret (Inl Rejected)
                 else if legacy_claims_match r claims
                         \<and> (case id_token_policy r of None \<Rightarrow> True | Some policy \<Rightarrow> evaluate_policy policy claims)
                 then Ret (Inr ()) else Ret (Inl Rejected)))"

definition id_token_validation :: "string \<Rightarrow> upstream \<Rightarrow> jwt_validation" where
  "id_token_validation alg u =
     (validation_new alg)\<lparr>v_issuer := Some [issuer_identifier (issuer_url u)], v_audience := Some [client_id u],
       v_required := [''iss'', ''sub'', ''aud'', ''exp'', ''iat''], v_validate_nbf := True\<rparr>"

definition policy_applies :: "relay \<Rightarrow> stored_response \<Rightarrow> bool" where
  "policy_applies r stored \<longleftrightarrow>
     (required_id_token_claims r \<noteq> [] \<or> id_token_policy r \<noteq> None) \<and> is_success_status (sr_status stored)"

definition validate_id_token_policy ::
    "'z router_libs_scheme \<Rightarrow> app_state \<Rightarrow> relay \<Rightarrow> upstream \<Rightarrow> stored_response \<Rightarrow> string option
       \<Rightarrow> (id_token_error + unit) prog" where
  "validate_id_token_policy L S r u stored expected_nonce =
     (if \<not> policy_applies r stored then Ret (Inr ())
      else case json_parse L (sr_body stored) of
        None \<Rightarrow> Ret (Inl Rejected)
      | Some token_response \<Rightarrow>
          (case Option.bind (json_get token_response ''id_token'') as_string of
             None \<Rightarrow> Ret (Inl Rejected)
           | Some id_token \<Rightarrow>
               (case decode_header L id_token of
                  None \<Rightarrow> Ret (Inl Rejected)
                | Some header \<Rightarrow>
                    if h_alg header \<notin> set id_token_algorithms then Ret (Inl Rejected)
                    else
                      bind (resolve_jwks_uri L (has_policy S) r u) (\<lambda>ru.
                        case ru of
                          Inl _ \<Rightarrow> Ret (Inl ValidationUnavailable)
                        | Inr None \<Rightarrow> Ret (Inl ValidationUnavailable)
                        | Inr (Some ju) \<Rightarrow>
                            bind (cached_json L (has_policy S) (scope_of r u) ju JWKS_TTL Jwks) (\<lambda>rj.
                              case rj of
                                Inl _ \<Rightarrow> Ret (Inl ValidationUnavailable)
                              | Inr v \<Rightarrow>
                                  (case jwkset_of L v of
                                     None \<Rightarrow> Ret (Inl ValidationUnavailable)
                                   | Some keys \<Rightarrow>
                                       (case find_jwk keys (h_kid header) of
                                          None \<Rightarrow> Ret (Inl Rejected)
                                        | Some key \<Rightarrow>
                                            (case decoding_key L key of
                                               None \<Rightarrow> Ret (Inl Rejected)
                                             | Some dk \<Rightarrow>
                                                 UnixNow (\<lambda>now.
                                                   case jwt_decode L id_token dk
                                                          (id_token_validation (h_alg header) u) now of
                                                     None \<Rightarrow> Ret (Inl Rejected)
                                                   | Some claims \<Rightarrow>
                                                       check_claims L r u claims token_response (h_alg header)
                                                         expected_nonce)))))))))"


section \<open>Code exchange\<close>

definition REPLAY_CODE_PREFIX :: string where "REPLAY_CODE_PREFIX = ''replay:code:''"
definition REPLAY_ASSERTION_PREFIX :: string where "REPLAY_ASSERTION_PREFIX = ''replay:client-assertion:''"

definition invalid_grant :: "string \<Rightarrow> response" where
  "invalid_grant description = oauth_error 400 ''invalid_grant'' description"

text \<open>The PKCE check: what is wrong with the verifier, if anything.\<close>

definition pkce_rejection :: "'z libs_scheme \<Rightarrow> relay \<Rightarrow> token_request \<Rightarrow> code_envelope \<Rightarrow> string option" where
  "pkce_rejection L r form envelope =
     (case ce_client_code_challenge envelope of
        Some expected \<Rightarrow>
          (case t_code_verifier form of
             None \<Rightarrow> Some ''code_verifier is required''
           | Some verifier \<Rightarrow>
               if \<not> valid_pkce_verifier verifier then Some ''invalid code_verifier''
               else if \<not> constant_eq expected (pkce_challenge L verifier) then Some ''PKCE verification failed''
               else None)
      | None \<Rightarrow>
          if t_code_verifier form \<noteq> None
          then Some ''code_verifier was sent but the authorization request had no code_challenge''
          else if client_auth r = Public then Some ''PKCE challenge is missing''
          else None)"

definition code_replay_key :: "'z libs_scheme \<Rightarrow> code_envelope \<Rightarrow> string" where
  "code_replay_key L envelope = REPLAY_CODE_PREFIX @ b64url_encode L (ce_envelope_id envelope)"

text \<open>The single-use marker of a code; nothing is marked without a store.\<close>

definition consume_code :: "'z libs_scheme \<Rightarrow> app_state \<Rightarrow> code_envelope \<Rightarrow> (response + unit) prog" where
  "consume_code L S envelope =
     (if \<not> has_store S then Ret (Inr ())
      else RandomBytes 16 (\<lambda>marker.
        PutIfAbsent (code_replay_key L envelope) marker (from_secs CODE_TTL) (\<lambda>r.
          Ret (case r of
                 Inr True \<Rightarrow> Inr ()
               | Inr False \<Rightarrow> Inl (invalid_grant ''code was already used'')
               | Inl _ \<Rightarrow> Inl (oauth_error 503 ''server_error'' ''replay protection is unavailable'')))))"

definition rotator_for :: "app_state \<Rightarrow> relay \<Rightarrow> handle_binding \<Rightarrow> rotator option" where
  "rotator_for S r b = (if has_store S then Some (rotator_new b (refresh_tokens r)) else None)"

definition issue_rotating ::
    "'z rotation_libs_scheme \<Rightarrow> app_state \<Rightarrow> relay \<Rightarrow> handle_binding \<Rightarrow> stored_response \<Rightarrow> response prog" where
  "issue_rotating L S r b stored =
     (case rotator_for S r b of
        None \<Rightarrow> Ret rotation_store_required
      | Some R \<Rightarrow>
          bind (issue_in_response L R stored) (\<lambda>ri.
            Ret (case ri of
                   Inr (Some body) \<Rightarrow> stored_response L (stored\<lparr>sr_body := body\<rparr>)
                 | Inr None \<Rightarrow> stored_response L stored
                 | Inl IssueStore \<Rightarrow> refresh_state_unavailable
                 | Inl IssueSealerUnavailable \<Rightarrow> sealer_unavailable
                 | Inl IssueUnrecognizedBody \<Rightarrow> substitution_failed UnrecognizedBody)))"

definition with_body :: "stored_response \<Rightarrow> bytes option \<Rightarrow> stored_response" where
  "with_body stored body = (case body of None \<Rightarrow> stored | Some b \<Rightarrow> stored\<lparr>sr_body := b\<rparr>)"

text \<open>What follows validation: seal, mark the code used, and answer as the relay's mode says.\<close>

definition redeem ::
    "'z rotation_libs_scheme \<Rightarrow> app_state \<Rightarrow> relay \<Rightarrow> code_envelope \<Rightarrow> bool \<Rightarrow> response prog" where
  "redeem L S r envelope admitted =
     (let b = \<lparr>b_relay = r_key r, b_fingerprint = ce_handle_fingerprint envelope\<rparr>;
          stored = ce_upstream_response envelope
      in bind (if mode (refresh_tokens r) = Sealed \<and> admitted
               then UnixNow (\<lambda>now. seal_token_response L b (sr_status stored) (sr_body stored) now)
               else Ret (Inr None)) (\<lambda>rb.
           case rb of
             Inl failure \<Rightarrow> Ret (substitution_failed failure)
           | Inr sealed_body \<Rightarrow>
               bind (consume_code L S envelope) (\<lambda>rc.
                 case rc of
                   Inl response \<Rightarrow> Ret response
                 | Inr _ \<Rightarrow>
                     if \<not> admitted then Ret required_claims_error
                     else (case mode (refresh_tokens r) of
                             Passthrough \<Rightarrow> Ret (stored_response L stored)
                           | Sealed \<Rightarrow> Ret (stored_response L (with_body stored sealed_body))
                           | Rotating \<Rightarrow> issue_rotating L S r b stored))))"

definition exchange_sealed_code ::
    "'z router_libs_scheme \<Rightarrow> app_state \<Rightarrow> relay \<Rightarrow> upstream \<Rightarrow> token_request \<Rightarrow> response prog" where
  "exchange_sealed_code L S r u form =
     (if rotation_store_missing S r then Ret rotation_store_required
      else case t_code form of
        None \<Rightarrow> Ret (oauth_error 400 ''invalid_request'' ''code is required'')
      | Some code \<Rightarrow>
          bind (unseal_postcard (code_decode L) (r_key r) code) (\<lambda>ru.
            case ru of
              Inl UnsealUnavailable \<Rightarrow> Ret sealer_unavailable
            | Inl UnsealInvalid \<Rightarrow> Ret (invalid_grant ''invalid or expired code'')
            | Inr envelope \<Rightarrow>
                bind (if ce_relay_key envelope = r_key r then fresh (ce_issued_at envelope) CODE_TTL else Ret False)
                  (\<lambda>usable.
                     if \<not> usable then Ret (invalid_grant ''invalid or expired code'')
                     else if t_redirect_uri form \<noteq> Some (ce_redirect_uri envelope)
                     then Ret (invalid_grant ''redirect_uri does not match'')
                     else case pkce_rejection L r form envelope of
                       Some description \<Rightarrow> Ret (invalid_grant description)
                     | None \<Rightarrow>
                         bind (validate_id_token_policy L S r u (ce_upstream_response envelope)
                                 (ce_id_token_nonce envelope)) (\<lambda>validation.
                           if validation = Inl ValidationUnavailable
                           then Ret (oauth_error 502 ''server_error'' ''ID token validation is unavailable'')
                           else redeem L S r envelope (validation = Inr ())))))"

section \<open>Refresh\<close>

definition send_upstream_refresh ::
    "'z libs_scheme \<Rightarrow> app_state \<Rightarrow> relay \<Rightarrow> upstream \<Rightarrow> token_request \<Rightarrow> string option
       \<Rightarrow> (upstream_failure + http_response) prog" where
  "send_upstream_refresh L S r u form upstream_token =
     bind (resolve_endpoints L (has_policy S) r u) (\<lambda>re.
       case re of
         Inl status \<Rightarrow> Ret (Inl (FailedStatus status))
       | Inr endpoints \<Rightarrow>
           bind (send_upstream_token_request L (has_policy S) r u (e_token_endpoint endpoints)
                   (refresh_form (t_pairs form) upstream_token) Refresh) (\<lambda>sent.
             Ret (case sent of Inl _ \<Rightarrow> Inl FailedRequest | Inr reply \<Rightarrow> Inr reply)))"

text \<open>\<open>UpstreamRefreshRequest\<close>, the refresher the rotation state machine calls.\<close>

definition upstream_refresh_request ::
    "'z libs_scheme \<Rightarrow> app_state \<Rightarrow> relay \<Rightarrow> upstream \<Rightarrow> token_request \<Rightarrow> refresher" where
  "upstream_refresh_request L S r u form upstream_token =
     bindE (send_upstream_refresh L S r u form (Some upstream_token)) (\<lambda>reply.
       Ret (ok_or FailedRequest (read_upstream_response reply)))"

definition scope_rejection :: "relay \<Rightarrow> token_request \<Rightarrow> response option" where
  "scope_rejection r form =
     (case t_scope form of
        None \<Rightarrow> None
      | Some sc \<Rightarrow>
          if scope_allowed r sc then None else Some (oauth_error 400 ''invalid_scope'' ''scope is not allowed''))"

fun refresh_outcome_response :: "'z libs_scheme \<Rightarrow> refresh_outcome \<Rightarrow> response" where
  "refresh_outcome_response L (Response stored) = stored_response L stored"
| "refresh_outcome_response L InvalidGrant = invalid_grant ''invalid refresh token''"
| "refresh_outcome_response L Unavailable =
     add_headers [(''retry-after'', ''1'')] (oauth_error 503 ''temporarily_unavailable''
       ''the refresh token is being used by another request; retry shortly'')"
| "refresh_outcome_response L (UpstreamFailed failure) = upstream_failure_response failure"
| "refresh_outcome_response L UpstreamUnusable =
     oauth_error 502 ''server_error'' ''upstream returned an unusable token response''"
| "refresh_outcome_response L StoreFailed = refresh_state_unavailable"
| "refresh_outcome_response L SealerUnavailable = sealer_unavailable"

definition refresh_with_rotator ::
    "nat \<Rightarrow> 'z rotation_libs_scheme \<Rightarrow> app_state \<Rightarrow> relay \<Rightarrow> upstream \<Rightarrow> token_request \<Rightarrow> string
       \<Rightarrow> response option prog" where
  "refresh_with_rotator polls L S r u form presented =
     (if rotation_store_missing S r then Ret (Some rotation_store_required)
      else case rotator_for S r (binding_new L r u) of
        None \<Rightarrow> Ret (Some rotation_store_required)
      | Some R \<Rightarrow>
          (case scope_rejection r form of
             Some rejection \<Rightarrow> Ret (Some rejection)
           | None \<Rightarrow>
               bind (rotator_refresh polls L R (upstream_refresh_request L S r u form) presented) (\<lambda>out.
                 Ret (map_option (refresh_outcome_response L) out))))"

definition answer_sealed ::
    "'z handle_libs_scheme \<Rightarrow> handle_binding \<Rightarrow> http_response \<Rightarrow> response prog" where
  "answer_sealed L b reply =
     (case read_upstream_response reply of
        None \<Rightarrow> Ret upstream_request_failed
      | Some stored \<Rightarrow>
          UnixNow (\<lambda>now.
            bind (seal_token_response L b (sr_status stored) (sr_body stored) now) (\<lambda>rb.
              Ret (case rb of
                     Inl failure \<Rightarrow> substitution_failed failure
                   | Inr body \<Rightarrow> stored_response L (with_body stored body)))))"

definition refresh_without_state ::
    "'z handle_libs_scheme \<Rightarrow> app_state \<Rightarrow> relay \<Rightarrow> upstream \<Rightarrow> token_request \<Rightarrow> string \<Rightarrow> response prog" where
  "refresh_without_state L S r u form presented =
     (let b = binding_new L r u; is_sealed = (mode (refresh_tokens r) = Sealed) in
      if \<not> is_sealed \<and> has_handle_prefix presented then Ret (invalid_grant ''invalid refresh token'')
      else bind (if is_sealed
                 then bind (open_handle L b presented) (\<lambda>ro. Ret (map_sum id (\<lambda>h. Some (h_upstream_token h)) ro))
                 else Ret (Inr None)) (\<lambda>ro.
             case ro of
               Inl HandleSealerUnavailable \<Rightarrow> Ret sealer_unavailable
             | Inl HandleInvalid \<Rightarrow> Ret (invalid_grant ''invalid refresh token'')
             | Inr upstream_token \<Rightarrow>
                 (case scope_rejection r form of
                    Some rejection \<Rightarrow> Ret rejection
                  | None \<Rightarrow>
                      bind (send_upstream_refresh L S r u form upstream_token) (\<lambda>sent.
                        case sent of
                          Inl failure \<Rightarrow> Ret (upstream_failure_response failure)
                        | Inr reply \<Rightarrow>
                            if is_sealed then answer_sealed L b reply else Ret (proxy_response reply)))))"

definition refresh ::
    "nat \<Rightarrow> 'z rotation_libs_scheme \<Rightarrow> app_state \<Rightarrow> relay \<Rightarrow> upstream \<Rightarrow> token_request \<Rightarrow> response option prog" where
  "refresh polls L S r u form =
     (case t_refresh_token form of
        None \<Rightarrow> Ret (Some (oauth_error 400 ''invalid_request'' ''refresh_token is required''))
      | Some presented \<Rightarrow>
          if mode (refresh_tokens r) = Rotating then refresh_with_rotator polls L S r u form presented
          else bind (refresh_without_state L S r u form presented) (\<lambda>x. Ret (Some x)))"

end
