(* ===== verification/Dispatch.thy ===== *)
theory Dispatch
  imports Router
begin

text \<open>
  The rest of \<open>oauthrelay-core/src/router.rs\<close>: client authentication (HTTP Basic, body secret,
  \<open>private_key_jwt\<close> with its key sets), the discovery and JWKS endpoints, the token endpoint and
  the dispatcher that every request goes through.
\<close>

section \<open>Client assertions\<close>

text \<open>
  The key set of a client, \<open>client_assertion_jwks\<close>. The source keeps, per URL and behind a lock of
  its own, the last key set with the instant it was fetched and an instant before which it is not
  fetched again; they are the entries of two caches here, the key set as the document it was read
  from and the instant in the \<open>fetched\<close> field of the second.
\<close>

definition current_jwks :: "'z router_libs_scheme \<Rightarrow> string \<Rightarrow> jwk list option prog" where
  "current_jwks L key =
     bind (cache_lookup AssertionJwks key JWKS_TTL) (\<lambda>hit.
       Ret (Option.bind hit (\<lambda>entry. jwkset_of L (cached_value entry))))"

definition set_retry :: "string \<Rightarrow> cached_json option \<Rightarrow> unit prog" where
  "set_retry key v =
     (case v of None \<Rightarrow> CacheRemove AssertionRetry key Ret | Some x \<Rightarrow> CachePut AssertionRetry key x Ret)"

definition read_jwks :: "'z router_libs_scheme \<Rightarrow> http_response \<Rightarrow> (json \<times> jwk list) option" where
  "read_jwks L reply =
     (if \<not> is_success_status (res_status reply) then None
      else Option.bind (Option.bind (res_body reply) (json_parse L)) (\<lambda>doc.
             map_option (Pair doc) (jwkset_of L doc)))"

definition fetch_jwks ::
    "'z router_libs_scheme \<Rightarrow> bool \<Rightarrow> scope \<Rightarrow> url \<Rightarrow> cached_json option \<Rightarrow> bool \<Rightarrow> (unit + jwk list) prog" where
  "fetch_jwks L policy sc u previous_retry forced =
     InstantNow (\<lambda>now.
     bind (set_retry (as_str u) (Some \<lparr>fetched = now + JWKS_REFRESH_COOLDOWN, cached_value = JNull\<rparr>)) (\<lambda>_.
     bind (send_checked policy (get_request u None) ClientAssertionJwks sc) (\<lambda>sent.
       case sent of
         Inl Denied \<Rightarrow> bind (set_retry (as_str u) previous_retry) (\<lambda>_. Ret (Inl ()))
       | Inl SendFailed \<Rightarrow> Ret (Inl ())
       | Inr reply \<Rightarrow>
           (case read_jwks L reply of
              None \<Rightarrow> Ret (Inl ())
            | Some (doc, keys) \<Rightarrow>
                bind (cache_store AssertionJwks (as_str u) doc) (\<lambda>_.
                bind (if forced then Ret () else set_retry (as_str u) None) (\<lambda>_. Ret (Inr keys)))))))"

definition client_assertion_jwks ::
    "'z router_libs_scheme \<Rightarrow> bool \<Rightarrow> scope \<Rightarrow> url \<Rightarrow> string option \<Rightarrow> (unit + jwk list) prog" where
  "client_assertion_jwks L policy sc u missing_kid =
     bind (current_jwks L (as_str u)) (\<lambda>current.
       if (case current of
             None \<Rightarrow> False
           | Some keys \<Rightarrow> (case missing_kid of None \<Rightarrow> True | Some kid \<Rightarrow> find_jwk keys (Some kid) \<noteq> None))
       then Ret (ok_or () current)
       else CacheGet AssertionRetry (as_str u) (\<lambda>retry_after.
         bind (case retry_after of
                 None \<Rightarrow> Ret False
               | Some t \<Rightarrow> InstantNow (\<lambda>now. Ret (now < fetched t))) (\<lambda>throttled.
           if throttled then Ret (ok_or () current)
           else fetch_jwks L policy sc u retry_after (current \<noteq> None))))"

text \<open>Where the keys of a client come from: its configuration or its issuer's discovery document.\<close>

definition assertion_jwks_url ::
    "'z router_libs_scheme \<Rightarrow> bool \<Rightarrow> scope \<Rightarrow> string \<Rightarrow> client_jwks option \<Rightarrow> (unit + url option) prog" where
  "assertion_jwks_url L policy sc issuer source =
     (case source of
        Some (JwksInline _) \<Rightarrow> Ret (Inr None)
      | Some (JwksUrl u) \<Rightarrow> Ret (Inr (Some u))
      | None \<Rightarrow>
          (case url_parse L issuer of
             None \<Rightarrow> Ret (Inl ())
           | Some u \<Rightarrow>
               if \<not> valid_discovery_url u then Ret (Inl ())
               else bind (cached_json_with_client L AssertionMetadata policy sc (discovery_url L u) DISCOVERY_TTL
                            ClientAssertionMetadata) (\<lambda>rd.
                      Ret (case rd of
                             Inl _ \<Rightarrow> Inl ()
                           | Inr doc \<Rightarrow>
                               if Option.bind (json_get doc ''issuer'') as_string \<noteq> Some issuer then Inl ()
                               else (case url_field L doc ''jwks_uri'' of
                                       None \<Rightarrow> Inl ()
                                     | Some ju \<Rightarrow> if valid_discovery_url ju then Inr (Some ju) else Inl ())))))"

definition assertion_keys ::
    "'z router_libs_scheme \<Rightarrow> bool \<Rightarrow> scope \<Rightarrow> client_jwks option \<Rightarrow> url option \<Rightarrow> string option
       \<Rightarrow> (unit + jwk list) prog" where
  "assertion_keys L policy sc source remote_url kid =
     (case remote_url of
        Some u \<Rightarrow>
          bindE (client_assertion_jwks L policy sc u None) (\<lambda>keys.
            case kid of
              None \<Rightarrow> Ret (Inr keys)
            | Some k \<Rightarrow>
                if find_jwk keys (Some k) = None then client_assertion_jwks L policy sc u (Some k)
                else Ret (Inr keys))
      | None \<Rightarrow>
          (case source of
             Some (JwksInline v) \<Rightarrow> Ret (ok_or () (jwkset_of L v))
           | _ \<Rightarrow> Ret (Inl ())))"

definition assertion_validation :: "string \<Rightarrow> jwt_validation" where
  "assertion_validation alg = (validation_new alg)\<lparr>v_validate_aud := False, v_validate_nbf := True\<rparr>"

text \<open>The \<open>iat\<close> and \<open>nbf\<close> claims, when present, are not in the future.\<close>

primrec check_times :: "json \<Rightarrow> nat \<Rightarrow> string list \<Rightarrow> (unit + unit) prog" where
  "check_times claims leeway [] = Ret (Inr ())"
| "check_times claims leeway (name # names) =
     (case json_get claims name of
        None \<Rightarrow> check_times claims leeway names
      | Some v \<Rightarrow>
          (case as_unsigned v of
             None \<Rightarrow> Ret (Inl ())
           | Some t \<Rightarrow>
               UnixNow (\<lambda>now.
                 if saturating_add now leeway < t then Ret (Inl ()) else check_times claims leeway names)))"

definition audience_ok :: "json \<Rightarrow> string \<Rightarrow> bool" where
  "audience_ok claims audience =
     (case json_get claims ''aud'' of
        Some (JString v) \<Rightarrow> v = audience
      | Some (JArray vs) \<Rightarrow> list_ex (\<lambda>v. as_string v = Some audience) vs
      | _ \<Rightarrow> False)"

text \<open>The claims a single-use assertion must have: \<open>iat\<close>, \<open>exp\<close> within five minutes of it, \<open>jti\<close>.\<close>

definition single_use_claims :: "json \<Rightarrow> (nat \<times> string) option" where
  "single_use_claims claims =
     Option.bind (Option.bind (json_get claims ''iat'') as_unsigned) (\<lambda>issued_at.
     Option.bind (Option.bind (json_get claims ''exp'') as_unsigned) (\<lambda>expires_at.
     Option.bind (Option.bind (json_get claims ''jti'') as_string) (\<lambda>jti.
       if jti = [] \<or> expires_at \<le> issued_at \<or> 300 < expires_at - issued_at then None
       else Some (expires_at, jti))))"

definition assertion_replay_key :: "'z libs_scheme \<Rightarrow> bytes \<Rightarrow> string" where
  "assertion_replay_key L identity = REPLAY_ASSERTION_PREFIX @ b64url_encode L (sha256 L identity)"

definition assertion_ttl :: "nat \<Rightarrow> nat \<Rightarrow> nat \<Rightarrow> nat" where
  "assertion_ttl expires_at leeway now =
     saturating_add (saturating_sub (saturating_add expires_at leeway) now) 1"

definition consume_assertion ::
    "'z router_libs_scheme \<Rightarrow> app_state \<Rightarrow> string \<Rightarrow> string \<Rightarrow> string \<Rightarrow> json \<Rightarrow> nat \<Rightarrow> (unit + unit) prog" where
  "consume_assertion L S issuer subject audience claims leeway =
     (case single_use_claims claims of
        None \<Rightarrow> Ret (Inl ())
      | Some (expires_at, jti) \<Rightarrow>
          if \<not> has_store S then Ret (Inl ())
          else (case tuple_json L [issuer, subject, audience, jti] of
                  None \<Rightarrow> Ret (Inl ())
                | Some identity \<Rightarrow>
                    UnixNow (\<lambda>now.
                    RandomBytes 16 (\<lambda>marker.
                      PutIfAbsent (assertion_replay_key L identity) marker
                        (from_secs (assertion_ttl expires_at leeway now)) (\<lambda>r.
                        Ret (if r = Inr True then Inr () else Inl ()))))))"

definition check_assertion ::
    "'z router_libs_scheme \<Rightarrow> app_state \<Rightarrow> string \<Rightarrow> string \<Rightarrow> string \<Rightarrow> json \<Rightarrow> nat \<Rightarrow> bool \<Rightarrow> (unit + unit) prog" where
  "check_assertion L S audience issuer subject claims leeway require_single_use =
     (if Option.bind (json_get claims ''iss'') as_string \<noteq> Some issuer
         \<or> Option.bind (json_get claims ''sub'') as_string \<noteq> Some subject
      then Ret (Inl ())
      else bindE (check_times claims leeway [''iat'', ''nbf'']) (\<lambda>_.
             if \<not> audience_ok claims audience then Ret (Inl ())
             else if require_single_use then consume_assertion L S issuer subject audience claims leeway
             else Ret (Inr ())))"

definition verify_private_key_jwt ::
    "'z router_libs_scheme \<Rightarrow> app_state \<Rightarrow> string option \<Rightarrow> string \<Rightarrow> string \<Rightarrow> string \<Rightarrow> client_jwks option
       \<Rightarrow> string \<Rightarrow> bool \<Rightarrow> (unit + unit) prog" where
  "verify_private_key_jwt L S relay_key audience issuer subject source assertion require_single_use =
     (let sc = \<lparr>scope_relay = relay_key, scope_upstream = None\<rparr> in
      case decode_header L assertion of
        None \<Rightarrow> Ret (Inl ())
      | Some header \<Rightarrow>
          if h_alg header \<notin> set client_assertion_algorithms then Ret (Inl ())
          else
            bindE (assertion_jwks_url L (has_policy S) sc issuer source) (\<lambda>remote_url.
            bindE (assertion_keys L (has_policy S) sc source remote_url (h_kid header)) (\<lambda>keys.
              case find_jwk keys (h_kid header) of
                None \<Rightarrow> Ret (Inl ())
              | Some key \<Rightarrow>
                  (case decoding_key L key of
                     None \<Rightarrow> Ret (Inl ())
                   | Some dk \<Rightarrow>
                       UnixNow (\<lambda>now.
                         let validation = assertion_validation (h_alg header) in
                         case jwt_decode L assertion dk validation now of
                           None \<Rightarrow> Ret (Inl ())
                         | Some claims \<Rightarrow>
                             check_assertion L S audience issuer subject claims (v_leeway validation)
                               require_single_use)))))"

section \<open>Client authentication\<close>

definition password_matches ::
    "'z libs_scheme \<Rightarrow> (string \<times> string) list \<Rightarrow> token_request \<Rightarrow> string \<Rightarrow> string \<Rightarrow> auth_failure + unit" where
  "password_matches L hs form expected_id expected_secret =
     bind_result (password_credentials L hs form) (\<lambda>(ident, secret, via_header).
       if constant_eq ident expected_id \<and> constant_eq secret expected_secret then Inr ()
       else Inl (InvalidClient via_header))"

definition default_to :: "'a \<Rightarrow> 'a option \<Rightarrow> 'a" where
  "default_to d x = (case x of None \<Rightarrow> d | Some v \<Rightarrow> v)"

definition JWT_BEARER :: string where
  "JWT_BEARER = ''urn:ietf:params:oauth:client-assertion-type:jwt-bearer''"

definition authenticate ::
    "'z router_libs_scheme \<Rightarrow> app_state \<Rightarrow> relay \<Rightarrow> upstream \<Rightarrow> token_request \<Rightarrow> (string \<times> string) list
       \<Rightarrow> (auth_failure + unit) prog" where
  "authenticate L S r u form hs =
     (case client_auth r of
        UpstreamClient \<Rightarrow> Ret (password_matches L hs form (client_id u) (client_secret u))
      | Public \<Rightarrow>
          Ret (if t_client_secret form = None \<and> t_client_assertion_type form = None
                  \<and> t_client_assertion form = None \<and> public_client_header_allowed L hs form
               then Inr ()
               else Inl (InvalidClient
                      (list_ex (\<lambda>v. basic_scheme v \<noteq> None) (header_values ''authorization'' hs))))
      | ClientSecret cid secret \<Rightarrow> Ret (password_matches L hs form cid secret)
      | PrivateKeyJwt require_single_use cid issuer subject audience jwks \<Rightarrow>
          if t_client_assertion_type form \<noteq> Some JWT_BEARER \<or> t_client_id form \<noteq> Some cid
          then Ret (Inl (InvalidClient False))
          else (case t_client_assertion form of
                  None \<Rightarrow> Ret (Inl (InvalidClient False))
                | Some assertion \<Rightarrow>
                    bind (verify_private_key_jwt L S (Some (r_key r))
                            (default_to (as_str (endpoint_url L S Token (r_key r))) audience)
                            (default_to cid issuer) (default_to cid subject) jwks assertion require_single_use)
                      (\<lambda>rv. Ret (map_sum (\<lambda>_. InvalidClient False) id rv))))"

section \<open>Discovery, JWKS, token\<close>

text \<open>The members of a discovery document; \<open>fetch_json_object\<close> yields objects only.\<close>

fun object_members :: "json \<Rightarrow> (string \<times> json) list" where
  "object_members (JObject kvs) = kvs"
| "object_members _ = []"

definition discovery_document ::
    "'z router_libs_scheme \<Rightarrow> app_state \<Rightarrow> relay \<Rightarrow> upstream \<Rightarrow> (nat + json) prog" where
  "discovery_document L S r u =
     (if endpoints_need_discovery u
      then cached_json L (has_policy S) (scope_of r u) (discovery_url L (issuer_url u)) DISCOVERY_TTL Discovery
      else if jwks_uri u \<noteq> None then Ret (Inr (JObject []))
      else bind (optional_discovery L (has_policy S) r u) (\<lambda>rd.
             Ret (map_sum id (default_to (JObject [])) rd)))"

definition discovery_issuer :: "upstream \<Rightarrow> json \<Rightarrow> string" where
  "discovery_issuer u doc =
     (case Option.bind (json_get doc ''issuer'') as_string of
        Some s \<Rightarrow> s
      | None \<Rightarrow>
          if path_of (issuer_url u) = ''/'' then trim_end_matches (CHR ''/'') (as_str (issuer_url u))
          else as_str (issuer_url u))"

definition relay_document ::
    "'z router_libs_scheme \<Rightarrow> app_state \<Rightarrow> relay \<Rightarrow> upstream \<Rightarrow> json \<Rightarrow> url option \<Rightarrow> json" where
  "relay_document L S r u doc jwks =
     (let ms = al_insert ''issuer'' (JString (discovery_issuer u doc)) (object_members doc);
          ms = al_insert ''authorization_endpoint'' (JString (as_str (endpoint_url L S Authorize (r_key r)))) ms;
          ms = al_insert ''token_endpoint'' (JString (as_str (endpoint_url L S Token (r_key r)))) ms;
          ms = (case jwks of
                  Some ju \<Rightarrow> al_insert ''jwks_uri'' (JString (as_str ju)) ms
                | None \<Rightarrow> al_remove ''jwks_uri'' ms)
      in JObject (describe_relay r ms))"

definition discovery ::
    "'z router_libs_scheme \<Rightarrow> app_state \<Rightarrow> relay \<Rightarrow> upstream \<Rightarrow> response prog" where
  "discovery L S r u =
     bind (discovery_document L S r u) (\<lambda>rd.
       Ret (case rd of
              Inl status \<Rightarrow> status_response status
            | Inr doc \<Rightarrow>
                (case resolve_endpoints_from_doc L u doc of
                   Inl status \<Rightarrow> status_response status
                 | Inr endpoints \<Rightarrow> json_response 200 (relay_document L S r u doc (e_jwks_uri endpoints)))))"

definition jwks :: "'z router_libs_scheme \<Rightarrow> app_state \<Rightarrow> relay \<Rightarrow> upstream \<Rightarrow> response prog" where
  "jwks L S r u =
     bind (resolve_jwks_uri L (has_policy S) r u) (\<lambda>ru.
       case ru of
         Inl status \<Rightarrow> Ret (status_response status)
       | Inr None \<Rightarrow> Ret (status_response 404)
       | Inr (Some ju) \<Rightarrow>
           bind (cached_json L (has_policy S) (scope_of r u) ju JWKS_TTL Jwks) (\<lambda>rv.
             Ret (case rv of Inl status \<Rightarrow> status_response status | Inr v \<Rightarrow> json_response 200 v)))"

text \<open>\<open>in_body\<close> is \<open>None\<close> when the body cannot be read or exceeds one MiB.\<close>

definition token_grant ::
    "nat \<Rightarrow> 'z router_libs_scheme \<Rightarrow> app_state \<Rightarrow> relay \<Rightarrow> upstream \<Rightarrow> token_request \<Rightarrow> response option prog" where
  "token_grant polls L S r u form =
     (if t_grant_type form = ''authorization_code''
      then bind (exchange_sealed_code L S r u form) (\<lambda>x. Ret (Some x))
      else if t_grant_type form = ''refresh_token'' then refresh polls L S r u form
      else Ret (Some (oauth_error 400 ''unsupported_grant_type'' ''unsupported grant_type'')))"

definition token ::
    "nat \<Rightarrow> 'z router_libs_scheme \<Rightarrow> app_state \<Rightarrow> relay \<Rightarrow> upstream \<Rightarrow> in_request \<Rightarrow> response option prog" where
  "token polls L S r u req =
     (let origin = allowed_cors_origin L r (in_headers req) (redirect_opts S);
          reject = (\<lambda>description. Ret (Some (with_cors (oauth_error 400 ''invalid_request'' description) origin)))
      in case in_body req of
           None \<Rightarrow> reject ''invalid body''
         | Some body \<Rightarrow>
             (case parse_token_request L body of
                None \<Rightarrow> reject ''invalid form body''
              | Some form \<Rightarrow>
                  bind (authenticate L S r u form (in_headers req)) (\<lambda>ra.
                    case ra of
                      Inl failure \<Rightarrow> Ret (Some (with_cors (auth_failure_response failure) origin))
                    | Inr _ \<Rightarrow>
                        bind (token_grant polls L S r u form) (\<lambda>out.
                          Ret (map_option (\<lambda>x. with_cors x origin) out)))))"

section \<open>Dispatch\<close>

definition dispatch_path :: "app_state \<Rightarrow> string \<Rightarrow> string option" where
  "dispatch_path S p =
     Option.bind (strip_prefix (public_route_prefix (public_url S)) p) (strip_prefix ''/'')"

text \<open>An early failure: the token endpoint answers with an OAuth error, the others with a status.\<close>

definition early_failure :: "endpoint \<Rightarrow> nat \<Rightarrow> string \<Rightarrow> string \<Rightarrow> response" where
  "early_failure e status err description =
     (if e = Token then oauth_error status err description else status_response status)"

text \<open>The relay and upstream a request is for, or the failure to answer with.\<close>

definition dispatch_resources ::
    "'z libs_scheme \<Rightarrow> app_state \<Rightarrow> endpoint \<Rightarrow> string \<Rightarrow> response + (relay \<times> upstream)" where
  "dispatch_resources L S e key =
     (case resolve_relay S key of
        Inr None \<Rightarrow> Inl (early_failure e 404 ''invalid_request'' ''unknown relay'')
      | Inl _ \<Rightarrow> Inl (early_failure e 500 ''server_error'' ''relay resolution failed'')
      | Inr (Some r) \<Rightarrow>
          (case resolve_upstream S (r_upstream r) of
             Inr None \<Rightarrow> Inl (early_failure e 500 ''server_error'' ''relay upstream is unavailable'')
           | Inl _ \<Rightarrow> Inl (early_failure e 500 ''server_error'' ''upstream resolution failed'')
           | Inr (Some u) \<Rightarrow>
               if \<not> is_ok (relay_validate_for L r (redirect_opts S))
               then Inl (early_failure e 500 ''server_error'' ''relay configuration is invalid'')
               else Inr (r, u)))"

definition dispatch_callback ::
    "'z router_libs_scheme \<Rightarrow> app_state \<Rightarrow> string \<Rightarrow> in_request \<Rightarrow> response prog" where
  "dispatch_callback L S key req =
     (case resolve_upstream S key of
        Inr None \<Rightarrow> Ret (status_response 404)
      | Inl _ \<Rightarrow> Ret (status_response 500)
      | Inr (Some u) \<Rightarrow>
          if \<not> is_ok (upstream_validate u) then Ret (status_response 500)
          else if in_method req \<noteq> GET then Ret (status_response 405)
          else (case parse_callback_request L (in_query req) of
                  None \<Rightarrow> Ret (status_response 400)
                | Some q \<Rightarrow> callback L S u q))"

definition dispatch_relay ::
    "nat \<Rightarrow> 'z router_libs_scheme \<Rightarrow> app_state \<Rightarrow> endpoint \<Rightarrow> relay \<Rightarrow> upstream \<Rightarrow> in_request
       \<Rightarrow> response option prog" where
  "dispatch_relay polls L S e r u req =
     (let done = (\<lambda>p. bind p (\<lambda>x. Ret (Some x))) in
      case (e, in_method req) of
        (Authorize, GET) \<Rightarrow>
          (case parse_authorize_request L (in_query req) of
             None \<Rightarrow> Ret (Some (status_response 400))
           | Some q \<Rightarrow> done (authorize L S r u q))
      | (Token, OPTIONS) \<Rightarrow> Ret (Some (preflight L r (in_headers req) (redirect_opts S)))
      | (Token, POST) \<Rightarrow> token polls L S r u req
      | (DiscoveryDoc, GET) \<Rightarrow> done (discovery L S r u)
      | (JwksDoc, GET) \<Rightarrow> done (jwks L S r u)
      | _ \<Rightarrow> Ret (Some (status_response 405)))"

definition dispatch ::
    "nat \<Rightarrow> 'z router_libs_scheme \<Rightarrow> app_state \<Rightarrow> in_request \<Rightarrow> response option prog" where
  "dispatch polls L S req =
     (case Option.bind (dispatch_path S (in_path req)) (layout_parse (layout_keys S)) of
        None \<Rightarrow> Ret (Some (status_response 404))
      | Some (e, key) \<Rightarrow>
          if e = Callback then bind (dispatch_callback L S key req) (\<lambda>x. Ret (Some x))
          else (case dispatch_resources L S e key of
                  Inl failure \<Rightarrow> Ret (Some failure)
                | Inr (r, u) \<Rightarrow> dispatch_relay polls L S e r u req))"

end
