(* ===== verification/Rotation_Run.thy ===== *)
theory Rotation_Run
  imports Rotation
begin

text \<open>
  The functional behaviour of the rotation state machine in one process, over the map the
  \<open>MemoryStore\<close> implements (\<open>run_refines\<close>): the loop ends, an active handle rotates, a
  rotated handle is replayed inside its grace period, and dead handles are refused.
\<close>

section \<open>The loop ends\<close>

text \<open>
  Every poll but the last sleeps, so the number of polls is bounded by the time a caller waits.
\<close>

lemma refresh_loop_ends:
  assumes "started \<le> s_now w" and "0 < polls"
    and "resolve_wait (timing R) \<le> (s_now w - started) + (polls - 1) * poll_interval (timing R)"
  shows "fst (spec_run M (refresh_loop polls L R upstream hkey started) w) \<noteq> None"
  using assms
proof (induction polls arbitrary: w)
  case (Suc polls)
  obtain r w' where r: "spec_run M (refresh_round L R upstream hkey) w = (r, w')" by fastforce
  have later: "s_now w \<le> s_now w'"
    using spec_run_now_mono [of "s_now w" w M "refresh_round L R upstream hkey"] r by simp
  show ?case
  proof (cases "r = Inr None \<and> \<not> resolve_wait (timing R) \<le> s_now w' - started")
    case False
    then show ?thesis
      using r by (auto simp: spec_run_bind split: sum.splits option.splits)
  next
    case True
    let ?w = "w'\<lparr>s_now := s_now w' + poll_interval (timing R),
                 s_store := retain_live (s_now w' + poll_interval (timing R)) (s_store w')\<rparr>"
    have "0 < polls" using True Suc.prems later by (cases polls) auto
    moreover have "resolve_wait (timing R) \<le> (s_now ?w - started) + (polls - 1) * poll_interval (timing R)"
      using Suc.prems later \<open>0 < polls\<close> by (cases polls) auto
    ultimately have "fst (spec_run M (refresh_loop polls L R upstream hkey started) ?w) \<noteq> None"
      using Suc.IH [of ?w] Suc.prems(1) later by simp
    then show ?thesis using r True by (simp add: spec_run_bind)
  qed
qed simp

section \<open>A working environment\<close>

text \<open>
  The codecs are total and inverse, the sealer is reachable and keeps its contract, digests are
  short enough to be store keys and envelopes are text.
\<close>

definition env_ok :: "'z rotation_libs_scheme \<Rightarrow> 'h machine \<Rightarrow> bool" where
  "env_ok L M \<longleftrightarrow>
     machine_ok M
     \<and> (\<forall>rec. \<exists>p. record_encode L rec = Some p \<and> record_decode L p = Some rec)
     \<and> (\<forall>resp. \<exists>p. response_encode L resp = Some p \<and> response_decode L p = Some resp)
     \<and> (\<forall>n p d. length n = 24 \<longrightarrow> (\<exists>e. seal_with M n p d = Inr e \<and> utf8_valid L e))
     \<and> (\<forall>x. length (b64url_encode L (sha256 L x)) \<le> 1000)"

lemma digest_valid:
  assumes "env_ok L M" and "P \<noteq> []" and "length P \<le> 24"
  shows "validate_key (digest_key L R P material) = Inr ()"
proof -
  have "length (b64url_encode L (sha256 L x)) \<le> 1000" for x using assms(1) by (simp add: env_ok_def)
  then have "length P + length (b64url_encode L (sha256 L x)) \<le> 1024" for x
    using assms(3) add_le_mono [of "length P" 24 _ 1000] by fastforce
  then show ?thesis
    using assms(2) by (simp add: validate_key_def digest_key_def MAX_KEY_BYTES_def not_less)
qed

lemma key_valid:
  assumes "env_ok L M"
  shows "validate_key (handle_key L R handle) = Inr ()" and "validate_key (grace_key L R hkey cid) = Inr ()"
    and "validate_key (family_key L R fid) = Inr ()" and "validate_key (head_key L R fid) = Inr ()"
  unfolding handle_key_def grace_key_def family_key_def head_key_def
  by (rule digest_valid [OF assms]; simp add: HANDLE_KEY_PREFIX_def GRACE_KEY_PREFIX_def REVOKED_KEY_PREFIX_def
      HEAD_KEY_PREFIX_def)+

text \<open>Keys of different kinds never meet.\<close>

lemma key_kinds [simp]:
  "handle_key L R x \<noteq> family_key L R f" "family_key L R f \<noteq> handle_key L R x"
  "grace_key L R k c \<noteq> family_key L R f" "family_key L R f \<noteq> grace_key L R k c"
  "head_key L R g \<noteq> family_key L R f" "family_key L R f \<noteq> head_key L R g"
  "handle_key L R x \<noteq> grace_key L R k c" "grace_key L R k c \<noteq> handle_key L R x"
  "handle_key L R x \<noteq> head_key L R g" "head_key L R g \<noteq> handle_key L R x"
  "grace_key L R k c \<noteq> head_key L R g" "head_key L R g \<noteq> grace_key L R k c"
  by (simp_all add: handle_key_def grace_key_def family_key_def head_key_def digest_key_def
      HANDLE_KEY_PREFIX_def GRACE_KEY_PREFIX_def REVOKED_KEY_PREFIX_def HEAD_KEY_PREFIX_def)

text \<open>The store holds a value for a key: sealed for that key and that purpose.\<close>

definition holds ::
    "'h machine \<Rightarrow> rotator \<Rightarrow> (string \<rightharpoonup> memory_record) \<Rightarrow> string \<Rightarrow> string \<Rightarrow> bytes option \<Rightarrow> bool" where
  "holds M R m purpose key enc \<longleftrightarrow>
     (\<exists>p n r. enc = Some p \<and> length n = 24 \<and> m key = Some r
        \<and> seal_with M n p (rotation_associated_data R purpose key) = Inr (mem_value r))"

definition holds_record ::
    "'z rotation_libs_scheme \<Rightarrow> 'h machine \<Rightarrow> rotator \<Rightarrow> (string \<rightharpoonup> memory_record) \<Rightarrow> string \<Rightarrow> handle_record \<Rightarrow> bool" where
  "holds_record L M R m key rec \<longleftrightarrow> holds M R m RECORD_PURPOSE key (record_encode L rec)"

definition holds_response ::
    "'z rotation_libs_scheme \<Rightarrow> 'h machine \<Rightarrow> rotator \<Rightarrow> (string \<rightharpoonup> memory_record) \<Rightarrow> string \<Rightarrow> stored_response \<Rightarrow> bool" where
  "holds_response L M R m key resp \<longleftrightarrow> holds M R m GRACE_PURPOSE key (response_encode L resp)"

lemma holds_other [simp]: "key \<noteq> k \<Longrightarrow> holds M R (m(k := v)) purpose key enc = holds M R m purpose key enc"
  by (simp add: holds_def)

lemma run_open_value:
  assumes "env_ok L M" and "holds M R m purpose key (Some p)" and "m key = Some r" and "decode p = Some v"
  shows "spec_run M (open_value L R decode purpose key (mem_value r)) w = (Inr v, w)"
proof -
  obtain n where n: "length n = 24"
      "seal_with M n p (rotation_associated_data R purpose key) = Inr (mem_value r)"
    using assms(2,3) by (auto simp: holds_def)
  have "sealer (seal_with M) (unseal_with M)" using assms(1) by (simp add: env_ok_def machine_ok_def)
  then have "unseal_with M (mem_value r) (rotation_associated_data R purpose key) = Inr p"
    using n sealer.unseal_seal by metis
  moreover have "\<exists>e. seal_with M n p (rotation_associated_data R purpose key) = Inr e \<and> utf8_valid L e"
    using assms(1) n(1) by (simp add: env_ok_def)
  then have "utf8_valid L (mem_value r)" using n(2) by auto
  ultimately show ?thesis using assms(4) by (simp add: open_value_def ok_or_def)
qed

lemma run_load:
  assumes "env_ok L M" and "validate_key key = Inr ()" and "holds_record L M R (s_store w) key rec"
  obtains r where "s_store w key = Some r"
    and "spec_run M (load L R key) w = (Inr (Some \<lparr>loaded_bytes = mem_value r, loaded_record = rec\<rparr>), w)"
proof -
  obtain r where r: "s_store w key = Some r" using assms(3) by (auto simp: holds_record_def holds_def)
  obtain p where p: "record_encode L rec = Some p" "record_decode L p = Some rec"
    using assms(1) by (fastforce simp: env_ok_def)
  have "spec_run M (open_value L R (record_decode L) RECORD_PURPOSE key (mem_value r)) w = (Inr rec, w)"
    by (rule run_open_value [where m = "s_store w", OF assms(1)])
      (use assms(3) p r in \<open>simp_all add: holds_record_def\<close>)
  then have "spec_run M (load L R key) w = (Inr (Some \<lparr>loaded_bytes = mem_value r, loaded_record = rec\<rparr>), w)"
    using r assms(2) by (simp add: load_def spec_get_def spec_run_bindE)
  with r that show thesis by blast
qed

lemma run_load_absent:
  "validate_key key = Inr () \<Longrightarrow> s_store w key = None \<Longrightarrow> spec_run M (load L R key) w = (Inr None, w)"
  by (simp add: load_def spec_get_def)

lemma run_load_grace:
  assumes "env_ok L M" and "holds_response L M R (s_store w) (grace_key L R hkey cid) resp"
  shows "spec_run M (load_grace_response L R (grace_key L R hkey cid)) w = (Inr (Some resp), w)"
proof -
  let ?key = "grace_key L R hkey cid"
  obtain r where r: "s_store w ?key = Some r" using assms(2) by (auto simp: holds_response_def holds_def)
  obtain p where p: "response_encode L resp = Some p" "response_decode L p = Some resp"
    using assms(1) by (fastforce simp: env_ok_def)
  have "spec_run M (open_value L R (response_decode L) GRACE_PURPOSE ?key (mem_value r)) w = (Inr resp, w)"
    by (rule run_open_value [where m = "s_store w", OF assms(1)])
      (use assms(2) p r in \<open>simp_all add: holds_response_def\<close>)
  then show ?thesis
    using r key_valid [OF assms(1)] by (simp add: load_grace_response_def spec_get_def spec_run_bindE)
qed

lemma run_is_revoked:
  "env_ok L M \<Longrightarrow> spec_run M (is_revoked L R fid) w = (Inr (s_store w (family_key L R fid) \<noteq> None), w)"
  by (simp add: is_revoked_def spec_get_def key_valid)

lemma run_seal_value:
  assumes "env_ok L M" and "enc = Some p"
  obtains v where "spec_run M (seal_value R purpose key enc) w = (Inr v, w\<lparr>s_draws := s_draws w + 1\<rparr>)"
    and "\<And>m t. holds M R (m(key \<mapsto> \<lparr>mem_value = v, mem_expires = t\<rparr>)) purpose key enc"
proof -
  have n: "length (draw M (s_draws w) 24) = 24" using assms(1) by (simp add: env_ok_def machine_ok_def)
  then obtain v where v: "seal_with M (draw M (s_draws w) 24) p (rotation_associated_data R purpose key) = Inr v"
    using assms(1) unfolding env_ok_def by blast
  have "spec_run M (seal_value R purpose key enc) w = (Inr v, w\<lparr>s_draws := s_draws w + 1\<rparr>)"
    using v assms(2) by (simp add: seal_value_def)
  moreover have "holds M R (m(key \<mapsto> \<lparr>mem_value = v, mem_expires = t\<rparr>)) purpose key enc" for m t
    using n v assms(2) by (auto simp: holds_def)
  ultimately show thesis using that by blast
qed

lemma run_seal_record:
  assumes "env_ok L M"
  obtains v where "spec_run M (seal_record L R key rec) w = (Inr v, w\<lparr>s_draws := s_draws w + 1\<rparr>)"
    and "\<And>m t. holds_record L M R (m(key \<mapsto> \<lparr>mem_value = v, mem_expires = t\<rparr>)) key rec"
proof -
  obtain p where "record_encode L rec = Some p" using assms by (fastforce simp: env_ok_def)
  from run_seal_value [OF assms this, of R RECORD_PURPOSE key w] that show thesis
    unfolding seal_record_def holds_record_def by metis
qed

section \<open>Dead handles, and replays inside the grace period\<close>

lemma run_round_unknown:
  "env_ok L M \<Longrightarrow> s_store w (handle_key L R presented) = None \<Longrightarrow>
     spec_run M (refresh_round L R upstream (handle_key L R presented)) w = (Inr (Some InvalidGrant), w)"
  by (simp add: refresh_round_def spec_run_bindE run_load_absent key_valid)

lemma run_round_dead:
  assumes "env_ok L M" and "holds_record L M R (s_store w) (handle_key L R presented) rec"
    and "family_expires_ms rec \<le> s_now w div 1000000 \<or> s_store w (family_key L R (family_id rec)) \<noteq> None"
  shows "spec_run M (refresh_round L R upstream (handle_key L R presented)) w = (Inr (Some InvalidGrant), w)"
proof -
  obtain r where "s_store w (handle_key L R presented) = Some r"
    and "spec_run M (load L R (handle_key L R presented)) w =
      (Inr (Some \<lparr>loaded_bytes = mem_value r, loaded_record = rec\<rparr>), w)"
    by (rule run_load [OF assms(1) key_valid(1) [OF assms(1)] assms(2)])
  then show ?thesis
    using assms(3) by (auto simp: refresh_round_def spec_run_bindE run_is_revoked [OF assms(1)])
qed

lemma run_round_replay:
  assumes "env_ok L M" and "holds_record L M R (s_store w) (handle_key L R presented) rec"
    and "handle_state rec = Rotated rotated_ms cid skey"
    and "s_now w div 1000000 < family_expires_ms rec" and "s_store w (family_key L R (family_id rec)) = None"
    and "s_now w div 1000000 - rotated_ms \<le> as_u64 (as_millis (grace R))"
    and "holds_response L M R (s_store w) (grace_key L R (handle_key L R presented) cid) resp"
  shows "spec_run M (refresh_round L R upstream (handle_key L R presented)) w = (Inr (Some (Response resp)), w)"
proof -
  obtain r where "s_store w (handle_key L R presented) = Some r"
    and "spec_run M (load L R (handle_key L R presented)) w =
      (Inr (Some \<lparr>loaded_bytes = mem_value r, loaded_record = rec\<rparr>), w)"
    by (rule run_load [OF assms(1) key_valid(1) [OF assms(1)] assms(2)])
  then show ?thesis
    using assms(3-6) run_load_grace [OF assms(1,7)]
    by (simp add: refresh_round_def spec_run_bindE run_is_revoked [OF assms(1)] act_on_state_def saturating_sub_def)
qed

section \<open>Rotating an active handle\<close>

lemma ttl_until_Some: "now < expires \<Longrightarrow> ttl_until expires now = Some (from_millis (expires - now))"
  by (simp add: ttl_until_def)

lemma from_millis_valid [simp]: "0 < n \<Longrightarrow> validate_ttl (from_millis n) = Inr ()"
  by (simp add: validate_ttl_def)

lemma run_put_key:
  "validate_key key = Inr () \<Longrightarrow> validate_ttl ttl = Inr () \<Longrightarrow> s_store w key = None \<Longrightarrow>
     spec_run M (put_key key v ttl) w =
       (Inr True, w\<lparr>s_store := (s_store w)(key \<mapsto> \<lparr>mem_value = v, mem_expires = s_now w + ttl\<rparr>)\<rparr>)"
  by (simp add: put_key_def spec_put_def)

lemma run_swap_key:
  "validate_key key = Inr () \<Longrightarrow> validate_ttl ttl = Inr () \<Longrightarrow> map_option mem_value (s_store w key) = Some old \<Longrightarrow>
     spec_run M (swap_key key old v ttl) w =
       (Inr True, w\<lparr>s_store := (s_store w)(key \<mapsto> \<lparr>mem_value = v, mem_expires = s_now w + ttl\<rparr>)\<rparr>)"
  by (simp add: swap_key_def spec_cas_def)

lemma run_take_claim:
  assumes "env_ok L M" and "validate_key hkey = Inr ()" and "s_store w hkey = Some r"
    and "s_now w div 1000000 < family_expires_ms rec"
  obtains v cid t where
    "spec_run M (take_claim L R hkey \<lparr>loaded_bytes = mem_value r, loaded_record = rec\<rparr> tok) w =
       (Inr (Some \<lparr>claim_bytes = v, claim_id = cid, claim_token = tok, claim_family_id = family_id rec,
                   claim_expires_ms = family_expires_ms rec\<rparr>),
        w\<lparr>s_draws := s_draws w + 2, s_store := (s_store w)(hkey \<mapsto> \<lparr>mem_value = v, mem_expires = t\<rparr>)\<rparr>)"
proof -
  let ?now = "s_now w div 1000000" and ?cid = "draw M (s_draws w) 16"
  obtain v where v: "spec_run M (seal_record L R hkey (rec\<lparr>handle_state := Claimed tok ?cid ?now\<rparr>))
      (w\<lparr>s_draws := s_draws w + 1\<rparr>) = (Inr v, w\<lparr>s_draws := s_draws w + 2\<rparr>)"
    using run_seal_record [OF assms(1), of R hkey "rec\<lparr>handle_state := Claimed tok ?cid ?now\<rparr>"
        "w\<lparr>s_draws := s_draws w + 1\<rparr>"] by fastforce
  show thesis
    by (rule that [of v ?cid "s_now w + from_millis (family_expires_ms rec - ?now)"])
      (use assms v in \<open>simp add: take_claim_def Let_def ttl_until_Some spec_run_bindE run_swap_key\<close>)
qed

lemma run_prepare_commit:
  assumes "env_ok L M" and "gkey = grace_key L R hkey (claim_id c)" and "skey = handle_key L R succ"
    and "s_store w gkey = None" and "s_store w skey = None"
    and "validate_ttl t1 = Inr ()" and "validate_ttl t2 = Inr ()"
  obtains x m' where
    "spec_run M (prepare_commit L R hkey c gkey skey tok resp now t2 t1) w =
       (Inr x, w\<lparr>s_draws := s_draws w + 3, s_store := m'\<rparr>)"
    and "holds_response L M R m' gkey resp"
    and "holds_record L M R m' skey \<lparr>family_id = claim_family_id c, family_expires_ms = claim_expires_ms c,
           handle_state = Active tok\<rparr>"
    and "\<And>k. k \<noteq> gkey \<Longrightarrow> k \<noteq> skey \<Longrightarrow> m' k = s_store w k"
    and "\<And>m t. holds_record L M R (m(hkey \<mapsto> \<lparr>mem_value = x, mem_expires = t\<rparr>)) hkey
           \<lparr>family_id = claim_family_id c, family_expires_ms = claim_expires_ms c,
            handle_state = Rotated now (claim_id c) skey\<rparr>"
proof -
  let ?succ = "\<lparr>family_id = claim_family_id c, family_expires_ms = claim_expires_ms c, handle_state = Active tok\<rparr>"
  let ?rot = "\<lparr>family_id = claim_family_id c, family_expires_ms = claim_expires_ms c,
               handle_state = Rotated now (claim_id c) skey\<rparr>"
  obtain p where p: "response_encode L resp = Some p" using assms(1) by (fastforce simp: env_ok_def)
  obtain g where g: "spec_run M (seal_value R GRACE_PURPOSE gkey (response_encode L resp)) w =
      (Inr g, w\<lparr>s_draws := s_draws w + 1\<rparr>)"
    and hg: "\<And>m t. holds M R (m(gkey \<mapsto> \<lparr>mem_value = g, mem_expires = t\<rparr>)) GRACE_PURPOSE gkey (response_encode L resp)"
    by (rule run_seal_value [OF assms(1) p, of R GRACE_PURPOSE gkey w]) blast
  define w1 where "w1 = w\<lparr>s_draws := s_draws w + 1,
    s_store := (s_store w)(gkey \<mapsto> \<lparr>mem_value = g, mem_expires = s_now w + t1\<rparr>)\<rparr>"
  obtain s where s: "spec_run M (seal_record L R skey ?succ) w1 = (Inr s, w1\<lparr>s_draws := s_draws w1 + 1\<rparr>)"
    and hs: "\<And>m t. holds_record L M R (m(skey \<mapsto> \<lparr>mem_value = s, mem_expires = t\<rparr>)) skey ?succ"
    by (rule run_seal_record [OF assms(1)]) blast
  define w2 where "w2 = w1\<lparr>s_draws := s_draws w1 + 1,
    s_store := (s_store w1)(skey \<mapsto> \<lparr>mem_value = s, mem_expires = s_now w1 + t2\<rparr>)\<rparr>"
  obtain x where x: "spec_run M (seal_record L R hkey ?rot) w2 = (Inr x, w2\<lparr>s_draws := s_draws w2 + 1\<rparr>)"
    and hx: "\<And>m t. holds_record L M R (m(hkey \<mapsto> \<lparr>mem_value = x, mem_expires = t\<rparr>)) hkey ?rot"
    by (rule run_seal_record [OF assms(1)]) blast
  have neq: "gkey \<noteq> skey" "skey \<noteq> gkey" using assms(2,3) by simp_all
  have val: "validate_key gkey = Inr ()" "validate_key skey = Inr ()"
    using key_valid [OF assms(1)] assms(2,3) by simp_all
  show thesis
  proof (rule that [of x "s_store w2"])
    show "spec_run M (prepare_commit L R hkey c gkey skey tok resp now t2 t1) w =
        (Inr x, w\<lparr>s_draws := s_draws w + 3, s_store := s_store w2\<rparr>)"
      using g s x val assms(4-7) neq
      by (simp add: prepare_commit_def spec_run_bindE run_put_key w1_def w2_def)
  qed (use hg hs hx neq in \<open>auto simp: w1_def w2_def holds_response_def holds_record_def fun_upd_twist\<close>)
qed

text \<open>The state of a family right after one of its handles was rotated.\<close>

definition rotated_store ::
    "'z rotation_libs_scheme \<Rightarrow> 'h machine \<Rightarrow> rotator \<Rightarrow> (string \<rightharpoonup> memory_record) \<Rightarrow> string \<Rightarrow> string
       \<Rightarrow> bytes \<Rightarrow> nat \<Rightarrow> nat \<Rightarrow> string \<Rightarrow> stored_response \<Rightarrow> bool" where
  "rotated_store L M R m hkey succ fid expires now tok resp \<longleftrightarrow>
     holds_record L M R m (handle_key L R succ)
       \<lparr>family_id = fid, family_expires_ms = expires, handle_state = Active tok\<rparr>
     \<and> (\<exists>cid. holds_record L M R m hkey
            \<lparr>family_id = fid, family_expires_ms = expires, handle_state = Rotated now cid (handle_key L R succ)\<rparr>
          \<and> holds_response L M R m (grace_key L R hkey cid) resp)"

lemma holds_parts_other [simp]:
  "key \<noteq> k \<Longrightarrow> holds_record L M R (m(k := v)) key rec = holds_record L M R m key rec"
  "key \<noteq> k \<Longrightarrow> holds_response L M R (m(k := v)) key resp = holds_response L M R m key resp"
  by (simp_all add: holds_record_def holds_response_def)

lemma run_commit:
  assumes "env_ok L M" and "hkey = handle_key L R presented"
    and "map_option mem_value (s_store w hkey) = Some (claim_bytes c)"
    and "s_store w (grace_key L R hkey (claim_id c)) = None" and "s_store w (handle_key L R succ) = None"
    and "s_now w div 1000000 < claim_expires_ms c"
  obtains m' where
    "spec_run M (commit L R hkey c succ tok resp) w =
       (Inr CommitRotated, w\<lparr>s_draws := s_draws w + 3, s_store := m'\<rparr>)"
    and "rotated_store L M R m' hkey succ (claim_family_id c) (claim_expires_ms c) (s_now w div 1000000) tok resp"
    and "m' (family_key L R fid) = s_store w (family_key L R fid)"
proof -
  let ?g = "grace_key L R hkey (claim_id c)" and ?s = "handle_key L R succ" and ?now = "s_now w div 1000000"
  let ?ttl = "from_millis (claim_expires_ms c - ?now)"
  let ?gttl = "min (grace R + GRACE_RESPONSE_MARGIN) ?ttl"
  have ttl: "validate_ttl ?ttl = Inr ()" "validate_ttl ?gttl = Inr ()"
    using assms(6) by (auto simp: validate_ttl_def GRACE_RESPONSE_MARGIN_def from_secs_def min_def)
  note val = key_valid [OF assms(1)]
  obtain x m1 where x: "spec_run M (prepare_commit L R hkey c ?g ?s tok resp ?now ?ttl ?gttl) w =
       (Inr x, w\<lparr>s_draws := s_draws w + 3, s_store := m1\<rparr>)"
    and hr: "holds_response L M R m1 ?g resp"
    and hs: "holds_record L M R m1 ?s \<lparr>family_id = claim_family_id c, family_expires_ms = claim_expires_ms c,
           handle_state = Active tok\<rparr>"
    and keep: "\<And>k. k \<noteq> ?g \<Longrightarrow> k \<noteq> ?s \<Longrightarrow> m1 k = s_store w k"
    and hx: "\<And>m t. holds_record L M R (m(hkey \<mapsto> \<lparr>mem_value = x, mem_expires = t\<rparr>)) hkey
           \<lparr>family_id = claim_family_id c, family_expires_ms = claim_expires_ms c,
            handle_state = Rotated ?now (claim_id c) ?s\<rparr>"
    by (rule run_prepare_commit [OF assms(1) refl refl assms(4,5) ttl(2,1)]) blast
  have neq: "hkey \<noteq> ?s" "hkey \<noteq> ?g" "?s \<noteq> hkey" "?g \<noteq> hkey"
    using assms(2,3,5) by auto
  define m2 where "m2 = m1(hkey \<mapsto> \<lparr>mem_value = x, mem_expires = s_now w + ?ttl\<rparr>)"
  define m' where "m' = snd (spec_cas (s_now w) (head_key L R (claim_family_id c)) hkey ?s ?ttl m2)"
  have head: "m' = m2 \<or> (\<exists>v. m' = m2(head_key L R (claim_family_id c) := v))"
    by (auto simp: m'_def spec_cas_def split: sum.splits)
  have "spec_run M (commit L R hkey c succ tok resp) w =
      (Inr CommitRotated, w\<lparr>s_draws := s_draws w + 3, s_store := m'\<rparr>)"
    using assms(2,3,6) x val ttl(1) keep [of hkey] neq
    by (simp add: commit_def Let_def ttl_until_Some spec_run_bind conclude_commit_def spec_run_bindE run_swap_key
        case_prod_unfold m'_def m2_def)
  moreover have "rotated_store L M R m' hkey succ (claim_family_id c) (claim_expires_ms c) ?now tok resp"
  proof -
    have "holds_response L M R m' ?g resp" using head hr neq by (auto simp: m2_def)
    moreover have "holds_record L M R m' hkey \<lparr>family_id = claim_family_id c,
        family_expires_ms = claim_expires_ms c, handle_state = Rotated ?now (claim_id c) ?s\<rparr>"
      using head hx assms(2) by (auto simp: m2_def)
    moreover have "holds_record L M R m' ?s \<lparr>family_id = claim_family_id c,
        family_expires_ms = claim_expires_ms c, handle_state = Active tok\<rparr>"
      using head hs neq by (auto simp: m2_def)
    ultimately show ?thesis unfolding rotated_store_def by blast
  qed
  moreover have "m' (family_key L R fid) = s_store w (family_key L R fid)"
    using head keep [of "family_key L R fid"] assms(2) by (auto simp: m2_def)
  ultimately show thesis using that by blast
qed

text \<open>
  A refresher that answers at once and changes nothing but the peer it talks to.
\<close>

definition answers :: "'h machine \<Rightarrow> refresher \<Rightarrow> string \<Rightarrow> stored_response \<Rightarrow> bool" where
  "answers M upstream tok response \<longleftrightarrow>
     (\<forall>w. \<exists>peer'. spec_run M (upstream tok) w = (Inr response, w\<lparr>s_peer := peer'\<rparr>))"

lemma run_perform:
  assumes "env_ok L M" and "hkey = handle_key L R presented"
    and "map_option mem_value (s_store w hkey) = Some (claim_bytes c)"
    and "\<And>cid. s_store w (grace_key L R hkey cid) = None"
    and "s_store w (handle_key L R (ROTATING_PREFIX @ b64url_encode L (draw M (s_draws w) 32))) = None"
    and "s_now w div 1000000 < claim_expires_ms c"
    and "answers M upstream (claim_token c) response" and "is_success response"
    and "\<And>h. with_refresh_token L (sr_status response) (sr_body response) h = Some (body h)"
    and "s_store w (family_key L R (claim_family_id c)) = None"
  obtains succ w' where
    "spec_run M (perform L R upstream hkey c) w = (Inr (Response (response\<lparr>sr_body := body succ\<rparr>)), w')"
    and "rotated_store L M R (s_store w') hkey succ (claim_family_id c) (claim_expires_ms c) (s_now w div 1000000)
       (case upstream_refresh_token L (sr_status response) (sr_body response) of Some t \<Rightarrow> t | None \<Rightarrow> claim_token c)
       (response\<lparr>sr_body := body succ\<rparr>)"
    and "s_store w' (family_key L R (claim_family_id c)) = None" and "s_now w' = s_now w"
    and "succ = ROTATING_PREFIX @ b64url_encode L (draw M (s_draws w) 32)"
proof -
  let ?succ = "ROTATING_PREFIX @ b64url_encode L (draw M (s_draws w) 32)"
  let ?tok = "case upstream_refresh_token L (sr_status response) (sr_body response) of Some t \<Rightarrow> t | None \<Rightarrow> claim_token c"
  obtain peer' where ask: "spec_run M (upstream (claim_token c)) w = (Inr response, w\<lparr>s_peer := peer'\<rparr>)"
    using assms(7) by (auto simp: answers_def)
  have "\<not> is_invalid_grant L response"
    using assms(8) by (simp add: is_invalid_grant_def is_success_def success_status_def)
  let ?w = "w\<lparr>s_peer := peer', s_draws := s_draws w + 1\<rparr>"
  obtain m' where com: "spec_run M (commit L R hkey c ?succ ?tok (response\<lparr>sr_body := body ?succ\<rparr>)) ?w =
       (Inr CommitRotated, ?w\<lparr>s_draws := s_draws ?w + 3, s_store := m'\<rparr>)"
    and rot: "rotated_store L M R m' hkey ?succ (claim_family_id c) (claim_expires_ms c) (s_now ?w div 1000000)
       ?tok (response\<lparr>sr_body := body ?succ\<rparr>)"
    and fam: "m' (family_key L R (claim_family_id c)) = s_store ?w (family_key L R (claim_family_id c))"
    by (rule run_commit [OF assms(1,2), of ?w c ?succ ?tok "response\<lparr>sr_body := body ?succ\<rparr>" "claim_family_id c"])
      (use assms in auto)
  show thesis
  proof (rule that [of ?succ "?w\<lparr>s_draws := s_draws ?w + 3, s_store := m'\<rparr>"])
    show "spec_run M (perform L R upstream hkey c) w =
        (Inr (Response (response\<lparr>sr_body := body ?succ\<rparr>)), ?w\<lparr>s_draws := s_draws ?w + 3, s_store := m'\<rparr>)"
      using ask com fam assms(1,8,9,10) \<open>\<not> is_invalid_grant L response\<close>
      by (simp add: perform_def ask_upstream_def spec_run_bind spec_run_timeout record_outcome_def Let_def
          new_handle_def HANDLE_BYTES_def spec_run_bindE after_commit_def run_is_revoked)
  qed (use rot fam assms(10) in simp_all)
qed

text \<open>No record collides with the random values the next refresh draws.\<close>

definition fresh_draws ::
    "'z rotation_libs_scheme \<Rightarrow> 'h machine \<Rightarrow> rotator \<Rightarrow> 'h spec_world \<Rightarrow> string \<Rightarrow> bool" where
  "fresh_draws L M R w hkey \<longleftrightarrow>
     (\<forall>cid. s_store w (grace_key L R hkey cid) = None)
     \<and> (\<forall>i\<ge>s_draws w. s_store w (handle_key L R (ROTATING_PREFIX @ b64url_encode L (draw M i 32))) = None)"

lemma run_round_rotates:
  assumes "env_ok L M" and "hkey = handle_key L R presented"
    and "holds_record L M R (s_store w) hkey \<lparr>family_id = fid, family_expires_ms = expires, handle_state = Active tok\<rparr>"
    and "s_now w div 1000000 < expires" and "s_store w (family_key L R fid) = None"
    and "fresh_draws L M R w hkey"
    and "answers M upstream tok response" and "is_success response"
    and "\<And>h. with_refresh_token L (sr_status response) (sr_body response) h = Some (body h)"
  obtains succ w' where
    "spec_run M (refresh_round L R upstream hkey) w = (Inr (Some (Response (response\<lparr>sr_body := body succ\<rparr>))), w')"
    and "rotated_store L M R (s_store w') hkey succ fid expires (s_now w div 1000000)
       (case upstream_refresh_token L (sr_status response) (sr_body response) of Some t \<Rightarrow> t | None \<Rightarrow> tok)
       (response\<lparr>sr_body := body succ\<rparr>)"
    and "s_store w' (family_key L R fid) = None" and "s_now w' = s_now w" and "starts_with ROTATING_PREFIX succ"
proof -
  let ?rec = "\<lparr>family_id = fid, family_expires_ms = expires, handle_state = Active tok\<rparr>"
  have val: "validate_key hkey = Inr ()" using key_valid(1) [OF assms(1)] assms(2) by simp
  obtain r where r: "s_store w hkey = Some r"
    and load: "spec_run M (load L R hkey) w = (Inr (Some \<lparr>loaded_bytes = mem_value r, loaded_record = ?rec\<rparr>), w)"
    by (rule run_load [OF assms(1) val assms(3)])
  obtain v cid t where claim:
    "spec_run M (take_claim L R hkey \<lparr>loaded_bytes = mem_value r, loaded_record = ?rec\<rparr> tok) w =
       (Inr (Some \<lparr>claim_bytes = v, claim_id = cid, claim_token = tok, claim_family_id = fid,
                   claim_expires_ms = expires\<rparr>),
        w\<lparr>s_draws := s_draws w + 2, s_store := (s_store w)(hkey \<mapsto> \<lparr>mem_value = v, mem_expires = t\<rparr>)\<rparr>)"
    using run_take_claim [OF assms(1) val r, of ?rec R tok] assms(4) by auto
  let ?w = "w\<lparr>s_draws := s_draws w + 2, s_store := (s_store w)(hkey \<mapsto> \<lparr>mem_value = v, mem_expires = t\<rparr>)\<rparr>"
  let ?c = "\<lparr>claim_bytes = v, claim_id = cid, claim_token = tok, claim_family_id = fid, claim_expires_ms = expires\<rparr>"
  have fresh: "s_store w (grace_key L R hkey cid) = None"
      "s_store w (handle_key L R (ROTATING_PREFIX @ b64url_encode L (draw M (s_draws w + 2) 32))) = None" for cid
    using assms(6) by (auto simp: fresh_draws_def)
  have "handle_key L R (ROTATING_PREFIX @ b64url_encode L (draw M (s_draws w + 2) 32)) \<noteq> hkey"
    using r fresh(2) by auto
  then obtain succ w' where
    perf: "spec_run M (perform L R upstream hkey ?c) ?w = (Inr (Response (response\<lparr>sr_body := body succ\<rparr>)), w')"
    and "rotated_store L M R (s_store w') hkey succ (claim_family_id ?c) (claim_expires_ms ?c) (s_now ?w div 1000000)
       (case upstream_refresh_token L (sr_status response) (sr_body response) of Some t \<Rightarrow> t | None \<Rightarrow> claim_token ?c)
       (response\<lparr>sr_body := body succ\<rparr>)"
    and "s_store w' (family_key L R (claim_family_id ?c)) = None" and "s_now w' = s_now ?w"
    and "succ = ROTATING_PREFIX @ b64url_encode L (draw M (s_draws ?w) 32)"
    by - (rule run_perform [OF assms(1,2), of ?w ?c upstream response body],
        use fresh assms in auto)
  moreover have "spec_run M (refresh_round L R upstream hkey) w =
      (Inr (Some (Response (response\<lparr>sr_body := body succ\<rparr>))), w')"
    using load claim perf assms(4,5)
    by (simp add: refresh_round_def spec_run_bindE run_is_revoked [OF assms(1)] act_on_state_def claim_and_perform_def)
  ultimately show thesis
    by (intro that [of succ w']) (simp_all cong: option.case_cong)
qed

section \<open>A concrete instance\<close>

text \<open>
  An executable instance of the codecs and of the machine, for evaluating the theorems at
  concrete inputs. Numbers are written in unary.
\<close>

definition frame_nat :: "nat \<Rightarrow> bytes" where
  "frame_nat n = frame (replicate n (CHR ''1''))"

fun demo_state_encode :: "handle_state \<Rightarrow> bytes" where
  "demo_state_encode (Active tok) = CHR ''A'' # frame tok"
| "demo_state_encode (Claimed tok cid ms) = CHR ''C'' # frame tok @ frame cid @ frame_nat ms"
| "demo_state_encode (Rotated ms cid skey) = CHR ''R'' # frame_nat ms @ frame cid @ frame skey"

definition demo_record_encode :: "handle_record \<Rightarrow> bytes" where
  "demo_record_encode rec =
     frame (family_id rec) @ frame_nat (family_expires_ms rec) @ demo_state_encode (handle_state rec)"

definition demo_state_decode :: "bytes \<Rightarrow> handle_state option" where
  "demo_state_decode s =
     (case s of
        [] \<Rightarrow> None
      | c # r \<Rightarrow>
          (case unframe r of
             None \<Rightarrow> None
           | Some (a, r) \<Rightarrow>
               if c = CHR ''A'' then Some (Active a)
               else (case unframe r of
                       None \<Rightarrow> None
                     | Some (b, r) \<Rightarrow>
                         (case unframe r of
                            None \<Rightarrow> None
                          | Some (d, r) \<Rightarrow>
                              Some (if c = CHR ''C'' then Claimed a b (length d) else Rotated (length a) b d)))))"

definition demo_record_decode :: "bytes \<Rightarrow> handle_record option" where
  "demo_record_decode s =
     (case unframe s of
        None \<Rightarrow> None
      | Some (fid, r) \<Rightarrow>
          (case unframe r of
             None \<Rightarrow> None
           | Some (x, r) \<Rightarrow>
               map_option (\<lambda>st. \<lparr>family_id = fid, family_expires_ms = length x, handle_state = st\<rparr>)
                 (demo_state_decode r)))"

lemma unframe_frame_nat [simp]: "unframe (frame_nat n @ r) = Some (replicate n (CHR ''1''), r)"
  by (simp add: frame_nat_def)

lemma unframe_frame_end [simp]: "unframe (frame x) = Some (x, [])"
  using unframe_frame [of x "[]"] by simp

lemma demo_record_roundtrip: "demo_record_decode (demo_record_encode rec) = Some rec"
  by (cases "handle_state rec")
    (simp_all add: demo_record_decode_def demo_record_encode_def demo_state_decode_def frame_nat_def)

definition demo_response_encode :: "stored_response \<Rightarrow> bytes" where
  "demo_response_encode r =
     frame_nat (sr_status r)
     @ (case sr_content_type r of None \<Rightarrow> ''N'' | Some t \<Rightarrow> CHR ''S'' # frame t) @ frame (sr_body r)"

definition demo_response_decode :: "bytes \<Rightarrow> stored_response option" where
  "demo_response_decode s =
     (case unframe s of
        None \<Rightarrow> None
      | Some (st, r) \<Rightarrow>
          (case r of
             [] \<Rightarrow> None
           | c # r \<Rightarrow>
               if c = CHR ''N''
               then map_option (\<lambda>(b, _). \<lparr>sr_status = length st, sr_content_type = None, sr_body = b\<rparr>) (unframe r)
               else Option.bind (unframe r) (\<lambda>(t, r).
                      map_option (\<lambda>(b, _). \<lparr>sr_status = length st, sr_content_type = Some t, sr_body = b\<rparr>)
                        (unframe r))))"

lemma demo_response_roundtrip: "demo_response_decode (demo_response_encode r) = Some r"
  by (cases "sr_content_type r")
    (simp_all add: demo_response_decode_def demo_response_encode_def)

definition demo_rotation_libs :: rotation_libs where
  "demo_rotation_libs =
     seal_libs.extend (demo_libs\<lparr>sha256 := take 900\<rparr>)
       \<lparr>handle_encode = (\<lambda>h. Some (frame (h_upstream_token h) @ frame_nat (h_issued_at h))),
        handle_decode = (\<lambda>s. Option.bind (unframe s) (\<lambda>(t, r).
          map_option (\<lambda>(n, _). \<lparr>h_upstream_token = t, h_issued_at = length n\<rparr>) (unframe r))),
        record_encode = (\<lambda>rec. Some (demo_record_encode rec)), record_decode = demo_record_decode,
        response_encode = (\<lambda>r. Some (demo_response_encode r)), response_decode = demo_response_decode\<rparr>"

definition demo_machine :: "unit machine" where
  "demo_machine =
     \<lparr>seal_with = xchacha_seal demo_libs demo_sealer, unseal_with = xchacha_unseal demo_libs demo_sealer,
      draw = (\<lambda>i n. replicate n (CHR ''x'')), allows = (\<lambda>_. True), answer = (\<lambda>_ h. (None, h))\<rparr>"

lemma demo_env_ok: "env_ok demo_rotation_libs demo_machine"
proof -
  have "machine_ok demo_machine"
    using xchacha.sealer_axioms by (simp add: machine_ok_def demo_machine_def)
  then show ?thesis
    by (auto simp: env_ok_def demo_rotation_libs_def demo_record_roundtrip demo_response_roundtrip seal_libs.defs
        demo_machine_def xchacha_seal_Inr demo_libs_def)
qed

section \<open>Properties of a refresh in one process\<close>

lemma run_of_spec: "spec_run M p (abs_world w) = (r, v) \<Longrightarrow> \<exists>w'. run M p w = (r, w') \<and> abs_world w' = v"
  using run_refines [of M p w] by (cases "run M p w") auto

lemma run_rotating_round:
  "spec_run M (refresh_round L R upstream (handle_key L R presented)) v = (Inr (Some out), v') \<Longrightarrow>
     spec_run M (refresh_rotating (Suc n) L R upstream presented) v = (Some (Inr out), v')"
  by (simp add: refresh_rotating_def Let_def spec_run_bind)

lemma rotated_store_replays:
  assumes "env_ok L M"
    and "rotated_store L M R (s_store v) (handle_key L R presented) succ fid expires now tok resp"
    and "s_now v div 1000000 = now" and "now < expires" and "s_store v (family_key L R fid) = None"
  shows "spec_run M (refresh_rotating (Suc n) L R upstream presented) v = (Some (Inr (Response resp)), v)"
proof -
  obtain cid where "holds_record L M R (s_store v) (handle_key L R presented)
      \<lparr>family_id = fid, family_expires_ms = expires, handle_state = Rotated now cid (handle_key L R succ)\<rparr>"
    and "holds_response L M R (s_store v) (grace_key L R (handle_key L R presented) cid) resp"
    using assms(2) by (auto simp: rotated_store_def)
  then show ?thesis
    using assms(3-5) by (intro run_rotating_round run_round_replay [OF assms(1)]) auto
qed

text \<open>
  C7 Presenting an active handle rotates it: the client gets the upstream's response with a new
  handle in it, the new handle is active and holds the upstream's newest token, and the
  presented handle becomes a tombstone that names it. Presenting the same handle again right
  away returns the same response, whatever the upstream would have said this time.
\<close>

theorem rotation_and_double_submit:
  assumes "env_ok L M"
    and "holds_record L M R (s_store (abs_world w)) (handle_key L R presented)
      \<lparr>family_id = fid, family_expires_ms = expires, handle_state = Active tok\<rparr>"
    and "now_ns w div 1000000 < expires" and "s_store (abs_world w) (family_key L R fid) = None"
    and "fresh_draws L M R (abs_world w) (handle_key L R presented)"
    and "answers M upstream tok response" and "is_success response"
    and "\<And>h. with_refresh_token L (sr_status response) (sr_body response) h = Some (body h)"
  shows "\<exists>succ w'.
    run M (refresh_rotating (Suc n) L R upstream presented) w =
      (Some (Inr (Response (response\<lparr>sr_body := body succ\<rparr>))), w')
    \<and> starts_with ROTATING_PREFIX succ
    \<and> rotated_store L M R (s_store (abs_world w')) (handle_key L R presented) succ fid expires (now_ns w div 1000000)
        (case upstream_refresh_token L (sr_status response) (sr_body response) of Some t \<Rightarrow> t | None \<Rightarrow> tok)
        (response\<lparr>sr_body := body succ\<rparr>)
    \<and> (\<forall>upstream' n'. fst (run M (refresh_rotating (Suc n') L R upstream' presented) w') =
        Some (Inr (Response (response\<lparr>sr_body := body succ\<rparr>))))"
proof -
  let ?v = "abs_world w" and ?k = "handle_key L R presented"
  have now: "s_now ?v = now_ns w" by (simp add: abs_world_def)
  let ?tok = "case upstream_refresh_token L (sr_status response) (sr_body response) of Some t \<Rightarrow> t | None \<Rightarrow> tok"
  obtain succ v' where round: "spec_run M (refresh_round L R upstream ?k) ?v =
      (Inr (Some (Response (response\<lparr>sr_body := body succ\<rparr>))), v')"
    and rot: "rotated_store L M R (s_store v') ?k succ fid expires (s_now ?v div 1000000) ?tok
      (response\<lparr>sr_body := body succ\<rparr>)"
    and v': "s_store v' (family_key L R fid) = None" "s_now v' = s_now ?v" and pre: "starts_with ROTATING_PREFIX succ"
    by (rule run_round_rotates [OF assms(1) refl assms(2) _ assms(4-7), of body]) (use assms(3,8) now in auto)
  obtain w' where w': "run M (refresh_rotating (Suc n) L R upstream presented) w =
      (Some (Inr (Response (response\<lparr>sr_body := body succ\<rparr>))), w')" "abs_world w' = v'"
    using run_of_spec [OF run_rotating_round [OF round]] by blast
  have "spec_run M (refresh_rotating (Suc n') L R upstream' presented) (abs_world w') =
      (Some (Inr (Response (response\<lparr>sr_body := body succ\<rparr>))), abs_world w')" for n' upstream'
    using rotated_store_replays [OF assms(1) rot] v' assms(3) now w'(2) by simp
  then have "fst (run M (refresh_rotating (Suc n') L R upstream' presented) w') =
      Some (Inr (Response (response\<lparr>sr_body := body succ\<rparr>)))" for n' upstream'
    using run_of_spec [of M "refresh_rotating (Suc n') L R upstream' presented" w'] by fastforce
  with w' rot now pre show ?thesis by auto
qed

text \<open>
  A handle without a record, a handle whose family has expired and a handle whose family is
  revoked are refused with \<open>invalid_grant\<close>; the upstream is not asked and the state is not touched.
\<close>

theorem dead_handles_refused:
  assumes "env_ok L M"
    and "s_store (abs_world w) (handle_key L R presented) = None
      \<or> holds_record L M R (s_store (abs_world w)) (handle_key L R presented) rec
        \<and> (family_expires_ms rec \<le> now_ns w div 1000000
           \<or> s_store (abs_world w) (family_key L R (family_id rec)) \<noteq> None)"
  shows "\<exists>w'. run M (refresh_rotating (Suc n) L R upstream presented) w = (Some (Inr InvalidGrant), w')
    \<and> abs_world w' = abs_world w"
proof -
  have "s_now (abs_world w) = now_ns w" by (simp add: abs_world_def)
  then have "spec_run M (refresh_round L R upstream (handle_key L R presented)) (abs_world w) =
      (Inr (Some InvalidGrant), abs_world w)"
    using assms run_round_unknown run_round_dead by metis
  then show ?thesis using run_of_spec [OF run_rotating_round] by blast
qed

lemma rotator_refresh_ends:
  assumes "resolve_wait (timing R) \<le> (polls - 1) * poll_interval (timing R)" and "0 < polls"
  shows "fst (run M (rotator_refresh polls L R upstream presented) w) \<noteq> None"
proof -
  have "fst (spec_run M (refresh_rotating polls L R upstream presented) (abs_world w)) \<noteq> None"
    using refresh_loop_ends [of "s_now (abs_world w)" "abs_world w" polls R M L upstream] assms
    by (simp add: refresh_rotating_def)
  then have "fst (spec_run M (rotator_refresh polls L R upstream presented) (abs_world w)) \<noteq> None"
    by (auto simp: rotator_refresh_def spec_run_bind case_prod_unfold Let_def)
  then show ?thesis using run_refines [of M _ w] by (metis fst_conv map_prod_simp prod.collapse id_apply)
qed

text \<open>
  The refresh loop returns: with enough polls for the time a caller is made to wait, the
  answer is never missing, whatever the store holds and whatever the upstream does.
\<close>

theorem refresh_returns:
  assumes "resolve_wait (timing R) \<le> (polls - 1) * poll_interval (timing R)" and "0 < polls"
  shows "fst (run M (rotator_refresh polls L R upstream presented) w) \<noteq> None"
  by (rule rotator_refresh_ends [OF assms])

section \<open>The properties at concrete inputs\<close>

definition demo_rotator :: rotator where
  "demo_rotator = rotator_new \<lparr>b_relay = ''r'', b_fingerprint = ''f''\<rparr> refresh_tokens_default"

definition demo_world :: "(string \<rightharpoonup> memory_record) \<Rightarrow> unit world" where
  "demo_world m =
     \<lparr>mem = \<lparr>records = m, next_sweep = 5\<rparr>, now_ns = 1, draws = 0, peer = (), caches = (\<lambda>_ _. None)\<rparr>"

definition demo_record :: handle_record where
  "demo_record = \<lparr>family_id = ''F'', family_expires_ms = 9, handle_state = Active ''T''\<rparr>"

text \<open>A store with the record of the handle \<open>rrt2.p\<close>, sealed with the nonce of the demo machine.\<close>

definition demo_store :: "string \<rightharpoonup> memory_record" where
  "demo_store =
     (let key = handle_key demo_rotation_libs demo_rotator ''rrt2.p'';
          n = replicate 24 (CHR ''x'') in
      [key \<mapsto> \<lparr>mem_value = ''v1.'' @ n @ framed_context (current demo_sealer) n
                 (rotation_associated_data demo_rotator RECORD_PURPOSE key) @ demo_record_encode demo_record,
              mem_expires = 100\<rparr>])"

definition demo_response :: stored_response where
  "demo_response = \<lparr>sr_status = 200, sr_content_type = None, sr_body = []\<rparr>"

lemma demo_abs_store: "s_store (abs_world (demo_world demo_store)) = demo_store"
  by (auto simp: abs_world_def demo_world_def demo_store_def Let_def retain_live_def fun_eq_iff)

lemma demo_holds:
  "holds_record demo_rotation_libs demo_machine demo_rotator demo_store
     (handle_key demo_rotation_libs demo_rotator ''rrt2.p'') demo_record"
proof -
  let ?key = "handle_key demo_rotation_libs demo_rotator ''rrt2.p''"
  have "seal_with demo_machine (replicate 24 (CHR ''x'')) (demo_record_encode demo_record)
      (rotation_associated_data demo_rotator RECORD_PURPOSE ?key) = Inr (mem_value (the (demo_store ?key)))"
    by (simp add: demo_machine_def xchacha_seal_def demo_libs_def demo_store_def Let_def ok_or_def)
  then show ?thesis
    unfolding holds_record_def holds_def
    by (intro exI [of _ "demo_record_encode demo_record"] exI [of _ "replicate 24 (CHR ''x'')"]
        exI [of _ "the (demo_store ?key)"])
      (simp add: demo_rotation_libs_def seal_libs.defs demo_store_def Let_def)
qed

lemma demo_fresh:
  "fresh_draws demo_rotation_libs demo_machine demo_rotator (abs_world (demo_world demo_store))
     (handle_key demo_rotation_libs demo_rotator ''rrt2.p'')"
proof -
  have "handle_key demo_rotation_libs demo_rotator (ROTATING_PREFIX @ b64url_encode demo_rotation_libs (replicate 32 (CHR ''x'')))
      \<noteq> handle_key demo_rotation_libs demo_rotator ''rrt2.p''"
    by (simp add: handle_key_def digest_key_def demo_rotation_libs_def seal_libs.defs demo_libs_def demo_rotator_def
        rotator_new_def ROTATING_PREFIX_def numeral_eq_Suc)
  then show ?thesis
    unfolding fresh_draws_def demo_abs_store
    by (auto simp: demo_store_def Let_def demo_machine_def)
qed

theorem rotation_and_double_submit_witness:
  "\<exists>succ w'.
    run demo_machine (refresh_rotating 1 demo_rotation_libs demo_rotator (\<lambda>_. Ret (Inr demo_response)) ''rrt2.p'')
        (demo_world demo_store) =
      (Some (Inr (Response (demo_response\<lparr>sr_body := frame ''refresh_token'' @ frame succ\<rparr>))), w')
    \<and> fst (run demo_machine (refresh_rotating 1 demo_rotation_libs demo_rotator (\<lambda>_. Ret (Inl FailedRequest)) ''rrt2.p'') w') =
        Some (Inr (Response (demo_response\<lparr>sr_body := frame ''refresh_token'' @ frame succ\<rparr>)))"
proof -
  have holds: "holds_record demo_rotation_libs demo_machine demo_rotator (s_store (abs_world (demo_world demo_store)))
      (handle_key demo_rotation_libs demo_rotator ''rrt2.p'')
      \<lparr>family_id = ''F'', family_expires_ms = 9, handle_state = Active ''T''\<rparr>"
    using demo_holds by (simp add: demo_abs_store demo_record_def)
  have alive: "now_ns (demo_world demo_store) div 1000000 < 9" by (simp add: demo_world_def)
  have family: "s_store (abs_world (demo_world demo_store)) (family_key demo_rotation_libs demo_rotator ''F'') = None"
    unfolding demo_abs_store by (simp add: demo_store_def Let_def)
  have ans: "answers demo_machine (\<lambda>_. Ret (Inr demo_response)) ''T'' demo_response"
    by (auto simp: answers_def intro!: exI [of _ "()"])
  have ok: "is_success demo_response" by (simp add: is_success_def success_status_def demo_response_def)
  have body: "with_refresh_token demo_rotation_libs (sr_status demo_response) (sr_body demo_response) h =
      Some (frame ''refresh_token'' @ frame h)" for h
    by (simp add: with_refresh_token_def demo_response_def success_status_def demo_rotation_libs_def seal_libs.defs
        demo_libs_def demo_members_parse.simps demo_members_print_def REFRESH_TOKEN_MEMBER_def)
  show ?thesis
    using rotation_and_double_submit [OF demo_env_ok holds alive family demo_fresh ans ok body, of 0] by auto
qed

theorem dead_handles_refused_witness:
  "\<exists>w'. run demo_machine (refresh_rotating 1 demo_rotation_libs demo_rotator (\<lambda>_. Ret (Inl FailedRequest)) ''rrt2.p'')
      (demo_world Map.empty) = (Some (Inr InvalidGrant), w')
    \<and> abs_world w' = abs_world (demo_world Map.empty)"
proof -
  have "s_store (abs_world (demo_world Map.empty)) (handle_key demo_rotation_libs demo_rotator ''rrt2.p'') = None"
    by (simp add: abs_world_def demo_world_def retain_live_def)
  then show ?thesis
    using dead_handles_refused [OF demo_env_ok, of "demo_world Map.empty" demo_rotator "''rrt2.p''" demo_record 0] by simp
qed

text \<open>The default timing needs 51 polls.\<close>

theorem refresh_returns_witness:
  "fst (run demo_machine (rotator_refresh 51 demo_rotation_libs demo_rotator (\<lambda>_. Ret (Inl FailedRequest)) ''rrt2.x'')
     (demo_world demo_store)) \<noteq> None"
  by (rule refresh_returns)
    (simp_all add: demo_rotator_def rotator_new_def timing_default_def from_secs_def from_millis_def)

end
