(* ===== verification/Rotation_Safety.thy ===== *)
theory Rotation_Safety
  imports Rotation_Run Trace_Logic
begin

text \<open>
  What holds of the rotation state machine whatever the store, the sealer, the clocks and the
  upstream answer, and whatever other requests do in between: what it writes, when it asks the
  upstream, and when it hands out tokens.
\<close>

section \<open>What is written to the store\<close>

text \<open>
  A value is written to a key only if the sealer sealed it for that very key, if it is the
  random marker of a revoked family, or if it is the key of a handle record in a head pointer.
\<close>

definition stored_ok :: "'z libs_scheme \<Rightarrow> rotator \<Rightarrow> event list \<Rightarrow> string \<Rightarrow> bytes \<Rightarrow> bool" where
  "stored_ok L R h k v \<longleftrightarrow>
     (\<exists>purpose p. purpose \<in> {RECORD_PURPOSE, GRACE_PURPOSE}
        \<and> ESeal p (rotation_associated_data R purpose k) (Inr v) \<in> set h)
     \<or> (\<exists>fid. k = family_key L R fid \<and> ERandom 16 v \<in> set h)
     \<or> (\<exists>fid handle. k = head_key L R fid \<and> v = handle_key L R handle)"

fun write_ok :: "'z libs_scheme \<Rightarrow> rotator \<Rightarrow> event list \<Rightarrow> event \<Rightarrow> bool" where
  "write_ok L R h (EPut k v ttl a) = stored_ok L R h k v"
| "write_ok L R h (ECas k old v ttl a) = stored_ok L R h k v"
| "write_ok L R h _ = True"

fun is_write :: "event \<Rightarrow> bool" where
  "is_write (EPut k v ttl a) = True"
| "is_write (ECas k old v ttl a) = True"
| "is_write _ = False"

lemma not_write_ok: "\<not> is_write e \<Longrightarrow> write_ok L R h e"
  by (cases e) auto

lemma stored_ok_sealed:
  "ESeal p (rotation_associated_data R RECORD_PURPOSE k) (Inr v) \<in> set es \<Longrightarrow> set es \<subseteq> set h \<Longrightarrow>
     stored_ok L R h k v"
  "ESeal p (rotation_associated_data R GRACE_PURPOSE k) (Inr v) \<in> set es \<Longrightarrow> set es \<subseteq> set h \<Longrightarrow>
     stored_ok L R h k v"
  by (auto simp: stored_ok_def)

lemma stored_ok_marker [simp]: "stored_ok L R (h @ [ERandom 16 v]) (family_key L R fid) v"
  by (auto simp: stored_ok_def)

lemma stored_ok_head [simp]: "stored_ok L R h (head_key L R fid) (handle_key L R handle)"
  by (auto simp: stored_ok_def)

lemmas store_call_defs = delete_key_def put_key_def swap_key_def

section \<open>Symbolic execution of the basic operations\<close>

text \<open>Calls that neither change the store nor leave the process.\<close>

fun harmless :: "event \<Rightarrow> bool" where
  "harmless (EPut k v ttl a) = False"
| "harmless (ECas k old v ttl a) = False"
| "harmless (EDelete k a) = False"
| "harmless (EPolicy q a) = False"
| "harmless (EExecute q a) = False"
| "harmless (ECacheGet i k a) = False"
| "harmless (ECachePut i k v) = False"
| "harmless (ECacheRemove i k) = False"
| "harmless _ = True"

definition tolerant :: "(event list \<Rightarrow> event \<Rightarrow> bool) \<Rightarrow> bool" where
  "tolerant G \<longleftrightarrow> (\<forall>h e. harmless e \<longrightarrow> G h e)"

lemma tolerantD [simp]: "tolerant G \<Longrightarrow> harmless e \<Longrightarrow> G h e"
  by (simp add: tolerant_def)

lemma write_ok_tolerant [simp]: "tolerant (write_ok L R)"
  unfolding tolerant_def by (intro allI impI, rule not_write_ok, rule notI) (erule is_write.elims; simp)

lemma wp_seal_value:
  assumes "tolerant G" and "\<And>f es. Q (Inl f) (h @ es)"
    and "\<And>p v es. enc = Some p \<Longrightarrow> ESeal p (rotation_associated_data R purpose key) (Inr v) \<in> set es \<Longrightarrow>
      list_all harmless es \<Longrightarrow> Q (Inr v) (h @ es)"
  shows "wp G (seal_value R purpose key enc) h Q"
proof (cases enc)
  case None
  then show ?thesis using assms(2) [of _ "[]"] by (simp add: seal_value_def)
next
  case (Some p)
  have "Q (map_sum from_seal_error id a) (h @ [ESeal p (rotation_associated_data R purpose key) a,
      EDeadline (sealer_timeout (timing R)) False])" for a
    using assms(2,3) Some by (cases a) auto
  then show ?thesis using Some assms(1,2) by (simp add: seal_value_def)
qed

lemma wp_open_value:
  assumes "tolerant G" and "\<And>f es. Q (Inl f) (h @ es)"
    and "\<And>p v es. EUnseal bs (rotation_associated_data R purpose key) (Inr p) \<in> set es \<Longrightarrow> decode p = Some v \<Longrightarrow>
      list_all harmless es \<Longrightarrow> Q (Inr v) (h @ es)"
  shows "wp G (open_value L R decode purpose key bs) h Q"
proof (cases "utf8_valid L bs")
  case True
  have "Q (bind_result (map_sum from_unseal_error id a) (\<lambda>p. ok_or Unopenable (decode p)))
      (h @ [EUnseal bs (rotation_associated_data R purpose key) a,
        EDeadline (sealer_timeout (timing R)) False])" for a
    using assms(2,3) by (cases a) (auto simp: ok_or_def split: option.splits)
  then show ?thesis using True assms(1,2) by (simp add: open_value_def)
next
  case False
  then show ?thesis using assms(2) [of _ "[]"] by (simp add: open_value_def)
qed

text \<open>What was read from a key and opened for it.\<close>

definition read_record ::
    "'z rotation_libs_scheme \<Rightarrow> rotator \<Rightarrow> string \<Rightarrow> loaded \<Rightarrow> event list \<Rightarrow> bool" where
  "read_record L R key l h \<longleftrightarrow>
     (\<exists>ent p. EGet key (Inr (Some ent)) \<in> set h \<and> value_of ent = loaded_bytes l
        \<and> EUnseal (loaded_bytes l) (rotation_associated_data R RECORD_PURPOSE key) (Inr p) \<in> set h
        \<and> record_decode L p = Some (loaded_record l))"

lemma read_record_mono: "read_record L R key l h \<Longrightarrow> set h \<subseteq> set h' \<Longrightarrow> read_record L R key l h'"
  by (fastforce simp: read_record_def)

lemma wp_load:
  assumes "tolerant G" and "\<And>f es. Q (Inl f) (h @ es)"
    and "\<And>es. EGet key (Inr None) \<in> set es \<Longrightarrow> Q (Inr None) (h @ es)"
    and "\<And>l es. read_record L R key l es \<Longrightarrow> list_all harmless es \<Longrightarrow> Q (Inr (Some l)) (h @ es)"
  shows "wp G (load L R key) h Q"
proof -
  have "wp G (open_value L R (record_decode L) RECORD_PURPOSE key (value_of ent)) (h @ [EGet key (Inr (Some ent))])
      (\<lambda>r h'. case r of Inl f \<Rightarrow> Q (Inl f) h'
         | Inr rec \<Rightarrow> Q (Inr (Some \<lparr>loaded_bytes = value_of ent, loaded_record = rec\<rparr>)) h')" for ent
  proof (rule wp_open_value [OF assms(1)])
    fix p v es
    assume "EUnseal (value_of ent) (rotation_associated_data R RECORD_PURPOSE key) (Inr p) \<in> set es"
      and "record_decode L p = Some v" and "list_all harmless es"
    then show "case Inr v of Inl f \<Rightarrow> Q (Inl f) ((h @ [EGet key (Inr (Some ent))]) @ es)
         | Inr rec \<Rightarrow> Q (Inr (Some \<lparr>loaded_bytes = value_of ent, loaded_record = rec\<rparr>))
             ((h @ [EGet key (Inr (Some ent))]) @ es)"
      using assms(4) [of "\<lparr>loaded_bytes = value_of ent, loaded_record = v\<rparr>" "EGet key (Inr (Some ent)) # es"]
      by (auto simp: read_record_def)
  qed (use assms(2) in simp)
  then show ?thesis
    using assms by (simp add: load_def split_sum_all split_option_all cong: sum.case_cong)
qed

lemma wp_load_grace_response:
  assumes "tolerant G" and "\<And>f es. Q (Inl f) (h @ es)"
    and "\<And>es. EGet key (Inr None) \<in> set es \<Longrightarrow> Q (Inr None) (h @ es)"
    and "\<And>ent p v es. EGet key (Inr (Some ent)) \<in> set es \<Longrightarrow>
      EUnseal (value_of ent) (rotation_associated_data R GRACE_PURPOSE key) (Inr p) \<in> set es \<Longrightarrow>
      response_decode L p = Some v \<Longrightarrow> list_all harmless es \<Longrightarrow> Q (Inr (Some v)) (h @ es)"
  shows "wp G (load_grace_response L R key) h Q"
proof -
  have "wp G (open_value L R (response_decode L) GRACE_PURPOSE key (value_of ent)) (h @ [EGet key (Inr (Some ent))])
      (\<lambda>r h'. case r of Inl f \<Rightarrow> Q (Inl f) h' | Inr rec \<Rightarrow> Q (Inr (Some rec)) h')" for ent
  proof (rule wp_open_value [OF assms(1)])
    fix p v es
    assume "EUnseal (value_of ent) (rotation_associated_data R GRACE_PURPOSE key) (Inr p) \<in> set es"
      and "response_decode L p = Some v" and "list_all harmless es"
    then show "case Inr v of Inl f \<Rightarrow> Q (Inl f) ((h @ [EGet key (Inr (Some ent))]) @ es)
         | Inr rec \<Rightarrow> Q (Inr (Some rec)) ((h @ [EGet key (Inr (Some ent))]) @ es)"
      using assms(4) [of ent "EGet key (Inr (Some ent)) # es" p v] by auto
  qed (use assms(2) in simp)
  then show ?thesis
    using assms by (simp add: load_grace_response_def split_sum_all split_option_all cong: sum.case_cong)
qed

section \<open>The operations\<close>

text \<open>
  A guarantee that permits what the state machine may do to the store: everything harmless,
  writes of values made for their key, and deletions.
\<close>

definition permits :: "'z libs_scheme \<Rightarrow> rotator \<Rightarrow> (event list \<Rightarrow> event \<Rightarrow> bool) \<Rightarrow> bool" where
  "permits L R G \<longleftrightarrow>
     tolerant G \<and> (\<forall>h k a. G h (EDelete k a))
     \<and> (\<forall>h k v ttl a. stored_ok L R h k v \<longrightarrow> G h (EPut k v ttl a))
     \<and> (\<forall>h k old v ttl a. stored_ok L R h k v \<longrightarrow> G h (ECas k old v ttl a))"

lemma permitsD [simp]:
  assumes "permits L R G"
  shows "tolerant G" and "G h (EDelete k a)"
    and "stored_ok L R h k v \<Longrightarrow> G h (EPut k v ttl b)"
    and "stored_ok L R h k v \<Longrightarrow> G h (ECas k old v ttl b)"
  using assms by (simp_all add: permits_def)

lemma permits_write_ok [simp]: "permits L R (write_ok L R)"
  by (simp add: permits_def)

lemma wp_seal_record:
  assumes "permits L R G" and "\<And>f es. Q (Inl f) (h @ es)"
    and "\<And>p v es. record_encode L rec = Some p \<Longrightarrow>
      ESeal p (rotation_associated_data R RECORD_PURPOSE key) (Inr v) \<in> set es \<Longrightarrow>
      stored_ok L R (h @ es) key v \<Longrightarrow> (\<And>e es'. stored_ok L R (h @ es @ e # es') key v) \<Longrightarrow> Q (Inr v) (h @ es)"
  shows "wp G (seal_record L R key rec) h Q"
  unfolding seal_record_def
proof (rule wp_seal_value)
  fix p v es
  assume "record_encode L rec = Some p"
    and e: "ESeal p (rotation_associated_data R RECORD_PURPOSE key) (Inr v) \<in> set es"
  then show "Q (Inr v) (h @ es)"
    by (rule assms(3)) (use e in \<open>auto intro: stored_ok_sealed(1)\<close>)
qed (use assms in auto)

lemma wp_discard:
  "permits L R G \<Longrightarrow> (\<And>es. Q () (h @ es)) \<Longrightarrow> wp G (discard keys) h Q"
proof (induction keys arbitrary: h)
  case Nil
  then show ?case using Nil.prems(2) [of "[]"] by simp
next
  case (Cons key keys)
  have "wp G (discard keys) (h @ [EDelete key a]) Q" for a
    using Cons.IH Cons.prems by simp
  then show ?case using Cons.prems by simp
qed

lemma wp_release:
  assumes "permits L R G" and "\<And>es. Q () (h @ es)"
  shows "wp G (release L R hkey c) h Q"
  unfolding release_def wp_bind
  by (rule wp_seal_record [OF assms(1)]) (auto simp: permitsD [OF assms(1)] assms(2) split: option.split)

lemma wp_create_family:
  assumes "permits L R G" and "\<And>r es. Q r (h @ es)"
  shows "wp G (create_family L R handle tok) h Q"
proof -
  have "wp G (bindE (seal_record L R (handle_key L R handle) rec) (\<lambda>bs.
      bindE (put_key (handle_key L R handle) bs ttl) (\<lambda>created. if \<not> created then Ret (Inl Conflict)
        else bindE (put_key (head_key L R fid) (handle_key L R handle) ttl) (\<lambda>created.
          if \<not> created then Ret (Inl Conflict) else Ret (Inr ()))))) (h @ es) Q" for rec ttl fid es
    unfolding wp_bindE
    by (rule wp_seal_record [OF assms(1)])
      (auto simp: permitsD [OF assms(1)] assms(2) put_key_def split_sum_all)
  then show ?thesis
    by (simp add: create_family_def Let_def assms(2) permitsD [OF assms(1)] split: option.split)
qed

text \<open>A claim is won only by swapping exactly the bytes that were read.\<close>

lemma wp_take_claim:
  assumes "permits L R G" and "\<And>f es. Q (Inl f) (h @ es)" and "\<And>es. Q (Inr None) (h @ es)"
    and "\<And>c es ttl. ECas hkey (loaded_bytes l) (claim_bytes c) ttl (Inr True) \<in> set es \<Longrightarrow>
      claim_token c = tok \<Longrightarrow> claim_family_id c = family_id (loaded_record l) \<Longrightarrow>
      claim_expires_ms c = family_expires_ms (loaded_record l) \<Longrightarrow> Q (Inr (Some c)) (h @ es)"
  shows "wp G (take_claim L R hkey l tok) h Q"
proof -
  have "wp G (bindE (seal_record L R hkey (loaded_record l\<lparr>handle_state := Claimed tok cid now\<rparr>)) (\<lambda>bs.
      bindE (swap_key hkey (loaded_bytes l) bs ttl) (\<lambda>won. Ret (Inr (if won
        then Some \<lparr>claim_bytes = bs, claim_id = cid, claim_token = tok,
                   claim_family_id = family_id (loaded_record l),
                   claim_expires_ms = family_expires_ms (loaded_record l)\<rparr>
        else None))))) (h @ es) Q" for cid now ttl es
    unfolding wp_bindE
    by (rule wp_seal_record [OF assms(1)])
      (auto simp: permitsD [OF assms(1)] assms(2,3) swap_key_def split_sum_all intro!: assms(4))
  then show ?thesis
    by (simp add: take_claim_def Let_def assms(2,3) permitsD [OF assms(1)] split: option.split)
qed

text \<open>
  A commit that rotates has recorded the response and the successor, then swapped the claimed
  record for one that names the successor.
\<close>

definition rotated_record :: "claim \<Rightarrow> nat \<Rightarrow> string \<Rightarrow> handle_record" where
  "rotated_record c now skey =
     \<lparr>family_id = claim_family_id c, family_expires_ms = claim_expires_ms c,
      handle_state = Rotated now (claim_id c) skey\<rparr>"

definition committed ::
    "'z rotation_libs_scheme \<Rightarrow> rotator \<Rightarrow> string \<Rightarrow> claim \<Rightarrow> string \<Rightarrow> string \<Rightarrow> stored_response \<Rightarrow> event list \<Rightarrow> bool" where
  "committed L R hkey c skey tok response h \<longleftrightarrow>
     (\<exists>pg ps px now g s x t1 t2 t3 pre mid1 mid2 post.
        h = pre @ EPut (grace_key L R hkey (claim_id c)) g t1 (Inr True) # mid1
              @ EPut skey s t2 (Inr True) # mid2 @ ECas hkey (claim_bytes c) x t3 (Inr True) # post
      \<and> response_encode L response = Some pg
      \<and> ESeal pg (rotation_associated_data R GRACE_PURPOSE (grace_key L R hkey (claim_id c))) (Inr g) \<in> set pre
      \<and> record_encode L \<lparr>family_id = claim_family_id c, family_expires_ms = claim_expires_ms c,
                          handle_state = Active tok\<rparr> = Some ps
      \<and> ESeal ps (rotation_associated_data R RECORD_PURPOSE skey) (Inr s) \<in> set mid1
      \<and> record_encode L (rotated_record c now skey) = Some px
      \<and> ESeal px (rotation_associated_data R RECORD_PURPOSE hkey) (Inr x) \<in> set mid2)"

lemma committed_append: "committed L R hkey c skey tok response h \<Longrightarrow>
    committed L R hkey c skey tok response (h @ es)"
  unfolding committed_def by (elim exE conjE) (intro exI conjI, (simp; fail), assumption+)

text \<open>What a successful preparation leaves behind, before the swap.\<close>

definition prepared ::
    "'z rotation_libs_scheme \<Rightarrow> rotator \<Rightarrow> string \<Rightarrow> claim \<Rightarrow> string \<Rightarrow> string \<Rightarrow> stored_response \<Rightarrow> nat
       \<Rightarrow> bytes \<Rightarrow> event list \<Rightarrow> bool" where
  "prepared L R hkey c skey tok response now x h \<longleftrightarrow>
     (\<exists>pg ps px g s t1 t2 pre mid1 mid2.
        h = pre @ EPut (grace_key L R hkey (claim_id c)) g t1 (Inr True) # mid1
              @ EPut skey s t2 (Inr True) # mid2
      \<and> response_encode L response = Some pg
      \<and> ESeal pg (rotation_associated_data R GRACE_PURPOSE (grace_key L R hkey (claim_id c))) (Inr g) \<in> set pre
      \<and> record_encode L \<lparr>family_id = claim_family_id c, family_expires_ms = claim_expires_ms c,
                          handle_state = Active tok\<rparr> = Some ps
      \<and> ESeal ps (rotation_associated_data R RECORD_PURPOSE skey) (Inr s) \<in> set mid1
      \<and> record_encode L (rotated_record c now skey) = Some px
      \<and> ESeal px (rotation_associated_data R RECORD_PURPOSE hkey) (Inr x) \<in> set mid2)"

lemma preparedI:
  assumes "response_encode L response = Some pg"
    and "ESeal pg (rotation_associated_data R GRACE_PURPOSE (grace_key L R hkey (claim_id c))) (Inr g) \<in> set pre"
    and "record_encode L \<lparr>family_id = claim_family_id c, family_expires_ms = claim_expires_ms c,
                          handle_state = Active tok\<rparr> = Some ps"
    and "ESeal ps (rotation_associated_data R RECORD_PURPOSE skey) (Inr s) \<in> set mid1"
    and "record_encode L (rotated_record c now skey) = Some px"
    and "ESeal px (rotation_associated_data R RECORD_PURPOSE hkey) (Inr x) \<in> set mid2"
  shows "prepared L R hkey c skey tok response now x
    (pre @ EPut (grace_key L R hkey (claim_id c)) g t1 (Inr True) # mid1 @ EPut skey s t2 (Inr True) # mid2)"
  unfolding prepared_def by (intro exI conjI, rule refl) (fact assms)+

lemma prepared_stored: "prepared L R hkey c skey tok response now x h \<Longrightarrow> stored_ok L R h hkey x"
  unfolding prepared_def by (elim exE conjE, rule stored_ok_sealed(1)) auto

lemma prepared_committed:
  "prepared L R hkey c skey tok response now x h \<Longrightarrow>
     committed L R hkey c skey tok response (h @ ECas hkey (claim_bytes c) x t (Inr True) # post)"
  unfolding prepared_def committed_def by (elim exE conjE) (intro exI conjI, (simp; fail), assumption+)

lemma wp_prepare_commit:
  assumes "permits L R G" and "\<And>f es. Q (Inl f) (h @ es)"
    and "\<And>x es. prepared L R hkey c skey tok response now x (h @ es) \<Longrightarrow> Q (Inr x) (h @ es)"
  shows "wp G (prepare_commit L R hkey c (grace_key L R hkey (claim_id c)) skey tok response now t2 t1) h Q"
proof -
  let ?g = "grace_key L R hkey (claim_id c)"
  let ?succ = "\<lparr>family_id = claim_family_id c, family_expires_ms = claim_expires_ms c,
                 handle_state = Active tok\<rparr>"
  have swap: "wp G (seal_record L R hkey (rotated_record c now skey))
      (h @ pre @ EPut ?g g t1 (Inr True) # mid1 @ [EPut skey s t2 (Inr True)]) Q"
    if "response_encode L response = Some pg"
      and "ESeal pg (rotation_associated_data R GRACE_PURPOSE ?g) (Inr g) \<in> set pre"
      and "record_encode L ?succ = Some ps"
      and "ESeal ps (rotation_associated_data R RECORD_PURPOSE skey) (Inr s) \<in> set mid1"
    for pg ps g s pre mid1
  proof (rule wp_seal_record [OF assms(1)])
    fix p v es
    assume rec: "record_encode L (rotated_record c now skey) = Some p"
      and e: "ESeal p (rotation_associated_data R RECORD_PURPOSE hkey) (Inr v) \<in> set es"
    have "prepared L R hkey c skey tok response now v
        ((h @ pre) @ EPut ?g g t1 (Inr True) # mid1 @ EPut skey s t2 (Inr True) # es)"
      by (rule preparedI [OF that(1) _ that(3,4) rec e]) (use that(2) in simp)
    then show "Q (Inr v) ((h @ pre @ EPut ?g g t1 (Inr True) # mid1 @ [EPut skey s t2 (Inr True)]) @ es)"
      using assms(3) [of v "pre @ EPut ?g g t1 (Inr True) # mid1 @ EPut skey s t2 (Inr True) # es"] by simp
  qed (use assms(2) in simp)
  have succ: "wp G (bindE (seal_record L R skey ?succ) (\<lambda>successor.
         bindE (put_key skey successor t2) (\<lambda>created.
           if \<not> created then Ret (Inl Conflict)
           else seal_record L R hkey (rotated_record c now skey))))
      (h @ pre @ [EPut ?g g t1 (Inr True)]) Q"
    if "response_encode L response = Some pg"
      and "ESeal pg (rotation_associated_data R GRACE_PURPOSE ?g) (Inr g) \<in> set pre" for pg g pre
    unfolding wp_bindE
  proof (rule wp_seal_record [OF assms(1)])
    fix p v es
    let ?h = "(h @ pre @ [EPut ?g g t1 (Inr True)]) @ es"
    assume rec: "record_encode L ?succ = Some p"
      and e: "ESeal p (rotation_associated_data R RECORD_PURPOSE skey) (Inr v) \<in> set es"
      and st: "stored_ok L R ?h skey v"
    show "case Inr v of Inl e \<Rightarrow> Q (Inl e) ?h
      | Inr x \<Rightarrow> wp G (put_key skey x t2) ?h (\<lambda>r h'. case r of Inl e \<Rightarrow> Q (Inl e) h'
          | Inr xa \<Rightarrow> wp G (if \<not> xa then Ret (Inl Conflict)
               else seal_record L R hkey (rotated_record c now skey)) h' Q)"
      using swap [OF that rec e] st
      by (simp add: permitsD [OF assms(1)] assms(2) put_key_def split_sum_all)
  qed (use assms(2) in simp)
  show ?thesis
    unfolding prepare_commit_def rotated_record_def [symmetric] wp_bindE
  proof (rule wp_seal_value)
    fix p v es
    assume r: "response_encode L response = Some p"
      and e: "ESeal p (rotation_associated_data R GRACE_PURPOSE ?g) (Inr v) \<in> set es"
    have "stored_ok L R (h @ es) ?g v" by (rule stored_ok_sealed(2) [OF e]) simp
    then show "case Inr v of Inl e \<Rightarrow> Q (Inl e) (h @ es)
      | Inr x \<Rightarrow> wp G (put_key ?g x t1) (h @ es) (\<lambda>r h'. case r of Inl e \<Rightarrow> Q (Inl e) h'
          | Inr xa \<Rightarrow> wp G (if \<not> xa then Ret (Inl Conflict)
               else bindE (seal_record L R skey ?succ) (\<lambda>successor.
                    bindE (put_key skey successor t2) (\<lambda>created.
                      if \<not> created then Ret (Inl Conflict)
                      else seal_record L R hkey (rotated_record c now skey)))) h' Q)"
      using succ [OF r e]
      by (simp del: wp_bindE add: permitsD [OF assms(1)] assms(2) put_key_def split_sum_all)
  qed (use assms in auto)
qed

lemma wp_commit:
  assumes "permits L R G" and "\<And>f es. Q (Inl f) (h @ es)" and "\<And>es. Q (Inr CommitLost) (h @ es)"
    and "\<And>es. committed L R hkey c (handle_key L R succ) tok response (h @ es) \<Longrightarrow> Q (Inr CommitRotated) (h @ es)"
  shows "wp G (commit L R hkey c succ tok response) h Q"
proof -
  let ?g = "grace_key L R hkey (claim_id c)" and ?s = "handle_key L R succ"
  note pd = permitsD [OF assms(1)]
  have fault: "wp G (conclude_commit L R hkey c ?g ?s ttl (Inl f)) (h @ es) Q" for ttl f es
    by (simp add: conclude_commit_def pd wp_release [OF assms(1)] assms(2))
  have swap: "wp G (conclude_commit L R hkey c ?g ?s ttl (Inr x)) (h @ es) Q"
    if p: "prepared L R hkey c ?s tok response now x (h @ es)" for now ttl x es
  proof -
    have "committed L R hkey c ?s tok response (h @ es @ ECas hkey (claim_bytes c) x ttl (Inr True) # post)"
      for post using prepared_committed [OF p, of ttl post] by simp
    then show ?thesis
      using prepared_stored [OF p] by (simp add: conclude_commit_def swap_key_def split_sum_all pd assms)
  qed
  have "wp G (prepare_commit L R hkey c ?g ?s tok response now ttl gttl) (h @ [EClockMs now])
      (\<lambda>x h'. wp G (conclude_commit L R hkey c ?g ?s ttl x) h' Q)" for now ttl gttl
    by (rule wp_prepare_commit [OF assms(1)]) (use fault swap in auto)
  then show ?thesis
    by (simp add: commit_def Let_def pd assms(3) split: option.split)
qed

section \<open>Revocation\<close>

lemma wp_delete_key:
  assumes "permits L R G" and "\<And>r es. Q r (h @ es)"
  shows "wp G (delete_key key) h Q"
  by (simp add: delete_key_def permitsD [OF assms(1)] assms(2))

lemma wp_erase_hops:
  assumes "permits L R G"
  shows "(\<And>r es. Q r (h @ es)) \<Longrightarrow> wp G (erase_hops L R hops key) h Q"
proof (induction hops arbitrary: key h)
  case 0
  then show ?case using 0 [of _ "[]"] by simp
next
  case (Suc hops)
  have del: "wp G (delete_key key) (h @ es) Q" for es
    by (rule wp_delete_key [OF assms]) (simp add: Suc.prems)
  have hop: "wp G (erase_hops L R hops key') (h @ es) Q" for key' es
    by (rule Suc.IH) (simp add: Suc.prems)
  show ?case
    unfolding erase_hops.simps wp_bind
  proof (rule wp_load)
    fix f es
    show "wp G (case Inl f of Inl Unopenable \<Rightarrow> delete_key key | Inl fault \<Rightarrow> Ret (Inl fault)
        | Inr None \<Rightarrow> Ret (Inr ())
        | Inr (Some loaded) \<Rightarrow> (case handle_state (loaded_record loaded) of
             Active _ \<Rightarrow> delete_key key | Claimed _ _ _ \<Rightarrow> delete_key key
           | Rotated _ _ successor_key \<Rightarrow> erase_hops L R hops successor_key)) (h @ es) Q"
      using del Suc.prems by (cases f) auto
  qed (use del hop Suc.prems assms in \<open>auto split: handle_state.split\<close>)
qed

lemma wp_erase_tokens_if_sealer_available:
  assumes "permits L R G" and "\<And>r es. Q r (h @ es)"
  shows "wp G (erase_tokens_if_sealer_available L R key) h Q"
  unfolding erase_tokens_if_sealer_available_def erase_tokens_def wp_bind
  by (rule wp_erase_hops [OF assms(1)]) (simp add: assms(2))

text \<open>A revocation that succeeds has written the marker, unless the family is already over.\<close>

definition revoked_in :: "'z libs_scheme \<Rightarrow> rotator \<Rightarrow> bytes \<Rightarrow> nat \<Rightarrow> event list \<Rightarrow> bool" where
  "revoked_in L R fid expires_ms h \<longleftrightarrow>
     (\<exists>m ttl b. EPut (family_key L R fid) m ttl (Inr b) \<in> set h) \<or> (\<exists>now\<ge>expires_ms. EClockMs now \<in> set h)"

lemma wp_revoke:
  assumes "permits L R G" and "\<And>f es. Q (Inl f) (h @ es)"
    and "\<And>es. revoked_in L R fid expires_ms es \<Longrightarrow> Q (Inr ()) (h @ es)"
  shows "wp G (revoke L R fid expires_ms known) h Q"
proof -
  note pd = permitsD [OF assms(1)]
  have Q: "Q r (h @ es)" if "revoked_in L R fid expires_ms es" for r es
    using that assms(2,3) by (cases r) auto
  have marked: "revoked_in L R fid expires_ms (EClockMs now # ERandom 16 m # EPut (family_key L R fid) m ttl (Inr b) # es)"
    for now m ttl b es by (auto simp: revoked_in_def)
  have erase: "wp G (erase_tokens_if_sealer_available L R k)
      (h @ EClockMs now # ERandom 16 m # EPut (family_key L R fid) m ttl (Inr b) # es) Q"
    for k now m ttl b es
    by (rule wp_erase_tokens_if_sealer_available [OF assms(1)]) (simp add: Q marked)
  have erase2: "wp G (erase_tokens_if_sealer_available L R k)
      (h @ EClockMs now # ERandom 16 m # EPut (family_key L R fid) m ttl (Inr b) # es)
      (\<lambda>r h'. case r of Inl e \<Rightarrow> Q (Inl e) h' | Inr x \<Rightarrow> wp G rest h' Q)"
    if "\<And>es. wp G rest (h @ EClockMs now # ERandom 16 m # EPut (family_key L R fid) m ttl (Inr b) # es) Q"
    for k rest now m ttl b es
    by (rule wp_erase_tokens_if_sealer_available [OF assms(1)])
      (use that in \<open>auto simp: Q marked assms(2) split: sum.split\<close>)
  have over: "revoked_in L R fid expires_ms [EClockMs now]" if "ttl_until expires_ms now = None" for now
    using that by (auto simp: ttl_until_def revoked_in_def split: if_splits)
  have st: "stored_ok L R (h @ [EClockMs now, ERandom 16 m]) (family_key L R fid) m" for now m
    using stored_ok_marker [of L R "h @ [EClockMs now]" m fid] by simp
  show ?thesis
    unfolding revoke_def
    by (simp add: pd Q over put_key_def split_sum_all split_option_all st Let_def marked assms(2) erase erase2
        split: option.split)
qed

section \<open>Refreshing upstream as the claim holder\<close>

text \<open>
  A refresher under a guarantee: where \<open>may_ask\<close> holds of the token it is given and the history,
  nothing it does breaks the guarantee.
\<close>

definition refresher_ok ::
    "(event list \<Rightarrow> event \<Rightarrow> bool) \<Rightarrow> (string \<Rightarrow> event list \<Rightarrow> bool) \<Rightarrow> refresher \<Rightarrow> bool" where
  "refresher_ok G may_ask upstream \<longleftrightarrow>
     (\<forall>d tok h. may_ask tok h \<longrightarrow> wp G (timeout d (upstream tok)) h (\<lambda>_ _. True))"

lemma wp_ask_upstream:
  assumes "refresher_ok G may_ask upstream" and "may_ask tok h" and "\<And>r es. Q r (h @ es)"
  shows "wp G (ask_upstream R upstream tok) h Q"
proof -
  have "wp G (timeout (upstream_timeout (timing R)) (upstream tok)) h (\<lambda>_ _. True)"
    using assms(1,2) by (simp add: refresher_ok_def)
  then show ?thesis
    unfolding ask_upstream_def wp_bind by (rule wp_grows) (simp add: assms(3) split: option.split)
qed

text \<open>Tokens leave only after the commit, and after the family was seen not to be revoked.\<close>

definition rotated_now ::
    "'z rotation_libs_scheme \<Rightarrow> rotator \<Rightarrow> string \<Rightarrow> claim \<Rightarrow> stored_response \<Rightarrow> event list \<Rightarrow> bool" where
  "rotated_now L R hkey c response h \<longleftrightarrow>
     (\<exists>pre skey tok. h = pre @ [EGet (family_key L R (claim_family_id c)) (Inr None)]
        \<and> committed L R hkey c skey tok response pre)"

lemma wp_after_commit:
  assumes "permits L R G" and "\<And>f es. Q (Inl f) (h @ es)"
    and "\<And>out es. (\<And>r. out \<noteq> Response r) \<Longrightarrow> Q (Inr out) (h @ es)"
    and "result = CommitRotated \<Longrightarrow> committed L R hkey c (handle_key L R succ) tok response h"
    and "\<And>es. rotated_now L R hkey c response (h @ es) \<Longrightarrow> Q (Inr (Response response)) (h @ es)"
  shows "wp G (after_commit L R hkey c succ response result) h Q"
proof (cases result)
  case CommitRotated
  then have "rotated_now L R hkey c response (h @ [EGet (family_key L R (claim_family_id c)) (Inr None)])"
    using assms(4) by (auto simp: rotated_now_def)
  then show ?thesis
    using CommitRotated assms(2,3,5) permitsD [OF assms(1)]
    by (simp add: after_commit_def is_revoked_def split_sum_all split_option_all)
next
  case CommitLost
  then show ?thesis
    using assms(2,3) permitsD [OF assms(1)]
    by (simp add: after_commit_def is_revoked_def split_sum_all split_option_all)
qed

lemma wp_perform:
  assumes "permits L R G" and "refresher_ok G may_ask upstream" and "may_ask (claim_token c) h"
    and "\<And>f es. Q (Inl f) (h @ es)"
    and "\<And>out es. (\<And>r. out = Response r \<Longrightarrow> \<not> is_success r) \<Longrightarrow> Q (Inr out) (h @ es)"
    and "\<And>response es. rotated_now L R hkey c response (h @ es) \<Longrightarrow> Q (Inr (Response response)) (h @ es)"
  shows "wp G (perform L R upstream hkey c) h Q"
  unfolding perform_def wp_bind
proof (rule wp_ask_upstream [OF assms(2,3)])
  fix r es
  note pd = permitsD [OF assms(1)]
  have rel: "wp G (release L R hkey c) (h @ es') (\<lambda>_ h'. Q (Inr out) h')"
    if "\<And>es. Q (Inr out) (h @ es)" for out es'
    by (rule wp_release [OF assms(1)]) (simp add: that)
  have other: "Q (Inr out) (h @ es')" if "\<And>r. out \<noteq> Response r" for out es'
    by (rule assms(5)) (use that in blast)
  have failed: "Q (Inr (Response resp)) (h @ es')" if "\<not> is_success resp" for resp es'
    by (rule assms(5)) (use that in blast)
  have com: "wp G (commit L R hkey c succ tok resp) (h @ es') (\<lambda>r h'. case r of Inl e \<Rightarrow> Q (Inl e) h'
      | Inr result \<Rightarrow> wp G (after_commit L R hkey c succ resp result) h' Q)" for succ tok resp es'
  proof (rule wp_commit [OF assms(1)], goal_cases)
    case (1 f es)
    then show ?case by (simp add: assms(4))
  next
    case (2 es)
    have "wp G (after_commit L R hkey c succ resp CommitLost) ((h @ es') @ es) Q"
      by (rule wp_after_commit [OF assms(1)]) (simp_all add: assms other)
    then show ?case by simp
  next
    case (3 es)
    then have "wp G (after_commit L R hkey c succ resp CommitRotated) ((h @ es') @ es) Q"
      by (intro wp_after_commit [OF assms(1)]) (simp_all add: assms other)
    then show ?case by simp
  qed
  have rev: "wp G (revoke L R (claim_family_id c) (claim_expires_ms c) hkey) (h @ es')
      (\<lambda>r h'. case r of Inl e \<Rightarrow> Q (Inl e) h' | Inr x \<Rightarrow> Q (Inr (Response resp)) h')"
    if "\<not> is_success resp" for resp es'
    by (rule wp_revoke [OF assms(1)]) (simp_all add: assms(4) failed that)
  have ng: "is_invalid_grant L resp \<Longrightarrow> \<not> is_success resp" for resp
    by (simp add: is_invalid_grant_def is_success_def success_status_def)
  show "wp G (record_outcome L R hkey c r) (h @ es) Q"
    by (cases r) (auto simp: record_outcome_def rel other failed rev ng com new_handle_def pd Let_def split: option.split cong: sum.case_cong)
qed

section \<open>The refresh loop\<close>

fun live_token :: "handle_state \<Rightarrow> string option" where
  "live_token (Active t) = Some t"
| "live_token (Claimed t cid ms) = Some t"
| "live_token (Rotated ms cid skey) = None"

text \<open>
  The claim of this request: the record was read and opened, its family was not revoked, and
  the swap of exactly the bytes read was won.
\<close>

definition claimed_in ::
    "'z rotation_libs_scheme \<Rightarrow> rotator \<Rightarrow> string \<Rightarrow> event list \<Rightarrow> bool" where
  "claimed_in L R hkey h \<longleftrightarrow>
     (\<exists>l new ttl. read_record L R hkey l h \<and> live_token (handle_state (loaded_record l)) \<noteq> None
        \<and> EGet (family_key L R (family_id (loaded_record l))) (Inr None) \<in> set h
        \<and> ECas hkey (loaded_bytes l) new ttl (Inr True) \<in> set h)"

text \<open>The same with the upstream token the record held, which is the one to ask the upstream with.\<close>

definition claimed_for ::
    "'z rotation_libs_scheme \<Rightarrow> rotator \<Rightarrow> string \<Rightarrow> string \<Rightarrow> event list \<Rightarrow> bool" where
  "claimed_for L R hkey tok h \<longleftrightarrow>
     (\<exists>l new ttl. read_record L R hkey l h \<and> live_token (handle_state (loaded_record l)) = Some tok
        \<and> EGet (family_key L R (family_id (loaded_record l))) (Inr None) \<in> set h
        \<and> ECas hkey (loaded_bytes l) new ttl (Inr True) \<in> set h)"

lemma claimed_for_in: "claimed_for L R hkey tok h \<Longrightarrow> claimed_in L R hkey h"
  unfolding claimed_for_def claimed_in_def by (elim exE conjE) (intro exI conjI, assumption, simp_all)

lemma claimed_for_mono: "claimed_for L R hkey tok h \<Longrightarrow> set h \<subseteq> set h' \<Longrightarrow> claimed_for L R hkey tok h'"
  unfolding claimed_for_def by (elim exE conjE) (intro exI conjI, erule read_record_mono, auto)

text \<open>The recorded response of an earlier rotation, inside the grace period.\<close>

definition replayed ::
    "'z rotation_libs_scheme \<Rightarrow> rotator \<Rightarrow> string \<Rightarrow> stored_response \<Rightarrow> event list \<Rightarrow> bool" where
  "replayed L R hkey response h \<longleftrightarrow>
     (\<exists>l rotated_ms cid skey now ent p.
        read_record L R hkey l h \<and> handle_state (loaded_record l) = Rotated rotated_ms cid skey
      \<and> EClockMs now \<in> set h \<and> now < family_expires_ms (loaded_record l)
      \<and> now - rotated_ms \<le> as_u64 (as_millis (grace R))
      \<and> EGet (family_key L R (family_id (loaded_record l))) (Inr None) \<in> set h
      \<and> EGet (grace_key L R hkey cid) (Inr (Some ent)) \<in> set h
      \<and> EUnseal (value_of ent) (rotation_associated_data R GRACE_PURPOSE (grace_key L R hkey cid)) (Inr p) \<in> set h
      \<and> response_decode L p = Some response)"

definition answered_ok ::
    "'z rotation_libs_scheme \<Rightarrow> rotator \<Rightarrow> string \<Rightarrow> refresh_outcome \<Rightarrow> event list \<Rightarrow> bool" where
  "answered_ok L R hkey out h \<longleftrightarrow>
     (\<forall>response. out = Response response \<longrightarrow> is_success response \<longrightarrow>
        replayed L R hkey response h \<or> claimed_in L R hkey h \<and> (\<exists>c. rotated_now L R hkey c response h))"

lemma answered_ok_other: "(\<And>r. out = Response r \<Longrightarrow> \<not> is_success r) \<Longrightarrow> answered_ok L R hkey out h"
  by (auto simp: answered_ok_def)

lemma claimed_in_mono: "claimed_in L R hkey h \<Longrightarrow> claimed_in L R hkey (h @ es)"
  unfolding claimed_in_def by (elim exE conjE) (intro exI conjI, erule read_record_mono, auto)

lemma wp_claim_and_perform:
  assumes "permits L R G" and "refresher_ok G may_ask upstream"
    and "\<And>es. claimed_for L R hkey tok (h @ es) \<Longrightarrow> may_ask tok (h @ es)"
    and "read_record L R hkey l h" and "live_token (handle_state (loaded_record l)) = Some tok"
    and "EGet (family_key L R (family_id (loaded_record l))) (Inr None) \<in> set h"
    and "\<And>f es. Q (Inl f) (h @ es)" and "\<And>es. Q (Inr None) (h @ es)"
    and "\<And>out es. answered_ok L R hkey out (h @ es) \<Longrightarrow> Q (Inr (Some out)) (h @ es)"
  shows "wp G (claim_and_perform L R upstream hkey l tok) h Q"
  unfolding claim_and_perform_def wp_bindE
proof (rule wp_take_claim [OF assms(1)])
  fix c :: claim and es ttl
  assume won: "ECas hkey (loaded_bytes l) (claim_bytes c) ttl (Inr True) \<in> set es" and tok: "claim_token c = tok"
  have cl: "claimed_for L R hkey tok (h @ es @ es')" for es'
    unfolding claimed_for_def
    by (intro exI conjI, rule read_record_mono [OF assms(4)]) (use assms(5,6) won in auto)
  have "wp G (perform L R upstream hkey c) (h @ es)
      (\<lambda>r h'. case r of Inl e \<Rightarrow> Q (Inl e) h' | Inr out \<Rightarrow> Q (Inr (Some out)) h')"
  proof (rule wp_perform [OF assms(1,2)])
    show "may_ask (claim_token c) (h @ es)" using assms(3) cl [of "[]"] tok by simp
  next
    fix out es'
    assume "\<And>r. out = Response r \<Longrightarrow> \<not> is_success r"
    then show "case Inr out of Inl e \<Rightarrow> Q (Inl e) ((h @ es) @ es') | Inr out \<Rightarrow> Q (Inr (Some out)) ((h @ es) @ es')"
      using assms(9) [OF answered_ok_other, of out "es @ es'"] by simp
  next
    fix response es'
    assume "rotated_now L R hkey c response ((h @ es) @ es')"
    then have "answered_ok L R hkey (Response response) (h @ es @ es')"
      using cl [THEN claimed_for_in] by (auto simp: answered_ok_def)
    then show "case Inr (Response response) of Inl e \<Rightarrow> Q (Inl e) ((h @ es) @ es')
        | Inr out \<Rightarrow> Q (Inr (Some out)) ((h @ es) @ es')"
      using assms(9) by simp
  qed (use assms(7) in simp)
  then show "case Inr (Some c) of Inl e \<Rightarrow> Q (Inl e) (h @ es)
      | Inr x \<Rightarrow> wp G (case x of None \<Rightarrow> Ret (Inr None)
          | Some c \<Rightarrow> bindE (perform L R upstream hkey c) (\<lambda>outcome. Ret (Inr (Some outcome)))) (h @ es) Q"
    by (simp cong: sum.case_cong)
qed (use assms(7,8) in simp_all)

lemma wp_act_on_state:
  assumes "permits L R G" and "refresher_ok G may_ask upstream"
    and "\<And>tok es. claimed_for L R hkey tok (h @ es) \<Longrightarrow> may_ask tok (h @ es)"
    and "\<And>f es. Q (Inl f) (h @ es)" and "\<And>es. Q (Inr None) (h @ es)"
    and "\<And>out es. answered_ok L R hkey out (h @ es) \<Longrightarrow> Q (Inr (Some out)) (h @ es)"
    and "\<And>es. read_record L R hkey l (h @ es)"
    and "EGet (family_key L R (family_id (loaded_record l))) (Inr None) \<in> set h"
    and "EClockMs now \<in> set h" and "now < family_expires_ms (loaded_record l)"
  shows "wp G (act_on_state L R upstream hkey l now) h Q"
proof -
  have claim: "wp G (claim_and_perform L R upstream hkey l tok) h Q"
    if "live_token (handle_state (loaded_record l)) = Some tok" for tok
    by (rule wp_claim_and_perform [OF assms(1,2,3) _ that]) (use assms assms(7) [of "[]"] in auto)
  have "Q (Inr (Some InvalidGrant)) (h @ es)" for es by (rule assms(6)) (simp add: answered_ok_def)
  then have reuse: "wp G (bindE (reuse_detected L R hkey (loaded_record l)) (\<lambda>outcome. Ret (Inr (Some outcome)))) h Q"
    unfolding reuse_detected_def wp_bindE
    by (intro wp_revoke [OF assms(1)]) (simp_all add: assms(4))
  have replay: "wp G (bindE (load_grace_response L R (grace_key L R hkey cid)) (\<lambda>response.
      Ret (Inr (map_option Response response)))) h Q"
    if rot: "handle_state (loaded_record l) = Rotated ms cid skey"
      and "now - ms \<le> as_u64 (as_millis (grace R))" for ms cid skey
    unfolding wp_bindE
  proof (rule wp_load_grace_response)
    fix ent p v es
    assume "EGet (grace_key L R hkey cid) (Inr (Some ent)) \<in> set es"
      and "EUnseal (value_of ent) (rotation_associated_data R GRACE_PURPOSE (grace_key L R hkey cid)) (Inr p) \<in> set es"
      and "response_decode L p = Some v"
    with assms(7) [of es] assms(8-10) that have "replayed L R hkey v (h @ es)"
      unfolding replayed_def
      by (intro exI [of _ l] exI [of _ ms] exI [of _ cid] exI [of _ skey] exI [of _ now]
          exI [of _ ent] exI [of _ p]) auto
    then have "answered_ok L R hkey (Response v) (h @ es)" by (simp add: answered_ok_def)
    then show "case Inr (Some v) of Inl e \<Rightarrow> Q (Inl e) (h @ es)
        | Inr response \<Rightarrow> wp G (Ret (Inr (map_option Response response))) (h @ es) Q"
      using assms(6) by simp
  qed (use assms in simp_all)
  show ?thesis
    using claim reuse replay assms(5) [of "[]"] unfolding act_on_state_def
    by (auto simp del: wp_bindE simp: saturating_sub_def split: handle_state.split)
qed

lemma wp_refresh_round:
  assumes "permits L R G" and "refresher_ok G may_ask upstream"
    and "\<And>tok es. claimed_for L R hkey tok (h @ es) \<Longrightarrow> may_ask tok (h @ es)"
    and "\<And>f es. Q (Inl f) (h @ es)" and "\<And>es. Q (Inr None) (h @ es)"
    and "\<And>out es. answered_ok L R hkey out (h @ es) \<Longrightarrow> Q (Inr (Some out)) (h @ es)"
  shows "wp G (refresh_round L R upstream hkey) h Q"
  unfolding refresh_round_def wp_bindE
proof (rule wp_load, goal_cases)
  note pd = permitsD [OF assms(1)]
  have ig: "Q (Inr (Some InvalidGrant)) (h @ es)" for es
    by (rule assms(6)) (simp add: answered_ok_def)
  {
    case 1
    show ?case by (rule pd)
  next
    case 2
    show ?case by (simp add: assms(4))
  next
    case 3
    show ?case by (simp add: ig)
  next
    case (4 l es)
    let ?h = "\<lambda>now. h @ es @ [EClockMs now, EGet (family_key L R (family_id (loaded_record l))) (Inr None)]"
    have "wp G (act_on_state L R upstream hkey l now) (?h now) Q"
      if "now < family_expires_ms (loaded_record l)" for now
      by (rule wp_act_on_state [OF assms(1,2)])
        (use assms that in \<open>auto intro!: read_record_mono [OF 4(1)]\<close>)
    then show ?case
      by (simp add: is_revoked_def split_sum_all split_option_all pd ig assms(4))
  }
qed

lemma wp_refresh_loop:
  assumes "permits L R G" and "refresher_ok G may_ask upstream"
    and "\<And>tok h. claimed_for L R hkey tok h \<Longrightarrow> may_ask tok h"
  shows "wp G (refresh_loop polls L R upstream hkey started) h
    (\<lambda>r h'. \<forall>out. r = Some (Inr out) \<longrightarrow> answered_ok L R hkey out h')"
proof (induction polls arbitrary: h)
  case 0
  show ?case by simp
next
  case (Suc polls)
  have "answered_ok L R hkey Unavailable h" for h by (simp add: answered_ok_def)
  then show ?case
    unfolding refresh_loop.simps wp_bind
    by (intro wp_refresh_round [OF assms(1,2)])
      (use assms(3) Suc.IH in \<open>auto simp: permitsD [OF assms(1)]\<close>)
qed

lemma wp_refresh_rotating:
  assumes "permits L R G" and "refresher_ok G may_ask upstream"
    and "\<And>tok h. claimed_for L R (handle_key L R presented) tok h \<Longrightarrow> may_ask tok h"
  shows "wp G (refresh_rotating polls L R upstream presented) h
    (\<lambda>r h'. \<forall>out. r = Some (Inr out) \<longrightarrow> answered_ok L R (handle_key L R presented) out h')"
  unfolding refresh_rotating_def Let_def
  using wp_refresh_loop [OF assms] by (simp add: permitsD [OF assms(1)])

section \<open>The guarantees\<close>

text \<open>Calls that leave the process.\<close>

fun outbound :: "event \<Rightarrow> bool" where
  "outbound (EPolicy q a) = True"
| "outbound (EExecute q a) = True"
| "outbound _ = False"

definition asks_after_claim ::
    "'z rotation_libs_scheme \<Rightarrow> rotator \<Rightarrow> string \<Rightarrow> event list \<Rightarrow> event \<Rightarrow> bool" where
  "asks_after_claim L R hkey h e \<longleftrightarrow> (outbound e \<longrightarrow> claimed_in L R hkey h)"

lemma permits_asks [simp]: "permits L R (asks_after_claim L R hkey)"
  unfolding permits_def tolerant_def asks_after_claim_def
  by (auto elim!: outbound.elims)

lemma refresher_asks: "refresher_ok (asks_after_claim L R hkey) (\<lambda>_. claimed_in L R hkey) upstream"
  unfolding refresher_ok_def
  by (intro allI impI wp_any) (auto simp: asks_after_claim_def intro: claimed_in_mono)

lemma refresher_writes:
  assumes "\<And>tok. always (\<lambda>e. \<not> is_write e) (upstream tok)"
  shows "refresher_ok (write_ok L R) (\<lambda>_ _. True) upstream"
  unfolding refresher_ok_def
  by (intro allI impI wp_always [OF always_timeout [OF _ assms]]) (auto intro: not_write_ok)

text \<open>
  C4 Whatever the environment answers, a rotating refresh contacts the upstream only after it
  has read and opened the record of the presented handle, seen that its family is not revoked
  and won the swap of exactly the bytes it read.
\<close>

theorem upstream_asked_only_with_claim:
  assumes "path (refresh_rotating polls L R upstream presented) es r"
    and "es = pre @ e # post" and "outbound e"
  shows "claimed_in L R (handle_key L R presented) pre"
proof -
  have "wp (asks_after_claim L R (handle_key L R presented)) (refresh_rotating polls L R upstream presented) []
      (\<lambda>r h'. \<forall>out. r = Some (Inr out) \<longrightarrow> answered_ok L R (handle_key L R presented) out h')"
    by (rule wp_refresh_rotating [OF permits_asks refresher_asks claimed_for_in])
  from wp_pathD(1) [OF this assms(1)] show ?thesis
    using assms(2,3) by (auto simp: guaranteed_def asks_after_claim_def)
qed

text \<open>
  C6 Tokens are handed out only after a commit: a successful answer is either the recorded
  response of an earlier rotation inside its grace period, or the response of this request's
  own rotation, whose grace record and successor were written before the handle was marked
  rotated and whose family was seen not to be revoked in the last step.
\<close>

theorem tokens_only_after_commit:
  assumes "path (refresh_rotating polls L R upstream presented) es (Some (Inr (Response response)))"
    and "is_success response"
  shows "replayed L R (handle_key L R presented) response es
    \<or> claimed_in L R (handle_key L R presented) es
      \<and> (\<exists>c. rotated_now L R (handle_key L R presented) c response es)"
proof -
  have "wp (asks_after_claim L R (handle_key L R presented)) (refresh_rotating polls L R upstream presented) []
      (\<lambda>r h'. \<forall>out. r = Some (Inr out) \<longrightarrow> answered_ok L R (handle_key L R presented) out h')"
    by (rule wp_refresh_rotating [OF permits_asks refresher_asks claimed_for_in])
  from wp_pathD(2) [OF this assms(1)] show ?thesis
    using assms(2) by (auto simp: answered_ok_def)
qed

lemma wp_open_handle:
  assumes "tolerant G" and "\<And>r es. Q r (h @ es)"
  shows "wp G (timeout d (open_handle L b presented)) h Q"
  using assms assms(2) [of _ "[]"]
  by (auto simp: open_handle_def split: option.split sum.split)

lemma writes_sealed_handle:
  assumes "\<And>tok. always (\<lambda>e. \<not> is_write e) (upstream tok)"
  shows "wp (write_ok L R) (refresh_sealed_handle L R upstream presented) h (\<lambda>_ _. True)"
  unfolding refresh_sealed_handle_def wp_bind
proof (rule wp_open_handle)
  have family: "wp (write_ok L R) (create_family L R handle tok) h (\<lambda>r h'. Q r)" if "\<And>r. Q r" for Q handle tok h
    by (rule wp_create_family) (simp_all add: that)
  have ask: "wp (write_ok L R) (ask_upstream R upstream tok) h Q" if "\<And>r es. Q r (h @ es)" for Q tok h
    by (rule wp_ask_upstream [OF refresher_writes [OF assms]]) (simp_all add: that)
  fix r es
  show "wp (write_ok L R) (case r of
         None \<Rightarrow> Ret (Inl SealerFault)
       | Some (Inl HandleInvalid) \<Rightarrow> Ret (Inr InvalidGrant)
       | Some (Inl HandleSealerUnavailable) \<Rightarrow> Ret (Inl SealerFault)
       | Some (Inr opened) \<Rightarrow>
           let issued_ms = saturating_mul (h_issued_at opened) 1000 in
           ClockMs (\<lambda>now.
             if saturating_add issued_ms (as_u64 (as_millis (max_lifetime R))) \<le> now
             then Ret (Inr InvalidGrant)
             else migrate_family L R upstream opened)) (h @ es) (\<lambda>_ _. True)"
    by (auto simp: migrate_family_def Let_def new_handle_def family intro!: ask
        split: option.split sum.split handle_error.split)
qed simp_all

text \<open>
  C19 Everything the rotation state machine writes while it serves a refresh grant is a value
  the sealer made for the very key it is written to, the random marker of a revoked family,
  or the key of a handle record: no token and no handle ever reaches the store in the clear.
\<close>

theorem refresh_writes_only_sealed:
  assumes "\<And>tok. always (\<lambda>e. \<not> is_write e) (upstream tok)"
    and "path (rotator_refresh polls L R upstream presented) es r"
    and "es = pre @ e # post"
  shows "write_ok L R pre e"
proof -
  have "wp (write_ok L R) (refresh_rotating polls L R upstream presented) [] (\<lambda>_ _. True)"
    by (rule wp_mono [OF wp_refresh_rotating [OF permits_write_ok refresher_writes [OF assms(1)]]]) auto
  with writes_sealed_handle [of upstream L R presented "[]", OF assms(1)]
  have "wp (write_ok L R) (rotator_refresh polls L R upstream presented) [] (\<lambda>_ _. True)"
    by (simp add: rotator_refresh_def)
  from wp_pathD(1) [OF this assms(2)] show ?thesis
    using assms(3) by (simp add: guaranteed_def)
qed

text \<open>The same of issuing the first handle of a family.\<close>

theorem issue_writes_only_sealed:
  assumes "path (issue_in_response L R response) es r" and "es = pre @ e # post"
  shows "write_ok L R pre e"
proof -
  have "wp (write_ok L R) (create_family L R handle tok) h (\<lambda>r h'. Q r)" if "\<And>r. Q r" for Q handle tok h
    by (rule wp_create_family) (simp_all add: that)
  then have "wp (write_ok L R) (issue_in_response L R response) [] (\<lambda>_ _. True)"
    by (auto simp: issue_in_response_def issue_def new_handle_def split: option.split sum.split)
  from wp_pathD(1) [OF this assms(1)] show ?thesis
    using assms(2) by (simp add: guaranteed_def)
qed

text \<open>
  C8 A rotated handle that comes back after its grace period is never answered with tokens: the
  only answer is \<open>invalid_grant\<close>, and it is given only once the family's revocation marker is in
  the store (or the family has expired anyway).
\<close>

theorem reuse_revokes_family:
  assumes "handle_state (loaded_record l) = Rotated rotated_ms cid skey"
    and "as_u64 (as_millis (grace R)) < now - rotated_ms"
    and "path (act_on_state L R upstream hkey l now) es (Inr r)"
  shows "r = Some InvalidGrant
    \<and> revoked_in L R (family_id (loaded_record l)) (family_expires_ms (loaded_record l)) es"
proof -
  have "wp (write_ok L R) (bindE (reuse_detected L R hkey (loaded_record l)) (\<lambda>outcome. Ret (Inr (Some outcome)))) []
      (\<lambda>r es. case r of Inl f \<Rightarrow> True | Inr r \<Rightarrow> r = Some InvalidGrant
         \<and> revoked_in L R (family_id (loaded_record l)) (family_expires_ms (loaded_record l)) es)"
    unfolding reuse_detected_def wp_bindE by (rule wp_revoke [OF permits_write_ok]) simp_all
  moreover have "path (bindE (reuse_detected L R hkey (loaded_record l)) (\<lambda>outcome. Ret (Inr (Some outcome)))) es (Inr r)"
    using assms by (simp add: act_on_state_def saturating_sub_def)
  ultimately show ?thesis using wp_pathD(2) by fastforce
qed

section \<open>The guarantees at concrete inputs\<close>

text \<open>Codecs that read every value as one fixed record, and a refresher that makes one request.\<close>

definition probe_libs :: "handle_record \<Rightarrow> rotation_libs" where
  "probe_libs rec = demo_rotation_libs
     \<lparr>record_encode := (\<lambda>_. Some []), record_decode := (\<lambda>_. Some rec), response_decode := (\<lambda>_. Some demo_response)\<rparr>"

lemma probe_simps [simp]:
  "record_encode (probe_libs rec) x = Some []" "record_decode (probe_libs rec) y = Some rec"
  "response_decode (probe_libs rec) y = Some demo_response" "utf8_valid (probe_libs rec) y"
  "b64url_decode (probe_libs rec) y = Some y"
  by (simp_all add: probe_libs_def demo_rotation_libs_def seal_libs.defs demo_libs_def)

lemma demo_rotator_simps [simp]:
  "timing demo_rotator = timing_default" "grace demo_rotator = from_secs 30"
  by (simp_all add: demo_rotator_def rotator_new_def refresh_tokens_default_def DEFAULT_GRACE_PERIOD_SECONDS_def)

definition probe_request :: http_request where
  "probe_request =
     \<lparr>req_method = POST, req_url = demo_url ''https://app.example'', req_headers = [], req_form = [], req_timeout = None\<rparr>"

definition probe_refresher :: refresher where
  "probe_refresher = (\<lambda>tok. Execute probe_request (\<lambda>_. Ret (Inl FailedRequest)))"

definition demo_entry :: entry where
  "demo_entry = \<lparr>value_of = ''v'', expires_in = 5\<rparr>"

definition demo_handle :: string where
  "demo_handle = ROTATING_PREFIX @ replicate 32 (CHR ''p'')"

definition demo_hkey :: "handle_record \<Rightarrow> string" where
  "demo_hkey rec = handle_key (probe_libs rec) demo_rotator demo_handle"

definition demo_data :: "handle_record \<Rightarrow> bytes" where
  "demo_data rec = rotation_associated_data demo_rotator RECORD_PURPOSE (demo_hkey rec)"

text \<open>Reading a record, then claiming it, and handing the claim back.\<close>

definition read_trace :: "handle_record \<Rightarrow> event list" where
  "read_trace rec =
     [EInstantNow 0, EGet (demo_hkey rec) (Inr (Some demo_entry)), EUnseal ''v'' (demo_data rec) (Inr []),
      EDeadline (from_secs 5) False, EClockMs 0,
      EGet (family_key (probe_libs rec) demo_rotator (family_id rec)) (Inr None)]"

definition claim_trace :: "event list" where
  "claim_trace = read_trace demo_record @
     [EClockMs 0, ERandom 16 (replicate 16 (CHR ''x'')), ESeal [] (demo_data demo_record) (Inr ''c''),
      EDeadline (from_secs 5) False]"

definition swap_event :: event where
  "swap_event = ECas (demo_hkey demo_record) ''v'' ''c'' (from_millis 9) (Inr True)"

definition release_trace :: "event list" where
  "release_trace =
     [EDeadline (from_secs 30) False, ESeal [] (demo_data demo_record) (Inr ''a''), EDeadline (from_secs 5) False,
      EClockMs 0, ECas (demo_hkey demo_record) ''c'' ''a'' (from_millis 9) (Inr True)]"

lemmas demo_path_simps =
  refresh_rotating_def refresh_round_def load_def open_value_def is_revoked_def act_on_state_def
  claim_and_perform_def take_claim_def Let_def seal_record_def seal_value_def swap_key_def perform_def
  ask_upstream_def record_outcome_def release_def ttl_until_def timing_default_def demo_entry_def
  probe_refresher_def ok_or_def read_trace_def claim_trace_def release_trace_def swap_event_def
  demo_hkey_def demo_data_def ex_bool_eq

lemma demo_path:
  "path (refresh_rotating (Suc 0) (probe_libs demo_record) demo_rotator probe_refresher demo_handle)
     (claim_trace @ swap_event # EExecute probe_request None # release_trace)
     (Some (Inr (UpstreamFailed FailedRequest)))"
  by (simp add: demo_path_simps demo_record_def)

theorem upstream_asked_only_with_claim_witness:
  "path (refresh_rotating (Suc 0) (probe_libs demo_record) demo_rotator probe_refresher demo_handle)
     (claim_trace @ swap_event # EExecute probe_request None # release_trace)
     (Some (Inr (UpstreamFailed FailedRequest)))
   \<and> claimed_in (probe_libs demo_record) demo_rotator (demo_hkey demo_record) (claim_trace @ [swap_event])"
proof -
  have "claim_trace @ swap_event # EExecute probe_request None # release_trace =
      (claim_trace @ [swap_event]) @ EExecute probe_request None # release_trace" by simp
  from upstream_asked_only_with_claim [OF demo_path this] demo_path show ?thesis
    by (simp add: demo_hkey_def)
qed

theorem refresh_writes_only_sealed_witness:
  "is_write swap_event \<and> write_ok (probe_libs demo_record) demo_rotator claim_trace swap_event"
proof -
  have quiet: "always (\<lambda>e. \<not> is_write e) (probe_refresher tok)" for tok
    by (simp add: always_def probe_refresher_def)
  have "valid_handle_shape (probe_libs demo_record) demo_handle"
    by (simp add: valid_handle_shape_def demo_handle_def HANDLE_BYTES_def)
  moreover have "\<not> starts_with HANDLE_PREFIX demo_handle"
    by (simp add: starts_with_def demo_handle_def HANDLE_PREFIX_def ROTATING_PREFIX_def)
  ultimately have "path (rotator_refresh (Suc 0) (probe_libs demo_record) demo_rotator probe_refresher demo_handle)
      (claim_trace @ swap_event # EExecute probe_request None # release_trace) (Some (UpstreamFailed FailedRequest))"
    using demo_path by (auto simp: rotator_refresh_def path_bind unwrap_fault_def intro!: exI)
  from refresh_writes_only_sealed [OF quiet this refl] show ?thesis by (simp add: swap_event_def)
qed

definition rotated_demo :: "nat \<Rightarrow> handle_record" where
  "rotated_demo ms = \<lparr>family_id = ''F'', family_expires_ms = 90000, handle_state = Rotated ms ''C'' ''s''\<rparr>"

definition replay_trace :: "event list" where
  "replay_trace =
     (let key = grace_key (probe_libs (rotated_demo 0)) demo_rotator (demo_hkey (rotated_demo 0)) ''C'' in
      [EGet key (Inr (Some demo_entry)), EUnseal ''v'' (rotation_associated_data demo_rotator GRACE_PURPOSE key) (Inr []),
       EDeadline (from_secs 5) False])"

theorem tokens_only_after_commit_witness:
  "replayed (probe_libs (rotated_demo 0)) demo_rotator (demo_hkey (rotated_demo 0)) demo_response
     (read_trace (rotated_demo 0) @ replay_trace)
   \<or> claimed_in (probe_libs (rotated_demo 0)) demo_rotator (demo_hkey (rotated_demo 0)) (read_trace (rotated_demo 0) @ replay_trace)
     \<and> (\<exists>c. rotated_now (probe_libs (rotated_demo 0)) demo_rotator (demo_hkey (rotated_demo 0)) c demo_response
          (read_trace (rotated_demo 0) @ replay_trace))"
proof -
  have "path (refresh_rotating (Suc 0) (probe_libs (rotated_demo 0)) demo_rotator probe_refresher demo_handle)
     (read_trace (rotated_demo 0) @ replay_trace) (Some (Inr (Response demo_response)))"
    by (simp add: demo_path_simps rotated_demo_def replay_trace_def load_grace_response_def saturating_sub_def)
  from tokens_only_after_commit [OF this] show ?thesis
    by (simp add: demo_hkey_def demo_response_def is_success_def success_status_def)
qed

theorem reuse_revokes_family_witness:
  "revoked_in (probe_libs (rotated_demo 0)) demo_rotator ''F'' 90000 [EClockMs 90001]"
proof -
  have "path (act_on_state (probe_libs (rotated_demo 0)) demo_rotator probe_refresher ''k''
      \<lparr>loaded_bytes = ''v'', loaded_record = rotated_demo 0\<rparr> 40000) [EClockMs 90001] (Inr (Some InvalidGrant))"
    by (simp add: act_on_state_def rotated_demo_def reuse_detected_def revoke_def ttl_until_def saturating_sub_def
        as_u64_def u64_max_def)
  from reuse_revokes_family [OF _ _ this] show ?thesis
    by (simp add: rotated_demo_def as_u64_def u64_max_def)
qed

end
