(* ===== verification/Contracts.thy ===== *)
theory Contracts
  imports Rotation_Run Layout
begin

text \<open>
  What the components promise, each promise stated over the model's definitions and applied at a
  concrete input: the in-process store, the ID-token policy, resource keys and paths, redirects
  and relay validation, the sealer, and the handles built on it.
\<close>

section \<open>The in-process store\<close>

text \<open>
  Of any number of concurrent compare-and-swaps that expect the same stored bytes at most one
  applies, whoever issues them and whatever is written in between, as long as every written value
  is new: a refresh token can be claimed by one request only.
\<close>

theorem memory_cas_single_winner:
  assumes "proper_history ops" and "unwritten memory_view ops now s" and "\<forall>(t, op)\<in>set ops. now \<le> t"
    and "(k, e) \<notin> set (written ops)"
  shows "wins (is_cas_of k e) ops
    (fst (exec_ops memory_put_if_absent memory_get memory_compare_and_swap memory_delete ops s)) \<le> 1"
  by (rule memory.cas_single_winner [OF assms(1) in_range_always assms(2-)])

definition demo_memory :: memory_state where
  "demo_memory = \<lparr>records = [''k'' \<mapsto> \<lparr>mem_value = ''old'', mem_expires = 10\<rparr>], next_sweep = 30\<rparr>"

definition demo_swaps :: "(nat \<times> store_op) list" where
  "demo_swaps = [(1, SCas ''k'' ''old'' ''a'' 5), (2, SCas ''k'' ''old'' ''b'' 5)]"

lemma demo_swaps_proper: "proper_history demo_swaps" "unwritten memory_view demo_swaps 0 demo_memory"
  by (auto simp: proper_history_def demo_swaps_def valid_op_def validate_key_def validate_ttl_def
      MAX_KEY_BYTES_def unwritten_def memory_view_def demo_memory_def split: if_splits)

theorem memory_cas_single_winner_witness:
  "wins (is_cas_of ''k'' ''old'') demo_swaps
     (fst (exec_ops memory_put_if_absent memory_get memory_compare_and_swap memory_delete demo_swaps demo_memory)) \<le> 1"
  by (rule memory_cas_single_winner [OF demo_swaps_proper]) (auto simp: demo_swaps_def)

text \<open>
  Of any number of conditional creations of one key at most one applies while the created
  record lives: a marker written this way admits its first writer only.
\<close>

theorem memory_put_single_winner:
  assumes "proper_history ops" and "unwritten memory_view ops now s" and "\<forall>(t, op)\<in>set ops. now \<le> t"
    and "\<forall>(t, op)\<in>set ops. op_key op = k \<longrightarrow> is_put_on k op \<or> op = SGet k"
    and "\<forall>(t, op)\<in>set ops. \<forall>v ttl. op = SPut k v ttl \<longrightarrow> (\<forall>(t', op')\<in>set ops. t' < t + ttl)"
  shows "wins (is_put_on k) ops
    (fst (exec_ops memory_put_if_absent memory_get memory_compare_and_swap memory_delete ops s)) \<le> 1"
  by (rule memory.put_single_winner [OF assms(1) in_range_always assms(2-)])

definition demo_puts :: "(nat \<times> store_op) list" where
  "demo_puts = [(1, SPut ''j'' ''a'' 5), (2, SGet ''j''), (3, SPut ''j'' ''b'' 5)]"

lemma demo_puts_proper: "proper_history demo_puts" "unwritten memory_view demo_puts 0 demo_memory"
  by (auto simp: proper_history_def demo_puts_def valid_op_def validate_key_def validate_ttl_def
      MAX_KEY_BYTES_def unwritten_def memory_view_def demo_memory_def split: if_splits)

theorem memory_put_single_winner_witness:
  "wins (is_put_on ''j'') demo_puts
     (fst (exec_ops memory_put_if_absent memory_get memory_compare_and_swap memory_delete demo_puts demo_memory)) \<le> 1"
  by (rule memory_put_single_winner [OF demo_puts_proper]) (auto simp: demo_puts_def)

text \<open>
  C26 The in-process store refines a map of live records: every program behaves on it, result
  and all, as on a map from which each record vanishes at its expiry, although expired records
  stay in the table until a sweep that the next operation may or may not run.
\<close>

theorem memory_store_refines_map: "map_prod id abs_world (run M p w) = spec_run M p (abs_world w)"
  by (rule run_refines)

section \<open>The ID-token policy\<close>

text \<open>
  C39 The backtracking wildcard matcher returns for every pattern and value, and answers exactly
  whether the value is in the pattern's language, where \<open>*\<close> stands for any characters and \<open>?\<close>
  for one.
\<close>

theorem string_like_decides:
  "like_loop (chars pattern) (chars value) = Some (Inr (glob (chars pattern) (chars value)))
   \<and> string_like pattern value = glob (chars pattern) (chars value)"
  by (simp add: like_loop_glob string_like_glob)

text \<open>
  C38 A policy accepts a set of claims exactly if every required rule is satisfied and, when it
  lists alternatives, all rules of one alternative are; a missing claim and a claim of the wrong
  type satisfy no rule.
\<close>

theorem policy_meaning:
  "evaluate_policy policy claims \<longleftrightarrow>
     (case required policy of None \<Rightarrow> True | Some rules \<Rightarrow> set_satisfied rules claims)
     \<and> (case any_of policy of None \<Rightarrow> True
        | Some branches \<Rightarrow> list_ex (\<lambda>rules. set_satisfied rules claims) branches)"
  by (auto simp: evaluate_policy_def Let_def evaluate_set_satisfied
      evaluate_branches [of claims False, simplified evaluate_set_satisfied Let_def] list_ex_iff
      split: option.splits)

text \<open>A valid policy is never vacuous: it rejects a token that carries no claims.\<close>

theorem valid_policy_needs_claims:
  assumes "is_ok (validate_policy policy)"
  shows "\<not> evaluate_policy policy (JObject [])"
proof (cases "required policy")
  case (Some rules)
  then have "rules \<noteq> []"
    using assms validate_set_nonempty [of rules] by (auto simp: validate_policy_def is_ok_iff bind_result_Inr_iff)
  then have "\<not> set_satisfied rules (JObject [])" using satisfied_needs_claim by blast
  with Some show ?thesis by (simp add: evaluate_policy_def Let_def evaluate_set_satisfied)
next
  case None
  then obtain branches where b: "any_of policy = Some branches"
    using assms by (cases "any_of policy") (auto simp: validate_policy_def)
  have "rules \<noteq> []" if "rules \<in> set branches" for rules
    using assms None b that validate_set_nonempty [of rules]
    by (auto simp: validate_policy_def try_each_ok split: if_splits)
  then have "\<not> (\<exists>rules\<in>set branches. set_satisfied rules (JObject []))" using satisfied_needs_claim by blast
  with None b show ?thesis
    using evaluate_branches [of "JObject []" False branches]
    by (simp add: evaluate_policy_def Let_def)
qed

definition demo_policy :: id_token_policy where
  "demo_policy = \<lparr>required = Some [(''hd'', StringEquals ''example.com'')], any_of = None\<rparr>"

theorem valid_policy_needs_claims_witness: "\<not> evaluate_policy demo_policy (JObject [])"
  by (rule valid_policy_needs_claims)
    (simp add: demo_policy_def validate_policy_def validate_set_def)

section \<open>Keys and paths\<close>

text \<open>
  A resource key is accepted exactly if it is a list of segments joined by single slashes, each
  non-empty, made of letters, digits, \<open>-\<close>, \<open>_\<close> and \<open>.\<close>, and neither of the two dot
  segments; it is kept as given.
\<close>

theorem resource_key_accepted:
  "resource_key_new value = Inr key \<longleftrightarrow> key = value \<and> list_all key_segment (split_on (CHR ''/'') value)"
  by (simp add: resource_key_segments list_all_iff)

text \<open>
  The path the relay advertises for an endpoint of a key is read back as that endpoint and that
  key, under both key strategies.
\<close>

theorem layout_roundtrip:
  assumes "if keys = SingleSegment then single_segment_key key else keys = TwoSegment \<and> two_segment_key key"
  shows "layout_parse keys (layout_path e key) = Some (e, key)"
  using assms single.parse_path two.parse_path by (auto split: if_splits)

theorem layout_roundtrip_witness:
  "layout_parse TwoSegment (layout_path Token ''proj/app'') = Some (Token, ''proj/app'')"
  by (rule layout_roundtrip)
    (simp add: two_segment_key_def resource_key_new_def starts_with_def ends_with_def key_byte_def byte_class_defs)

text \<open>No two endpoints and no two keys share an advertised path.\<close>

theorem layout_paths_distinct:
  assumes "two_segment_key k \<and> two_segment_key k' \<or> single_segment_key k \<and> single_segment_key k'"
    and "layout_path e k = layout_path e' k'"
  shows "e = e' \<and> k = k'"
  using assms single.path_inj two.path_inj by blast

theorem layout_paths_distinct_witness: "Token = Token \<and> ''app'' = ''app''"
  by (rule layout_paths_distinct)
    (simp_all add: single_segment_key_def resource_key_new_def starts_with_def ends_with_def key_byte_def byte_class_defs)

text \<open>
  Slashes before and after a path do not matter to the layout: every path with extra slashes
  at its ends is read like the path without them, so a URL has aliases the router does not
  advertise.
\<close>

theorem layout_ignores_outer_slashes:
  "layout_parse keys (''/'' @ p @ ''/'') = layout_parse keys p"
proof -
  have "trim_matches (CHR ''/'') (''/'' @ p @ ''/'') = trim_matches (CHR ''/'') (p @ ''/'')"
    by (simp add: trim_matches_def trim_start_matches_def)
  also have "\<dots> = trim_matches (CHR ''/'') p"
  proof (cases "\<forall>x\<in>set p. x = CHR ''/''")
    case True
    then have "dropWhile (\<lambda>x. x = CHR ''/'') p = []" "dropWhile (\<lambda>x. x = CHR ''/'') (p @ ''/'') = []"
      by (simp_all add: dropWhile_eq_Nil_conv)
    then show ?thesis by (simp only: trim_matches_def trim_start_matches_def)
  next
    case False
    then have "trim_start_matches (CHR ''/'') (p @ ''/'') = trim_start_matches (CHR ''/'') p @ ''/''"
      by (auto simp: trim_start_matches_def dropWhile_append)
    then show ?thesis by (simp add: trim_matches_def trim_end_matches_def)
  qed
  finally show ?thesis by (simp only: layout_parse_def)
qed

section \<open>Redirects and relays\<close>

text \<open>
  C37 Whatever matchers a relay has, an allowed redirect is an absolute URL without fragment and
  user information that uses https, or http to an IP loopback address, or http to a target that a
  development option explicitly widens to; with no options set, http never leaves the machine.
\<close>

theorem redirect_target_safe:
  assumes "redirect_allowed L r redirect options"
  shows "\<exists>u. url_parse L redirect = Some u \<and> redirect_target_ok options u
    \<and> fragment u = None \<and> username u = [] \<and> password u = None
    \<and> list_all is_ascii redirect"
proof -
  obtain u m where u: "url_parse L redirect = Some u" "valid_redirect_url u" and raw: "is_ok (validate_raw_uri redirect)"
    and m: "redirect_matches L options redirect u m"
    using assms by (auto simp: redirect_allowed_def split: option.splits if_splits)
  have "list_all is_ascii redirect"
    using raw by (auto simp: validate_raw_uri_def list_all_iff split: if_splits)
  with matched_target [OF m u(1)] u show ?thesis by (auto simp: valid_redirect_url_def)
qed

definition demo_options :: redirect_options where
  "demo_options = \<lparr>allow_localhost_loopback = False, allow_http_origins = False\<rparr>"

definition demo_relay :: relay where
  "demo_relay =
     \<lparr>r_key = ''app'', r_upstream = ''idp'', generation = None, client_auth = Public, scopes = [''openid''],
      allowed_scopes = Some [''openid'', ''email''], required_id_token_claims = [], id_token_policy = None,
      refresh_tokens = refresh_tokens_default\<lparr>mode := Rotating\<rparr>,
      redirect_policy = [Uri ''https://app.example/cb'']\<rparr>"

lemma demo_exact_uri:
  "url_parse L = url_parse demo_libs \<Longrightarrow> is_ok (validate_exact_uri L ''https://app.example/cb'')"
  by (simp add: validate_exact_uri_def validate_raw_uri_def demo_libs_def starts_with_def ok_or_def
      valid_redirect_url_def demo_url_def byte_class_defs is_ascii_def)

lemma demo_redirect_allowed:
  "url_parse L = url_parse demo_libs \<Longrightarrow> redirect_allowed L demo_relay ''https://app.example/cb'' demo_options"
  using demo_exact_uri [of L]
  by (simp add: redirect_allowed_def demo_relay_def validate_raw_uri_def demo_libs_def starts_with_def
      valid_redirect_url_def demo_url_def byte_class_defs is_ascii_def)

theorem redirect_target_safe_witness:
  "\<exists>u. url_parse demo_libs ''https://app.example/cb'' = Some u \<and> redirect_target_ok demo_options u
    \<and> fragment u = None \<and> username u = [] \<and> password u = None \<and> list_all is_ascii ''https://app.example/cb''"
  by (rule redirect_target_safe [OF demo_redirect_allowed [OF refl]])

text \<open>
  A relay that passes validation rotates the refresh tokens of public clients, has at least one
  redirect matcher, asks by default only for scopes it allows, and keeps its grace period within
  five minutes and within the lifetime of its handles.
\<close>

theorem valid_relay_is_safe:
  assumes "is_ok (relay_validate L r)"
  shows "(client_auth r = Public \<longrightarrow> mode (refresh_tokens r) = Rotating)
    \<and> redirect_policy r \<noteq> []
    \<and> (\<forall>allowed. allowed_scopes r = Some allowed \<longrightarrow> set (scopes r) \<subseteq> set allowed)
    \<and> 1 \<le> grace_period_seconds (refresh_tokens r) \<and> grace_period_seconds (refresh_tokens r) \<le> 300
    \<and> grace_period_seconds (refresh_tokens r) \<le> max_lifetime_seconds (refresh_tokens r)"
  using relay_validate_ok [OF assms] validate_scopes_ok [of r]
  by (auto simp: refresh_tokens_validate_def validate_redirects_def MAX_GRACE_PERIOD_SECONDS_def split: if_splits)

lemma demo_relay_valid:
  assumes "url_parse L = url_parse demo_libs"
  shows "is_ok (relay_validate L demo_relay)"
proof -
  have "is_ok (validate_scopes demo_relay)"
    by (simp add: validate_scopes_ok demo_relay_def valid_scope_token_def byte_value_def)
  moreover have "is_ok (validate_redirects L demo_relay)"
    using demo_exact_uri [OF assms]
    by (auto simp: validate_redirects_def demo_relay_def is_ok_iff)
  moreover have "is_ok (refresh_tokens_validate (refresh_tokens demo_relay))"
    by (simp add: refresh_tokens_validate_def demo_relay_def refresh_tokens_default_def
        DEFAULT_GRACE_PERIOD_SECONDS_def MAX_GRACE_PERIOD_SECONDS_def DEFAULT_MAX_LIFETIME_SECONDS_def
        MAX_MAX_LIFETIME_SECONDS_def)
  moreover have "client_auth demo_relay = Public" "required_id_token_claims demo_relay = []"
    "id_token_policy demo_relay = None" "mode (refresh_tokens demo_relay) = Rotating"
    by (simp_all add: demo_relay_def)
  ultimately show ?thesis by (auto simp: relay_validate_def is_ok_iff)
qed

theorem valid_relay_is_safe_witness: "mode (refresh_tokens demo_relay) = Rotating \<and> redirect_policy demo_relay \<noteq> []"
  using valid_relay_is_safe [OF demo_relay_valid [OF refl]] by (simp add: demo_relay_def)

section \<open>The sealer\<close>

text \<open>
  A sealed value opens to what was sealed under exactly the associated data it was sealed with,
  and to nothing under any other.
\<close>

theorem sealed_value_is_bound:
  assumes "b64url_ok L" and "aead_ok L" and "aead_authentic L" and "length nonce = 24"
    and "xchacha_seal L S nonce plaintext data = Inr envelope"
  shows "xchacha_unseal L S envelope data' = Inr plaintext' \<longleftrightarrow> data' = data \<and> plaintext' = plaintext"
  using sealer.unseal_iff [OF xchacha_is_sealer [OF assms(1-3)] assms(4,5)] by blast

theorem sealed_value_is_bound_witness:
  "xchacha_unseal demo_libs demo_sealer
     (''v1.'' @ replicate 24 (CHR ''n'') @ framed_context (replicate 32 (CHR ''k'')) (replicate 24 (CHR ''n'')) ''d'' @ ''m'')
     ''d'' = Inr ''m''"
proof -
  have "xchacha_seal demo_libs demo_sealer (replicate 24 (CHR ''n'')) ''m'' ''d'' =
      Inr (''v1.'' @ replicate 24 (CHR ''n'') @ framed_context (replicate 32 (CHR ''k'')) (replicate 24 (CHR ''n'')) ''d'' @ ''m'')"
    by (simp add: xchacha_seal_def demo_libs_def demo_sealer_def ok_or_def)
  then show ?thesis
    using sealed_value_is_bound [OF demo_libs_ok, of "replicate 24 (CHR ''n'')" demo_sealer "''m''" "''d''" _ "''d''" "''m''"]
    by simp
qed

text \<open>
  Replacing the key keeps what was sealed before readable: an envelope made under the old key
  opens once that key is configured as the previous one.
\<close>

theorem previous_key_opens:
  assumes "b64url_ok L" and "aead_ok L" and "aead_authentic L" and "length nonce = 24"
    and "xchacha_new old None = Inr S" and "xchacha_new new (Some old) = Inr S'" and "new \<noteq> old"
    and "xchacha_seal L S nonce plaintext data = Inr envelope"
  shows "xchacha_unseal L S' envelope data = Inr plaintext"
proof -
  have keys: "current S = old" "current S' = new" "previous S' = Some old"
    using assms(5,6) by (auto simp: xchacha_new_def split: if_splits)
  obtain c where c: "aead_encrypt L old nonce data plaintext = Some c"
      "envelope = ''v1.'' @ b64url_encode L (nonce @ c)"
    using assms(8) keys by (auto simp: xchacha_seal_Inr)
  have "aead_decrypt L new nonce data c = None"
    using assms(3,7) c(1) unfolding aead_authentic_def by (metis not_None_eq)
  moreover have "drop 24 (the (b64url_decode L (drop 3 envelope))) = c"
    using assms(1,4) c(2) by (simp add: b64url_ok_def)
  ultimately show ?thesis
    using keys by (intro xchacha_rotation [OF assms(1,2,4,8)]) auto
qed

theorem previous_key_opens_witness:
  "\<exists>S' e. xchacha_new (replicate 32 (CHR ''j'')) (Some (replicate 32 (CHR ''k''))) = Inr S'
     \<and> xchacha_seal demo_libs demo_sealer (replicate 24 (CHR ''n'')) ''m'' ''d'' = Inr e
     \<and> xchacha_unseal demo_libs S' e ''d'' = Inr ''m''"
proof -
  have old: "xchacha_new (replicate 32 (CHR ''k'')) None = Inr demo_sealer"
    by (simp add: xchacha_new_def demo_sealer_def)
  obtain S' where new: "xchacha_new (replicate 32 (CHR ''j'')) (Some (replicate 32 (CHR ''k''))) = Inr S'"
    by (simp add: xchacha_new_def)
  obtain e where e: "xchacha_seal demo_libs demo_sealer (replicate 24 (CHR ''n'')) ''m'' ''d'' = Inr e"
    by (simp add: xchacha_seal_def demo_libs_def ok_or_def)
  have "xchacha_unseal demo_libs S' e ''d'' = Inr ''m''"
    by (rule previous_key_opens [OF demo_libs_ok _ old new _ e]) simp_all
  with new e show ?thesis by blast
qed

section \<open>Refresh-token handles\<close>

text \<open>
  C34 A handle opens exactly under the relay and the fingerprint it was sealed for, and gives back
  the upstream token and the time it was sealed with.
\<close>

theorem handle_opens_only_for_its_binding:
  assumes "machine_ok M" and "handle_codec_ok L"
    and "resource_key_new (b_relay b) = Inr (b_relay b)" and "resource_key_new (b_relay b') = Inr (b_relay b')"
    and "fst (run M (seal_handle L b token issued_at) w) = Inr handle"
  shows "fst (run M (open_handle L b' handle) w') = Inr opened \<longleftrightarrow>
    b' = b \<and> opened = \<lparr>h_upstream_token = token, h_issued_at = issued_at\<rparr>"
  by (rule run_open_sealed [OF assms(1,2) resource_key_no_nul [OF assms(3)] resource_key_no_nul [OF assms(4)] assms(5)])

definition demo_binding :: handle_binding where
  "demo_binding = \<lparr>b_relay = ''r'', b_fingerprint = ''f''\<rparr>"

lemma demo_handle_codec: "handle_codec_ok demo_rotation_libs"
  by (auto simp: handle_codec_ok_def demo_rotation_libs_def seal_libs.defs frame_nat_def)

lemma demo_machine_ok: "machine_ok demo_machine"
  using demo_env_ok by (simp add: env_ok_def)

theorem handle_opens_only_for_its_binding_witness:
  "\<exists>handle. fst (run demo_machine (seal_handle demo_rotation_libs demo_binding ''T'' 7) (demo_world Map.empty)) = Inr handle
     \<and> fst (run demo_machine (open_handle demo_rotation_libs demo_binding handle) (demo_world Map.empty))
         = Inr \<lparr>h_upstream_token = ''T'', h_issued_at = 7\<rparr>"
proof -
  obtain handle where h: "fst (run demo_machine (seal_handle demo_rotation_libs demo_binding ''T'' 7) (demo_world Map.empty)) = Inr handle"
    by (auto simp: seal_handle_def demo_rotation_libs_def seal_libs.defs demo_machine_def xchacha_seal_def demo_libs_def ok_or_def)
  have key: "resource_key_new (b_relay demo_binding) = Inr (b_relay demo_binding)"
    by (simp add: demo_binding_def resource_key_new_def starts_with_def ends_with_def key_byte_def byte_class_defs)
  show ?thesis
    using handle_opens_only_for_its_binding [OF demo_machine_ok demo_handle_codec key key h,
        of "demo_world Map.empty" "\<lparr>h_upstream_token = ''T'', h_issued_at = 7\<rparr>"] h by blast
qed

text \<open>
  The fingerprint's input separates identities: two relay and upstream pairs feed the hash the
  same bytes exactly if generation, issuer, token endpoint and client identifier agree, wherever
  one field ends and the next begins.
\<close>

theorem fingerprint_separates_identities:
  assumes "identity_fits r u" and "identity_fits r' u'"
  shows "fingerprint_preimage r u = fingerprint_preimage r' u' \<longleftrightarrow> upstream_identity r u = upstream_identity r' u'"
  by (rule fingerprint_preimage_inj [OF assms])

definition demo_upstream :: upstream where
  "demo_upstream =
     \<lparr>u_key = ''idp'', issuer_url = demo_url ''https://idp.example/'',
      authorization_endpoint = Some (demo_url ''https://idp.example/authorize''),
      token_endpoint = Some (demo_url ''https://idp.example/token''), jwks_uri = None,
      client_id = ''cid'', client_secret = ''sec'', token_endpoint_auth_method = ClientSecretPost\<rparr>"

theorem fingerprint_separates_identities_witness:
  "fingerprint_preimage demo_relay demo_upstream \<noteq>
     fingerprint_preimage demo_relay (demo_upstream\<lparr>client_id := ''ci''\<rparr>)"
proof -
  have "identity_fits demo_relay demo_upstream" "identity_fits demo_relay (demo_upstream\<lparr>client_id := ''ci''\<rparr>)"
    by (simp_all add: identity_fits_def fits_def demo_relay_def demo_upstream_def u64_max_def issuer_identifier_def
        demo_url_def)
  from fingerprint_separates_identities [OF this] show ?thesis
    by (simp add: upstream_identity_def demo_upstream_def)
qed

text \<open>
  C35 A sealed response carries no upstream token: every member of the substituted body that reads
  as a refresh token is a handle the sealer made during the call, for a token of the original
  body, under the relay's binding.
\<close>

theorem sealed_response_carries_no_token:
  assumes "members_ok L" and "path (seal_token_response L b status body issued_at) es (Inr (Some body'))"
  shows "\<exists>ms'. members_parse L body' = Some ms'
    \<and> list_all (\<lambda>m. case carries_token L m of
          None \<Rightarrow> True
        | Some token' \<Rightarrow> \<exists>e p. token' = HANDLE_PREFIX @ e \<and> ESeal p (associated_data b) (Inr e) \<in> set es) ms'"
proof -
  obtain ms ms' where ms: "members_print L ms' = Some body'" "list_all2 (sealed_member L b issued_at es) ms ms'"
    using path_seal_token_response [OF assms(2)] by blast
  have "case carries_token L m' of None \<Rightarrow> True
      | Some token' \<Rightarrow> \<exists>e p. token' = HANDLE_PREFIX @ e \<and> ESeal p (associated_data b) (Inr e) \<in> set es"
    if in_ms: "m' \<in> set ms'" for m'
  proof -
    obtain m where "sealed_member L b issued_at es m m'"
      using ms(2) in_ms unfolding list_all2_conv_all_nth in_set_conv_nth by metis
    then show ?thesis
      using sealed_member_token [OF assms(1)] by (fastforce split: option.split)
  qed
  then show ?thesis using assms(1) ms(1) by (auto simp: members_ok_def list_all_iff)
qed

lemma demo_members_ok: "members_ok demo_rotation_libs"
  by (auto simp: members_ok_def demo_rotation_libs_def seal_libs.defs demo_libs_def demo_members_roundtrip)

theorem sealed_response_carries_no_token_witness:
  "\<exists>es body'. path (seal_token_response demo_rotation_libs demo_binding 200
       (demo_members_print [(''refresh_token'', ''T'')]) 7) es (Inr (Some body'))
     \<and> (\<exists>ms'. members_parse demo_rotation_libs body' = Some ms'
        \<and> list_all (\<lambda>m. case carries_token demo_rotation_libs m of
              None \<Rightarrow> True
            | Some token' \<Rightarrow> \<exists>e p. token' = HANDLE_PREFIX @ e
                \<and> ESeal p (associated_data demo_binding) (Inr e) \<in> set es) ms')"
proof -
  let ?p = "frame ''T'' @ frame_nat 7"
  have "path (seal_token_response demo_rotation_libs demo_binding 200
       (demo_members_print [(''refresh_token'', ''T'')]) 7) [ESeal ?p (associated_data demo_binding) (Inr ''e'')]
     (Inr (Some (demo_members_print [(''refresh_token'', HANDLE_PREFIX @ ''e'')])))"
    by (simp add: seal_token_response_def success_status_def demo_rotation_libs_def seal_libs.defs demo_libs_def
        demo_members_roundtrip REFRESH_TOKEN_MEMBER_def seal_handle_def ok_or_def)
  with sealed_response_carries_no_token [OF demo_members_ok this] show ?thesis by blast
qed

text \<open>
  Putting a handle into a response replaces every refresh token it has, adds the member when
  there is none, and keeps every other member and their order.
\<close>

theorem substituted_response_members:
  assumes "members_ok L" and "with_refresh_token L status body handle = Some body'"
  shows "\<exists>ms ms'. members_parse L body = Some ms \<and> members_parse L body' = Some ms'
    \<and> REFRESH_TOKEN_MEMBER \<in> fst ` set ms'
    \<and> list_all (\<lambda>m. fst m = REFRESH_TOKEN_MEMBER \<longrightarrow> raw_string_parse L (snd m) = Some handle) ms'
    \<and> filter (\<lambda>m. fst m \<noteq> REFRESH_TOKEN_MEMBER) ms' = filter (\<lambda>m. fst m \<noteq> REFRESH_TOKEN_MEMBER) ms"
proof -
  obtain ms ms' v where "members_parse L body = Some ms" "members_parse L body' = Some ms'"
    "raw_string_parse L v = Some handle" "\<forall>m\<in>set ms'. fst m = REFRESH_TOKEN_MEMBER \<longrightarrow> snd m = v"
    "REFRESH_TOKEN_MEMBER \<in> fst ` set ms'"
    "filter (\<lambda>m. fst m \<noteq> REFRESH_TOKEN_MEMBER) ms' = filter (\<lambda>m. fst m \<noteq> REFRESH_TOKEN_MEMBER) ms"
    by (rule with_refresh_token_members [OF assms])
  then show ?thesis by (auto simp: list_all_iff)
qed

theorem substituted_response_members_witness:
  "\<exists>ms ms'. members_parse demo_rotation_libs (demo_members_print [(''scope'', ''s'')]) = Some ms
    \<and> members_parse demo_rotation_libs (demo_members_print [(''scope'', ''s''), (''refresh_token'', ''h'')]) = Some ms'
    \<and> REFRESH_TOKEN_MEMBER \<in> fst ` set ms'
    \<and> list_all (\<lambda>m. fst m = REFRESH_TOKEN_MEMBER \<longrightarrow> raw_string_parse demo_rotation_libs (snd m) = Some ''h'') ms'
    \<and> filter (\<lambda>m. fst m \<noteq> REFRESH_TOKEN_MEMBER) ms' = filter (\<lambda>m. fst m \<noteq> REFRESH_TOKEN_MEMBER) ms"
  by (rule substituted_response_members [OF demo_members_ok, where status = 200])
    (simp add: with_refresh_token_def success_status_def demo_rotation_libs_def seal_libs.defs demo_libs_def
      demo_members_roundtrip REFRESH_TOKEN_MEMBER_def)

text \<open>
  The guard that keeps handles from being forwarded recognises exactly the strings \<open>rrt\<close>,
  digits, dot, anything; in particular every handle either mode issues.
\<close>

theorem handle_prefix_recognised:
  "(has_handle_prefix token \<longleftrightarrow>
      (\<exists>ds rest. token = ''rrt'' @ ds @ ''.'' @ rest \<and> ds \<noteq> [] \<and> list_all is_ascii_digit ds))
   \<and> has_handle_prefix (HANDLE_PREFIX @ x) \<and> has_handle_prefix (ROTATING_PREFIX @ y)"
proof -
  have "has_handle_prefix (HANDLE_PREFIX @ x)" "has_handle_prefix (ROTATING_PREFIX @ y)"
    by (simp_all add: has_handle_prefix_def HANDLE_PREFIX_def ROTATING_PREFIX_def strip_prefix_def
        starts_with_def byte_class_defs)
  with has_handle_prefix_iff [of token] show ?thesis by blast
qed

end
