(* ===== verification/Router_Safety.thy ===== *)
theory Router_Safety
  imports Dispatch Rotation_Safety Contracts
begin

text \<open>
  What holds of every request the router serves, whatever the sealer, the store, the clocks, the
  policy and the upstream answer.
\<close>

section \<open>The outbound policy\<close>

text \<open>
  Guarantees about outgoing requests only: everything else is allowed, and once a request is
  allowed it stays allowed. \<open>fetches\<close> says that the guarantee allows fetching documents.
\<close>

fun is_execute :: "event \<Rightarrow> bool" where
  "is_execute (EExecute q a) = True"
| "is_execute _ = False"

definition about_requests :: "(event list \<Rightarrow> event \<Rightarrow> bool) \<Rightarrow> bool" where
  "about_requests G \<longleftrightarrow> monotone_guarantee G \<and> (\<forall>h e. \<not> is_execute e \<longrightarrow> G h e)"

definition fetches :: "(event list \<Rightarrow> event \<Rightarrow> bool) \<Rightarrow> bool \<Rightarrow> bool" where
  "fetches G policy \<longleftrightarrow>
     about_requests G \<and> (\<forall>u t purpose sc. guarded G (send_checked policy (get_request u t) purpose sc))"

named_theorems request_rules

lemma about_requests_call: "about_requests G \<Longrightarrow> \<not> is_execute e \<Longrightarrow> G h e"
  by (simp add: about_requests_def)

lemma about_requests_permits:
  assumes "about_requests G"
  shows "permits L R G"
proof -
  have "\<not> is_execute e" if "harmless e" for e using that by (cases e) auto
  then show ?thesis
    unfolding permits_def tolerant_def by (intro conjI allI impI about_requests_call [OF assms]) auto
qed

lemma guarded_call [request_rules]:
  assumes "about_requests G"
  shows "(\<And>a. guarded G (c1 a)) \<Longrightarrow> guarded G (PutIfAbsent k v t c1)"
    and "(\<And>a. guarded G (c2 a)) \<Longrightarrow> guarded G (GetEntry k c2)"
    and "(\<And>a. guarded G (c3 a)) \<Longrightarrow> guarded G (Seal p d c3)"
    and "(\<And>a. guarded G (c4 a)) \<Longrightarrow> guarded G (Unseal s d c4)"
    and "(\<And>a. guarded G (c5 a)) \<Longrightarrow> guarded G (UnixNow c5)"
    and "(\<And>a. guarded G (c5 a)) \<Longrightarrow> guarded G (ClockMs c5)"
    and "(\<And>a. guarded G (c6 a)) \<Longrightarrow> guarded G (InstantNow c6)"
    and "(\<And>a. guarded G (c7 a)) \<Longrightarrow> guarded G (RandomBytes n c7)"
    and "(\<And>a. guarded G (c8 a)) \<Longrightarrow> guarded G (CacheGet i k c8)"
    and "guarded G (c9 ()) \<Longrightarrow> guarded G (CachePut i k cv c9)"
    and "guarded G (c10 ()) \<Longrightarrow> guarded G (CacheRemove i k c10)"
  by (simp_all add: guarded_def about_requests_call [OF assms])

lemmas guarded_compose [request_rules] = guarded_Ret guarded_bind guarded_bindE

lemma fetchesD [request_rules]:
  "fetches G policy \<Longrightarrow> about_requests G"
  "fetches G policy \<Longrightarrow> guarded G (send_checked policy (get_request u t) purpose sc)"
  by (simp_all add: fetches_def)

lemma guarded_fetch [request_rules]:
  "fetches G policy \<Longrightarrow> guarded G (fetch_json_object L policy sc u purpose)"
  unfolding fetch_json_object_def by (intro request_rules)

lemma guarded_cache [request_rules]:
  assumes "about_requests G"
  shows "guarded G (cache_lookup i key ttl)" and "guarded G (cache_store i key v)"
  using assms by (auto simp: cache_lookup_def cache_store_def intro!: request_rules split: option.split)

lemma guarded_cached [request_rules]:
  assumes "fetches G policy"
  shows "guarded G (cached_json_with_client L i policy sc u ttl purpose)"
    and "guarded G (cached_json L policy sc u ttl purpose)"
  using assms fetchesD(1) [OF assms]
  by (auto simp: cached_json_def cached_json_with_client_def Let_def intro!: request_rules
      split: option.split sum.split)

lemma guarded_discovery [request_rules]:
  assumes "fetches G policy"
  shows "guarded G (optional_discovery L policy r u)"
  using assms fetchesD(1) [OF assms]
  by (auto simp: optional_discovery_def Let_def intro!: request_rules
      split: option.split sum.split fetch_failure.split)

lemma guarded_endpoints [request_rules]:
  assumes "fetches G policy"
  shows "guarded G (resolve_endpoints L policy r u)" and "guarded G (resolve_jwks_uri L policy r u)"
  using assms fetchesD(1) [OF assms]
  by (auto simp: resolve_endpoints_def resolve_jwks_uri_def intro!: request_rules)

lemma guarded_envelopes [request_rules]:
  assumes "about_requests G"
  shows "guarded G (seal_postcard key encoded)" and "guarded G (unseal_postcard decode key v)"
    and "guarded G (fresh issued_at ttl)" and "guarded G (random_urlsafe L n)"
  using assms
  by (auto simp: seal_postcard_def unseal_postcard_def fresh_def random_urlsafe_def intro!: request_rules
      split: option.split sum.split seal_error.split)

lemma guarded_handles [request_rules]:
  assumes "about_requests G"
  shows "guarded G (open_handle L b handle)" and "guarded G (seal_handle L b tok issued_at)"
  using assms
  by (auto simp: open_handle_def seal_handle_def intro!: request_rules split: option.split sum.split)

lemma guarded_seal_members [request_rules]: "about_requests G \<Longrightarrow> guarded G (seal_members L b issued_at ms)"
  by (induction ms) (auto simp: Let_def intro!: request_rules split: option.split sum.split)

lemma guarded_seal_response [request_rules]:
  "about_requests G \<Longrightarrow> guarded G (seal_token_response L b status body issued_at)"
  by (auto simp: seal_token_response_def intro!: request_rules split: option.split)

lemma guarded_issue [request_rules]:
  assumes "about_requests G"
  shows "guarded G (issue_in_response L R stored)"
proof -
  have "guarded G (create_family L R handle tok)" for handle tok
    unfolding guarded_def by (intro allI, rule wp_create_family [OF about_requests_permits [OF assms]]) simp
  then show ?thesis
    using assms by (auto simp: issue_in_response_def issue_def new_handle_def intro!: request_rules
        split: option.split sum.split)
qed

lemma guarded_validation [request_rules]:
  assumes "fetches G (has_policy S)"
  shows "guarded G (validate_id_token_policy L S r u stored nonce)"
  using assms fetchesD(1) [OF assms]
  by (auto simp: validate_id_token_policy_def check_claims_def intro!: request_rules
      split: sum.split option.split)

lemma guarded_exchange [request_rules]:
  assumes "fetches G (has_policy S)"
  shows "guarded G (exchange_sealed_code L S r u form)"
  using assms fetchesD(1) [OF assms]
  by (auto simp: exchange_sealed_code_def redeem_def consume_code_def issue_rotating_def Let_def
      intro!: request_rules
      split: option.split sum.split unseal_error.split refresh_token_mode.split)

subsection \<open>Refreshing\<close>

text \<open>The guarantee allows everything the refresh handlers send: documents and token requests.\<close>

definition refreshes ::
    "(event list \<Rightarrow> event \<Rightarrow> bool) \<Rightarrow> 'z libs_scheme \<Rightarrow> app_state \<Rightarrow> relay \<Rightarrow> upstream \<Rightarrow> token_request \<Rightarrow> bool" where
  "refreshes G L S r u form \<longleftrightarrow>
     about_requests G \<and> (\<forall>tok. guarded G (send_upstream_refresh L S r u form tok))"

lemma refreshesD:
  assumes "refreshes G L S r u form"
  shows "about_requests G" and "monotone_guarantee G" and "\<And>h b. G h (EDeadline d b)"
    and "guarded G (send_upstream_refresh L S r u form tok)"
  using assms by (auto simp: refreshes_def about_requests_def)

lemma guarded_refresher:
  assumes "refreshes G L S r u form"
  shows "refresher_ok G (\<lambda>_ _. True) (upstream_refresh_request L S r u form)"
  unfolding refresher_ok_def upstream_refresh_request_def
  by (intro allI impI guarded_wp guarded_timeout [OF refreshesD(2) [OF assms] refreshesD(3) [OF assms]]
      guarded_bindE refreshesD(4) [OF assms]) simp

lemma guarded_sealed_handle:
  assumes "refreshes G L S r u form"
  shows "guarded G (refresh_sealed_handle L R (upstream_refresh_request L S r u form) presented)"
proof -
  note permits = about_requests_permits [OF refreshesD(1) [OF assms]]
  have family: "wp G (create_family L R handle tok) h Q" if "\<And>r es. Q r (h @ es)" for Q handle tok h
    by (rule wp_create_family [OF permits]) (simp add: that)
  have ask: "wp G (ask_upstream R (upstream_refresh_request L S r u form) tok) h Q"
    if "\<And>r es. Q r (h @ es)" for Q tok h
    by (rule wp_ask_upstream [OF guarded_refresher [OF assms]]) (simp_all add: that)
  have draw: "G h (ERandom n bs)" "G h (EClockMs now)" for h n bs now
    by (simp_all add: about_requests_call [OF refreshesD(1) [OF assms]])
  show ?thesis
    unfolding guarded_def refresh_sealed_handle_def wp_bind
    by (intro allI wp_open_handle [OF permitsD(1) [OF permits]])
      (auto simp: migrate_family_def Let_def new_handle_def draw intro!: ask family
        split: option.split sum.split handle_error.split)
qed

lemma guarded_rotating:
  assumes "refreshes G L S r u form"
  shows "guarded G (refresh_rotating polls L R (upstream_refresh_request L S r u form) presented)"
  unfolding guarded_def
  by (intro allI wp_mono [OF wp_refresh_rotating
        [OF about_requests_permits [OF refreshesD(1) [OF assms]] guarded_refresher [OF assms]]]) simp_all

lemma guarded_without_state:
  assumes "about_requests G" and "\<And>tok. guarded G (send_upstream_refresh L S r u form tok)"
  shows "guarded G (refresh_without_state L S r u form presented)"
  using assms
  by (auto simp: refresh_without_state_def answer_sealed_def open_handle_def Let_def intro!: request_rules
      split: option.split sum.split handle_error.split)

lemma guarded_refresh:
  assumes "refreshes G L S r u form"
  shows "guarded G (refresh polls L S r u form)"
  using refreshesD(1,4) [OF assms]
  by (auto simp: refresh_def refresh_with_rotator_def rotator_refresh_def Let_def
      intro!: guarded_without_state guarded_sealed_handle guarded_rotating assms guarded_compose
      split: option.split)

subsection \<open>The policy is asked first\<close>

text \<open>A request is sent only to a URL the policy has allowed.\<close>

fun policy_ok :: "event list \<Rightarrow> event \<Rightarrow> bool" where
  "policy_ok h (EExecute q a) \<longleftrightarrow> (\<exists>offer. EPolicy offer True \<in> set h \<and> offered_url offer = req_url q)"
| "policy_ok h _ = True"

lemma policy_requests [request_rules, simp]: "about_requests policy_ok"
proof -
  have "policy_ok h' e" if "policy_ok h e" and "set h \<subseteq> set h'" for h h' e
    using that by (cases e) auto
  moreover have "policy_ok h e" if "\<not> is_execute e" for h e
    using that by (cases e) auto
  ultimately show ?thesis by (simp add: about_requests_def monotone_guarantee_def)
qed

lemma policy_monotone: "monotone_guarantee policy_ok"
  using policy_requests by (simp add: about_requests_def)

lemma policy_permits [simp]: "permits L R policy_ok"
  by (rule about_requests_permits) (rule policy_requests)

lemma policy_send [request_rules]: "guarded policy_ok (send_checked True req purpose sc)"
  by (auto simp: guarded_def send_checked_def Let_def split_option_all)

lemma policy_fetches [request_rules]: "fetches policy_ok True"
  by (simp add: fetches_def policy_send)

lemma policy_upstream [request_rules]:
  "guarded policy_ok (send_upstream_token_request L True r u endpoint form purpose)"
  by (auto simp: send_upstream_token_request_def intro!: request_rules)

lemma policy_authorize [request_rules]: "has_policy S \<Longrightarrow> guarded policy_ok (authorize L S r u q)"
  by (auto simp: authorize_def Let_def intro!: request_rules split: sum.split prod.split)

lemma policy_callback [request_rules]: "has_policy S \<Longrightarrow> guarded policy_ok (callback L S u q)"
  by (auto simp: callback_def callback_exchange_def Let_def intro!: request_rules
      split: sum.split option.split unseal_error.split)

lemma policy_send_refresh [request_rules]:
  "has_policy S \<Longrightarrow> guarded policy_ok (send_upstream_refresh L S r u form tok)"
  by (auto simp: send_upstream_refresh_def intro!: request_rules split: sum.split)

lemma policy_refresh [request_rules]: "has_policy S \<Longrightarrow> guarded policy_ok (refresh polls L S r u form)"
  by (rule guarded_refresh) (simp_all add: refreshes_def request_rules)

lemma policy_check_times [request_rules]: "guarded policy_ok (check_times claims leeway names)"
  by (induction names) (auto intro!: request_rules split: option.split)

lemma policy_retry [request_rules]:
  "guarded policy_ok (set_retry key v)" "guarded policy_ok (current_jwks L key)"
  by (auto simp: set_retry_def current_jwks_def intro!: request_rules split: option.split)

lemma policy_fetch_jwks [request_rules]: "guarded policy_ok (fetch_jwks L True sc u prev_retry forced)"
  unfolding fetch_jwks_def
  by (intro request_rules) (auto intro!: request_rules split: option.split sum.split send_error.split)

lemma policy_jwks [request_rules]: "guarded policy_ok (client_assertion_jwks L True sc u kid)"
  unfolding client_assertion_jwks_def
  by (intro request_rules) (auto intro!: request_rules split: option.split)

lemma policy_assertion_keys [request_rules]:
  "guarded policy_ok (assertion_jwks_url L True sc issuer source)"
  "guarded policy_ok (assertion_keys L True sc source remote kid)"
  unfolding assertion_jwks_url_def assertion_keys_def
  by (auto intro!: request_rules split: option.split client_jwks.split)

lemma policy_check_assertion [request_rules]:
  "guarded policy_ok (check_assertion L S audience issuer subject claims leeway single_use)"
  unfolding check_assertion_def consume_assertion_def
  by (auto intro!: request_rules split: option.split)

lemma policy_authenticate [request_rules]:
  "has_policy S \<Longrightarrow> guarded policy_ok (authenticate L S r u form hs)"
  by (auto simp: authenticate_def verify_private_key_jwt_def Let_def intro!: request_rules
      split: option.split client_auth.split)

lemma policy_documents [request_rules]:
  "has_policy S \<Longrightarrow> guarded policy_ok (discovery L S r u)"
  "has_policy S \<Longrightarrow> guarded policy_ok (jwks L S r u)"
  by (auto simp: discovery_def discovery_document_def jwks_def intro!: request_rules split: option.split sum.split)

lemma policy_token [request_rules]: "has_policy S \<Longrightarrow> guarded policy_ok (token polls L S r u req)"
  by (auto simp: token_def token_grant_def Let_def intro!: request_rules split: option.split sum.split)

lemma policy_dispatch: "has_policy S \<Longrightarrow> guarded policy_ok (dispatch polls L S req)"
  by (auto simp: dispatch_def dispatch_callback_def dispatch_relay_def Let_def intro!: request_rules
      split: option.split sum.split prod.split endpoint.split http_method.split)

text \<open>
  C9 With an outbound policy configured, nothing leaves the relay that the policy has not allowed:
  in every run of the dispatcher, whatever the request and whatever the environment answers, an
  HTTP request is sent only after the policy was asked about its very URL and said yes.
\<close>

theorem outbound_requests_allowed:
  assumes "has_policy S" and "path (dispatch polls L S req) es r" and "es = pre @ EExecute q a # post"
  shows "\<exists>offer. EPolicy offer True \<in> set pre \<and> offered_url offer = req_url q"
proof -
  have "policy_ok ([] @ pre) (EExecute q a)"
    using guarded_path [OF policy_dispatch [OF assms(1)] assms(2)] assms(3) unfolding guaranteed_def by blast
  then show ?thesis by simp
qed

section \<open>A concrete environment\<close>

text \<open>
  Stand-ins for the libraries of the router: decoders that yield one fixed value, form data
  written as framed members, and a JWT library that accepts everything.
\<close>

definition demo_stored :: stored_response where
  "demo_stored = \<lparr>sr_status = 200, sr_content_type = None, sr_body = ''body''\<rparr>"

definition demo_flow :: flow_envelope where
  "demo_flow =
     \<lparr>f_relay_key = ''app'', f_app_redirect_uri = ''https://app.example/cb'', f_app_state = Some ''s'',
      f_upstream_pkce_verifier = ''v'', f_client_code_challenge = None,
      f_client_code_challenge_method = None, f_id_token_nonce = None, f_issued_at = 100, f_nonce = []\<rparr>"

definition demo_challenge :: string where
  "demo_challenge = replicate 43 (CHR ''v'')"

definition demo_code :: code_envelope where
  "demo_code =
     \<lparr>ce_relay_key = ''app'', ce_envelope_id = ''id'', ce_issued_at = 100,
      ce_redirect_uri = ''https://app.example/cb'', ce_client_code_challenge = Some demo_challenge,
      ce_id_token_nonce = None, ce_upstream_response = demo_stored, ce_handle_fingerprint = ''f''\<rparr>"

definition demo_claims :: json where
  "demo_claims = JObject
     [(''iss'', JString ''i''), (''sub'', JString ''u''), (''aud'', JString ''a''),
      (''iat'', JNumber (PosInt 100)), (''exp'', JNumber (PosInt 200)), (''jti'', JString ''j''),
      (''hd'', JString ''example.com'')]"

definition demo_form_parse :: "bytes \<Rightarrow> (string \<times> string) list" where
  "demo_form_parse body = (case demo_members_parse body of None \<Rightarrow> [] | Some ms \<Rightarrow> ms)"

definition demo_router_libs :: router_libs where
  "demo_router_libs =
     rotation_libs.extend
       (demo_rotation_libs\<lparr>form_parse := demo_form_parse,
          json_parse := (\<lambda>_. Some (JObject [(''id_token'', JString ''t'')]))\<rparr>)
       \<lparr>flow_encode = (\<lambda>_. Some []), flow_decode = (\<lambda>_. Some demo_flow),
        code_encode = (\<lambda>_. Some []), code_decode = (\<lambda>_. Some demo_code),
        decode_header = (\<lambda>_. Some \<lparr>h_alg = ''RS256'', h_kid = None\<rparr>),
        jwkset_of = (\<lambda>_. Some [\<lparr>key_id = None, key_data = JNull\<rparr>]), decoding_key = (\<lambda>_. Some []),
        jwt_decode = (\<lambda>_ _ _ _. Some demo_claims), sha384 = (\<lambda>x. x), sha512 = (\<lambda>x. x),
        tuple_json = (\<lambda>ss. Some (concat ss))\<rparr>"

lemma demo_router_simps [simp]:
  "flow_decode demo_router_libs x = Some demo_flow" "code_decode demo_router_libs x = Some demo_code"
  "flow_encode demo_router_libs f = Some []" "code_encode demo_router_libs c = Some []"
  "decode_header demo_router_libs x = Some \<lparr>h_alg = ''RS256'', h_kid = None\<rparr>"
  "jwkset_of demo_router_libs v = Some [\<lparr>key_id = None, key_data = JNull\<rparr>]"
  "decoding_key demo_router_libs k = Some []" "jwt_decode demo_router_libs x d jv n = Some demo_claims"
  "tuple_json demo_router_libs ss = Some (concat ss)"
  "form_parse demo_router_libs = demo_form_parse" "header_valid demo_router_libs x"
  "json_parse demo_router_libs x = Some (JObject [(''id_token'', JString ''t'')])"
  "b64url_encode demo_router_libs x = x" "sha256 demo_router_libs = take 900"
  "url_parse demo_router_libs = url_parse demo_libs" "url_append_pairs demo_router_libs ur ps = ur"
  "form_serialize demo_router_libs ps = []"
  by (simp_all add: demo_router_libs_def demo_rotation_libs_def rotation_libs.defs seal_libs.defs demo_libs_def)

text \<open>A deployment with one relay and one upstream, a store and a policy.\<close>

definition demo_state :: "relay \<Rightarrow> app_state" where
  "demo_state r =
     \<lparr>resolve_relay = (\<lambda>key. Inr (if key = ''app'' then Some r else None)),
      resolve_upstream = (\<lambda>key. Inr (if key = ''idp'' then Some demo_upstream else None)),
      public_url = (demo_url ''https://relay.example/'')\<lparr>path_of := ''/''\<rparr>, layout_keys = SingleSegment,
      has_store = True, has_policy = True, redirect_opts = demo_options\<rparr>"

definition demo_get :: "string \<Rightarrow> in_request" where
  "demo_get p = \<lparr>in_method = GET, in_path = p, in_query = None, in_headers = [], in_body = None\<rparr>"


lemma demo_dispatch:
  "dispatch polls demo_router_libs (demo_state r) (demo_get ''/relay/app/jwks'') =
     (if is_ok (relay_validate_for demo_router_libs r demo_options)
      then dispatch_relay polls demo_router_libs (demo_state r) JwksDoc r demo_upstream (demo_get ''/relay/app/jwks'')
      else Ret (Some (status_response 500)))" if "r_upstream r = ''idp''"
proof -
  have "layout_path JwksDoc ''app'' = ''relay/app/jwks''" by simp
  moreover have "single_segment_key ''app''"
    by (simp add: single_segment_key_def resource_key_new_def starts_with_def ends_with_def key_byte_def byte_class_defs)
  ultimately have "layout_parse SingleSegment ''relay/app/jwks'' = Some (JwksDoc, ''app'')"
    using single.parse_path [of "''app''" JwksDoc] by simp
  then show ?thesis
    using that
    by (simp add: dispatch_def dispatch_path_def demo_state_def demo_get_def public_route_prefix_def
        trim_end_matches_def strip_prefix_def dispatch_resources_def early_failure_def)
qed

definition demo_discovery :: url where
  "demo_discovery = discovery_url demo_router_libs (issuer_url demo_upstream)"

definition demo_fetch_trace :: "event list" where
  "demo_fetch_trace =
     [ECacheGet DocumentCache (cache_key Discovery demo_discovery) None,
      ECacheGet AbsentDiscovery (cache_key Discovery demo_discovery) None,
      EPolicy \<lparr>offered_url = demo_discovery, offered_purpose = Discovery, offered_relay = Some ''app'',
        offered_upstream = Some ''idp''\<rparr> True]"

definition demo_fetch :: http_request where
  "demo_fetch = get_request demo_discovery (Some METADATA_FETCH_TIMEOUT)"

lemma demo_relay_valid_for: "is_ok (relay_validate_for demo_router_libs demo_relay demo_options)"
  using demo_relay_valid [of demo_router_libs]
  by (auto simp: relay_validate_for_def demo_relay_def is_ok_iff)

lemma demo_jwks_path:
  "path (dispatch polls demo_router_libs (demo_state demo_relay) (demo_get ''/relay/app/jwks''))
     (demo_fetch_trace @ EExecute demo_fetch None # []) (Some (status_response 502))"
proof -
  have "path (jwks demo_router_libs (demo_state demo_relay) demo_relay demo_upstream)
      (demo_fetch_trace @ EExecute demo_fetch None # []) (status_response 502)"
    by (simp add: jwks_def resolve_jwks_uri_def optional_discovery_def Let_def demo_upstream_def cache_lookup_def
        fetch_json_object_def send_checked_def demo_fetch_trace_def demo_fetch_def demo_discovery_def get_request_def
        demo_state_def scope_of_def demo_relay_def ex_bool_eq)
  then have "path (bind (jwks demo_router_libs (demo_state demo_relay) demo_relay demo_upstream) (\<lambda>x. Ret (Some x)))
      (demo_fetch_trace @ EExecute demo_fetch None # []) (Some (status_response 502))"
    unfolding path_bind by fastforce
  moreover have "r_upstream demo_relay = ''idp''" by (simp add: demo_relay_def)
  ultimately show ?thesis
    using demo_dispatch [of demo_relay polls] demo_relay_valid_for
    by (simp add: dispatch_relay_def demo_get_def)
qed

theorem outbound_requests_allowed_witness:
  "\<exists>offer. EPolicy offer True \<in> set demo_fetch_trace \<and> offered_url offer = req_url demo_fetch"
  using outbound_requests_allowed [OF _ demo_jwks_path [of 1] refl] by (simp add: demo_state_def)

section \<open>Reading requests, at concrete inputs\<close>

lemma demo_query: "query_pairs demo_router_libs (Some (demo_members_print ms)) = ms"
  by (simp add: query_pairs_def demo_form_parse_def demo_members_roundtrip)

theorem authorize_request_read_witness:
  "\<exists>r. parse_authorize_request demo_router_libs
       (Some (demo_members_print [(''redirect_uri'', ''https://a''), (''prompt'', ''login'')])) = Some r
     \<and> a_forwarded r = [(''prompt'', ''login'')] \<and> a_redirect_uri r = Some ''https://a''"
proof -
  obtain r where r: "parse_authorize_request demo_router_libs
      (Some (demo_members_print [(''redirect_uri'', ''https://a''), (''prompt'', ''login'')])) = Some r"
    by (simp add: parse_authorize_request_def demo_query authorize_parameter_def)
  from authorize_request_read [OF this] r show ?thesis
    by (simp add: demo_query authorize_consumed_def)
qed

theorem token_request_read_witness:
  "\<exists>r. parse_token_request demo_router_libs (demo_members_print [(''grant_type'', ''refresh_token''), (''x'', ''y'')]) = Some r
     \<and> t_grant_type r = ''refresh_token'' \<and> t_code r = None"
proof -
  obtain r where r: "parse_token_request demo_router_libs
      (demo_members_print [(''grant_type'', ''refresh_token''), (''x'', ''y'')]) = Some r"
    by (simp add: parse_token_request_def demo_form_parse_def demo_members_roundtrip token_parameters_def Let_def)
  from token_request_read [OF this] r show ?thesis
    by (simp add: demo_form_parse_def demo_members_roundtrip)
qed

theorem scope_allowed_iff_witness:
  "scope_allowed demo_relay (join '' '' [''openid'', ''email'']) \<and> \<not> scope_allowed demo_relay (join '' '' [''openid'', ''admin''])"
  using scope_allowed_iff [of "[''openid'', ''email'']" demo_relay] scope_allowed_iff [of "[''openid'', ''admin'']" demo_relay]
  by (simp add: demo_relay_def valid_scope_token_def byte_value_def)

theorem describe_relay_members_witness:
  "relay_member_ok demo_relay ''response_types_supported''"
proof -
  have "(''response_types_supported'', json_strings [''code'']) \<in> set (describe_relay demo_relay [])"
    by (simp add: describe_relay_def retain_relay_metadata_def Let_def demo_relay_def json_strings_def
        refresh_supported_def auth_methods_def al_remove_def UPSTREAM_TOKEN_MANAGEMENT_METADATA_def)
  then show ?thesis by (rule describe_relay_members)
qed

end
