(* ===== verification/Admission.thy ===== *)
theory Admission
  imports Router_Safety
begin

text \<open>
  Who gets tokens. Every statement is about the traces of a handler: whatever the sealer, the
  store, the clocks and the upstream respond, an answer with tokens is preceded by the calls that
  justify it. Two requests that run at the same time are traces whose store calls are answered by
  one store; that at most one of them redeems a code rests on the contract of the store.
\<close>

section \<open>Branches of a trace\<close>

lemma path_branches:
  "path (case x of None \<Rightarrow> p | Some v \<Rightarrow> f v) es y \<longleftrightarrow>
     x = None \<and> path p es y \<or> (\<exists>v. x = Some v \<and> path (f v) es y)"
  "path (case s of Inl e \<Rightarrow> g e | Inr v \<Rightarrow> k v) es y \<longleftrightarrow>
     (\<exists>e. s = Inl e \<and> path (g e) es y) \<or> (\<exists>v. s = Inr v \<and> path (k v) es y)"
  "path (if b then p else q) es y \<longleftrightarrow> b \<and> path p es y \<or> \<not> b \<and> path q es y"
  "path (case err of UnsealInvalid \<Rightarrow> p | UnsealUnavailable \<Rightarrow> q) es y \<longleftrightarrow>
     err = UnsealInvalid \<and> path p es y \<or> err = UnsealUnavailable \<and> path q es y"
  by (auto split: option.splits sum.splits unseal_error.splits)

lemma path_bindI: "path p es1 x \<Longrightarrow> path (f x) es2 y \<Longrightarrow> path (bind p f) (es1 @ es2) y"
  unfolding path_bind by blast

lemmas path_steps = path_bind path_bindE path_branches

lemma path_unseal_postcard:
  "path (unseal_postcard decode key v) es (Inr x) \<longleftrightarrow>
     (\<exists>plain. es = [EUnseal v key (Inr plain)] \<and> decode plain = Some x)"
proof
  assume "path (unseal_postcard decode key v) es (Inr x)"
  then obtain a es' where "es = EUnseal v key a # es'"
    and "path (case a of Inl SealerDown \<Rightarrow> Ret (Inl UnsealUnavailable) | Inl _ \<Rightarrow> Ret (Inl UnsealInvalid)
      | Inr bs \<Rightarrow> Ret (ok_or UnsealInvalid (decode bs))) es' (Inr x)"
    by (auto simp: unseal_postcard_def)
  then show "\<exists>plain. es = [EUnseal v key (Inr plain)] \<and> decode plain = Some x"
    by (cases a) (auto simp: ok_or_def split: seal_error.splits option.splits)
qed (auto simp: unseal_postcard_def ok_or_def)

lemma path_fresh: "path (fresh issued_at ttl) es b \<longleftrightarrow> (\<exists>now. es = [EUnixNow now] \<and> b = fresh_at now issued_at ttl)"
  by (auto simp: fresh_def)

section \<open>Where documents come from\<close>

text \<open>
  The document \<open>v\<close> was served by the URL \<open>u\<close>: it is a cached one, stored for that URL less than
  \<open>ttl\<close> ago, or \<open>u\<close> itself was asked and answered with it.
\<close>

definition served_by ::
    "'z libs_scheme \<Rightarrow> cache_id \<Rightarrow> duration \<Rightarrow> outbound_purpose \<Rightarrow> url \<Rightarrow> json \<Rightarrow> event list \<Rightarrow> bool" where
  "served_by L i ttl purpose u v es \<longleftrightarrow>
     (\<exists>entry now. ECacheGet i (cache_key purpose u) (Some entry) \<in> set es \<and> EInstantNow now \<in> set es
        \<and> now - fetched entry < ttl \<and> v = cached_value entry)
     \<or> (\<exists>reply body. EExecute (get_request u (Some METADATA_FETCH_TIMEOUT)) (Some reply) \<in> set es
          \<and> res_url reply = u \<and> is_success_status (res_status reply)
          \<and> res_body reply = Some body \<and> json_parse L body = Some v \<and> is_object v)"

text \<open>The document is the discovery document of the upstream's issuer.\<close>

definition discovered :: "'z libs_scheme \<Rightarrow> upstream \<Rightarrow> json \<Rightarrow> event list \<Rightarrow> bool" where
  "discovered L u doc es \<longleftrightarrow>
     served_by L DocumentCache DISCOVERY_TTL Discovery (discovery_url L (issuer_url u)) doc es"

text \<open>
  The key that verifies a token: the one the token's \<open>kid\<close> selects in the key set that the
  upstream's JWKS URL, configured or else discovered, serves.
\<close>

definition upstream_key :: "'z router_libs_scheme \<Rightarrow> upstream \<Rightarrow> string option \<Rightarrow> bytes \<Rightarrow> event list \<Rightarrow> bool" where
  "upstream_key L u kid dk es \<longleftrightarrow>
     (\<exists>ju v keys key.
        (jwks_uri u = Some ju
         \<or> jwks_uri u = None \<and> (\<exists>doc. discovered L u doc es \<and> url_field L doc ''jwks_uri'' = Some ju))
        \<and> served_by L DocumentCache JWKS_TTL Jwks ju v es
        \<and> jwkset_of L v = Some keys \<and> find_jwk keys kid = Some key \<and> decoding_key L key = Some dk)"

lemma served_by_mono: "served_by L i ttl purpose u v es \<Longrightarrow> set es \<subseteq> set es' \<Longrightarrow> served_by L i ttl purpose u v es'"
  unfolding served_by_def by blast

lemma path_send_checked:
  "path (send_checked policy req purpose sc) es (Inr reply) \<Longrightarrow>
     EExecute req (Some reply) \<in> set es \<and> res_url reply = req_url req \<and> \<not> is_redirection (res_status reply)"
  by (auto simp: send_checked_def Let_def path_branches split: if_splits)

lemma path_fetch:
  assumes "path (fetch_json_object L policy sc u purpose) es (Inr v)"
  shows "served_by L i ttl purpose u v es"
proof -
  obtain x where x: "path (send_checked policy (get_request u (Some METADATA_FETCH_TIMEOUT)) purpose sc) es x"
    and v: "(case x of
              Inl _ \<Rightarrow> Inl FetchUnavailable
            | Inr response \<Rightarrow>
                if res_status response = 404 \<or> res_status response = 410 then Inl Absent
                else if \<not> is_success_status (res_status response) then Inl FetchUnavailable
                else (case res_body response of
                        None \<Rightarrow> Inl FetchUnavailable
                      | Some body \<Rightarrow>
                          (case json_parse L body of
                             None \<Rightarrow> Inl Absent
                           | Some v \<Rightarrow> if is_object v then Inr v else Inl Absent))) = Inr v"
    using assms unfolding fetch_json_object_def path_bind path_simps by auto
  from v obtain reply where "x = Inr reply" by (cases x) auto
  with x v path_send_checked [of policy _ purpose sc es reply] show ?thesis
    unfolding served_by_def by (auto simp: get_request_def split: if_splits option.splits)
qed

lemma path_cache_lookup:
  "path (cache_lookup i key ttl) es (Some entry) \<Longrightarrow>
     ECacheGet i key (Some entry) \<in> set es \<and> (\<exists>now. EInstantNow now \<in> set es \<and> now - fetched entry < ttl)"
  by (auto simp: cache_lookup_def path_branches split: if_splits)

lemma path_cache_hit:
  assumes "path (cache_lookup i (cache_key purpose u) ttl) es (Some entry)"
  shows "served_by L i ttl purpose u (cached_value entry) es"
  using path_cache_lookup [OF assms] unfolding served_by_def by blast

lemma path_cached_with_client:
  assumes "path (cached_json_with_client L i policy sc u ttl purpose) es (Inr v)"
  shows "served_by L i ttl purpose u v es"
proof -
  consider entry es1 es2 where "path (cache_lookup i (cache_key purpose u) ttl) es1 (Some entry)"
      and "v = cached_value entry" and "es = es1 @ es2"
    | es1 es2 es3 where "path (fetch_json_object L policy sc u purpose) es2 (Inr v)" and "es = es1 @ es2 @ es3"
    using assms by (auto simp: cached_json_with_client_def Let_def path_steps)
  then show ?thesis
  proof cases
    case 1
    then show ?thesis using path_cache_hit [OF 1(1)] served_by_mono [of L i ttl purpose u v es1 es] by auto
  next
    case 2
    then show ?thesis using path_fetch [OF 2(1)] served_by_mono [of L i ttl purpose u v es2 es] by auto
  qed
qed

lemma path_cached:
  "path (cached_json L policy sc u ttl purpose) es (Inr v) \<Longrightarrow> served_by L DocumentCache ttl purpose u v es"
  unfolding Outbound.cached_json_def by (rule path_cached_with_client)

lemma path_optional_discovery:
  assumes "path (optional_discovery L policy r u) es (Inr (Some doc))"
  shows "discovered L u doc es"
proof -
  define du where "du = discovery_url L (issuer_url u)"
  obtain hit es1 es2 where hit: "path (cache_lookup DocumentCache (cache_key Discovery du) DISCOVERY_TTL) es1 hit"
    and es: "es = es1 @ es2"
    and rest: "case hit of Some entry \<Rightarrow> doc = cached_value entry
      | None \<Rightarrow> (\<exists>es3 es4 es5. path (fetch_json_object L policy (scope_of r u) du Discovery) es4 (Inr doc)
          \<and> es2 = es3 @ es4 @ es5)"
  proof -
    obtain hit es1 es2 where *: "path (cache_lookup DocumentCache (cache_key Discovery du) DISCOVERY_TTL) es1 hit"
      "es = es1 @ es2"
      "path (case hit of Some entry \<Rightarrow> Ret (Inr (Some (cached_value entry)))
        | None \<Rightarrow>
            bind (cache_lookup AbsentDiscovery (cache_key Discovery du) DISCOVERY_ABSENT_COOLDOWN) (\<lambda>absent.
              case absent of
                Some _ \<Rightarrow> Ret (Inr None)
              | None \<Rightarrow>
                  bind (fetch_json_object L policy (scope_of r u) du Discovery) (\<lambda>f.
                    case f of
                      Inr doc \<Rightarrow>
                        CacheRemove AbsentDiscovery (cache_key Discovery du) (\<lambda>_.
                        bind (cache_store DocumentCache (cache_key Discovery du) doc) (\<lambda>_. Ret (Inr (Some doc))))
                    | Inl Absent \<Rightarrow>
                        bind (cache_store AbsentDiscovery (cache_key Discovery du) JNull) (\<lambda>_. Ret (Inr None))
                    | Inl FetchUnavailable \<Rightarrow> Ret (Inl (502 :: nat))))) es2 (Inr (Some doc))"
      using assms unfolding optional_discovery_def Let_def du_def [symmetric] path_bind [of "cache_lookup DocumentCache _ _"]
      by (elim exE conjE) (rule that)
    show thesis
    proof (cases hit)
      case None
      with *(3) obtain f es3 es4 es5 where f: "path (fetch_json_object L policy (scope_of r u) du Discovery) es4 f"
        "es2 = es3 @ es4 @ es5" and "path (case f of
                      Inr doc \<Rightarrow>
                        CacheRemove AbsentDiscovery (cache_key Discovery du) (\<lambda>_.
                        bind (cache_store DocumentCache (cache_key Discovery du) doc) (\<lambda>_. Ret (Inr (Some doc))))
                    | Inl Absent \<Rightarrow>
                        bind (cache_store AbsentDiscovery (cache_key Discovery du) JNull) (\<lambda>_. Ret (Inr None))
                    | Inl FetchUnavailable \<Rightarrow> Ret (Inl (502 :: nat))) es5 (Inr (Some doc))"
        by (simp add: path_bind path_branches(1)) blast
      then have "f = Inr doc"
        by (cases f) (auto simp: cache_store_def split: fetch_failure.splits)
      then have "case hit of Some entry \<Rightarrow> doc = cached_value entry
        | None \<Rightarrow> (\<exists>es3 es4 es5. path (fetch_json_object L policy (scope_of r u) du Discovery) es4 (Inr doc)
            \<and> es2 = es3 @ es4 @ es5)" using None f by auto
      with *(1,2) show thesis by (rule that)
    qed (use that * in auto)
  qed
  then show ?thesis
  proof (cases hit)
    case None
    with rest obtain es3 es4 es5 where f: "path (fetch_json_object L policy (scope_of r u) du Discovery) es4 (Inr doc)"
      and "es2 = es3 @ es4 @ es5" by auto
    then have "set es4 \<subseteq> set es" using es by auto
    then show ?thesis using path_fetch [OF f] served_by_mono unfolding discovered_def du_def by blast
  next
    case (Some entry)
    then have "served_by L DocumentCache DISCOVERY_TTL Discovery du doc es1" using path_cache_hit hit rest by simp
    then show ?thesis using es served_by_mono unfolding discovered_def du_def by fastforce
  qed
qed

lemma path_resolve_jwks:
  assumes "path (resolve_jwks_uri L policy r u) es (Inr (Some ju))"
  shows "jwks_uri u = Some ju \<or> jwks_uri u = None \<and> (\<exists>doc. discovered L u doc es \<and> url_field L doc ''jwks_uri'' = Some ju)"
proof (cases "jwks_uri u")
  case None
  then obtain doc where "path (optional_discovery L policy r u) es (Inr doc)"
    and "Option.bind doc (\<lambda>d. url_field L d ''jwks_uri'') = Some ju"
    using assms by (auto simp: resolve_jwks_uri_def path_bindE)
  then show ?thesis using None path_optional_discovery by (cases doc) fastforce+
qed (use assms in \<open>simp add: resolve_jwks_uri_def\<close>)

section \<open>What an admitted ID token went through\<close>

text \<open>
  An ID token in the upstream's token response \<open>stored\<close> that the relay admits, with the calls in
  \<open>es\<close>: who signed it, when it was looked at, and everything asked of its claims.
\<close>

definition admitted ::
    "'z router_libs_scheme \<Rightarrow> relay \<Rightarrow> upstream \<Rightarrow> stored_response \<Rightarrow> string option \<Rightarrow> event list \<Rightarrow> bool" where
  "admitted L r u stored nonce es \<longleftrightarrow>
     (\<exists>doc id_token header dk now claims issued_at now'.
        json_parse L (sr_body stored) = Some doc
        \<and> Option.bind (json_get doc ''id_token'') as_string = Some id_token
        \<and> decode_header L id_token = Some header \<and> h_alg header \<in> set id_token_algorithms
        \<and> upstream_key L u (h_kid header) dk es \<and> EUnixNow now \<in> set es
        \<and> jwt_decode L id_token dk (id_token_validation (h_alg header) u) now = Some claims
        \<and> (\<exists>subject. Option.bind (json_get claims ''sub'') as_string = Some subject \<and> subject \<noteq> [])
        \<and> Option.bind (json_get claims ''iat'') as_unsigned = Some issued_at
        \<and> EUnixNow now' \<in> set es \<and> issued_at \<le> now' + 60
        \<and> (\<forall>expected. nonce = Some expected \<longrightarrow> Option.bind (json_get claims ''nonce'') as_string = Some expected)
        \<and> valid_authorized_party claims (client_id u)
        \<and> valid_access_token_hash L claims doc (h_alg header)
        \<and> legacy_claims_match r claims
        \<and> (case id_token_policy r of None \<Rightarrow> True | Some policy \<Rightarrow> evaluate_policy policy claims))"

lemma path_check_claims:
  assumes "path (check_claims L r u claims doc alg nonce) es (Inr ())"
  shows "(\<exists>subject. Option.bind (json_get claims ''sub'') as_string = Some subject \<and> subject \<noteq> [])
    \<and> (\<exists>issued_at now'. Option.bind (json_get claims ''iat'') as_unsigned = Some issued_at
         \<and> EUnixNow now' \<in> set es \<and> issued_at \<le> now' + 60)
    \<and> (\<forall>expected. nonce = Some expected \<longrightarrow> Option.bind (json_get claims ''nonce'') as_string = Some expected)
    \<and> valid_authorized_party claims (client_id u) \<and> valid_access_token_hash L claims doc alg
    \<and> legacy_claims_match r claims
    \<and> (case id_token_policy r of None \<Rightarrow> True | Some policy \<Rightarrow> evaluate_policy policy claims)"
proof -
  have "t \<le> now + 60" if "\<not> as_u64 (now + 60) < t" for t now
    using that mod_less_eq_dividend [of "now + 60" "u64_max + 1"] unfolding as_u64_def by linarith
  then show ?thesis
    using assms
    by (auto simp: check_claims_def split: if_splits option.splits)
qed

lemma path_validation:
  assumes "path (validate_id_token_policy L S r u stored nonce) es (Inr ())" and "policy_applies r stored"
  shows "admitted L r u stored nonce es"
proof -
  obtain doc id_token header where d: "json_parse L (sr_body stored) = Some doc"
      "Option.bind (json_get doc ''id_token'') as_string = Some id_token"
      "decode_header L id_token = Some header" "h_alg header \<in> set id_token_algorithms"
    using assms by (auto simp: validate_id_token_policy_def split: option.splits if_splits)
  have "\<exists>ju v keys key dk now claims es1 es2 es3. path (resolve_jwks_uri L (has_policy S) r u) es1 (Inr (Some ju))
      \<and> path (cached_json L (has_policy S) (scope_of r u) ju JWKS_TTL Jwks) es2 (Inr v)
      \<and> jwkset_of L v = Some keys \<and> find_jwk keys (h_kid header) = Some key \<and> decoding_key L key = Some dk
      \<and> jwt_decode L id_token dk (id_token_validation (h_alg header) u) now = Some claims
      \<and> path (check_claims L r u claims doc (h_alg header) nonce) es3 (Inr ())
      \<and> es = es1 @ es2 @ EUnixNow now # es3"
    using assms d
    by (auto simp: validate_id_token_policy_def path_steps) blast
  then obtain ju v keys key dk now claims es1 es2 es3 where
    p: "path (resolve_jwks_uri L (has_policy S) r u) es1 (Inr (Some ju))"
      "path (cached_json L (has_policy S) (scope_of r u) ju JWKS_TTL Jwks) es2 (Inr v)"
    and k: "jwkset_of L v = Some keys" "find_jwk keys (h_kid header) = Some key" "decoding_key L key = Some dk"
    and c: "jwt_decode L id_token dk (id_token_validation (h_alg header) u) now = Some claims"
      "path (check_claims L r u claims doc (h_alg header) nonce) es3 (Inr ())"
    and es: "es = es1 @ es2 @ EUnixNow now # es3" by blast
  have "set es1 \<subseteq> set es" "set es2 \<subseteq> set es" using es by auto
  then have "upstream_key L u (h_kid header) dk es"
    using path_resolve_jwks [OF p(1)] path_cached [OF p(2)] k served_by_mono
    unfolding upstream_key_def discovered_def by blast
  moreover have "EUnixNow now \<in> set es" "set es3 \<subseteq> set es" using es by auto
  ultimately show ?thesis
    unfolding admitted_def using d c(1) path_check_claims [OF c(2)] by blast
qed

lemma upstream_key_mono: "upstream_key L u kid dk es \<Longrightarrow> set es \<subseteq> set es' \<Longrightarrow> upstream_key L u kid dk es'"
  unfolding upstream_key_def discovered_def using served_by_mono by blast

lemma admitted_mono: "admitted L r u stored nonce es \<Longrightarrow> set es \<subseteq> set es' \<Longrightarrow> admitted L r u stored nonce es'"
  unfolding admitted_def using upstream_key_mono by blast

section \<open>Redeeming a code\<close>

definition proven :: "'z libs_scheme \<Rightarrow> relay \<Rightarrow> token_request \<Rightarrow> code_envelope \<Rightarrow> bool" where
  "proven L r form envelope \<longleftrightarrow>
     (case ce_client_code_challenge envelope of
        Some challenge \<Rightarrow>
          (\<exists>v. t_code_verifier form = Some v \<and> valid_pkce_verifier v \<and> pkce_challenge L v = challenge)
      | None \<Rightarrow> t_code_verifier form = None \<and> client_auth r \<noteq> Public)"

lemma pkce_rejection_None: "pkce_rejection L r form envelope = None \<longleftrightarrow> proven L r form envelope"
  by (auto simp: pkce_rejection_def proven_def constant_eq_def split: option.splits)

definition hands_out :: "response \<Rightarrow> bool" where
  "hands_out resp \<longleftrightarrow> (\<exists>body. rs_body resp = RawBody body)"

lemma hands_out_basic [simp]:
  "\<not> hands_out (status_response st)" "\<not> hands_out (json_response st v)"
  "hands_out (add_headers hs resp) = hands_out resp" "hands_out (stored_response L stored)"
  by (simp_all add: hands_out_def status_response_def json_response_def add_headers_def stored_response_def)

lemma hands_out_errors [simp]:
  "\<not> hands_out (oauth_error st err d)" "\<not> hands_out (invalid_grant d)" "\<not> hands_out rotation_store_required"
  "\<not> hands_out sealer_unavailable" "\<not> hands_out refresh_state_unavailable"
  "\<not> hands_out upstream_request_failed" "\<not> hands_out required_claims_error"
  unfolding oauth_error_def invalid_grant_def rotation_store_required_def sealer_unavailable_def
    refresh_state_unavailable_def upstream_request_failed_def required_claims_error_def hands_out_basic(3)
  by (rule hands_out_basic)+

lemma hands_out_failed [simp]: "\<not> hands_out (substitution_failed failure)"
  by (cases failure) simp_all

lemma path_consume_refused:
  "path (consume_code L S envelope) es (Inl resp) \<Longrightarrow> \<not> hands_out resp"
  unfolding consume_code_def path_branches path_simps
  by (elim disjE exE conjE; simp split: sum.splits bool.splits)

lemma path_consume:
  assumes "path (consume_code L S envelope) es (Inr ())" and "has_store S"
  shows "\<exists>marker. EPut (code_replay_key L envelope) marker (from_secs CODE_TTL) (Inr True) \<in> set es"
proof -
  obtain marker a where es: "es = [ERandom 16 marker, EPut (code_replay_key L envelope) marker (from_secs CODE_TTL) a]"
    and r: "(case a of Inr True \<Rightarrow> Inr () | Inr False \<Rightarrow> Inl (invalid_grant ''code was already used'')
      | Inl _ \<Rightarrow> Inl (oauth_error 503 ''server_error'' ''replay protection is unavailable'')) = Inr ()"
    using assms unfolding consume_code_def by (simp only: if_not_P simp_thms path_simps) metis
  from r have "a = Inr True" by (cases a) (auto split: bool.splits)
  with es show ?thesis by simp
qed

lemma path_redeem:
  assumes "path (redeem L S r envelope adm) es resp" and "hands_out resp"
  shows "adm \<and> (has_store S \<longrightarrow>
    (\<exists>marker. EPut (code_replay_key L envelope) marker (from_secs CODE_TTL) (Inr True) \<in> set es))"
proof -
  have "\<exists>es1 es2 es3. path (consume_code L S envelope) es2 (Inr ()) \<and> es = es1 @ es2 @ es3 \<and> adm"
    using assms
    unfolding redeem_def Let_def path_bind path_branches path_simps by (auto dest: path_consume_refused)
  then obtain es1 es2 es3 where "path (consume_code L S envelope) es2 (Inr ())" and "es = es1 @ es2 @ es3" and adm
    by blast
  then show ?thesis using path_consume [of L S envelope es2] by auto
qed

lemma path_exchange:
  assumes "path (exchange_sealed_code L S r u form) es resp" and "hands_out resp"
  shows "\<exists>code plain envelope now es1 es2 (validation :: id_token_error + unit). t_code form = Some code
    \<and> code_decode L plain = Some envelope \<and> ce_relay_key envelope = r_key r
    \<and> fresh_at now (ce_issued_at envelope) CODE_TTL
    \<and> t_redirect_uri form = Some (ce_redirect_uri envelope) \<and> proven L r form envelope
    \<and> path (validate_id_token_policy L S r u (ce_upstream_response envelope) (ce_id_token_nonce envelope)) es1 validation
    \<and> path (redeem L S r envelope (validation = Inr ())) es2 resp
    \<and> es = EUnseal code (r_key r) (Inr plain) # EUnixNow now # es1 @ es2"
  using assms
  by (auto simp: exchange_sealed_code_def path_unseal_postcard path_fresh path_steps pkce_rejection_None) blast

text \<open>
  C1 The token endpoint hands out an upstream response for a code only if the code opens under the
  relay's key to an envelope of that relay that is still fresh, the redirect URI is the one the code
  was issued for, the client proves possession of the PKCE verifier (a public client always), and,
  when there is a store, the single-use marker of the code was won.
\<close>

theorem code_redemption:
  assumes "path (exchange_sealed_code L S r u form) es resp" and "rs_body resp = RawBody body"
  shows "\<exists>code plain envelope now. t_code form = Some code
    \<and> EUnseal code (r_key r) (Inr plain) \<in> set es \<and> code_decode L plain = Some envelope
    \<and> ce_relay_key envelope = r_key r
    \<and> EUnixNow now \<in> set es \<and> fresh_at now (ce_issued_at envelope) CODE_TTL
    \<and> t_redirect_uri form = Some (ce_redirect_uri envelope)
    \<and> (case ce_client_code_challenge envelope of
          Some challenge \<Rightarrow>
            \<exists>v. t_code_verifier form = Some v \<and> valid_pkce_verifier v \<and> pkce_challenge L v = challenge
        | None \<Rightarrow> t_code_verifier form = None \<and> client_auth r \<noteq> Public)
    \<and> (has_store S \<longrightarrow>
        (\<exists>marker. EPut (code_replay_key L envelope) marker (from_secs CODE_TTL) (Inr True) \<in> set es))"
proof -
  have out: "hands_out resp" using assms(2) by (simp add: hands_out_def)
  obtain code plain envelope now es1 es2 and validation :: "id_token_error + unit" where
    *: "t_code form = Some code" "code_decode L plain = Some envelope" "ce_relay_key envelope = r_key r"
    "fresh_at now (ce_issued_at envelope) CODE_TTL" "t_redirect_uri form = Some (ce_redirect_uri envelope)"
    "proven L r form envelope" "path (redeem L S r envelope (validation = Inr ())) es2 resp"
    "es = EUnseal code (r_key r) (Inr plain) # EUnixNow now # es1 @ es2"
    using path_exchange [OF assms(1) out] by blast
  then show ?thesis using path_redeem [OF *(7) out] unfolding proven_def by auto
qed

text \<open>
  C2 A relay with a policy on ID tokens answers a code with a successful upstream response only for
  an identity it admits. The response carries an ID token, signed with an asymmetric algorithm and
  the key its \<open>kid\<close> names in the key set that the JWKS URL of the upstream serves (the configured URL,
  or the one in the discovery document of the issuer), fetched by this request or cached within its
  time to live. Its signature, issuer, audience and times were checked at an instant the clock showed
  during the request; it has a subject, was not issued in the future, carries the nonce of the flow,
  names the client as authorized party, and its hash, when there is one, is that of the access token
  of the same response; its claims satisfy every required claim and the policy.
\<close>

theorem only_admitted_identities:
  assumes "path (exchange_sealed_code L S r u form) es resp" and "rs_body resp = RawBody body"
    and "required_id_token_claims r \<noteq> [] \<or> id_token_policy r \<noteq> None"
  shows "\<exists>code plain envelope. t_code form = Some code
    \<and> EUnseal code (r_key r) (Inr plain) \<in> set es \<and> code_decode L plain = Some envelope
    \<and> (is_success_status (sr_status (ce_upstream_response envelope)) \<longrightarrow>
        (\<exists>doc id_token header ju jwks_doc keys key dk now claims subject issued_at now'.
          json_parse L (sr_body (ce_upstream_response envelope)) = Some doc
          \<and> Option.bind (json_get doc ''id_token'') as_string = Some id_token
          \<and> decode_header L id_token = Some header \<and> h_alg header \<in> set id_token_algorithms
          \<and> (jwks_uri u = Some ju
             \<or> jwks_uri u = None
               \<and> (\<exists>doc. served_by L DocumentCache DISCOVERY_TTL Discovery (discovery_url L (issuer_url u)) doc es
                    \<and> url_field L doc ''jwks_uri'' = Some ju))
          \<and> served_by L DocumentCache JWKS_TTL Jwks ju jwks_doc es
          \<and> jwkset_of L jwks_doc = Some keys \<and> find_jwk keys (h_kid header) = Some key
          \<and> decoding_key L key = Some dk \<and> EUnixNow now \<in> set es
          \<and> jwt_decode L id_token dk (id_token_validation (h_alg header) u) now = Some claims
          \<and> Option.bind (json_get claims ''sub'') as_string = Some subject \<and> subject \<noteq> []
          \<and> Option.bind (json_get claims ''iat'') as_unsigned = Some issued_at
          \<and> EUnixNow now' \<in> set es \<and> issued_at \<le> now' + 60
          \<and> (\<forall>expected. ce_id_token_nonce envelope = Some expected \<longrightarrow>
                Option.bind (json_get claims ''nonce'') as_string = Some expected)
          \<and> valid_authorized_party claims (client_id u)
          \<and> valid_access_token_hash L claims doc (h_alg header)
          \<and> legacy_claims_match r claims
          \<and> (case id_token_policy r of None \<Rightarrow> True | Some policy \<Rightarrow> evaluate_policy policy claims)))"
proof -
  have out: "hands_out resp" using assms(2) by (simp add: hands_out_def)
  obtain code plain envelope now es1 es2 and validation :: "id_token_error + unit" where
    *: "t_code form = Some code" "code_decode L plain = Some envelope"
    "path (validate_id_token_policy L S r u (ce_upstream_response envelope) (ce_id_token_nonce envelope)) es1 validation"
    "path (redeem L S r envelope (validation = Inr ())) es2 resp"
    "es = EUnseal code (r_key r) (Inr plain) # EUnixNow now # es1 @ es2"
    using path_exchange [OF assms(1) out] by blast
  have "validation = Inr ()" using path_redeem [OF *(4) out] by simp
  then have "policy_applies r (ce_upstream_response envelope) \<Longrightarrow>
      admitted L r u (ce_upstream_response envelope) (ce_id_token_nonce envelope) es1"
    using path_validation *(3) by blast
  then have adm: "is_success_status (sr_status (ce_upstream_response envelope)) \<Longrightarrow>
      admitted L r u (ce_upstream_response envelope) (ce_id_token_nonce envelope) es"
    using assms(3) admitted_mono [of L r u _ _ es1 es] *(5) unfolding policy_applies_def by auto
  have "EUnseal code (r_key r) (Inr plain) \<in> set es" using *(5) by simp
  moreover note adm [unfolded admitted_def upstream_key_def discovered_def]
  ultimately show ?thesis using *(1,2) by blast
qed

section \<open>A code is redeemed once\<close>

text \<open>
  Two requests served by one store: the results of the store's conditional creations of a key are
  an interleaving of those the two requests saw.
\<close>

definition puts_on :: "string \<Rightarrow> event list \<Rightarrow> bool list" where
  "puts_on k es = concat (map (\<lambda>e. case e of EPut k' v t a \<Rightarrow> if k' = k then [a = Inr True] else [] | _ \<Rightarrow> []) es)"

definition results_on :: "string \<Rightarrow> (nat \<times> store_op) list \<Rightarrow> bool list \<Rightarrow> bool list" where
  "results_on k ops bs = map snd (filter (\<lambda>((t, op), b). is_put_on k op) (zip ops bs))"

lemma puts_on_won: "EPut k v t (Inr True) \<in> set es \<Longrightarrow> True \<in> set (puts_on k es)"
  by (force simp: puts_on_def)

lemma wins_results: "wins (is_put_on k) ops bs = length (filter id (results_on k ops bs))"
  by (simp add: wins_def results_on_def filter_map comp_def case_prod_unfold conj_commute)

lemma shuffled_wins:
  assumes "xs \<in> shuffles ys zs" and "True \<in> set ys" and "True \<in> set zs"
  shows "2 \<le> length (filter id xs)"
proof -
  have "filter id xs \<in> shuffles (filter id ys) (filter id zs)"
    using assms(1) filter_shuffles [of id ys zs] by blast
  then have "length (filter id xs) = length (filter id ys) + length (filter id zs)"
    by (rule length_shuffles)
  moreover have "0 < length (filter id ys)" "0 < length (filter id zs)"
    using assms(2,3) by (auto simp: filter_empty_conv)
  ultimately show ?thesis by linarith
qed

context transient_store
begin

text \<open>Of two requests that share a store only one wins a marker while it lives.\<close>

lemma marker_won_once:
  assumes "proper_history ops" and "in_range fits ops" and "unwritten view ops now s" and "\<forall>(t, op)\<in>set ops. now \<le> t"
    and "\<forall>(t, op)\<in>set ops. op_key op = k \<longrightarrow> is_put_on k op \<or> op = SGet k"
    and "\<forall>(t, op)\<in>set ops. \<forall>v ttl. op = SPut k v ttl \<longrightarrow> (\<forall>(t', op')\<in>set ops. t' < t + ttl)"
    and "results_on k ops (fst (exec_ops put get cas del ops s)) \<in> shuffles (puts_on k es1) (puts_on k es2)"
  shows "EPut k v1 t1 (Inr True) \<notin> set es1 \<or> EPut k v2 t2 (Inr True) \<notin> set es2"
  using put_single_winner [OF assms(1-6)] shuffled_wins [OF assms(7)] puts_on_won
  unfolding wins_results by fastforce

end

text \<open>
  C3 A code is redeemed at most once: of two requests with the same code that run at the same time
  on one store that keeps the contract of \<open>TransientStore\<close>, in whatever interleaving and among
  whatever other requests, at most one is answered with tokens, as long as the marker of the first lives.
\<close>

theorem code_used_once:
  assumes "path (exchange_sealed_code L S r u form) es resp" and "path (exchange_sealed_code L S r u form') es' resp'"
    and "t_code form = Some code" and "t_code form' = Some code" and "has_store S"
    and "\<forall>a. EUnseal code (r_key r) a \<in> set es \<union> set es' \<longrightarrow> a = Inr plain"
    and "code_decode L plain = Some envelope" and "k = code_replay_key L envelope"
    and "transient_store put get cas del view until in_clock"
    and "proper_history ops" and "in_range in_clock ops" and "unwritten view ops now s" and "\<forall>(t, op)\<in>set ops. now \<le> t"
    and "\<forall>(t, op)\<in>set ops. op_key op = k \<longrightarrow> is_put_on k op \<or> op = SGet k"
    and "\<forall>(t, op)\<in>set ops. \<forall>v ttl. op = SPut k v ttl \<longrightarrow> (\<forall>(t', op')\<in>set ops. t' < t + ttl)"
    and "results_on k ops (fst (exec_ops put get cas del ops s)) \<in> shuffles (puts_on k es) (puts_on k es')"
  shows "\<not> (hands_out resp \<and> hands_out resp')"
proof -
  have won: "\<exists>v. EPut k v (from_secs CODE_TTL) (Inr True) \<in> set xs"
    if p: "path (exchange_sealed_code L S r u f) xs y" and out: "hands_out y"
      and c: "t_code f = Some code" and e: "set xs \<subseteq> set es \<union> set es'" for f xs y
  proof -
    obtain plain' envelope' now' vs ws and validation :: "id_token_error + unit" where
      *: "code_decode L plain' = Some envelope'" "path (redeem L S r envelope' (validation = Inr ())) ws y"
      "xs = EUnseal code (r_key r) (Inr plain') # EUnixNow now' # vs @ ws"
      using path_exchange [OF p out] c by auto
    then have "envelope' = envelope" using assms(6,7) e by auto
    then show ?thesis using path_redeem [OF *(2) out] *(3) assms(5,8) by auto
  qed
  show ?thesis
    using won [OF assms(1) _ assms(3)] won [OF assms(2) _ assms(4)] transient_store.marker_won_once [OF assms(9-16)]
    by blast
qed

section \<open>The statements at concrete inputs\<close>

definition plain_relay :: relay where
  "plain_relay = demo_relay\<lparr>refresh_tokens := refresh_tokens_default\<rparr>"

definition code_form :: token_request where
  "code_form =
     \<lparr>t_grant_type = ''authorization_code'', t_code = Some ''c'', t_refresh_token = None,
      t_redirect_uri = Some ''https://app.example/cb'', t_client_id = None, t_client_secret = None,
      t_code_verifier = Some demo_challenge, t_scope = None, t_client_assertion_type = None,
      t_client_assertion = None, t_pairs = []\<rparr>"

lemma demo_proven: "pkce_rejection demo_router_libs r code_form demo_code = None"
  by (simp add: pkce_rejection_None proven_def demo_code_def code_form_def demo_challenge_def
      valid_pkce_verifier_def pkce_challenge_def byte_class_defs list_all_iff)

definition demo_key :: string where
  "demo_key = code_replay_key demo_router_libs demo_code"

lemma redeem_plain:
  "mode (refresh_tokens r) = Passthrough \<Longrightarrow>
     redeem L S r envelope True =
       bind (consume_code L S envelope) (\<lambda>rc. case rc of
         Inl resp \<Rightarrow> Ret resp | Inr _ \<Rightarrow> Ret (stored_response L (ce_upstream_response envelope)))"
  by (simp add: redeem_def Let_def)

text \<open>\<open>checks\<close> are the calls the admission of the ID token makes.\<close>

definition redemption_trace :: "event list \<Rightarrow> bytes \<Rightarrow> bool \<Rightarrow> event list" where
  "redemption_trace checks marker won =
     [EUnseal ''c'' ''app'' (Inr ''p''), EUnixNow 100] @ checks
     @ [ERandom 16 marker, EPut demo_key marker (from_secs CODE_TTL) (Inr won)]"

lemma demo_redemption:
  assumes "length marker = 16" and r: "mode (refresh_tokens r) = Passthrough" "r_key r = ''app''"
    and checks: "path (validate_id_token_policy demo_router_libs (demo_state r) r u demo_stored None) checks (Inr ())"
  shows "path (exchange_sealed_code demo_router_libs (demo_state r) r u code_form)
    (redemption_trace checks marker won)
    (if won then stored_response demo_router_libs demo_stored else invalid_grant ''code was already used'')"
    (is "path _ _ ?resp")
proof -
  have facts: "rotation_store_missing (demo_state r) r = False"
    "ce_relay_key demo_code = ''app''" "ce_upstream_response demo_code = demo_stored" "ce_id_token_nonce demo_code = None"
    "fresh_at 100 (ce_issued_at demo_code) CODE_TTL" "t_code code_form = Some ''c''"
    "t_redirect_uri code_form = Some (ce_redirect_uri demo_code)" "has_store (demo_state r)"
    by (simp_all add: rotation_store_missing_def r demo_state_def demo_code_def fresh_at_def CODE_TTL_def
        saturating_add_def saturating_sub_def u64_max_def code_form_def)
  have consumed: "path (consume_code demo_router_libs (demo_state r) demo_code)
      [ERandom 16 marker, EPut demo_key marker (from_secs CODE_TTL) (Inr won)]
      (if won then Inr () else Inl (invalid_grant ''code was already used''))"
    using assms facts by (simp add: consume_code_def demo_key_def)
  have redeemed: "path (redeem demo_router_libs (demo_state r) r demo_code True)
      ([ERandom 16 marker, EPut demo_key marker (from_secs CODE_TTL) (Inr won)] @ []) ?resp"
    unfolding redeem_plain [OF r(1)]
    by (rule path_bindI [OF consumed]) (simp add: facts)
  have opened: "path (unseal_postcard (code_decode demo_router_libs) ''app'' ''c'')
      [EUnseal ''c'' ''app'' (Inr ''p'')] (Inr demo_code)"
    by (simp add: path_unseal_postcard)
  have "path (exchange_sealed_code demo_router_libs (demo_state r) r u code_form)
      ([EUnseal ''c'' ''app'' (Inr ''p'')] @ [EUnixNow 100] @ checks @
        [ERandom 16 marker, EPut demo_key marker (from_secs CODE_TTL) (Inr won)] @ []) ?resp"
    unfolding exchange_sealed_code_def facts r if_False option.case
    apply (rule path_bindI [OF opened])
    apply (simp only: sum.case facts if_True simp_thms)
    apply (rule path_bindI [where x = True])
     apply (simp add: path_fresh facts)
    apply (simp only: simp_thms if_False demo_proven option.case not_True_eq_False facts)
    apply (rule path_bindI [OF checks])
    apply (use redeemed in simp)
    done
  then show ?thesis by (simp add: redemption_trace_def)
qed

lemma plain_redemption:
  "length marker = 16 \<Longrightarrow> path (exchange_sealed_code demo_router_libs (demo_state plain_relay) plain_relay demo_upstream code_form)
    (redemption_trace [] marker won)
    (if won then stored_response demo_router_libs demo_stored else invalid_grant ''code was already used'')"
  by (rule demo_redemption) (simp_all add: plain_relay_def refresh_tokens_default_def demo_relay_def
      validate_id_token_policy_def policy_applies_def)

theorem code_redemption_witness:
  "\<exists>envelope marker. EPut (code_replay_key demo_router_libs envelope) marker (from_secs CODE_TTL) (Inr True)
     \<in> set (redemption_trace [] (replicate 16 (CHR ''m'')) True)"
proof -
  have "has_store (demo_state plain_relay)" by (simp add: demo_state_def)
  then show ?thesis
    using code_redemption [OF plain_redemption [of "replicate 16 (CHR ''m'')" True], of "''body''"]
    by (fastforce simp: stored_response_def demo_stored_def)
qed

definition gated_relay :: relay where
  "gated_relay = plain_relay\<lparr>required_id_token_claims := [(''hd'', ''example.com'')]\<rparr>"

definition keyed_upstream :: upstream where
  "keyed_upstream = demo_upstream\<lparr>jwks_uri := Some (demo_url ''https://idp.example/keys'')\<rparr>"

definition admission_checks :: "event list" where
  "admission_checks =
     [ECacheGet DocumentCache (cache_key Jwks (demo_url ''https://idp.example/keys'')) (Some \<lparr>fetched = 0, cached_value = JNull\<rparr>),
      EInstantNow 0, EUnixNow 100, EUnixNow 100]"

lemma admission_path:
  "path (validate_id_token_policy demo_router_libs (demo_state gated_relay) gated_relay keyed_upstream demo_stored None)
     admission_checks (Inr ())"
  by (simp add: validate_id_token_policy_def policy_applies_def gated_relay_def plain_relay_def demo_relay_def
      demo_stored_def is_success_status_def id_token_algorithms_def keyed_upstream_def resolve_jwks_uri_def
      Outbound.cached_json_def cached_json_with_client_def cache_lookup_def Let_def JWKS_TTL_def from_secs_def
      admission_checks_def find_jwk_def check_claims_def as_u64_def u64_max_def demo_claims_def valid_authorized_party_def
      valid_access_token_hash_def legacy_claims_match_def)

theorem only_admitted_identities_witness:
  "\<exists>doc id_token header dk now claims. json_parse demo_router_libs (sr_body demo_stored) = Some doc
    \<and> Option.bind (json_get doc ''id_token'') as_string = Some id_token
    \<and> decode_header demo_router_libs id_token = Some header
    \<and> jwt_decode demo_router_libs id_token dk (id_token_validation (h_alg header) keyed_upstream) now = Some claims
    \<and> legacy_claims_match gated_relay claims"
proof -
  have "path (exchange_sealed_code demo_router_libs (demo_state gated_relay) gated_relay keyed_upstream code_form)
      (redemption_trace admission_checks (replicate 16 (CHR ''m'')) True) (stored_response demo_router_libs demo_stored)"
    using demo_redemption [OF _ _ _ admission_path, of "replicate 16 (CHR ''m'')" True]
    by (simp add: gated_relay_def plain_relay_def refresh_tokens_default_def demo_relay_def)
  from only_admitted_identities [OF this, of "''body''"] show ?thesis
    by (fastforce simp: stored_response_def demo_stored_def gated_relay_def demo_code_def is_success_status_def)
qed

definition demo_marks :: "(nat \<times> store_op) list" where
  "demo_marks =
     [(1, SPut demo_key (replicate 16 (CHR ''m'')) (from_secs CODE_TTL)),
      (2, SPut demo_key (replicate 16 (CHR ''n'')) (from_secs CODE_TTL))]"

lemma demo_marks_proper: "proper_history demo_marks" "unwritten memory_view demo_marks 0 (memory_new 0)"
  by (auto simp: proper_history_def demo_marks_def valid_op_def validate_key_def validate_ttl_def demo_key_def
      code_replay_key_def REPLAY_CODE_PREFIX_def demo_code_def CODE_TTL_def from_secs_def
      MAX_KEY_BYTES_def unwritten_def memory_view_def memory_new_def split: if_splits)

theorem code_used_once_witness:
  "\<not> (hands_out (stored_response demo_router_libs demo_stored) \<and> hands_out (invalid_grant ''code was already used''))"
proof -
  have "results_on demo_key demo_marks (fst (exec_ops memory_put_if_absent memory_get memory_compare_and_swap
      memory_delete demo_marks (memory_new 0))) = [True, False]"
    by (simp add: demo_marks_def results_on_def memory_put_if_absent_def validate_key_def validate_ttl_def demo_key_def
        code_replay_key_def REPLAY_CODE_PREFIX_def demo_code_def CODE_TTL_def from_secs_def MAX_KEY_BYTES_def
        memory_new_def memory_lock_def MEMORY_SWEEP_INTERVAL_def)
  moreover have "path (exchange_sealed_code demo_router_libs (demo_state plain_relay) plain_relay demo_upstream code_form)
      (redemption_trace [] (replicate 16 (CHR ''m'')) True) (stored_response demo_router_libs demo_stored)"
    using plain_redemption [of "replicate 16 (CHR ''m'')" True] by simp
  moreover have "path (exchange_sealed_code demo_router_libs (demo_state plain_relay) plain_relay demo_upstream code_form)
      (redemption_trace [] (replicate 16 (CHR ''n'')) False) (invalid_grant ''code was already used'')"
    using plain_redemption [of "replicate 16 (CHR ''n'')" False] by simp
  ultimately show ?thesis
    by (intro code_used_once [where plain = "''p''" and envelope = demo_code and code = "''c''" and k = demo_key
          and ops = demo_marks and now = "0" and s = "memory_new 0" and r = plain_relay
          and es = "redemption_trace [] (replicate 16 (CHR ''m'')) True"
          and es' = "redemption_trace [] (replicate 16 (CHR ''n'')) False"
          and form = code_form and form' = code_form and S = "demo_state plain_relay"
          and L = demo_router_libs and u = demo_upstream, OF _ _ _ _ _ _ _ _ memory.transient_store_axioms
          demo_marks_proper(1) in_range_always demo_marks_proper(2)])
      (simp_all add: redemption_trace_def puts_on_def code_form_def demo_state_def
        plain_relay_def demo_relay_def demo_marks_def from_secs_def CODE_TTL_def demo_key_def [symmetric])
qed

section \<open>Where single use ends\<close>

text \<open>
  A code stays fresh until \<open>CODE_TTL\<close> seconds after the whole second it was issued in, and its marker
  lives \<open>CODE_TTL\<close> from its redemption, with sub-second precision. A code redeemed in the second
  it was issued in is still fresh for the rest of the second in which its marker expires.
\<close>

definition replay_machine :: "unit machine" where
  "replay_machine = demo_machine\<lparr>unseal_with := (\<lambda>_ _. Inr ''p'')\<rparr>"

lemma run_plain_exchange:
  assumes "fresh_at (now_ns w div 1000000000) 100 CODE_TTL"
  shows "run replay_machine (exchange_sealed_code demo_router_libs (demo_state plain_relay) plain_relay demo_upstream code_form) w =
    (case memory_put_if_absent (now_ns w) demo_key (draw replay_machine (draws w) 16) (from_secs CODE_TTL) (mem w) of
       (a, st) \<Rightarrow>
         (if a = Inr True then stored_response demo_router_libs demo_stored
          else if a = Inr False then invalid_grant ''code was already used''
          else oauth_error 503 ''server_error'' ''replay protection is unavailable'',
          w\<lparr>draws := draws w + 1, mem := st\<rparr>))"
proof -
  have facts: "rotation_store_missing (demo_state plain_relay) plain_relay = False"
    "mode (refresh_tokens plain_relay) = Passthrough" "r_key plain_relay = ''app''"
    "ce_relay_key demo_code = ''app''" "ce_upstream_response demo_code = demo_stored" "ce_issued_at demo_code = 100"
    "t_code code_form = Some ''c''" "t_redirect_uri code_form = Some (ce_redirect_uri demo_code)"
    "has_store (demo_state plain_relay)" "\<not> policy_applies plain_relay demo_stored"
    by (simp_all add: rotation_store_missing_def plain_relay_def refresh_tokens_default_def demo_relay_def
        demo_state_def demo_code_def code_form_def policy_applies_def)
  have "run replay_machine (unseal_postcard (code_decode demo_router_libs) x y) v = (Inr demo_code, v)" for x y v
    by (simp add: unseal_postcard_def replay_machine_def ok_or_def)
  then show ?thesis
    using assms facts
    by (simp add: exchange_sealed_code_def run_bind fresh_def demo_proven validate_id_token_policy_def redeem_plain
        consume_code_def demo_key_def Let_def split: prod.split sum.split bool.split)
qed

definition replay_world :: "unit world" where
  "replay_world = (demo_world Map.empty)\<lparr>now_ns := 100200000000\<rparr>"

text \<open>
  C40 The single-use marker of a code does not outlive the code: a code issued at second 100 and
  redeemed 0.2 seconds later is redeemed a second time 300.3 seconds after that.
\<close>

theorem code_outlives_its_marker:
  "\<exists>resp w'. run replay_machine (exchange_sealed_code demo_router_libs (demo_state plain_relay) plain_relay demo_upstream code_form)
       replay_world = (resp, w') \<and> hands_out resp
     \<and> hands_out (fst (run replay_machine
         (exchange_sealed_code demo_router_libs (demo_state plain_relay) plain_relay demo_upstream code_form)
         (w'\<lparr>now_ns := 400500000000\<rparr>)))"
proof -
  have first: "fresh_at (now_ns replay_world div 1000000000) 100 CODE_TTL"
    by (simp add: replay_world_def fresh_at_def CODE_TTL_def saturating_add_def saturating_sub_def u64_max_def)
  have key: "validate_key demo_key = Inr ()"
    by (simp add: validate_key_def demo_key_def code_replay_key_def REPLAY_CODE_PREFIX_def demo_code_def MAX_KEY_BYTES_def)
  have second: "fresh_at (now_ns (w\<lparr>now_ns := 400500000000\<rparr>) div 1000000000) 100 CODE_TTL" for w :: "unit world"
    by (simp add: fresh_at_def CODE_TTL_def saturating_add_def saturating_sub_def u64_max_def)
  show ?thesis
    unfolding run_plain_exchange [OF first] run_plain_exchange [OF second]
    by (simp add: replay_world_def demo_world_def memory_put_if_absent_def key validate_ttl_def CODE_TTL_def
        from_secs_def memory_lock_def retain_live_def MEMORY_SWEEP_INTERVAL_def run_plain_exchange [OF second])
qed

end
