(* ===== verification/Endpoints.thy ===== *)
theory Endpoints
  imports Admission
begin

text \<open>
  The endpoints around a login: where the browser is sent, what is asked of the upstream, who may
  ask the token endpoint for anything, and which relays are served at all.
\<close>

section \<open>Where the browser is sent\<close>

lemma path_seal_postcard:
  assumes "path (seal_postcard key encoded) es (Inr sealed)"
  shows "\<exists>plain. encoded = Some plain \<and> ESeal plain key (Inr sealed) \<in> set es"
proof -
  obtain plain a es' where p: "encoded = Some plain" "es = ESeal plain key a # es'"
    and r: "path (case a of Inr v \<Rightarrow> Ret (Inr v) | Inl SealerDown \<Rightarrow> Ret (Inl (503 :: nat)) | Inl _ \<Rightarrow> Ret (Inl 500)) es' (Inr sealed)"
    using assms by (auto simp: seal_postcard_def split: option.splits)
  from r have "a = Inr sealed" by (cases a) (auto split: seal_error.splits)
  with p show ?thesis by simp
qed

lemma found_location:
  "(''location'', v) \<in> set (rs_headers (found L w)) \<longleftrightarrow> header_valid L w \<and> v = w"
  by (auto simp: found_def status_response_def)

lemma status_location [simp]: "rs_headers (status_response st) = []"
  by (simp add: status_response_def)

text \<open>
  Adding query parameters to a redirect URI starts a query or goes on with the one it has, so it
  changes nothing before it, in particular neither host nor path.
\<close>

definition only_query_added :: "string \<Rightarrow> string \<Rightarrow> bool" where
  "only_query_added w v \<longleftrightarrow>
     (\<exists>rest. v = w @ rest \<and> (rest = [] \<or> CHR ''?'' \<in> set w \<or> hd rest = CHR ''?''))"

lemma only_query_added_refl [simp]: "only_query_added w w"
  by (simp add: only_query_added_def)

lemma append_query_pairs_added: "only_query_added w v \<Longrightarrow> only_query_added w (append_query_pairs L v ps)"
  by (auto simp: only_query_added_def append_query_pairs_def hd_append)

lemma append_state_added: "only_query_added w v \<Longrightarrow> only_query_added w (append_state L v st)"
  by (auto simp: append_state_def intro: append_query_pairs_added split: option.split)

lemmas redirects_added = append_state_added append_query_pairs_added only_query_added_refl

text \<open>An endpoint of the upstream: the configured one, or else the one its discovery document names.\<close>

definition upstream_endpoint ::
    "'z libs_scheme \<Rightarrow> upstream \<Rightarrow> url option \<Rightarrow> string \<Rightarrow> url \<Rightarrow> event list \<Rightarrow> bool" where
  "upstream_endpoint L u configured name endpoint es \<longleftrightarrow>
     configured = Some endpoint
     \<or> configured = None \<and> (\<exists>doc. discovered L u doc es \<and> url_field L doc name = Some endpoint)"

lemma upstream_endpoint_mono:
  "upstream_endpoint L u configured name endpoint es \<Longrightarrow> set es \<subseteq> set es' \<Longrightarrow>
     upstream_endpoint L u configured name endpoint es'"
  unfolding upstream_endpoint_def discovered_def using served_by_mono by blast

lemma endpoints_from_doc:
  assumes "resolve_endpoints_from_doc L u doc = Inr e"
  shows "e_authorization_endpoint e = the (or_else (authorization_endpoint u) (url_field L doc ''authorization_endpoint''))"
    and "or_else (authorization_endpoint u) (url_field L doc ''authorization_endpoint'') \<noteq> None"
    and "e_token_endpoint e = the (or_else (token_endpoint u) (url_field L doc ''token_endpoint''))"
    and "or_else (token_endpoint u) (url_field L doc ''token_endpoint'') \<noteq> None"
  using assms
  by (auto simp: resolve_endpoints_from_doc_def bind_result_Inr_iff ok_or_def split: option.splits)

lemma path_resolve_endpoints:
  assumes "path (resolve_endpoints L policy r u) es (Inr e)"
  shows "upstream_endpoint L u (authorization_endpoint u) ''authorization_endpoint'' (e_authorization_endpoint e) es"
    and "upstream_endpoint L u (token_endpoint u) ''token_endpoint'' (e_token_endpoint e) es"
proof -
  consider "\<not> endpoints_need_discovery u" "resolve_endpoints_from_doc L u (JObject []) = Inr e"
    | doc where "discovered L u doc es" "resolve_endpoints_from_doc L u doc = Inr e"
  proof (cases "endpoints_need_discovery u")
    case True
    then obtain doc where "path (cached_json L policy (scope_of r u) (discovery_url L (issuer_url u)) DISCOVERY_TTL Discovery)
        es (Inr doc)" and "resolve_endpoints_from_doc L u doc = Inr e"
      using assms by (auto simp: resolve_endpoints_def path_bindE)
    then show thesis using that(2) path_cached unfolding discovered_def by blast
  qed (use assms that in \<open>simp add: resolve_endpoints_def\<close>)
  then have "upstream_endpoint L u (authorization_endpoint u) ''authorization_endpoint'' (e_authorization_endpoint e) es
    \<and> upstream_endpoint L u (token_endpoint u) ''token_endpoint'' (e_token_endpoint e) es"
  proof cases
    case 1
    then show ?thesis using endpoints_from_doc [OF 1(2)]
      by (auto simp: upstream_endpoint_def endpoints_need_discovery_def or_else_def)
  next
    case 2
    then show ?thesis using endpoints_from_doc [OF 2(2)]
      by (auto simp: upstream_endpoint_def or_else_def split: option.splits)
  qed
  then show "upstream_endpoint L u (authorization_endpoint u) ''authorization_endpoint'' (e_authorization_endpoint e) es"
    and "upstream_endpoint L u (token_endpoint u) ''token_endpoint'' (e_token_endpoint e) es" by simp_all
qed

lemma callback_relay_Some:
  "callback_relay L S u flow = Some r \<Longrightarrow>
     resolve_relay S (f_relay_key flow) = Inr (Some r) \<and> r_upstream r = u_key u
     \<and> is_ok (relay_validate_for L r (redirect_opts S))
     \<and> redirect_allowed L r (f_app_redirect_uri flow) (redirect_opts S)"
  by (auto simp: callback_relay_def split: sum.splits option.splits if_splits
      dest!: iffD1 [OF resource_key_segments])

text \<open>The envelope a code is sealed from, for a login whose code exchange \<open>reply\<close> answered.\<close>

definition issued_envelope ::
    "'z libs_scheme \<Rightarrow> relay \<Rightarrow> upstream \<Rightarrow> flow_envelope \<Rightarrow> bytes \<Rightarrow> nat \<Rightarrow> stored_response \<Rightarrow> code_envelope" where
  "issued_envelope L r u flow ident now stored =
     \<lparr>ce_relay_key = r_key r, ce_envelope_id = ident, ce_issued_at = now,
      ce_redirect_uri = f_app_redirect_uri flow, ce_client_code_challenge = f_client_code_challenge flow,
      ce_id_token_nonce = f_id_token_nonce flow, ce_upstream_response = stored,
      ce_handle_fingerprint = fingerprint L r u\<rparr>"

text \<open>What the callback asks the upstream for the code it was given.\<close>

definition exchange_form :: "'z libs_scheme \<Rightarrow> app_state \<Rightarrow> upstream \<Rightarrow> flow_envelope \<Rightarrow> string \<Rightarrow> (string \<times> string) list" where
  "exchange_form L S u flow code =
     [(''grant_type'', ''authorization_code''), (''code'', code),
      (''redirect_uri'', as_str (endpoint_url L S Callback (u_key u))),
      (''code_verifier'', f_upstream_pkce_verifier flow)]"

lemma path_callback_exchange:
  assumes "path (callback_exchange L S u r flow q code) es resp" and "rs_headers resp \<noteq> []"
  shows "\<exists>endpoint reply stored ident now plain sealed.
      upstream_endpoint L u (token_endpoint u) ''token_endpoint'' endpoint es
    \<and> EExecute (upstream_token_request L u endpoint (exchange_form L S u flow code)) (Some reply) \<in> set es
    \<and> \<not> is_redirection (res_status reply) \<and> read_upstream_response reply = Some stored
    \<and> ERandom 16 ident \<in> set es \<and> EUnixNow now \<in> set es
    \<and> code_encode L (issued_envelope L r u flow ident now stored) = Some plain
    \<and> ESeal plain (r_key r) (Inr sealed) \<in> set es
    \<and> resp = found L (append_state L (append_query_pairs L
        (append_query_pairs L (f_app_redirect_uri flow) [(''code'', sealed)]) (c_forwarded q)) (f_app_state flow))"
proof -
  obtain es1 es2 es3 es4 endpoints reply stored ident now sealed where
    e: "path (resolve_endpoints L (has_policy S) r u) es1 (Inr endpoints)"
    and x: "path (send_upstream_token_request L (has_policy S) r u (e_token_endpoint endpoints)
        (exchange_form L S u flow code) TokenExchange) es2 (Inr reply)"
    and stored: "read_upstream_response reply = Some stored"
    and sealed: "path (seal_postcard (r_key r) (code_encode L (issued_envelope L r u flow ident now stored))) es3 (Inr sealed)"
    and es: "es = es1 @ es2 @ ERandom 16 ident # EUnixNow now # es3 @ es4"
    and resp: "resp = found L (append_state L (append_query_pairs L
        (append_query_pairs L (f_app_redirect_uri flow) [(''code'', sealed)]) (c_forwarded q)) (f_app_state flow))"
    using assms
    by (auto simp: callback_exchange_def path_steps Let_def exchange_form_def [symmetric] issued_envelope_def [symmetric])
  have "upstream_endpoint L u (token_endpoint u) ''token_endpoint'' (e_token_endpoint endpoints) es"
    by (rule upstream_endpoint_mono [OF path_resolve_endpoints(2) [OF e]]) (auto simp: es)
  moreover have "EExecute (upstream_token_request L u (e_token_endpoint endpoints) (exchange_form L S u flow code)) (Some reply)
      \<in> set es" "\<not> is_redirection (res_status reply)"
    using path_send_checked [OF x [unfolded send_upstream_token_request_def]] es by auto
  moreover obtain plain where "code_encode L (issued_envelope L r u flow ident now stored) = Some plain"
      "ESeal plain (r_key r) (Inr sealed) \<in> set es"
    using path_seal_postcard [OF sealed] es by auto
  moreover have "ERandom 16 ident \<in> set es" "EUnixNow now \<in> set es" using es by auto
  ultimately show ?thesis using resp stored by blast
qed

text \<open>
  C11 The callback sends the browser only back to the application, and with nothing but this login's
  result. The state must open under the upstream's key to a flow that is still fresh, of a relay that
  still exists, is valid, belongs to this upstream and allows the redirect URI the flow recorded.
  The location is that redirect URI with query parameters added, which are: the upstream's error, or
  else one code, then the parameters that came along and the application's own state. The code is
  sealed under the relay's key, from an envelope with this relay's key, a fresh identifier, the time,
  the flow's redirect URI, challenge and nonce, and the upstream's answer to the token request that was
  sent for the code in this request, with the flow's own verifier, to the token endpoint of the upstream.
\<close>

theorem callback_redirects:
  assumes "path (callback L S u q) es resp" and "(''location'', v) \<in> set (rs_headers resp)"
  shows "\<exists>plain flow now r. EUnseal (c_state q) (u_key u) (Inr plain) \<in> set es
    \<and> flow_decode L plain = Some flow \<and> EUnixNow now \<in> set es \<and> fresh_at now (f_issued_at flow) FLOW_TTL
    \<and> resolve_relay S (f_relay_key flow) = Inr (Some r) \<and> r_upstream r = u_key u
    \<and> is_ok (relay_validate_for L r (redirect_opts S))
    \<and> redirect_allowed L r (f_app_redirect_uri flow) (redirect_opts S)
    \<and> only_query_added (f_app_redirect_uri flow) v
    \<and> (if c_error q
       then v = append_state L (append_query_pairs L (f_app_redirect_uri flow) (c_forwarded q)) (f_app_state flow)
       else \<exists>code endpoint reply stored ident issued_at plain sealed. c_code q = Some code
          \<and> upstream_endpoint L u (token_endpoint u) ''token_endpoint'' endpoint es
          \<and> EExecute (upstream_token_request L u endpoint
               [(''grant_type'', ''authorization_code''), (''code'', code),
                (''redirect_uri'', as_str (endpoint_url L S Callback (u_key u))),
                (''code_verifier'', f_upstream_pkce_verifier flow)]) (Some reply) \<in> set es
          \<and> read_upstream_response reply = Some stored
          \<and> ERandom 16 ident \<in> set es \<and> EUnixNow issued_at \<in> set es
          \<and> code_encode L
              \<lparr>ce_relay_key = r_key r, ce_envelope_id = ident, ce_issued_at = issued_at,
               ce_redirect_uri = f_app_redirect_uri flow, ce_client_code_challenge = f_client_code_challenge flow,
               ce_id_token_nonce = f_id_token_nonce flow, ce_upstream_response = stored,
               ce_handle_fingerprint = fingerprint L r u\<rparr> = Some plain
          \<and> ESeal plain (r_key r) (Inr sealed) \<in> set es
          \<and> v = append_state L (append_query_pairs L
              (append_query_pairs L (f_app_redirect_uri flow) [(''code'', sealed)]) (c_forwarded q)) (f_app_state flow))"
proof -
  obtain plain flow now r es' where
    *: "flow_decode L plain = Some flow" "fresh_at now (f_issued_at flow) FLOW_TTL" "callback_relay L S u flow = Some r"
    "es = EUnseal (c_state q) (u_key u) (Inr plain) # EUnixNow now # es'"
    and to: "if c_error q
      then resp = found L (append_state L (append_query_pairs L (f_app_redirect_uri flow) (c_forwarded q)) (f_app_state flow))
      else \<exists>code. c_code q = Some code \<and> path (callback_exchange L S u r flow q code) es' resp"
    using assms
    by (auto simp: callback_def path_unseal_postcard path_fresh path_steps split: if_splits)
  have es: "set es' \<subseteq> set es" "EUnseal (c_state q) (u_key u) (Inr plain) \<in> set es" "EUnixNow now \<in> set es"
    using *(4) by auto
  show ?thesis
  proof (cases "c_error q")
    case True
    then have "v = append_state L (append_query_pairs L (f_app_redirect_uri flow) (c_forwarded q)) (f_app_state flow)"
      using to assms(2) by (simp add: found_location)
    then show ?thesis using True es * callback_relay_Some [OF *(3)] redirects_added by (metis (no_types, lifting))
  next
    case False
    then obtain code where code: "c_code q = Some code" "path (callback_exchange L S u r flow q code) es' resp"
      using to by auto
    have "rs_headers resp \<noteq> []" using assms(2) by auto
    from path_callback_exchange [OF code(2) this] obtain endpoint reply stored ident issued_at bs sealed where
      x: "upstream_endpoint L u (token_endpoint u) ''token_endpoint'' endpoint es'"
      "EExecute (upstream_token_request L u endpoint (exchange_form L S u flow code)) (Some reply) \<in> set es'"
      "read_upstream_response reply = Some stored" "ERandom 16 ident \<in> set es'" "EUnixNow issued_at \<in> set es'"
      "code_encode L (issued_envelope L r u flow ident issued_at stored) = Some bs"
      "ESeal bs (r_key r) (Inr sealed) \<in> set es'"
      "resp = found L (append_state L (append_query_pairs L
        (append_query_pairs L (f_app_redirect_uri flow) [(''code'', sealed)]) (c_forwarded q)) (f_app_state flow))"
      by blast
    have v: "v = append_state L (append_query_pairs L
        (append_query_pairs L (f_app_redirect_uri flow) [(''code'', sealed)]) (c_forwarded q)) (f_app_state flow)"
      using x(8) assms(2) by (simp add: found_location)
    then have "only_query_added (f_app_redirect_uri flow) v" by (simp only: redirects_added)
    moreover note x(2,6) [unfolded exchange_form_def issued_envelope_def]
    moreover note upstream_endpoint_mono [OF x(1) es(1)]
    ultimately show ?thesis
      unfolding if_not_P [OF False]
      using code(1) es v x(3,4,5,7) *(1,2) callback_relay_Some [OF *(3)] by blast
  qed
qed

text \<open>
  C12 The authorize endpoint sends the browser to the upstream only if the request passed every
  check: a store exists if the relay rotates refresh tokens, the redirect URI is allowed, the challenge
  method, if any, is \<open>S256\<close> and comes with a challenge, a public client has a challenge, a challenge is
  well formed, and the scopes asked for are allowed. It goes to the upstream's authorization endpoint,
  the configured one or the one its discovery document names, and what it carries is the relay's own:
  the state is the sealed flow, which records exactly the client's redirect URI, state, challenge and
  nonce, and the challenge is that of a verifier drawn for this flow.
\<close>

theorem authorize_redirects:
  assumes "path (authorize L S r u q) es resp" and "(''location'', v) \<in> set (rs_headers resp)"
  shows "\<exists>redirect flow plain sealed verifier now nonce endpoint.
      (mode (refresh_tokens r) = Rotating \<longrightarrow> has_store S)
    \<and> a_redirect_uri q = Some redirect \<and> redirect_allowed L r redirect (redirect_opts S)
    \<and> (\<forall>m. a_code_challenge_method q = Some m \<longrightarrow> m = ''S256'' \<and> a_code_challenge q \<noteq> None)
    \<and> (case a_code_challenge q of None \<Rightarrow> client_auth r \<noteq> Public | Some c \<Rightarrow> valid_pkce_challenge c)
    \<and> (case a_scope q of None \<Rightarrow> True | Some sc \<Rightarrow> scope_allowed r sc)
    \<and> upstream_endpoint L u (authorization_endpoint u) ''authorization_endpoint'' endpoint es
    \<and> ERandom 64 verifier \<in> set es \<and> EUnixNow now \<in> set es \<and> ERandom 16 nonce \<in> set es
    \<and> flow = \<lparr>f_relay_key = r_key r, f_app_redirect_uri = redirect, f_app_state = a_state q,
         f_upstream_pkce_verifier = b64url_encode L verifier, f_client_code_challenge = a_code_challenge q,
         f_client_code_challenge_method = map_option (\<lambda>_. ''S256'') (a_code_challenge q),
         f_id_token_nonce = a_id_token_nonce q, f_issued_at = now, f_nonce = nonce\<rparr>
    \<and> flow_encode L flow = Some plain \<and> ESeal plain (u_key u) (Inr sealed) \<in> set es
    \<and> v = as_str (url_append_pairs L endpoint
        ([(''response_type'', ''code''), (''client_id'', client_id u),
          (''redirect_uri'', as_str (endpoint_url L S Callback (u_key u))), (''state'', sealed),
          (''code_challenge'', pkce_challenge L (b64url_encode L verifier)), (''code_challenge_method'', ''S256'')]
         @ (case a_scope q of
              Some sc \<Rightarrow> [(''scope'', sc)]
            | None \<Rightarrow> if scopes r = [] then [] else [(''scope'', join '' '' (scopes r))])
         @ a_forwarded q))"
proof -
  obtain redirect sc where ok: "authorize_checks L S r q = Inr (redirect, sc)"
    using assms by (cases "authorize_checks L S r q") (auto simp: authorize_def)
  then have checks: "mode (refresh_tokens r) = Rotating \<longrightarrow> has_store S"
      "a_redirect_uri q = Some redirect" "redirect_allowed L r redirect (redirect_opts S)"
      "\<forall>m. a_code_challenge_method q = Some m \<longrightarrow> m = ''S256'' \<and> a_code_challenge q \<noteq> None"
      "case a_code_challenge q of None \<Rightarrow> client_auth r \<noteq> Public | Some c \<Rightarrow> valid_pkce_challenge c"
      "case a_scope q of None \<Rightarrow> True | Some sc \<Rightarrow> scope_allowed r sc"
      "(case sc of None \<Rightarrow> [] | Some x \<Rightarrow> [(''scope'', x)]) =
        (case a_scope q of
              Some sc \<Rightarrow> [(''scope'', sc)]
            | None \<Rightarrow> if scopes r = [] then [] else [(''scope'', join '' '' (scopes r))])"
    by (cases "a_scope q"; cases "a_code_challenge q"; cases "a_code_challenge_method q";
        auto simp: authorize_checks_def rotation_store_missing_def split: if_splits option.splits)+
  define flow where "flow verifier now nonce =
        \<lparr>f_relay_key = r_key r, f_app_redirect_uri = redirect, f_app_state = a_state q,
         f_upstream_pkce_verifier = b64url_encode L verifier, f_client_code_challenge = a_code_challenge q,
         f_client_code_challenge_method = map_option (\<lambda>_. ''S256'') (a_code_challenge q),
         f_id_token_nonce = a_id_token_nonce q, f_issued_at = now, f_nonce = nonce\<rparr>" for verifier now nonce
  obtain es1 verifier now nonce es2 sealed and endpoints :: resolved_endpoints where
    e: "path (resolve_endpoints L (has_policy S) r u) es1 (Inr endpoints)"
    and sealed: "path (seal_postcard (u_key u) (flow_encode L (flow verifier now nonce))) es2 (Inr sealed)"
    and es: "es = es1 @ ERandom 64 verifier # EUnixNow now # ERandom 16 nonce # es2"
    and resp: "resp = found L (as_str (url_append_pairs L (e_authorization_endpoint endpoints)
        ([(''response_type'', ''code''), (''client_id'', client_id u),
          (''redirect_uri'', as_str (endpoint_url L S Callback (u_key u))), (''state'', sealed),
          (''code_challenge'', pkce_challenge L (b64url_encode L verifier)), (''code_challenge_method'', ''S256'')]
         @ (case sc of None \<Rightarrow> [] | Some x \<Rightarrow> [(''scope'', x)]) @ a_forwarded q)))"
    using assms ok
    by (auto simp: authorize_def path_steps Let_def random_urlsafe_def flow_def [symmetric]) blast?
  have "upstream_endpoint L u (authorization_endpoint u) ''authorization_endpoint'' (e_authorization_endpoint endpoints) es"
    by (rule upstream_endpoint_mono [OF path_resolve_endpoints(1) [OF e]]) (auto simp: es)
  moreover obtain plain where "flow_encode L (flow verifier now nonce) = Some plain" "ESeal plain (u_key u) (Inr sealed) \<in> set es"
    using path_seal_postcard [OF sealed] es by auto
  moreover have "ERandom 64 verifier \<in> set es" "EUnixNow now \<in> set es" "ERandom 16 nonce \<in> set es" using es by auto
  moreover have "v = as_str (url_append_pairs L (e_authorization_endpoint endpoints)
        ([(''response_type'', ''code''), (''client_id'', client_id u),
          (''redirect_uri'', as_str (endpoint_url L S Callback (u_key u))), (''state'', sealed),
          (''code_challenge'', pkce_challenge L (b64url_encode L verifier)), (''code_challenge_method'', ''S256'')]
         @ (case a_scope q of
              Some sc \<Rightarrow> [(''scope'', sc)]
            | None \<Rightarrow> if scopes r = [] then [] else [(''scope'', join '' '' (scopes r))])
         @ a_forwarded q))"
    using assms(2) unfolding resp found_location checks(7) by (rule conjunct2)
  ultimately show ?thesis
    using checks(1-6) flow_def [of verifier now nonce] by blast
qed

section \<open>What a refresh sends to the upstream\<close>

text \<open>The guarantee that every request sent satisfies \<open>F\<close>.\<close>

definition only :: "(http_request \<Rightarrow> bool) \<Rightarrow> event list \<Rightarrow> event \<Rightarrow> bool" where
  "only F h e \<longleftrightarrow> (case e of EExecute q a \<Rightarrow> F q | _ \<Rightarrow> True)"

lemma only_about: "about_requests (only F)"
proof -
  have "only F h e" if "\<not> is_execute e" for h e using that by (cases e) (simp_all add: only_def)
  then show ?thesis by (simp add: about_requests_def monotone_guarantee_def only_def)
qed

lemma only_send:
  assumes "F req"
  shows "guarded (only F) (send_checked policy req purpose sc)"
  using assms by (auto simp: guarded_def send_checked_def Let_def only_def split: option.split)

lemma only_fetches: "(\<And>u t. F (get_request u t)) \<Longrightarrow> fetches (only F) policy"
  by (simp add: fetches_def only_about only_send)

lemma only_send_refresh:
  assumes "\<And>u t. F (get_request u t)"
    and "\<And>endpoint. F (upstream_token_request L u endpoint (refresh_form (t_pairs form) tok))"
  shows "guarded (only F) (send_upstream_refresh L S r u form tok)"
  using guarded_endpoints(1) [OF only_fetches [of F, OF assms(1)]] assms(2)
  by (auto simp: send_upstream_refresh_def send_upstream_token_request_def intro!: guarded_compose only_send
      split: sum.split)

lemma guarded_only: "guarded (only F) p \<Longrightarrow> path p es x \<Longrightarrow> EExecute q a \<in> set es \<Longrightarrow> F q"
  using guarded_path [of "only F" p es x]
  by (fastforce simp: guaranteed_def only_def dest!: split_list)

lemma upstream_form:
  "req_form (upstream_token_request L u endpoint form) =
     form @ (case token_endpoint_auth_method u of
       ClientSecretPost \<Rightarrow> [(''client_id'', client_id u), (''client_secret'', client_secret u)]
     | ClientSecretBasic \<Rightarrow> [])"
  by (simp add: upstream_token_request_def split: token_endpoint_auth_method.split)

lemma get_form [simp]: "req_form (get_request u t) = []"
  by (simp add: get_request_def)

lemma refresh_form_names:
  "(name, v) \<in> set (refresh_form pairs tok) \<Longrightarrow> name \<notin> set client_credential_names"
  by (auto simp: refresh_form_def split: option.splits if_splits)

text \<open>
  C17 The credentials a client authenticates with are never sent on: in every mode, whatever the
  client put into its refresh request, a client identifier, secret or assertion in a request to the
  upstream is the relay's own.
\<close>

theorem client_credentials_stay:
  assumes "path (refresh polls L S r u form) es resp" and "EExecute q a \<in> set es"
    and "(name, v) \<in> set (req_form q)" and "name \<in> set client_credential_names"
  shows "(name, v) \<in> {(''client_id'', client_id u), (''client_secret'', client_secret u)}"
proof -
  let ?F = "\<lambda>q. \<forall>(name, v)\<in>set (req_form q). name \<in> set client_credential_names \<longrightarrow>
    (name, v) \<in> {(''client_id'', client_id u), (''client_secret'', client_secret u)}"
  have "guarded (only ?F) (send_upstream_refresh L S r u form tok)" for tok
    by (rule only_send_refresh)
      (auto simp: upstream_form dest: refresh_form_names split: token_endpoint_auth_method.splits)
  then have "refreshes (only ?F) L S r u form" by (simp add: refreshes_def only_about)
  from guarded_only [OF guarded_refresh [OF this] assms(1,2)] show ?thesis using assms(3,4) by blast
qed

lemma unique_value:
  "distinct (filter P (map fst pairs)) \<Longrightarrow> P n \<Longrightarrow> (n, v) \<in> set pairs \<Longrightarrow> map_of pairs n = Some v"
proof (induction pairs)
  case (Cons x pairs)
  then show ?case by (cases x) (auto simp: image_iff split: if_splits)
qed simp

text \<open>
  What is known of the refresh token \<open>v\<close> of a request to the upstream from the calls \<open>h\<close> before it:
  it is the token of the sealed handle that was presented, opened for this relay and upstream.
\<close>

definition opened_token ::
    "'z handle_libs_scheme \<Rightarrow> handle_binding \<Rightarrow> string \<Rightarrow> string \<Rightarrow> event list \<Rightarrow> bool" where
  "opened_token L b presented v h \<longleftrightarrow>
     (\<exists>envelope plain handle. presented = HANDLE_PREFIX @ envelope
        \<and> EUnseal envelope (associated_data b) (Inr plain) \<in> set h
        \<and> handle_decode L plain = Some handle \<and> v = h_upstream_token handle)"

lemma opened_token_mono: "opened_token L b presented v h \<Longrightarrow> set h \<subseteq> set h' \<Longrightarrow> opened_token L b presented v h'"
  unfolding opened_token_def by blast

lemma path_open_handle:
  assumes "path (open_handle L b presented) es (Inr handle)"
  shows "opened_token L b presented (h_upstream_token handle) es"
proof -
  obtain envelope a es' where e: "presented = HANDLE_PREFIX @ envelope" "es = EUnseal envelope (associated_data b) a # es'"
    and r: "path (case a of Inl err \<Rightarrow> Ret (Inl (handle_error_from err))
      | Inr plaintext \<Rightarrow> Ret (ok_or HandleInvalid (handle_decode L plaintext))) es' (Inr handle)"
    using assms by (auto simp: open_handle_def strip_prefix_Some split: option.splits)
  then obtain plain where "a = Inr plain" "handle_decode L plain = Some handle"
    by (cases a) (auto simp: ok_or_def split: option.splits)
  with e show ?thesis unfolding opened_token_def by auto
qed

text \<open>The guarantee that a refresh token is sent only when \<open>K\<close> is known of it.\<close>

definition sends_known :: "(string \<Rightarrow> event list \<Rightarrow> bool) \<Rightarrow> event list \<Rightarrow> event \<Rightarrow> bool" where
  "sends_known K h e \<longleftrightarrow>
     (\<forall>q a v. e = EExecute q a \<longrightarrow> (''refresh_token'', v) \<in> set (req_form q) \<longrightarrow> K v h)"

definition grows :: "(string \<Rightarrow> event list \<Rightarrow> bool) \<Rightarrow> bool" where
  "grows K \<longleftrightarrow> (\<forall>v h h'. K v h \<longrightarrow> set h \<subseteq> set h' \<longrightarrow> K v h')"

lemma grows_append: "grows K \<Longrightarrow> K v h \<Longrightarrow> K v (h @ es)"
  unfolding grows_def by (metis Un_upper1 set_append)

lemma sends_known_other [simp]: "\<not> is_execute e \<Longrightarrow> sends_known K h e"
  by (auto simp: sends_known_def)

lemma sends_known_about: "grows K \<Longrightarrow> about_requests (sends_known K)"
  unfolding about_requests_def monotone_guarantee_def sends_known_def grows_def
  by (intro conjI allI impI; (erule is_execute.elims)?) (blast | simp)+

text \<open>A refresher that sends the token it is given.\<close>

lemma refresh_form_token: "(''refresh_token'', v) \<in> set (refresh_form pairs (Some tok)) \<Longrightarrow> v = tok"
  by (auto simp: refresh_form_def split: if_splits)

lemma sends_only_given:
  "guarded (only (\<lambda>q. \<forall>v. (''refresh_token'', v) \<in> set (req_form q) \<longrightarrow> v = tok)) (send_upstream_refresh L S r u form (Some tok))"
  by (rule only_send_refresh)
    (auto simp: upstream_form dest: refresh_form_token split: token_endpoint_auth_method.splits)

lemma only_sends_known:
  assumes "grows K" and "K tok h"
    and "guarded (only (\<lambda>q. \<forall>v. (''refresh_token'', v) \<in> set (req_form q) \<longrightarrow> v = tok)) p"
  shows "wp (sends_known K) p h (\<lambda>_ _. True)"
proof -
  have "sends_known K (h @ es) e"
    if "only (\<lambda>q. \<forall>v. (''refresh_token'', v) \<in> set (req_form q) \<longrightarrow> v = tok) (h @ es) e" for es e
    using that assms(1,2) unfolding sends_known_def grows_def only_def by auto
  then show ?thesis
    using assms(3) unfolding guarded_def wp_iff guaranteed_def by blast
qed

lemma refresher_sends_known:
  assumes "grows K"
  shows "refresher_ok (sends_known K) K (upstream_refresh_request L S r u form)"
  unfolding refresher_ok_def
proof (intro allI impI)
  fix d tok h
  assume "K tok h"
  moreover have "guarded (only (\<lambda>q. \<forall>v. (''refresh_token'', v) \<in> set (req_form q) \<longrightarrow> v = tok))
      (timeout d (upstream_refresh_request L S r u form tok))"
    unfolding upstream_refresh_request_def
    using only_about [unfolded about_requests_def]
    by (intro guarded_timeout guarded_bindE sends_only_given) auto
  ultimately show "wp (sends_known K) (timeout d (upstream_refresh_request L S r u form tok)) h (\<lambda>_ _. True)"
    by (rule only_sends_known [OF assms])
qed

lemma timeout_open_known:
  assumes "\<And>v h. opened_token L b presented v h \<Longrightarrow> K v h"
  shows "wp (sends_known K) (timeout d (open_handle L b presented)) []
    (\<lambda>r h. \<forall>handle. r = Some (Inr handle) \<longrightarrow> K (h_upstream_token handle) h)"
proof (cases "strip_prefix HANDLE_PREFIX presented")
  case (Some envelope)
  have "K (h_upstream_token handle) (EUnseal envelope (associated_data b) (Inr plain) # es)"
    if "handle_decode L plain = Some handle" for plain handle es
    using Some that by (intro assms) (auto simp: opened_token_def strip_prefix_Some)
  then show ?thesis
    using Some by (auto simp: open_handle_def ok_or_def split: sum.splits option.splits)
qed (simp add: open_handle_def)

lemma open_known:
  assumes "\<And>v h. opened_token L b presented v h \<Longrightarrow> K v h"
  shows "wp (sends_known K) (open_handle L b presented) []
    (\<lambda>r h. \<forall>handle. r = Inr handle \<longrightarrow> K (h_upstream_token handle) h)"
proof -
  have "wp (sends_known K) (open_handle L b presented) [] (\<lambda>_ _. True)"
    by (auto simp: open_handle_def split: option.split sum.split)
  then show ?thesis
    unfolding wp_iff by (auto intro!: assms path_open_handle)
qed

lemma sealed_handle_sends_known:
  assumes "grows K" and "\<And>v h. opened_token L (binding R) presented v h \<Longrightarrow> K v h"
  shows "wp (sends_known K) (refresh_sealed_handle L R (upstream_refresh_request L S r u form) presented) [] (\<lambda>_ _. True)"
proof -
  note permits = about_requests_permits [OF sends_known_about [OF assms(1)]]
  have family: "wp (sends_known K) (create_family L R handle tok) h Q" if "\<And>r es. Q r (h @ es)" for Q handle tok h
    by (rule wp_create_family [OF permits]) (simp add: that)
  have ask: "wp (sends_known K) (ask_upstream R (upstream_refresh_request L S r u form) tok) h Q"
    if "\<And>r es. Q r (h @ es)" and "K tok h" for Q tok h
    by (rule wp_ask_upstream [OF refresher_sends_known [OF assms(1)] that(2)]) (simp_all add: that)
  have opened: "wp (sends_known K) (timeout d (open_handle L (binding R) presented)) []
      (\<lambda>r h. \<forall>handle. r = Some (Inr handle) \<longrightarrow> K (h_upstream_token handle) h)" for d
    by (rule timeout_open_known) (simp_all add: assms(2))
  show ?thesis
    unfolding refresh_sealed_handle_def wp_bind
    by (rule wp_mono [OF opened])
      (auto simp: migrate_family_def Let_def new_handle_def intro!: ask family grows_append [OF assms(1)]
        split: option.split sum.split handle_error.split)
qed

lemma passthrough_sends:
  assumes "parse_token_request L body = Some form" and "t_refresh_token form = Some presented"
    and "mode (refresh_tokens r) = Passthrough"
    and "path (refresh polls L S r u form) es resp" and "EExecute q a \<in> set es"
    and "(''refresh_token'', v) \<in> set (req_form q)"
  shows "v = presented \<and> \<not> has_handle_prefix v"
proof -
  let ?F = "\<lambda>q. \<forall>v. (''refresh_token'', v) \<in> set (req_form q) \<longrightarrow> v = presented"
  have value_of: "v' = presented" if "(''refresh_token'', v') \<in> set (t_pairs form)" for v'
  proof -
    have "distinct (filter (\<lambda>n. n \<in> set token_parameters) (map fst (t_pairs form)))"
      and "map_of (t_pairs form) ''refresh_token'' = Some presented"
      using token_request_fields [OF assms(1)] assms(2) by simp_all
    then show ?thesis
      using unique_value [of "\<lambda>n. n \<in> set token_parameters" "t_pairs form" "''refresh_token''" v'] that
      by (simp add: token_parameters_def)
  qed
  have "\<not> has_handle_prefix presented"
    using assms(2-5) by (auto simp: refresh_def refresh_without_state_def)
  moreover have "guarded (only ?F) (send_upstream_refresh L S r u form None)"
    by (rule only_send_refresh)
      (use value_of in \<open>auto simp: upstream_form refresh_form_def split: token_endpoint_auth_method.splits\<close>)
  then have "guarded (only ?F) (refresh polls L S r u form)"
    using assms(2,3)
    by (auto simp: refresh_def refresh_without_state_def Let_def intro!: guarded_compose
        split: option.split sum.split)
  ultimately show ?thesis using guarded_only [OF _ assms(4,5), of ?F] assms(6) by blast
qed

lemma sealed_sends_known:
  assumes "t_refresh_token form = Some presented" and "mode (refresh_tokens r) = Sealed"
  shows "wp (sends_known (opened_token L (binding_new L r u) presented)) (refresh polls L S r u form) [] (\<lambda>_ _. True)"
proof -
  let ?K = "opened_token L (binding_new L r u) presented"
  have K: "grows ?K" unfolding grows_def using opened_token_mono by blast
  note about = sends_known_about [OF K]
  have sent: "wp (sends_known ?K) (send_upstream_refresh L S r u form (Some tok)) h (\<lambda>_ _. True)" if "?K tok h" for tok h
    by (rule only_sends_known [OF K that sends_only_given])
  have answer: "wp (sends_known ?K) (answer_sealed L b reply) h (\<lambda>_ _. True)" for b reply h
    using about by (intro guarded_wp) (auto simp: answer_sealed_def intro!: request_rules split: option.split)
  have rest: "wp (sends_known ?K)
      (case map_sum id (\<lambda>h. Some (h_upstream_token h)) x of
         Inl HandleSealerUnavailable \<Rightarrow> Ret sealer_unavailable
       | Inl HandleInvalid \<Rightarrow> Ret (invalid_grant ''invalid refresh token'')
       | Inr upstream_token \<Rightarrow>
           (case scope_rejection r form of
              Some rejection \<Rightarrow> Ret rejection
            | None \<Rightarrow>
                bind (send_upstream_refresh L S r u form upstream_token) (\<lambda>sent.
                  case sent of
                    Inl failure \<Rightarrow> Ret (upstream_failure_response failure)
                  | Inr reply \<Rightarrow> if True then answer_sealed L (binding_new L r u) reply
                      else Ret (proxy_response reply)))) h (\<lambda>_ _. True)"
    if "\<forall>handle. x = Inr handle \<longrightarrow> ?K (h_upstream_token handle) h" for x h
    using that
    by (cases x) (auto simp: answer intro!: wp_mono [OF sent] split: handle_error.split option.split sum.split)
  show ?thesis
    using assms
    by (simp add: refresh_def refresh_without_state_def Let_def)
      (rule wp_mono [OF open_known rest])
qed

lemma rotating_sends_known:
  fixes L :: "'z rotation_libs_scheme" and u :: upstream
  assumes "t_refresh_token form = Some presented" and "mode (refresh_tokens r) = Rotating"
  defines "R \<equiv> rotator_new (binding_new L r u) (refresh_tokens r)"
  shows "wp (sends_known (\<lambda>v h. if starts_with HANDLE_PREFIX presented then opened_token L (binding_new L r u) presented v h
      else claimed_for L R (handle_key L R presented) v h)) (refresh polls L S r u form) [] (\<lambda>_ _. True)"
proof -
  let ?K = "\<lambda>v h. if starts_with HANDLE_PREFIX presented then opened_token L (binding_new L r u) presented v h
      else claimed_for L R (handle_key L R presented) v h"
  have K: "grows ?K" unfolding grows_def by (auto intro: opened_token_mono claimed_for_mono)
  have R: "binding R = binding_new L r u" by (simp add: R_def rotator_new_def)
  have "wp (sends_known ?K) (rotator_refresh polls L R (upstream_refresh_request L S r u form) presented) [] (\<lambda>_ _. True)"
  proof (cases "starts_with HANDLE_PREFIX presented")
    case True
    then have "wp (sends_known ?K) (refresh_sealed_handle L R (upstream_refresh_request L S r u form) presented) [] (\<lambda>_ _. True)"
      by (intro sealed_handle_sends_known [OF K]) (simp_all add: R)
    then show ?thesis using True by (simp add: rotator_refresh_def)
  next
    case False
    then have "wp (sends_known ?K) (refresh_rotating polls L R (upstream_refresh_request L S r u form) presented) [] (\<lambda>_ _. True)"
      by (intro wp_mono [OF wp_refresh_rotating [OF about_requests_permits [OF sends_known_about [OF K]]
            refresher_sends_known [OF K]]]) simp_all
    then show ?thesis using False by (simp add: rotator_refresh_def)
  qed
  then show ?thesis
    using assms(1,2)
    by (simp add: refresh_def refresh_with_rotator_def rotator_for_def R_def [symmetric] if_bool_eq_conj split: option.split)
qed

text \<open>
  C18 What the upstream is sent as a refresh token is the token the client is entitled to, in every
  mode. A relay that passes refresh tokens through sends the presented one, and nothing that looks
  like a handle of the relay: a handle left over from another mode is refused. A relay that seals
  them sends the token of the presented handle, opened under the binding of this relay and upstream.
  A relay that rotates them does the same for a sealed handle, and for a handle of its own sends the
  token of the handle's record, after the claim on that record was won.
\<close>

theorem handles_not_forwarded:
  assumes "parse_token_request L body = Some form" and "t_refresh_token form = Some presented"
    and "path (refresh polls L S r u form) es resp" and "es = pre @ EExecute q a # post"
    and "(''refresh_token'', v) \<in> set (req_form q)"
  shows "case mode (refresh_tokens r) of
      Passthrough \<Rightarrow> v = presented \<and> \<not> has_handle_prefix v
    | Sealed \<Rightarrow> opened_token L (binding_new L r u) presented v pre
    | Rotating \<Rightarrow>
        if starts_with HANDLE_PREFIX presented then opened_token L (binding_new L r u) presented v pre
        else let R = rotator_new (binding_new L r u) (refresh_tokens r)
             in claimed_for L R (handle_key L R presented) v pre"
proof -
  have known: "K v pre" if "wp (sends_known K) (refresh polls L S r u form) [] (\<lambda>_ _. True)" for K
    using wp_pathD(1) [OF that assms(3)] assms(4,5) by (auto simp: guaranteed_def sends_known_def)
  show ?thesis
  proof (cases "mode (refresh_tokens r)")
    case Passthrough
    have "EExecute q a \<in> set es" using assms(4) by simp
    from passthrough_sends [OF assms(1,2) Passthrough assms(3) this assms(5)] show ?thesis using Passthrough by auto
  next
    case Sealed
    then show ?thesis using known [OF sealed_sends_known [OF assms(2) Sealed]] by simp
  next
    case Rotating
    then show ?thesis using known [OF rotating_sends_known [OF assms(2) Rotating]] by (simp add: Let_def)
  qed
qed

end
