(* ===== verification/Clients.thy ===== *)
theory Clients
  imports Endpoints
begin

text \<open>
  Clients and the dispatcher: who is authenticated, that an assertion is used once and its marker
  outlives it, that every request is answered, that only valid relays are served, and what the
  discovery document of a relay says.
\<close>

section \<open>Client authentication\<close>

lemma map_sum_Inr: "map_sum f g x = Inr y \<longleftrightarrow> (\<exists>z. x = Inr z \<and> g z = y)"
  by (cases x) auto

lemma some_map_option: "Some y = map_option f x \<Longrightarrow> \<exists>z. x = Some z \<and> y = f z"
  by (cases x) auto

lemma bind_Some_iff: "Option.bind x f = Some y \<longleftrightarrow> (\<exists>z. x = Some z \<and> f z = Some y)"
  by (cases x) auto

lemma path_check_times:
  "path (check_times claims leeway names) es (Inr ()) \<Longrightarrow> name \<in> set names \<Longrightarrow> json_get claims name = Some v \<Longrightarrow>
     \<exists>t now. as_unsigned v = Some t \<and> EUnixNow now \<in> set es \<and> t \<le> saturating_add now leeway"
proof (induction names arbitrary: es)
  case (Cons n names)
  then show ?case by (auto simp: path_branches not_less split: option.splits) (meson list.set_intros(2))+
qed simp

lemma path_consume_assertion:
  assumes "path (consume_assertion L S issuer subject audience claims leeway) es (Inr ())"
  shows "has_store S \<and> (\<exists>expires_at jti identity now marker. single_use_claims claims = Some (expires_at, jti)
    \<and> tuple_json L [issuer, subject, audience, jti] = Some identity
    \<and> EUnixNow now \<in> set es
    \<and> EPut (assertion_replay_key L identity) marker (from_secs (assertion_ttl expires_at leeway now)) (Inr True) \<in> set es)"
  using assms
  by (auto simp: consume_assertion_def split: option.splits prod.splits if_splits)

text \<open>
  The key set \<open>keys\<close> was served by the JWKS URL \<open>u\<close> of a client: it is the cached one, less than
  \<open>JWKS_TTL\<close> old, or \<open>u\<close> was asked and answered with it.
\<close>

definition serves_keys :: "'z router_libs_scheme \<Rightarrow> url \<Rightarrow> jwk list \<Rightarrow> event list \<Rightarrow> bool" where
  "serves_keys L u ks es \<longleftrightarrow>
     (\<exists>entry now. ECacheGet AssertionJwks (as_str u) (Some entry) \<in> set es \<and> EInstantNow now \<in> set es
        \<and> now - fetched entry < JWKS_TTL \<and> jwkset_of L (cached_value entry) = Some ks)
     \<or> (\<exists>reply body doc. EExecute (get_request u None) (Some reply) \<in> set es \<and> res_url reply = u
          \<and> is_success_status (res_status reply) \<and> res_body reply = Some body
          \<and> json_parse L body = Some doc \<and> jwkset_of L doc = Some ks)"

text \<open>
  The key sets of a client: the configured one, the one its configured URL serves, or the one that
  the URL in the discovery document of its issuer serves, when that document names the issuer.
\<close>

definition client_keys ::
    "'z router_libs_scheme \<Rightarrow> string \<Rightarrow> client_jwks option \<Rightarrow> jwk list \<Rightarrow> event list \<Rightarrow> bool" where
  "client_keys L issuer source ks es \<longleftrightarrow>
     (case source of
        Some (JwksInline v) \<Rightarrow> jwkset_of L v = Some ks
      | Some (JwksUrl u) \<Rightarrow> serves_keys L u ks es
      | None \<Rightarrow>
          (\<exists>iu doc u. url_parse L issuer = Some iu \<and> valid_discovery_url iu
             \<and> served_by L AssertionMetadata DISCOVERY_TTL ClientAssertionMetadata (discovery_url L iu) doc es
             \<and> Option.bind (json_get doc ''issuer'') as_string = Some issuer
             \<and> url_field L doc ''jwks_uri'' = Some u \<and> valid_discovery_url u \<and> serves_keys L u ks es))"

lemma serves_keys_mono: "serves_keys L u ks es \<Longrightarrow> set es \<subseteq> set es' \<Longrightarrow> serves_keys L u ks es'"
  unfolding serves_keys_def by blast

lemma client_keys_mono:
  "client_keys L issuer source ks es \<Longrightarrow> set es \<subseteq> set es' \<Longrightarrow> client_keys L issuer source ks es'"
  unfolding client_keys_def
  by (auto split: option.splits client_jwks.splits intro: serves_keys_mono) (meson serves_keys_mono served_by_mono)

lemma path_current_jwks:
  assumes "path (current_jwks L (as_str u)) es (Some ks)"
  shows "serves_keys L u ks es"
proof -
  obtain hit where hit: "path (cache_lookup AssertionJwks (as_str u) JWKS_TTL) es hit"
    and ks: "Some ks = Option.bind hit (\<lambda>entry. jwkset_of L (cached_value entry))"
    using assms by (auto simp: current_jwks_def path_bind)
  from ks obtain entry where "hit = Some entry" "jwkset_of L (cached_value entry) = Some ks" by (cases hit) auto
  then show ?thesis using path_cache_lookup [of AssertionJwks _ _ es entry] hit unfolding serves_keys_def by blast
qed

lemma get_url [simp]: "req_url (get_request u t) = u"
  by (simp add: get_request_def)

lemma path_fetch_jwks:
  assumes "path (fetch_jwks L policy sc u prev forced) es (Inr ks)"
  shows "serves_keys L u ks es"
proof -
  obtain sent es1 es2 es3 where sent: "path (send_checked policy (get_request u None) ClientAssertionJwks sc) es2 sent"
    and es: "es = es1 @ es2 @ es3"
    and rest: "path (case sent of
         Inl Denied \<Rightarrow> bind (set_retry (as_str u) prev) (\<lambda>_. Ret (Inl ()))
       | Inl SendFailed \<Rightarrow> Ret (Inl ())
       | Inr reply \<Rightarrow>
           (case read_jwks L reply of
              None \<Rightarrow> Ret (Inl ())
            | Some (doc, keys) \<Rightarrow>
                bind (cache_store AssertionJwks (as_str u) doc) (\<lambda>_.
                bind (if forced then Ret () else set_retry (as_str u) None) (\<lambda>_. Ret (Inr keys))))) es3 (Inr ks)"
    using assms unfolding fetch_jwks_def path_bind path_simps by (metis append_Cons append.assoc)
  obtain reply doc where "sent = Inr reply" and "read_jwks L reply = Some (doc, ks)"
  proof (cases sent)
    case (Inl e)
    then show thesis using rest by (cases e) (auto simp: path_bind)
  next
    case (Inr reply)
    then show thesis using rest that by (cases "read_jwks L reply") (auto simp: path_bind)
  qed
  then have "serves_keys L u ks es2"
    using path_send_checked [of policy "get_request u None" ClientAssertionJwks sc es2 reply] sent
    by (fastforce simp: serves_keys_def read_jwks_def bind_Some_iff split: if_splits)
  then show ?thesis by (rule serves_keys_mono) (auto simp: es)
qed

lemma path_client_jwks:
  assumes "path (client_assertion_jwks L policy sc u missing) es (Inr ks)"
  shows "serves_keys L u ks es"
proof -
  obtain current es1 es2 where c: "path (current_jwks L (as_str u)) es1 current" and es: "es = es1 @ es2"
    and rest: "path (if (case current of
             None \<Rightarrow> False
           | Some keys \<Rightarrow> (case missing of None \<Rightarrow> True | Some kid \<Rightarrow> find_jwk keys (Some kid) \<noteq> None))
       then Ret (ok_or () current)
       else CacheGet AssertionRetry (as_str u) (\<lambda>retry_after.
         bind (case retry_after of
                 None \<Rightarrow> Ret False
               | Some t \<Rightarrow> InstantNow (\<lambda>now. Ret (now < fetched t))) (\<lambda>throttled.
           if throttled then Ret (ok_or () current)
           else fetch_jwks L policy sc u retry_after (current \<noteq> None)))) es2 (Inr ks)"
    using assms unfolding client_assertion_jwks_def path_bind [of "current_jwks L _"] by (elim exE conjE) (rule that)
  have "current = Some ks \<or> (\<exists>es4 prev forced. path (fetch_jwks L policy sc u prev forced) es4 (Inr ks) \<and> set es4 \<subseteq> set es2)"
    using rest unfolding path_branches(3)
  proof (elim disjE conjE)
    assume "path (CacheGet AssertionRetry (as_str u) (\<lambda>retry_after.
         bind (case retry_after of
                 None \<Rightarrow> Ret False
               | Some t \<Rightarrow> InstantNow (\<lambda>now. Ret (now < fetched t))) (\<lambda>throttled.
           if throttled then Ret (ok_or () current)
           else fetch_jwks L policy sc u retry_after (current \<noteq> None)))) es2 (Inr ks)"
    then obtain retry es3 es4 throttled where
      "path (if throttled then Ret (ok_or () current) else fetch_jwks L policy sc u retry (current \<noteq> None)) es4 (Inr ks)"
      and "es2 = (ECacheGet AssertionRetry (as_str u) retry # es3) @ es4"
      by (auto simp: path_bind)
    moreover from this have "set es4 \<subseteq> set es2" by auto
    ultimately show ?thesis by (cases throttled) (auto simp: ok_or_def split: option.splits)
  qed (auto simp: ok_or_def split: option.splits)
  then show ?thesis
  proof
    assume "current = Some ks"
    then have "serves_keys L u ks es1" using path_current_jwks c by blast
    then show ?thesis by (rule serves_keys_mono) (auto simp: es)
  next
    assume "\<exists>es4 prev forced. path (fetch_jwks L policy sc u prev forced) es4 (Inr ks) \<and> set es4 \<subseteq> set es2"
    then obtain es4 where f: "serves_keys L u ks es4" "set es4 \<subseteq> set es2" using path_fetch_jwks by blast
    from f(1) show ?thesis by (rule serves_keys_mono) (use f(2) es in auto)
  qed
qed

lemma path_assertion_keys:
  assumes "path (assertion_jwks_url L policy sc issuer source) es1 (Inr remote)"
    and "path (assertion_keys L policy sc source remote kid) es2 (Inr ks)"
  shows "client_keys L issuer source ks (es1 @ es2)"
proof -
  have remote: "serves_keys L u ks (es1 @ es2)" if "remote = Some u" for u
  proof -
    have "\<exists>es3 missing. path (client_assertion_jwks L policy sc u missing) es3 (Inr ks) \<and> set es3 \<subseteq> set es2"
      using assms(2) that by (cases kid) (fastforce simp: assertion_keys_def path_bindE path_branches(3))+
    then obtain es3 where f: "serves_keys L u ks es3" "set es3 \<subseteq> set es2" using path_client_jwks by blast
    from f(1) show ?thesis by (rule serves_keys_mono) (use f(2) in auto)
  qed
  show ?thesis
  proof (cases source)
    case None
    then obtain iu doc u where iu: "url_parse L issuer = Some iu" "valid_discovery_url iu"
      and d: "path (cached_json_with_client L AssertionMetadata policy sc (discovery_url L iu) DISCOVERY_TTL
          ClientAssertionMetadata) es1 (Inr doc)"
      and u: "remote = Some u" "Option.bind (json_get doc ''issuer'') as_string = Some issuer"
        "url_field L doc ''jwks_uri'' = Some u" "valid_discovery_url u"
    proof -
      obtain iu rd where iu: "url_parse L issuer = Some iu" "valid_discovery_url iu"
        and d: "path (cached_json_with_client L AssertionMetadata policy sc (discovery_url L iu) DISCOVERY_TTL
          ClientAssertionMetadata) es1 rd"
        and r: "(case rd of
                   Inl _ \<Rightarrow> Inl ()
                 | Inr doc \<Rightarrow>
                     if Option.bind (json_get doc ''issuer'') as_string \<noteq> Some issuer then Inl ()
                     else (case url_field L doc ''jwks_uri'' of
                             None \<Rightarrow> Inl ()
                           | Some ju \<Rightarrow> if valid_discovery_url ju then Inr (Some ju) else Inl ())) = Inr remote"
        using assms(1) None
        by (cases "url_parse L issuer") (auto simp: assertion_jwks_url_def path_bind path_branches(3))
      from r obtain doc where "rd = Inr doc" by (cases rd) auto
      moreover from this r obtain ju where "url_field L doc ''jwks_uri'' = Some ju" by (auto split: option.splits if_splits)
      ultimately show thesis using that [OF iu, of doc ju] d r by (simp split: if_splits)
    qed
    have "served_by L AssertionMetadata DISCOVERY_TTL ClientAssertionMetadata (discovery_url L iu) doc (es1 @ es2)"
      by (rule served_by_mono [OF path_cached_with_client [OF d]]) simp
    then show ?thesis using None iu u remote unfolding client_keys_def by auto
  next
    case (Some src)
    then show ?thesis
      using assms remote
      by (cases src) (auto simp: client_keys_def assertion_jwks_url_def assertion_keys_def ok_or_def split: option.splits)
  qed
qed

lemma single_use_claims_Some:
  "single_use_claims claims = Some (expires_at, jti) \<longleftrightarrow>
     (\<exists>issued_at. Option.bind (json_get claims ''iat'') as_unsigned = Some issued_at
        \<and> Option.bind (json_get claims ''exp'') as_unsigned = Some expires_at
        \<and> Option.bind (json_get claims ''jti'') as_string = Some jti
        \<and> jti \<noteq> [] \<and> issued_at < expires_at \<and> expires_at - issued_at \<le> 300)"
  unfolding single_use_claims_def bind_Some_iff by (auto split: if_splits)

text \<open>
  C13 A client assertion is accepted only if it is signed with an asymmetric algorithm and the key its
  \<open>kid\<close> names in the key set of the client: the configured one, the one its configured URL serves, or
  the one found through the discovery document of its issuer. The signature was checked at an instant
  the clock showed during the request; the assertion names the configured issuer and subject and the
  relay's audience, and neither its \<open>iat\<close> nor its \<open>nbf\<close> lies in the future by more than the leeway of a
  minute. Where the relay asks for single use, it also lives for at most five minutes, and its marker
  was won in the store, which keeps it for as long as the assertion could be accepted.
\<close>

theorem client_assertion_verified:
  assumes "path (verify_private_key_jwt L S rk audience issuer subject source assertion single_use) es (Inr ())"
  shows "\<exists>header ks key dk now claims. decode_header L assertion = Some header
    \<and> h_alg header \<in> set client_assertion_algorithms
    \<and> client_keys L issuer source ks es \<and> find_jwk ks (h_kid header) = Some key \<and> decoding_key L key = Some dk
    \<and> EUnixNow now \<in> set es \<and> jwt_decode L assertion dk (assertion_validation (h_alg header)) now = Some claims
    \<and> Option.bind (json_get claims ''iss'') as_string = Some issuer
    \<and> Option.bind (json_get claims ''sub'') as_string = Some subject
    \<and> audience_ok claims audience
    \<and> (\<forall>name v. name \<in> {''iat'', ''nbf''} \<and> json_get claims name = Some v \<longrightarrow>
         (\<exists>t now. as_unsigned v = Some t \<and> EUnixNow now \<in> set es \<and> t \<le> saturating_add now 60))
    \<and> (single_use \<longrightarrow> has_store S \<and> (\<exists>issued_at expires_at jti identity now marker.
         Option.bind (json_get claims ''iat'') as_unsigned = Some issued_at
         \<and> Option.bind (json_get claims ''exp'') as_unsigned = Some expires_at
         \<and> Option.bind (json_get claims ''jti'') as_string = Some jti \<and> jti \<noteq> []
         \<and> issued_at < expires_at \<and> expires_at - issued_at \<le> 300
         \<and> tuple_json L [issuer, subject, audience, jti] = Some identity \<and> EUnixNow now \<in> set es
         \<and> EPut (assertion_replay_key L identity) marker (from_secs (assertion_ttl expires_at 60 now)) (Inr True) \<in> set es))"
proof -
  obtain header remote ks key dk now claims es1 es2 es3 where
    *: "decode_header L assertion = Some header" "h_alg header \<in> set client_assertion_algorithms"
    "find_jwk ks (h_kid header) = Some key" "decoding_key L key = Some dk"
    "jwt_decode L assertion dk (assertion_validation (h_alg header)) now = Some claims"
    and keys: "path (assertion_jwks_url L (has_policy S) \<lparr>scope_relay = rk, scope_upstream = None\<rparr> issuer source) es1 (Inr remote)"
    "path (assertion_keys L (has_policy S) \<lparr>scope_relay = rk, scope_upstream = None\<rparr> source remote (h_kid header)) es2 (Inr ks)"
    and check: "path (check_assertion L S audience issuer subject claims 60 single_use) es3 (Inr ())"
    and es: "es = es1 @ es2 @ EUnixNow now # es3"
    using assms
    by (auto simp: verify_private_key_jwt_def path_steps Let_def assertion_validation_def validation_new_def)
  have "client_keys L issuer source ks es"
    by (rule client_keys_mono [OF path_assertion_keys [OF keys]]) (auto simp: es)
  moreover have sub: "set es3 \<subseteq> set es" "EUnixNow now \<in> set es" using es by auto
  moreover have claims: "Option.bind (json_get claims ''iss'') as_string = Some issuer"
    "Option.bind (json_get claims ''sub'') as_string = Some subject" "audience_ok claims audience"
    using check by (auto simp: check_assertion_def path_steps)
  moreover obtain es4 es5 where "path (check_times claims 60 [''iat'', ''nbf'']) es4 (Inr ())" "es3 = es4 @ es5"
    and used: "single_use \<Longrightarrow> path (consume_assertion L S issuer subject audience claims 60) es5 (Inr ())"
    using check by (auto simp: check_assertion_def path_steps simp del: check_times.simps)
  then have "\<exists>t now. as_unsigned v = Some t \<and> EUnixNow now \<in> set es \<and> t \<le> saturating_add now 60"
    if "name \<in> {''iat'', ''nbf''} \<and> json_get claims name = Some v" for name v
    using path_check_times [of claims 60 "[''iat'', ''nbf'']" es4 name v] that sub(1) by auto
  moreover have "has_store S \<and> (\<exists>issued_at expires_at jti identity now marker.
         Option.bind (json_get claims ''iat'') as_unsigned = Some issued_at
         \<and> Option.bind (json_get claims ''exp'') as_unsigned = Some expires_at
         \<and> Option.bind (json_get claims ''jti'') as_string = Some jti \<and> jti \<noteq> []
         \<and> issued_at < expires_at \<and> expires_at - issued_at \<le> 300
         \<and> tuple_json L [issuer, subject, audience, jti] = Some identity \<and> EUnixNow now \<in> set es
         \<and> EPut (assertion_replay_key L identity) marker (from_secs (assertion_ttl expires_at 60 now)) (Inr True) \<in> set es)"
    if single_use
    using path_consume_assertion [OF used [OF that]] sub(1) \<open>es3 = es4 @ es5\<close>
    unfolding single_use_claims_Some by fastforce
  ultimately show ?thesis using * by blast
qed

text \<open>
  The marker of a single-use assertion outlives every instant at which the assertion itself is
  accepted (its expiry plus the leeway), and lives no longer than five minutes more than twice the
  leeway.
\<close>

theorem assertion_marker_bounds:
  assumes "single_use_claims claims = Some (expires_at, jti)" and "expires_at + leeway < u64_max"
    and "Option.bind (json_get claims ''iat'') as_unsigned = Some issued_at" and "issued_at \<le> now + leeway"
  shows "expires_at + leeway < now + assertion_ttl expires_at leeway now
    \<and> 0 < assertion_ttl expires_at leeway now \<and> assertion_ttl expires_at leeway now \<le> 301 + 2 * leeway"
proof -
  have "expires_at \<le> issued_at + 300"
    using assms(1,3) by (auto simp: single_use_claims_def bind_Some_iff split: if_splits)
  then have le: "expires_at \<le> now + leeway + 300" using assms(4) by simp
  have "assertion_ttl expires_at leeway now = (expires_at + leeway - now) + 1"
    using assms(2) by (simp add: assertion_ttl_def saturating_add_def saturating_sub_def)
  then show ?thesis using le by auto
qed

lemma with_cors_hands_out [simp]: "hands_out (with_cors resp origin) = hands_out resp"
  by (simp add: with_cors_def split: option.split)

lemma auth_failure_no_tokens [simp]: "\<not> hands_out (auth_failure_response failure)"
  by (simp add: auth_failure_response_def Let_def split: auth_failure.split)

lemma password_matches_ok:
  "password_matches L hs form cid secret = Inr () \<longleftrightarrow> (\<exists>b. password_credentials L hs form = Inr (cid, secret, b))"
  by (auto simp: password_matches_def bind_result_Inr_iff constant_eq_def split: if_splits)

lemmas auth_results = password_matches_ok map_sum_Inr password_matches_ok [THEN eq_commute [THEN trans]]
  map_sum_Inr [THEN eq_commute [THEN trans]]

text \<open>
  C14 The token endpoint answers with tokens only to an authenticated client, and authenticates
  before it does anything else: the client secret presented is the configured one (the upstream's
  own where the relay says so), a public client presents no secret and no assertion, and a client
  with a key presents an assertion that verifies.
\<close>

theorem token_needs_authentication:
  assumes "path (token polls L S r u req) es (Some resp)" and "rs_body resp = RawBody body"
  shows "\<exists>input form es1 es2. in_body req = Some input \<and> parse_token_request L input = Some form
    \<and> es = es1 @ es2 \<and> path (authenticate L S r u form (in_headers req)) es1 (Inr ())
    \<and> (\<exists>resp'. path (token_grant polls L S r u form) es2 (Some resp'))
    \<and> (case client_auth r of
          Public \<Rightarrow> t_client_secret form = None \<and> t_client_assertion form = None
        | UpstreamClient \<Rightarrow>
            \<exists>b. password_credentials L (in_headers req) form = Inr (client_id u, client_secret u, b)
        | ClientSecret cid secret \<Rightarrow> \<exists>b. password_credentials L (in_headers req) form = Inr (cid, secret, b)
        | PrivateKeyJwt single_use cid issuer subject audience keys \<Rightarrow>
            t_client_id form = Some cid \<and> (\<exists>assertion. t_client_assertion form = Some assertion
              \<and> path (verify_private_key_jwt L S (Some (r_key r))
                   (default_to (as_str (endpoint_url L S Token (r_key r))) audience)
                   (default_to cid issuer) (default_to cid subject) keys assertion single_use) es1 (Inr ())))"
proof -
  have out: "hands_out resp" using assms(2) by (simp add: hands_out_def)
  obtain input form es1 es2 resp' where
    *: "in_body req = Some input" "parse_token_request L input = Some form" "es = es1 @ es2"
    "path (authenticate L S r u form (in_headers req)) es1 (Inr ())"
    "path (token_grant polls L S r u form) es2 (Some resp')"
    using assms(1) out by (auto simp: token_def Let_def path_steps dest!: some_map_option)
  have "case client_auth r of
          Public \<Rightarrow> t_client_secret form = None \<and> t_client_assertion form = None
        | UpstreamClient \<Rightarrow>
            \<exists>b. password_credentials L (in_headers req) form = Inr (client_id u, client_secret u, b)
        | ClientSecret cid secret \<Rightarrow> \<exists>b. password_credentials L (in_headers req) form = Inr (cid, secret, b)
        | PrivateKeyJwt single_use cid issuer subject audience keys \<Rightarrow>
            t_client_id form = Some cid \<and> (\<exists>assertion. t_client_assertion form = Some assertion
              \<and> path (verify_private_key_jwt L S (Some (r_key r))
                   (default_to (as_str (endpoint_url L S Token (r_key r))) audience)
                   (default_to cid issuer) (default_to cid subject) keys assertion single_use) es1 (Inr ()))"
    using *(4)
    by (cases "client_auth r")
      (auto simp: authenticate_def path_steps auth_results split: if_splits)
  with * show ?thesis by blast
qed

section \<open>Every request is answered\<close>

text \<open>
  The monotonic clock of a trace that begins at \<open>t\<close> or later: it does not go back, and a sleep
  takes at least as long as it was asked to. Nothing is said about any other answer.
\<close>

fun steady :: "nat \<Rightarrow> event list \<Rightarrow> bool" where
  "steady t [] = True"
| "steady t (EInstantNow now # es) = (t \<le> now \<and> steady now es)"
| "steady t (ESleep d # es) = steady (t + d) es"
| "steady t (_ # es) = steady t es"

lemma steady_append: "steady t (es1 @ es2) \<Longrightarrow> \<exists>t'. t \<le> t' \<and> steady t' es2"
proof (induction t es1 rule: steady.induct)
  case (2 t now es)
  then show ?case by (auto intro: order_trans)
next
  case (3 t d es)
  then show ?case by simp (meson add_leD1)
qed (use order_refl in auto)

lemma steady_le: "steady t es \<Longrightarrow> t' \<le> t \<Longrightarrow> steady t' es"
  by (induction t es arbitrary: t' rule: steady.induct) auto

lemma steady_rest: "steady 0 (es1 @ es2) \<Longrightarrow> steady 0 es2"
  using steady_append steady_le by blast

lemma refresh_loop_path_ends:
  assumes "path (refresh_loop polls L R upstream hkey started) es out" and "steady t es"
    and "started \<le> t" and "0 < polls" and "resolve_wait (timing R) \<le> (t - started) + (polls - 1) * poll_interval (timing R)"
  shows "out \<noteq> None"
  using assms
proof (induction polls arbitrary: es t)
  case (Suc polls)
  obtain r es1 es2 where es: "es = es1 @ es2"
    and rest: "path (case r of
         Inl fault \<Rightarrow> Ret (Some (Inl fault))
       | Inr (Some outcome) \<Rightarrow> Ret (Some (Inr outcome))
       | Inr None \<Rightarrow>
           InstantNow (\<lambda>now.
             if resolve_wait (timing R) \<le> now - started then Ret (Some (Inr Unavailable))
             else Sleep (poll_interval (timing R)) (\<lambda>_.
                    refresh_loop polls L R upstream hkey started))) es2 out"
    using Suc.prems(1) by (auto simp: path_bind)
  obtain t' where t': "t \<le> t'" "steady t' es2" using steady_append Suc.prems(2) es by blast
  show ?case
  proof (cases "r = Inr None")
    case True
    then obtain now es3 where now: "es2 = EInstantNow now # es3"
      and rest': "path (if resolve_wait (timing R) \<le> now - started then Ret (Some (Inr Unavailable))
             else Sleep (poll_interval (timing R)) (\<lambda>_. refresh_loop polls L R upstream hkey started)) es3 out"
      using rest by auto
    have le: "t \<le> now" "steady now es3" using t' now by auto
    show ?thesis
    proof (cases "resolve_wait (timing R) \<le> now - started")
      case False
      then obtain es4 where es4: "es3 = ESleep (poll_interval (timing R)) # es4"
        "path (refresh_loop polls L R upstream hkey started) es4 out" using rest' by auto
      then have "steady (now + poll_interval (timing R)) es4" using le by simp
      moreover have "0 < polls" using False Suc.prems(5) le(1) by (cases polls) auto
      moreover have "resolve_wait (timing R) \<le> (now + poll_interval (timing R) - started) + (polls - 1) * poll_interval (timing R)"
        using Suc.prems(3,5) le(1) \<open>0 < polls\<close> by (cases polls) auto
      moreover have "started \<le> now + poll_interval (timing R)" using Suc.prems(3) le(1) by simp
      ultimately show ?thesis using Suc.IH es4(2) by blast
    qed (use rest' in auto)
  qed (use rest in \<open>auto split: sum.splits option.splits\<close>)
qed simp

lemma rotator_refresh_path_ends:
  assumes "path (rotator_refresh 51 L (rotator_new b settings) upstream presented) es out" and "steady 0 es"
  shows "out \<noteq> None"
proof -
  let ?R = "rotator_new b settings"
  have "timing ?R = timing_default" by (simp add: rotator_new_def)
  then have wait: "resolve_wait (timing ?R) \<le> (51 - 1) * poll_interval (timing ?R)"
    by (simp add: timing_default_def from_secs_def from_millis_def)
  have loop: "out \<noteq> None"
    if "path (refresh_rotating 51 L ?R upstream presented) es1 out" "steady 0 es1" for out es1
  proof -
    obtain started es2 where "es1 = EInstantNow started # es2"
      and "path (refresh_loop 51 L ?R upstream (handle_key L ?R presented) started) es2 out"
      using \<open>path (refresh_rotating 51 L ?R upstream presented) es1 out\<close>
      by (auto simp: refresh_rotating_def Let_def simp del: refresh_loop.simps)
    then show ?thesis using refresh_loop_path_ends [of 51 L ?R upstream _ started es2 out started] that(2) wait by auto
  qed
  show ?thesis
  proof (cases "starts_with HANDLE_PREFIX presented")
    case True
    then show ?thesis using assms(1) by (auto simp: rotator_refresh_def path_bind)
  next
    case False
    show ?thesis
    proof (cases "valid_handle_shape L presented")
      case True
      then obtain out' where "path (refresh_rotating 51 L ?R upstream presented) es out'"
        and "out = map_option unwrap_fault out'"
        using assms(1) False by (auto simp: rotator_refresh_def path_bind)
      then show ?thesis using loop assms(2) by auto
    qed (use assms(1) False in \<open>auto simp: rotator_refresh_def path_bind\<close>)
  qed
qed

lemma refresh_path_ends:
  assumes "path (refresh 51 L S r u form) es out" and "steady 0 es"
  shows "out \<noteq> None"
  using assms rotator_refresh_path_ends
  by (auto simp: refresh_def refresh_with_rotator_def rotator_for_def path_branches path_bind split: if_splits)

text \<open>
  C25 Every request is answered, whatever the store, other requests and processes, the sealer, the
  clients and the upstream do: with 51 polls of the rotation loop, which is what its waiting time of
  five seconds allows, no trace of the dispatcher runs out of them. All that is asked of the
  environment is that each call returns, that the monotonic clock does not go back and that a sleep of
  a tenth of a second is no shorter; the claims a request loses, again and again, are among the traces.
\<close>

theorem dispatch_answers:
  assumes "path (dispatch 51 L S req) es out" and "steady 0 es"
  shows "\<exists>resp. out = Some resp"
proof -
  have grant: "out \<noteq> None" if "path (token_grant 51 L S r u form) es out" "steady 0 es" for r u form es out
    using that refresh_path_ends by (auto simp: token_grant_def path_branches path_bind)
  have token: "out \<noteq> None" if "path (token 51 L S r u req) es out" "steady 0 es" for r u es out
    using that by (auto simp: token_def Let_def path_steps dest!: grant steady_rest)
  have "out \<noteq> None"
    using assms token
    by (auto simp: dispatch_def dispatch_relay_def Let_def path_bind
        split: option.splits prod.splits if_splits sum.splits endpoint.splits http_method.splits)
  then show ?thesis by simp
qed

section \<open>Which relays are served\<close>

text \<open>
  C15 Nothing is done for a request unless the resources it names are known and valid. If the
  dispatcher makes any call at all, or answers with anything but an error, then the path is that of an
  endpoint, and what was done is the work of that endpoint for the relay the path names, which was found
  and passed validation, with the upstream it refers to, which was found; for the callback it is the
  work of the callback for the upstream the path names, which was found and passed validation.
\<close>

theorem only_valid_resources_served:
  assumes "path (dispatch polls L S req) es (Some resp)" and "es \<noteq> [] \<or> rs_status resp < 400"
  shows "\<exists>e key. Option.bind (dispatch_path S (in_path req)) (layout_parse (layout_keys S)) = Some (e, key)
    \<and> (if e = Callback
       then \<exists>u q. resolve_upstream S key = Inr (Some u) \<and> is_ok (upstream_validate u)
              \<and> in_method req = GET \<and> parse_callback_request L (in_query req) = Some q
              \<and> path (callback L S u q) es resp
       else \<exists>r u. resolve_relay S key = Inr (Some r) \<and> resolve_upstream S (r_upstream r) = Inr (Some u)
              \<and> is_ok (relay_validate_for L r (redirect_opts S))
              \<and> path (dispatch_relay polls L S e r u req) es (Some resp))"
proof -
  obtain e key where ek: "Option.bind (dispatch_path S (in_path req)) (layout_parse (layout_keys S)) = Some (e, key)"
    using assms by (cases "Option.bind (dispatch_path S (in_path req)) (layout_parse (layout_keys S))")
      (auto simp: dispatch_def status_response_def)
  show ?thesis
  proof (cases "e = Callback")
    case True
    then have "path (dispatch_callback L S key req) es resp"
      using assms ek by (auto simp: dispatch_def path_bind)
    then show ?thesis using ek True assms(2)
      by (auto simp: dispatch_callback_def status_response_def split: sum.splits option.splits if_splits)
  next
    case False
    then show ?thesis using assms ek
      by (cases "dispatch_resources L S e key")
        (auto simp: dispatch_def dispatch_resources_def early_failure_def oauth_error_def json_response_def
          status_response_def split: sum.splits option.splits if_splits)
  qed
qed

end
