(* ===== verification/Metadata.thy ===== *)
theory Metadata
  imports Clients
begin

text \<open>
  Documents: what is sent when one is fetched, which cached copy answers, and what the relay's
  own discovery document advertises.
\<close>

section \<open>One request, one answer\<close>

text \<open>
  An answer is used only if it came from the URL the policy was asked about: a response that
  was redirected elsewhere, or that asks to be, is a failure, and at most one request is sent.
\<close>

theorem no_redirect_is_followed:
  assumes "path (send_checked policy req purpose sc) es (Inr response)"
  shows "res_url response = req_url req \<and> \<not> is_redirection (res_status response)
    \<and> filter is_execute es = [EExecute req (Some response)]
    \<and> (policy \<longrightarrow> (\<exists>offer. hd es = EPolicy offer True \<and> offered_url offer = req_url req
        \<and> offered_purpose offer = purpose))"
  using assms
  by (auto simp: send_checked_def Let_def path_branches split: if_splits)

section \<open>The cache\<close>

lemma purpose_str_inj [simp]: "purpose_str p = purpose_str p' \<longleftrightarrow> p = p'"
  by (cases p; cases p') simp_all

lemma purpose_no_bar: "CHR ''|'' \<notin> set (purpose_str p)"
  by (cases p) simp_all

lemma until_bar: "CHR ''|'' \<notin> set a \<Longrightarrow> takeWhile (\<lambda>c. c \<noteq> CHR ''|'') (a @ CHR ''|'' # x) = a"
  by (induction a) auto

text \<open>
  Two documents share a place in the cache only if they were fetched for the same purpose from
  the same URL: a key set never answers for a discovery document.
\<close>

theorem cache_keys_separate:
  "cache_key p u = cache_key p' u' \<longleftrightarrow> p = p' \<and> as_str u = as_str u'"
proof
  assume eq: "cache_key p u = cache_key p' u'"
  then have "takeWhile (\<lambda>c. c \<noteq> CHR ''|'') (cache_key p u) = takeWhile (\<lambda>c. c \<noteq> CHR ''|'') (cache_key p' u')"
    by simp
  then have "p = p'" by (simp add: cache_key_def until_bar [OF purpose_no_bar])
  with eq show "p = p' \<and> as_str u = as_str u'" by (simp add: cache_key_def)
qed (simp add: cache_key_def)

text \<open>
  A cached document answers without a request exactly while it is younger than its time to live,
  and a document fetched in its place is the one the upstream just sent, a JSON object with a
  success status.
\<close>

theorem cached_documents:
  assumes "path (Outbound.cached_json L policy sc u ttl purpose) es (Inr v)"
  shows "(\<exists>entry now. es = [ECacheGet DocumentCache (cache_key purpose u) (Some entry), EInstantNow now]
        \<and> now - fetched entry < ttl \<and> v = cached_value entry)
    \<or> (\<exists>q response body. EExecute q (Some response) \<in> set es \<and> req_url q = u
        \<and> is_success_status (res_status response) \<and> res_body response = Some body
        \<and> json_parse L body = Some v \<and> is_object v)"
proof -
  have fetched: "\<exists>q response body. EExecute q (Some response) \<in> set es' \<and> req_url q = u
        \<and> is_success_status (res_status response) \<and> res_body response = Some body
        \<and> json_parse L body = Some v \<and> is_object v"
    if p: "path (fetch_json_object L policy sc u purpose) es' (Inr v)" for es'
  proof -
    obtain r where r: "path (send_checked policy (get_request u (Some METADATA_FETCH_TIMEOUT)) purpose sc) es' r"
      and v: "(case r of Inl _ \<Rightarrow> Inl FetchUnavailable
            | Inr response \<Rightarrow>
                if res_status response = 404 \<or> res_status response = 410 then Inl Absent
                else if \<not> is_success_status (res_status response) then Inl FetchUnavailable
                else (case res_body response of
                        None \<Rightarrow> Inl FetchUnavailable
                      | Some body \<Rightarrow>
                          (case json_parse L body of
                             None \<Rightarrow> Inl Absent
                           | Some v \<Rightarrow> if is_object v then Inr v else Inl Absent))) = Inr v"
      using p by (auto simp: fetch_json_object_def path_bind)
    then obtain response body where "r = Inr response" "is_success_status (res_status response)"
      "res_body response = Some body" "json_parse L body = Some v" "is_object v"
      by (auto split: sum.splits option.splits if_splits)
    moreover have "EExecute (get_request u (Some METADATA_FETCH_TIMEOUT)) (Some response) \<in> set es'"
      if "r = Inr response"
      using r that by (auto simp: send_checked_def Let_def path_branches)
    moreover have "req_url (get_request u (Some METADATA_FETCH_TIMEOUT)) = u" by (simp add: get_request_def)
    ultimately show ?thesis by blast
  qed
  show ?thesis
    using assms fetched
    by (auto simp: Outbound.cached_json_def cached_json_with_client_def Let_def path_steps cache_lookup_def
        split: if_splits) blast+
qed

section \<open>The discovery document\<close>

lemma map_of_filter_names:
  "map_of (filter (\<lambda>(n, _). P n) kvs) k = (if P k then map_of kvs k else None)"
  by (induction kvs) auto

lemma retained_member:
  assumes "k \<in> {''issuer'', ''authorization_endpoint'', ''token_endpoint''}"
  shows "map_of (retain_relay_metadata r ms) k = map_of ms k"
proof -
  let ?ks = "{''issuer'', ''authorization_endpoint'', ''token_endpoint''}"
  have "\<forall>n\<in>set UPSTREAM_ONLY_METADATA. n \<notin> ?ks" "\<forall>n\<in>set UPSTREAM_TOKEN_MANAGEMENT_METADATA. n \<notin> ?ks"
    by (simp_all add: UPSTREAM_ONLY_METADATA_def UPSTREAM_TOKEN_MANAGEMENT_METADATA_def)
  moreover have "\<forall>k\<in>?ks. ends_with ''_endpoint'' k \<longrightarrow> k \<in> set RELAY_CLIENT_ENDPOINTS"
    by (simp add: RELAY_CLIENT_ENDPOINTS_def ends_with_def)
  ultimately have "k \<notin> set UPSTREAM_ONLY_METADATA" "k \<notin> set UPSTREAM_TOKEN_MANAGEMENT_METADATA"
    "ends_with ''_endpoint'' k \<longrightarrow> k \<in> set RELAY_CLIENT_ENDPOINTS"
    using assms by blast+
  then show ?thesis
    by (simp add: retain_relay_metadata_def Let_def map_of_filter_names del: filter_filter)
qed

text \<open>The members \<open>describe_relay\<close> sets itself.\<close>

definition described_names :: "string list" where
  "described_names =
     [''response_types_supported'', ''response_modes_supported'', ''grant_types_supported'',
      ''code_challenge_methods_supported'', ''request_parameter_supported'', ''request_uri_parameter_supported'',
      ''scopes_supported'', ''token_endpoint_auth_methods_supported'',
      ''token_endpoint_auth_signing_alg_values_supported'']"

lemma describe_other: "k \<notin> set described_names \<Longrightarrow> map_of (describe_relay r ms) k = map_of (retain_relay_metadata r ms) k"
  by (simp add: describe_relay_def Let_def described_names_def split: client_auth.split option.split)

lemma described_member:
  assumes "k \<in> {''issuer'', ''authorization_endpoint'', ''token_endpoint''}"
  shows "map_of (describe_relay r ms) k = map_of ms k"
proof -
  have "k \<notin> set described_names" using assms by (auto simp: described_names_def)
  then show ?thesis by (simp add: describe_other retained_member [OF assms])
qed

text \<open>
  The discovery document of a relay sends clients to the relay: its authorization and token
  endpoints are the relay's own, whatever the upstream's document says, while the issuer stays the
  upstream's, whose ID tokens the clients receive.
\<close>

theorem discovery_names_the_relay:
  "json_get (relay_document L S r u doc ju) ''authorization_endpoint''
      = Some (JString (as_str (endpoint_url L S Authorize (r_key r))))
   \<and> json_get (relay_document L S r u doc ju) ''token_endpoint''
      = Some (JString (as_str (endpoint_url L S Token (r_key r))))
   \<and> json_get (relay_document L S r u doc ju) ''issuer'' = Some (JString (discovery_issuer u doc))"
  by (simp add: relay_document_def Let_def described_member split: option.split)

end
