(* ===== verification/Issuance.thy ===== *)
theory Issuance
  imports Metadata
begin

text \<open>
  What a client gets for a redeemed code, in each refresh-token mode, in one process whose store is
  the specification map: the upstream's response as it is, the response with every refresh token
  sealed into a handle that opens to it, or the response with a rotating handle whose family has
  just been created around the token.
\<close>

section \<open>The issued response\<close>

text \<open>A member of the token response: a token becomes a handle that opens to it, everything else is kept.\<close>

definition handle_for ::
    "'z handle_libs_scheme \<Rightarrow> 'h machine \<Rightarrow> handle_binding \<Rightarrow> nat \<Rightarrow> string \<times> string \<Rightarrow> string \<times> string \<Rightarrow> bool" where
  "handle_for L M b issued m m' \<longleftrightarrow>
     (case carries_token L m of
        None \<Rightarrow> m' = m
      | Some tok \<Rightarrow> fst m' = fst m \<and> (\<exists>handle. raw_string_parse L (snd m') = Some handle
          \<and> (\<forall>w. fst (run M (open_handle L b handle) w) = Inr \<lparr>h_upstream_token = tok, h_issued_at = issued\<rparr>)))"

text \<open>
  The response for the upstream's token response \<open>stored\<close>, issued in second \<open>issued\<close>; in the
  rotating mode the family of the new handle is in the store, alive and not revoked.
\<close>

definition handed_out ::
    "'z router_libs_scheme \<Rightarrow> 'h machine \<Rightarrow> relay \<Rightarrow> upstream \<Rightarrow> stored_response \<Rightarrow> nat \<Rightarrow> response
       \<Rightarrow> 'h spec_world \<Rightarrow> bool" where
  "handed_out L M r u stored issued resp v \<longleftrightarrow>
     (case mode (refresh_tokens r) of
        Passthrough \<Rightarrow> resp = stored_response L stored
      | Sealed \<Rightarrow>
          (\<exists>ms ms' body. members_parse L (sr_body stored) = Some ms \<and> members_parse L body = Some ms'
             \<and> list_all2 (handle_for L M (binding_new L r u) issued) ms ms'
             \<and> resp = stored_response L (stored\<lparr>sr_body := body\<rparr>))
      | Rotating \<Rightarrow>
          (\<exists>tok handle body fid expires. upstream_refresh_token L (sr_status stored) (sr_body stored) = Some tok
             \<and> starts_with ROTATING_PREFIX handle
             \<and> with_refresh_token L (sr_status stored) (sr_body stored) handle = Some body
             \<and> resp = stored_response L (stored\<lparr>sr_body := body\<rparr>)
             \<and> (let R = rotator_new (binding_new L r u) (refresh_tokens r)
                in holds_record L M R (s_store v) (handle_key L R handle)
                     \<lparr>family_id = fid, family_expires_ms = expires, handle_state = Active tok\<rparr>
                   \<and> s_now v div 1000000 < expires \<and> s_store v (family_key L R fid) = None)))"

text \<open>
  What the relay needs to issue a handle: codecs and printers that work, a reachable sealer, and an
  upstream response with a refresh token in it; to rotate, a store, a lifetime, and draws that do not
  collide with the handles and families that are there.
\<close>

definition draws_unused :: "'z libs_scheme \<Rightarrow> 'h machine \<Rightarrow> rotator \<Rightarrow> 'h spec_world \<Rightarrow> bool" where
  "draws_unused L M R v \<longleftrightarrow>
     (\<forall>i\<ge>s_draws v. s_store v (handle_key L R (ROTATING_PREFIX @ b64url_encode L (draw M i HANDLE_BYTES))) = None
        \<and> s_store v (head_key L R (draw M i 16)) = None \<and> s_store v (family_key L R (draw M i 16)) = None)"

definition printers_ok :: "'z handle_libs_scheme \<Rightarrow> bool" where
  "printers_ok L \<longleftrightarrow>
     members_ok L \<and> (\<forall>ms. \<exists>body. members_print L ms = Some body) \<and> (\<forall>s. \<exists>raw. raw_string_print L s = Some raw)
     \<and> (\<forall>h. \<exists>p. handle_encode L h = Some p \<and> handle_decode L p = Some h)"

definition can_issue ::
    "'z router_libs_scheme \<Rightarrow> 'h machine \<Rightarrow> app_state \<Rightarrow> relay \<Rightarrow> upstream \<Rightarrow> stored_response \<Rightarrow> 'h spec_world \<Rightarrow> bool" where
  "can_issue L M S r u stored v \<longleftrightarrow>
     (mode (refresh_tokens r) \<noteq> Passthrough \<longrightarrow>
        env_ok L M \<and> printers_ok L \<and> upstream_refresh_token L (sr_status stored) (sr_body stored) \<noteq> None)
     \<and> (mode (refresh_tokens r) = Rotating \<longrightarrow>
        has_store S
        \<and> (let R = rotator_new (binding_new L r u) (refresh_tokens r); now = s_now v div 1000000
           in draws_unused L M R v \<and> now < saturating_add now (as_u64 (as_millis (max_lifetime R)))))"

section \<open>Sealing the tokens of a response\<close>

lemma spec_seal_handle:
  assumes "env_ok L M" and "printers_ok L"
  obtains handle where "spec_run M (seal_handle L b tok issued) v = (Inr handle, v\<lparr>s_draws := s_draws v + 1\<rparr>)"
    and "\<And>w. fst (run M (open_handle L b handle) w) = Inr \<lparr>h_upstream_token = tok, h_issued_at = issued\<rparr>"
proof -
  obtain p where p: "handle_encode L \<lparr>h_upstream_token = tok, h_issued_at = issued\<rparr> = Some p"
      "handle_decode L p = Some \<lparr>h_upstream_token = tok, h_issued_at = issued\<rparr>"
    using assms(2) unfolding printers_ok_def by blast
  have n: "length (draw M (s_draws v) 24) = 24" and sl: "sealer (seal_with M) (unseal_with M)"
    using assms(1) by (simp_all add: env_ok_def machine_ok_def)
  obtain e where e: "seal_with M (draw M (s_draws v) 24) p (associated_data b) = Inr e"
    using assms(1) n unfolding env_ok_def by blast
  have "unseal_with M e (associated_data b) = Inr p" using sealer.unseal_seal [OF sl n e] .
  then show thesis
    by (intro that [of "HANDLE_PREFIX @ e"]) (use p e in \<open>simp_all add: seal_handle_def run_open_handle ok_or_def\<close>)
qed

lemma spec_seal_members:
  assumes "env_ok L M" and "printers_ok L"
  shows "\<exists>ms' k. spec_run M (seal_members L b issued ms) v =
      (Inr (ms', \<exists>m\<in>set ms. carries_token L m \<noteq> None), v\<lparr>s_draws := s_draws v + k\<rparr>)
    \<and> list_all2 (handle_for L M b issued) ms ms'"
proof (induction ms arbitrary: v)
  case Nil
  show ?case by (intro exI [of _ "[]"] exI [of _ 0]) simp
next
  case (Cons m ms)
  show ?case
  proof (cases "carries_token L m")
    case None
    obtain ms' k where "spec_run M (seal_members L b issued ms) v =
        (Inr (ms', \<exists>m\<in>set ms. carries_token L m \<noteq> None), v\<lparr>s_draws := s_draws v + k\<rparr>)"
      and "list_all2 (handle_for L M b issued) ms ms'" using Cons.IH by blast
    then have "spec_run M (seal_members L b issued (m # ms)) v =
        (Inr (m # ms', \<exists>m\<in>set (m # ms). carries_token L m \<noteq> None), v\<lparr>s_draws := s_draws v + k\<rparr>)"
      using None by (auto simp: carries_token_def Let_def spec_run_bindE split: if_splits option.splits)
    moreover have "handle_for L M b issued m m" using None by (simp add: handle_for_def)
    ultimately show ?thesis using \<open>list_all2 _ ms ms'\<close> by (intro exI [of _ "m # ms'"] exI [of _ k]) simp
  next
    case (Some tok)
    obtain handle where h: "spec_run M (seal_handle L b tok issued) v = (Inr handle, v\<lparr>s_draws := s_draws v + 1\<rparr>)"
      and opens: "\<And>w. fst (run M (open_handle L b handle) w) = Inr \<lparr>h_upstream_token = tok, h_issued_at = issued\<rparr>"
      by (rule spec_seal_handle [OF assms, of b tok issued v]) (rule that)
    obtain raw where raw: "raw_string_print L handle = Some raw" "raw_string_parse L raw = Some handle"
      using assms(2) unfolding printers_ok_def members_ok_def by metis
    obtain ms' k where tail: "spec_run M (seal_members L b issued ms) (v\<lparr>s_draws := s_draws v + 1\<rparr>) =
        (Inr (ms', \<exists>m\<in>set ms. carries_token L m \<noteq> None), v\<lparr>s_draws := s_draws v + 1 + k\<rparr>)"
      and all: "list_all2 (handle_for L M b issued) ms ms'" using Cons.IH [of "v\<lparr>s_draws := s_draws v + 1\<rparr>"] by auto
    have "spec_run M (seal_members L b issued (m # ms)) v =
        (Inr ((fst m, raw) # ms', True), v\<lparr>s_draws := s_draws v + (1 + k)\<rparr>)"
      using Some h raw(1) tail
      by (auto simp: carries_token_def Let_def spec_run_bindE spec_run_bind split: if_splits option.splits)
    moreover have "handle_for L M b issued m (fst m, raw)" using Some raw opens by (auto simp: handle_for_def)
    ultimately show ?thesis using all Some
      by (intro exI [of _ "(fst m, raw) # ms'"] exI [of _ "1 + k"]) auto
  qed
qed

lemma upstream_token_members:
  assumes "upstream_refresh_token L status body = Some tok"
  obtains ms where "success_status status" and "members_parse L body = Some ms" and "\<exists>m\<in>set ms. carries_token L m \<noteq> None"
proof -
  obtain ms where ms: "success_status status" "members_parse L body = Some ms"
    using assms by (auto simp: upstream_refresh_token_def split: if_splits option.splits)
  then have "find (\<lambda>tok. tok \<noteq> []) (List.map_filter (\<lambda>(name, v).
         if name = REFRESH_TOKEN_MEMBER then raw_string_parse L v else None) ms) = Some tok"
    using assms upstream_refresh_token_find by metis
  then have "tok \<noteq> []" "tok \<in> set (List.map_filter (\<lambda>(name, v).
         if name = REFRESH_TOKEN_MEMBER then raw_string_parse L v else None) ms)"
    by (auto simp: find_Some_iff in_set_conv_nth)
  then obtain v where "(REFRESH_TOKEN_MEMBER, v) \<in> set ms" "raw_string_parse L v = Some tok"
    by (auto simp: List.map_filter_def split: if_splits)
  then have "\<exists>m\<in>set ms. carries_token L m \<noteq> None"
    using \<open>tok \<noteq> []\<close> by (intro bexI [of _ "(REFRESH_TOKEN_MEMBER, v)"]) (simp_all add: carries_token_def)
  with ms that show thesis by blast
qed

lemma spec_seal_token_response:
  assumes "env_ok L M" and "printers_ok L" and "upstream_refresh_token L status body \<noteq> None"
  obtains ms ms' body' k where "spec_run M (seal_token_response L b status body issued) v =
      (Inr (Some body'), v\<lparr>s_draws := s_draws v + k\<rparr>)"
    and "members_parse L body = Some ms" and "members_parse L body' = Some ms'"
    and "list_all2 (handle_for L M b issued) ms ms'"
proof -
  obtain ms where ms: "success_status status" "members_parse L body = Some ms" "\<exists>m\<in>set ms. carries_token L m \<noteq> None"
    using assms(3) upstream_token_members by (metis not_None_eq)
  obtain ms' k where run: "spec_run M (seal_members L b issued ms) v = (Inr (ms', True), v\<lparr>s_draws := s_draws v + k\<rparr>)"
    and all: "list_all2 (handle_for L M b issued) ms ms'"
    using spec_seal_members [OF assms(1,2), of b issued ms v] ms(3) by auto
  obtain body' where "members_print L ms' = Some body'" "members_parse L body' = Some ms'"
    using assms(2) unfolding printers_ok_def members_ok_def by metis
  with run ms all show thesis
    by (intro that [of body' k ms ms']) (simp_all add: seal_token_response_def spec_run_bindE ok_or_def)
qed

section \<open>Creating a family\<close>

lemma with_refresh_token_prints:
  assumes "printers_ok L" and "success_status status" and "members_parse L body = Some ms"
  shows "\<exists>body'. with_refresh_token L status body handle = Some body'"
  using assms by (fastforce simp: with_refresh_token_def printers_ok_def Let_def split: option.split)

lemma spec_create_family:
  assumes "env_ok L M" and "s_store v (handle_key L R handle) = None"
    and "s_store v (head_key L R (draw M (s_draws v) 16)) = None"
    and "s_now v div 1000000 < saturating_add (s_now v div 1000000) (as_u64 (as_millis (max_lifetime R)))"
  obtains v' where "spec_run M (create_family L R handle tok) v = (Inr (), v')" and "s_now v' = s_now v"
    and "holds_record L M R (s_store v') (handle_key L R handle)
      \<lparr>family_id = draw M (s_draws v) 16,
       family_expires_ms = saturating_add (s_now v div 1000000) (as_u64 (as_millis (max_lifetime R))),
       handle_state = Active tok\<rparr>"
    and "\<And>fid. s_store v' (family_key L R fid) = s_store v (family_key L R fid)"
proof -
  let ?now = "s_now v div 1000000"
  let ?expires = "saturating_add ?now (as_u64 (as_millis (max_lifetime R)))"
  let ?rec = "\<lparr>family_id = draw M (s_draws v) 16, family_expires_ms = ?expires, handle_state = Active tok\<rparr>"
  let ?key = "handle_key L R handle" and ?head = "head_key L R (draw M (s_draws v) 16)"
  obtain bs where bs: "spec_run M (seal_record L R ?key ?rec) (v\<lparr>s_draws := s_draws v + 1\<rparr>) =
      (Inr bs, v\<lparr>s_draws := s_draws v + 2\<rparr>)"
    and holds: "\<And>m t. holds_record L M R (m(?key \<mapsto> \<lparr>mem_value = bs, mem_expires = t\<rparr>)) ?key ?rec"
  proof (rule run_seal_record [OF assms(1), of R ?key ?rec "v\<lparr>s_draws := s_draws v + 1\<rparr>"])
    fix bs
    assume "spec_run M (seal_record L R ?key ?rec) (v\<lparr>s_draws := s_draws v + 1\<rparr>) =
        (Inr bs, v\<lparr>s_draws := s_draws v + 1, s_draws := s_draws (v\<lparr>s_draws := s_draws v + 1\<rparr>) + 1\<rparr>)"
      and "\<And>m t. holds_record L M R (m(?key \<mapsto> \<lparr>mem_value = bs, mem_expires = t\<rparr>)) ?key ?rec"
    then show thesis by (intro that [of bs]) simp_all
  qed
  let ?ttl = "from_millis (?expires - ?now)"
  have ttl: "ttl_until ?expires ?now = Some ?ttl" "validate_ttl ?ttl = Inr ()"
    using assms(4) by (simp_all add: ttl_until_Some)
  let ?v = "v\<lparr>s_draws := s_draws v + 2, s_store := (s_store v)
    (?key \<mapsto> \<lparr>mem_value = bs, mem_expires = s_now v + ?ttl\<rparr>, ?head \<mapsto> \<lparr>mem_value = ?key, mem_expires = s_now v + ?ttl\<rparr>)\<rparr>"
  have "spec_run M (create_family L R handle tok) v = (Inr (), ?v)"
    using assms(2,3) ttl bs key_valid [OF assms(1)]
    by (simp add: create_family_def Let_def spec_run_bindE run_put_key)
  moreover have "holds_record L M R (s_store ?v) ?key ?rec" using holds by (simp add: holds_record_def)
  ultimately show thesis by (intro that [of ?v]) simp_all
qed

lemma spec_issue:
  assumes "env_ok L M" and "printers_ok L" and "upstream_refresh_token L (sr_status stored) (sr_body stored) = Some tok"
    and "draws_unused L M R v"
    and "s_now v div 1000000 < saturating_add (s_now v div 1000000) (as_u64 (as_millis (max_lifetime R)))"
  obtains handle body fid expires v' where
    "spec_run M (issue_in_response L R stored) v = (Inr (Some body), v')"
    and "starts_with ROTATING_PREFIX handle"
    and "with_refresh_token L (sr_status stored) (sr_body stored) handle = Some body"
    and "holds_record L M R (s_store v') (handle_key L R handle)
      \<lparr>family_id = fid, family_expires_ms = expires, handle_state = Active tok\<rparr>"
    and "s_now v' div 1000000 < expires" and "s_store v' (family_key L R fid) = None"
proof -
  let ?handle = "ROTATING_PREFIX @ b64url_encode L (draw M (s_draws v) HANDLE_BYTES)"
  let ?v = "v\<lparr>s_draws := s_draws v + 1\<rparr>"
  have unused: "s_store ?v (handle_key L R ?handle) = None" "s_store ?v (head_key L R (draw M (s_draws ?v) 16)) = None"
    "s_store v (family_key L R (draw M (s_draws v + 1) 16)) = None"
    using assms(4) by (simp_all add: draws_unused_def)
  have lt: "s_now ?v div 1000000 < saturating_add (s_now ?v div 1000000) (as_u64 (as_millis (max_lifetime R)))"
    using assms(5) by simp
  obtain v' where created: "spec_run M (create_family L R ?handle tok) ?v = (Inr (), v')" "s_now v' = s_now ?v"
    "holds_record L M R (s_store v') (handle_key L R ?handle)
      \<lparr>family_id = draw M (s_draws ?v) 16,
       family_expires_ms = saturating_add (s_now ?v div 1000000) (as_u64 (as_millis (max_lifetime R))),
       handle_state = Active tok\<rparr>"
    "\<And>fid. s_store v' (family_key L R fid) = s_store ?v (family_key L R fid)"
    by (rule spec_create_family [OF assms(1) unused(1,2) lt, of tok]) (rule that)
  obtain ms where "success_status (sr_status stored)" "members_parse L (sr_body stored) = Some ms"
    using upstream_token_members [OF assms(3)] by blast
  from with_refresh_token_prints [OF assms(2) this] obtain body where
    body: "with_refresh_token L (sr_status stored) (sr_body stored) ?handle = Some body" by blast
  have "spec_run M (issue_in_response L R stored) v = (Inr (Some body), v')"
    using assms(3) created(1) body
    by (simp add: issue_in_response_def issue_def new_handle_def spec_run_bindE spec_run_bind ok_or_def)
  with created body unused(3) assms(5) show thesis
    by (intro that [of body v' ?handle]) (simp_all add: starts_with_def)
qed

section \<open>Redeeming\<close>

lemma code_key_other [simp]:
  "code_replay_key L envelope \<noteq> handle_key L R x" "code_replay_key L envelope \<noteq> family_key L R x"
  "code_replay_key L envelope \<noteq> head_key L R x"
  by (simp_all add: code_replay_key_def REPLAY_CODE_PREFIX_def handle_key_def family_key_def head_key_def digest_key_def
      HANDLE_KEY_PREFIX_def REVOKED_KEY_PREFIX_def HEAD_KEY_PREFIX_def)

lemma spec_consume:
  assumes "is_ok (validate_key (code_replay_key L envelope))" and "s_store v (code_replay_key L envelope) = None"
  obtains v' where "spec_run M (consume_code L S envelope) v = (Inr (), v')"
    and "s_now v' = s_now v" and "s_draws v \<le> s_draws v'"
    and "\<And>k. k \<noteq> code_replay_key L envelope \<Longrightarrow> s_store v' k = s_store v k"
proof (cases "has_store S")
  case True
  have "validate_ttl (from_secs CODE_TTL) = Inr ()" by (simp add: validate_ttl_def CODE_TTL_def from_secs_def)
  moreover have "validate_key (code_replay_key L envelope) = Inr ()" using assms(1) by (simp add: unit_result_ok)
  ultimately show thesis using True assms(2)
    by (intro that [of "v\<lparr>s_draws := s_draws v + 1, s_store := (s_store v)
        (code_replay_key L envelope \<mapsto> \<lparr>mem_value = draw M (s_draws v) 16, mem_expires = s_now v + from_secs CODE_TTL\<rparr>)\<rparr>"])
      (simp_all add: consume_code_def spec_put_def)
next
  case False
  then show thesis by (intro that [of v]) (simp_all add: consume_code_def)
qed

lemma draws_unused_later:
  "draws_unused L M R v \<Longrightarrow> s_draws v \<le> s_draws v' \<Longrightarrow>
     (\<And>k. k \<noteq> code_replay_key L envelope \<Longrightarrow> s_store v' k = s_store v k) \<Longrightarrow> draws_unused L M R v'"
  by (auto simp: draws_unused_def code_key_other [THEN not_sym])

lemma spec_redeem:
  assumes "can_issue L M S r u (ce_upstream_response envelope) v"
    and "ce_handle_fingerprint envelope = fingerprint L r u"
    and "is_ok (validate_key (code_replay_key L envelope))" and "s_store v (code_replay_key L envelope) = None"
  shows "\<exists>resp v'. spec_run M (redeem L S r envelope True) v = (resp, v')
    \<and> handed_out L M r u (ce_upstream_response envelope) (s_now v div 1000000000) resp v'"
proof -
  let ?stored = "ce_upstream_response envelope" and ?b = "binding_new L r u"
  have b: "\<lparr>b_relay = r_key r, b_fingerprint = ce_handle_fingerprint envelope\<rparr> = ?b"
    using assms(2) by (simp add: binding_new_def)
  show ?thesis
  proof (cases "mode (refresh_tokens r)")
    case Passthrough
    obtain v' where "spec_run M (consume_code L S envelope) v = (Inr (), v')"
      by (rule spec_consume [OF assms(3,4)]) (rule that)
    with Passthrough show ?thesis
      by (auto simp: redeem_def Let_def spec_run_bind handed_out_def)
  next
    case Sealed
    then have ready: "env_ok L M" "printers_ok L" "upstream_refresh_token L (sr_status ?stored) (sr_body ?stored) \<noteq> None"
      using assms(1) by (simp_all add: can_issue_def)
    obtain ms ms' body k where s: "spec_run M (seal_token_response L ?b (sr_status ?stored) (sr_body ?stored) (s_now v div 1000000000)) v
        = (Inr (Some body), v\<lparr>s_draws := s_draws v + k\<rparr>)"
      and m: "members_parse L (sr_body ?stored) = Some ms" "members_parse L body = Some ms'"
        "list_all2 (handle_for L M ?b (s_now v div 1000000000)) ms ms'"
      by (rule spec_seal_token_response [OF ready]) (rule that)
    obtain v' where c: "spec_run M (consume_code L S envelope) (v\<lparr>s_draws := s_draws v + k\<rparr>) = (Inr (), v')"
      by (rule spec_consume [OF assms(3), of "v\<lparr>s_draws := s_draws v + k\<rparr>"]) (use assms(4) that in auto)
    have "spec_run M (redeem L S r envelope True) v = (stored_response L (?stored\<lparr>sr_body := body\<rparr>), v')"
      using Sealed s c by (simp add: redeem_def Let_def spec_run_bind b with_body_def)
    then show ?thesis using Sealed m by (auto simp: handed_out_def)
  next
    case Rotating
    let ?R = "rotator_new ?b (refresh_tokens r)"
    obtain tok where ready: "env_ok L M" "printers_ok L" "has_store S"
        "upstream_refresh_token L (sr_status ?stored) (sr_body ?stored) = Some tok"
        "draws_unused L M ?R v"
        "s_now v div 1000000 < saturating_add (s_now v div 1000000) (as_u64 (as_millis (max_lifetime ?R)))"
      using assms(1) Rotating by (auto simp: can_issue_def Let_def)
    obtain v1 where c: "spec_run M (consume_code L S envelope) v = (Inr (), v1)" "s_now v1 = s_now v" "s_draws v \<le> s_draws v1"
      "\<And>k. k \<noteq> code_replay_key L envelope \<Longrightarrow> s_store v1 k = s_store v k"
      by (rule spec_consume [OF assms(3,4)]) (rule that)
    have "draws_unused L M ?R v1" by (rule draws_unused_later [OF ready(5) c(3,4)])
    then obtain handle body fid expires v' where i:
      "spec_run M (issue_in_response L ?R ?stored) v1 = (Inr (Some body), v')"
      "starts_with ROTATING_PREFIX handle"
      "with_refresh_token L (sr_status ?stored) (sr_body ?stored) handle = Some body"
      "holds_record L M ?R (s_store v') (handle_key L ?R handle)
        \<lparr>family_id = fid, family_expires_ms = expires, handle_state = Active tok\<rparr>"
      "s_now v' div 1000000 < expires" "s_store v' (family_key L ?R fid) = None"
      using ready(6) c(2) by (auto intro: spec_issue [OF ready(1,2,4)])
    have "spec_run M (redeem L S r envelope True) v = (stored_response L (?stored\<lparr>sr_body := body\<rparr>), v')"
      using Rotating c(1) i(1) ready(3)
      by (simp add: redeem_def Let_def spec_run_bind b issue_rotating_def rotator_for_def)
    then show ?thesis using Rotating ready(4) i by (auto simp: handed_out_def Let_def)
  qed
qed

end
