(* ===== verification/Login_Flow.thy ===== *)
theory Login_Flow
  imports Issuance
begin

text \<open>
  A login from end to end in one process: the authorize endpoint seals a flow, the callback opens it,
  exchanges the upstream's code and seals the answer into the client's code, and the token endpoint
  authenticates the client, opens that code, lets the admission policy look at the identity and hands
  the upstream's answer out, in the refresh-token mode of the relay. Nothing is kept in between but
  the two sealed values.
\<close>

section \<open>What a login needs\<close>

text \<open>
  The codecs are total and inverse, the sealer is reachable and keeps its contract, and the relay
  exists, is valid and belongs to the upstream, whose endpoints are configured.
\<close>

definition login_ready ::
    "'z router_libs_scheme \<Rightarrow> 'h machine \<Rightarrow> app_state \<Rightarrow> relay \<Rightarrow> upstream \<Rightarrow> bool" where
  "login_ready L M S r u \<longleftrightarrow>
     machine_ok M
     \<and> (\<forall>n p d. length n = 24 \<longrightarrow> (\<exists>e. seal_with M n p d = Inr e))
     \<and> (\<forall>f. \<exists>p. flow_encode L f = Some p \<and> flow_decode L p = Some f)
     \<and> (\<forall>c. \<exists>p. code_encode L c = Some p \<and> code_decode L p = Some c)
     \<and> (\<forall>q. allows M q) \<and> (\<forall>x. length x = 16 \<longrightarrow> length (b64url_encode L x) \<le> 1000)
     \<and> resource_key_new (r_key r) = Inr (r_key r) \<and> resolve_relay S (r_key r) = Inr (Some r)
     \<and> r_upstream r = u_key u \<and> is_ok (relay_validate_for L r (redirect_opts S))
     \<and> \<not> endpoints_need_discovery u"

text \<open>
  The upstream answers every token request, from the URL that was asked, with a response that is
  read as \<open>stored\<close>.
\<close>

definition upstream_answers :: "'h machine \<Rightarrow> stored_response \<Rightarrow> bool" where
  "upstream_answers M stored \<longleftrightarrow>
     \<not> is_redirection (sr_status stored)
     \<and> (\<exists>ct. Option.bind ct header_text = sr_content_type stored
          \<and> (\<forall>q h. \<exists>h'. answer M q h = (Some \<lparr>res_status = sr_status stored, res_url = req_url q,
               res_content_type = ct, res_body = Some (sr_body stored)\<rparr>, h')))"

definition seconds :: "'h world \<Rightarrow> nat" where
  "seconds w = now_ns w div 1000000000"

lemma run_seal_postcard:
  assumes "machine_ok M" and "\<forall>n p d. length n = 24 \<longrightarrow> (\<exists>e. seal_with M n p d = Inr e)"
  obtains sealed where "run M (seal_postcard key (Some plain)) w = (Inr sealed, w\<lparr>draws := draws w + 1\<rparr>)"
    and "unseal_with M sealed key = Inr plain"
proof -
  have n: "length (draw M (draws w) 24) = 24" and seal: "sealer (seal_with M) (unseal_with M)"
    using assms(1) by (simp_all add: machine_ok_def)
  obtain e where e: "seal_with M (draw M (draws w) 24) plain key = Inr e" using assms(2) n by blast
  show thesis
    by (rule that [of e]) (use e sealer.unseal_seal [OF seal n e] in \<open>simp_all add: seal_postcard_def\<close>)
qed

lemma run_unseal_postcard:
  "unseal_with M sealed key = Inr plain \<Longrightarrow> decode plain = Some x \<Longrightarrow>
     run M (unseal_postcard decode key sealed) w = (Inr x, w)"
  by (simp add: unseal_postcard_def ok_or_def)

lemma run_fresh: "run M (fresh issued_at ttl) w = (fresh_at (seconds w) issued_at ttl, w)"
  by (simp add: fresh_def seconds_def)

lemma run_endpoints:
  assumes "\<not> endpoints_need_discovery u"
  shows "run M (resolve_endpoints L policy r u) w =
    (Inr \<lparr>e_authorization_endpoint = the (authorization_endpoint u), e_token_endpoint = the (token_endpoint u),
          e_jwks_uri = jwks_uri u\<rparr>, w)"
  using assms
  by (auto simp: resolve_endpoints_def endpoints_need_discovery_def resolve_endpoints_from_doc_def or_else_def
      ok_or_def url_field_def split: option.split)

section \<open>The three steps\<close>

lemma run_authorize:
  assumes "login_ready L M S r u" and "authorize_checks L S r q = Inr (redirect, sc)"
  obtains sealed flow plain rest w1 where
    "run M (authorize L S r u q) w =
       (found L (as_str (url_append_pairs L (the (authorization_endpoint u))
          ([(''response_type'', ''code''), (''client_id'', client_id u),
            (''redirect_uri'', as_str (endpoint_url L S Callback (u_key u))), (''state'', sealed)] @ rest))), w1)"
    and "unseal_with M sealed (u_key u) = Inr plain" and "flow_decode L plain = Some flow"
    and "f_relay_key flow = r_key r" and "f_app_redirect_uri flow = redirect"
    and "f_client_code_challenge flow = a_code_challenge q" and "f_app_state flow = a_state q"
    and "f_issued_at flow = seconds w" and "f_id_token_nonce flow = a_id_token_nonce q"
proof -
  let ?w = "w\<lparr>draws := draws w + 2\<rparr>"
  let ?verifier = "b64url_encode L (draw M (draws w) 64)"
  let ?flow = "\<lparr>f_relay_key = r_key r, f_app_redirect_uri = redirect, f_app_state = a_state q,
     f_upstream_pkce_verifier = ?verifier, f_client_code_challenge = a_code_challenge q,
     f_client_code_challenge_method = map_option (\<lambda>_. ''S256'') (a_code_challenge q),
     f_id_token_nonce = a_id_token_nonce q, f_issued_at = seconds w, f_nonce = draw M (draws w + 1) 16\<rparr>"
  obtain plain where p: "flow_encode L ?flow = Some plain" "flow_decode L plain = Some ?flow"
    using assms(1) unfolding login_ready_def by blast
  obtain sealed where s: "run M (seal_postcard (u_key u) (Some plain)) ?w = (Inr sealed, ?w\<lparr>draws := draws ?w + 1\<rparr>)"
    "unseal_with M sealed (u_key u) = Inr plain"
    by (rule run_seal_postcard [of M "u_key u" plain ?w]) (use assms(1) in \<open>auto simp: login_ready_def\<close>)
  have "\<not> endpoints_need_discovery u" using assms(1) by (simp add: login_ready_def)
  note ep = run_endpoints [OF this, of M L "has_policy S" r]
  show thesis
    by (rule that [of sealed "[(''code_challenge'', pkce_challenge L ?verifier), (''code_challenge_method'', ''S256'')]
          @ (case sc of None \<Rightarrow> [] | Some x \<Rightarrow> [(''scope'', x)]) @ a_forwarded q" _ plain ?flow])
      (use p s assms(2) in \<open>simp_all add: authorize_def run_bind ep random_urlsafe_def Let_def seconds_def\<close>)
qed

lemma run_upstream_token:
  assumes "upstream_answers M stored" and "\<forall>q. allows M q"
  shows "\<exists>h' reply. run M (send_upstream_token_request L policy r u endpoint form purpose) w = (Inr reply, w\<lparr>peer := h'\<rparr>)
    \<and> read_upstream_response reply = Some stored"
proof -
  let ?q = "upstream_token_request L u endpoint form"
  have "req_url ?q = endpoint"
    by (simp add: upstream_token_request_def split: token_endpoint_auth_method.split)
  moreover obtain ct where ct: "Option.bind ct header_text = sr_content_type stored"
    and all: "\<forall>q h. \<exists>h'. answer M q h = (Some \<lparr>res_status = sr_status stored, res_url = req_url q,
      res_content_type = ct, res_body = Some (sr_body stored)\<rparr>, h')"
    using assms(1) unfolding upstream_answers_def by blast
  moreover from all obtain h' where "answer M ?q (peer w) = (Some \<lparr>res_status = sr_status stored, res_url = req_url ?q,
      res_content_type = ct, res_body = Some (sr_body stored)\<rparr>, h')" by blast
  ultimately show ?thesis
    using assms
    by (auto simp: send_upstream_token_request_def send_checked_def Let_def upstream_answers_def read_upstream_response_def)
qed

lemma run_callback:
  assumes "login_ready L M S r u" and "upstream_answers M stored"
    and "unseal_with M (c_state cq) (u_key u) = Inr plain" and "flow_decode L plain = Some flow"
    and "f_relay_key flow = r_key r" and "redirect_allowed L r (f_app_redirect_uri flow) (redirect_opts S)"
    and "fresh_at (seconds w) (f_issued_at flow) FLOW_TTL" and "\<not> c_error cq" and "c_code cq = Some upstream_code"
  obtains code envelope plain' w1 where
    "run M (callback L S u cq) w =
       (found L (append_state L (append_query_pairs L
          (append_query_pairs L (f_app_redirect_uri flow) [(''code'', code)]) (c_forwarded cq)) (f_app_state flow)), w1)"
    and "unseal_with M code (r_key r) = Inr plain'" and "code_decode L plain' = Some envelope"
    and "ce_relay_key envelope = r_key r" and "ce_redirect_uri envelope = f_app_redirect_uri flow"
    and "ce_client_code_challenge envelope = f_client_code_challenge flow"
    and "ce_upstream_response envelope = stored" and "ce_issued_at envelope = seconds w"
    and "length (ce_envelope_id envelope) = 16" and "ce_id_token_nonce envelope = f_id_token_nonce flow"
    and "ce_handle_fingerprint envelope = fingerprint L r u"
proof -
  have drawn: "length (draw M (draws w) 16) = 16" using assms(1) by (simp add: login_ready_def machine_ok_def)
  have ready: "\<not> endpoints_need_discovery u" "\<forall>q. allows M q" "callback_relay L S u flow = Some r"
    using assms(1,5,6) by (simp_all add: login_ready_def callback_relay_def)
  note ep = run_endpoints [OF ready(1), of M L "has_policy S" r]
  obtain h' reply where sent: "run M (send_upstream_token_request L (has_policy S) r u (the (token_endpoint u))
      [(''grant_type'', ''authorization_code''), (''code'', upstream_code),
       (''redirect_uri'', as_str (endpoint_url L S Callback (u_key u))),
       (''code_verifier'', f_upstream_pkce_verifier flow)] TokenExchange) w = (Inr reply, w\<lparr>peer := h'\<rparr>)"
    and stored: "read_upstream_response reply = Some stored"
    using run_upstream_token [OF assms(2) ready(2)] by blast
  let ?w = "w\<lparr>peer := h', draws := draws w + 1\<rparr>"
  let ?envelope = "\<lparr>ce_relay_key = r_key r, ce_envelope_id = draw M (draws w) 16, ce_issued_at = seconds w,
     ce_redirect_uri = f_app_redirect_uri flow, ce_client_code_challenge = f_client_code_challenge flow,
     ce_id_token_nonce = f_id_token_nonce flow, ce_upstream_response = stored,
     ce_handle_fingerprint = fingerprint L r u\<rparr>"
  obtain plain' where p: "code_encode L ?envelope = Some plain'" "code_decode L plain' = Some ?envelope"
    using assms(1) unfolding login_ready_def by blast
  obtain code where s: "run M (seal_postcard (r_key r) (Some plain')) ?w = (Inr code, ?w\<lparr>draws := draws ?w + 1\<rparr>)"
    "unseal_with M code (r_key r) = Inr plain'"
    by (rule run_seal_postcard [of M "r_key r" plain' ?w]) (use assms(1) in \<open>auto simp: login_ready_def\<close>)
  show thesis
    by (rule that [of code _ plain' ?envelope])
      (use p s assms(7-9) ready drawn in \<open>simp_all add: callback_def run_bind run_unseal_postcard [where decode = "flow_decode L", OF assms(3,4)]
        run_fresh callback_exchange_def ep sent stored Let_def seconds_def\<close>)
qed

lemma run_exchange:
  assumes "unseal_with M code (r_key r) = Inr plain" and "code_decode L plain = Some envelope"
    and "ce_relay_key envelope = r_key r" and "fresh_at (seconds w1) (ce_issued_at envelope) CODE_TTL"
    and "t_code form = Some code" and "t_redirect_uri form = Some (ce_redirect_uri envelope)"
    and "proven L r form envelope" and "ce_handle_fingerprint envelope = fingerprint L r u"
    and "run M (validate_id_token_policy L S r u (ce_upstream_response envelope) (ce_id_token_nonce envelope)) w1 = (Inr (), w2)"
    and "is_ok (validate_key (code_replay_key L envelope))"
    and "s_store (abs_world w2) (code_replay_key L envelope) = None"
    and "can_issue L M S r u (ce_upstream_response envelope) (abs_world w2)"
  shows "\<exists>resp w3. run M (exchange_sealed_code L S r u form) w1 = (resp, w3)
    \<and> handed_out L M r u (ce_upstream_response envelope) (seconds w2) resp (abs_world w3)"
proof -
  have now: "s_now (abs_world w2) div 1000000000 = seconds w2" by (simp add: abs_world_def seconds_def)
  obtain resp v where run: "spec_run M (redeem L S r envelope True) (abs_world w2) = (resp, v)"
    and out: "handed_out L M r u (ce_upstream_response envelope) (seconds w2) resp v"
    using spec_redeem [OF assms(12,8,10,11)] now by auto
  obtain w3 where redeemed: "run M (redeem L S r envelope True) w2 = (resp, w3)" "abs_world w3 = v"
    using run_of_spec [OF run] by blast
  have "rotation_store_missing S r = False" using assms(12) by (auto simp: rotation_store_missing_def can_issue_def)
  then have "run M (exchange_sealed_code L S r u form) w1 = (resp, w3)"
    using assms(3-9) redeemed
    by (simp add: exchange_sealed_code_def run_bind run_unseal_postcard [where decode = "code_decode L", OF assms(1,2)] run_fresh
        pkce_rejection_None [THEN iffD2])
  with out redeemed(2) show ?thesis by blast
qed

section \<open>The whole login\<close>

text \<open>
  Presenting the code at the token endpoint: the client authenticates, the code is within its
  lifetime and comes with the redirect URI and the PKCE verifier of the request, the admission policy
  of the relay accepts the identity, the marker of the code is not in the store, and the relay can
  issue what its refresh-token mode calls for. Then the answer is a response for \<open>stored\<close>.
\<close>

definition redeems ::
    "'z router_libs_scheme \<Rightarrow> 'h machine \<Rightarrow> app_state \<Rightarrow> relay \<Rightarrow> upstream \<Rightarrow> authorize_request \<Rightarrow> string
       \<Rightarrow> stored_response \<Rightarrow> nat \<Rightarrow> string \<Rightarrow> bool" where
  "redeems L M S r u q redirect stored issued code \<longleftrightarrow>
     (\<forall>polls req input form w w1 w2.
        in_body req = Some input \<longrightarrow> parse_token_request L input = Some form \<longrightarrow>
        t_grant_type form = ''authorization_code'' \<longrightarrow> t_code form = Some code \<longrightarrow>
        t_redirect_uri form = Some redirect \<longrightarrow>
        (case a_code_challenge q of
           None \<Rightarrow> t_code_verifier form = None
         | Some challenge \<Rightarrow>
             \<exists>v. t_code_verifier form = Some v \<and> valid_pkce_verifier v \<and> pkce_challenge L v = challenge) \<longrightarrow>
        run M (authenticate L S r u form (in_headers req)) w = (Inr (), w1) \<longrightarrow>
        fresh_at (seconds w1) issued CODE_TTL \<longrightarrow>
        run M (validate_id_token_policy L S r u stored (a_id_token_nonce q)) w1 = (Inr (), w2) \<longrightarrow>
        (\<forall>plain envelope. unseal_with M code (r_key r) = Inr plain \<longrightarrow> code_decode L plain = Some envelope \<longrightarrow>
           s_store (abs_world w2) (code_replay_key L envelope) = None) \<longrightarrow>
        can_issue L M S r u stored (abs_world w2) \<longrightarrow>
        (\<exists>resp w3. run M (token polls L S r u req) w =
             (Some (with_cors resp (allowed_cors_origin L r (in_headers req) (redirect_opts S))), w3)
           \<and> handed_out L M r u stored (seconds w2) resp (abs_world w3)))"

lemma run_redeems:
  fixes M :: "'h machine"
  assumes "login_ready L M S r u" and "unseal_with M code (r_key r) = Inr plain" and "code_decode L plain = Some envelope"
    and "ce_relay_key envelope = r_key r" and "ce_client_code_challenge envelope = a_code_challenge q"
    and "ce_upstream_response envelope = stored" and "length (ce_envelope_id envelope) = 16"
    and "ce_id_token_nonce envelope = a_id_token_nonce q" and "ce_handle_fingerprint envelope = fingerprint L r u"
    and "a_code_challenge q = None \<Longrightarrow> client_auth r \<noteq> Public"
  shows "redeems L M S r u q (ce_redirect_uri envelope) stored (ce_issued_at envelope) code"
  unfolding redeems_def
proof (intro allI impI)
  have key: "is_ok (validate_key (code_replay_key L envelope))"
    using assms(1,7)
    by (fastforce simp: login_ready_def validate_key_def code_replay_key_def REPLAY_CODE_PREFIX_def MAX_KEY_BYTES_def)
  fix polls input form and req :: in_request and w w1 w2 :: "'h world"
  assume parsed: "in_body req = Some input" "parse_token_request L input = Some form"
    and form: "t_grant_type form = ''authorization_code''" "t_code form = Some code" "t_redirect_uri form = Some (ce_redirect_uri envelope)"
    and pkce: "case a_code_challenge q of None \<Rightarrow> t_code_verifier form = None
      | Some challenge \<Rightarrow> \<exists>v. t_code_verifier form = Some v \<and> valid_pkce_verifier v \<and> pkce_challenge L v = challenge"
    and auth: "run M (authenticate L S r u form (in_headers req)) w = (Inr (), w1)"
    and fresh: "fresh_at (seconds w1) (ce_issued_at envelope) CODE_TTL"
    and valid: "run M (validate_id_token_policy L S r u stored (a_id_token_nonce q)) w1 = (Inr (), w2)"
    and unused: "\<forall>plain envelope. unseal_with M code (r_key r) = Inr plain \<longrightarrow> code_decode L plain = Some envelope \<longrightarrow>
           s_store (abs_world w2) (code_replay_key L envelope) = None"
    and can: "can_issue L M S r u stored (abs_world w2)"
  have "proven L r form envelope" using pkce assms(5,10) by (auto simp: proven_def split: option.splits)
  moreover have "run M (validate_id_token_policy L S r u (ce_upstream_response envelope) (ce_id_token_nonce envelope)) w1 = (Inr (), w2)"
    "can_issue L M S r u (ce_upstream_response envelope) (abs_world w2)"
    using valid can assms(6,8) by simp_all
  moreover have "s_store (abs_world w2) (code_replay_key L envelope) = None" using unused assms(2,3) by blast
  ultimately obtain resp w3 where ex: "run M (exchange_sealed_code L S r u form) w1 = (resp, w3)"
    "handed_out L M r u stored (seconds w2) resp (abs_world w3)"
    using run_exchange [OF assms(2-4) fresh form(2,3) _ assms(9) _ key] assms(6) by blast
  then have "run M (token polls L S r u req) w =
      (Some (with_cors resp (allowed_cors_origin L r (in_headers req) (redirect_opts S))), w3)"
    using parsed form auth by (simp add: token_def Let_def run_bind token_grant_def)
  with ex show "\<exists>resp w3. run M (token polls L S r u req) w =
             (Some (with_cors resp (allowed_cors_origin L r (in_headers req) (redirect_opts S))), w3)
           \<and> handed_out L M r u stored (seconds w2) resp (abs_world w3)" by blast
qed

text \<open>
  C10 A login completes, for every kind of client, with or without an admission policy, in every
  refresh-token mode. After an accepted authorize request, a callback that brings back the state
  within ten minutes, with a code the upstream accepts, sends the browser to the application with a
  code of the relay. A client that authenticates and presents that code at the token endpoint within
  five minutes, with the redirect URI and the PKCE verifier of the request, and whose identity the
  relay's policy admits, is answered with the upstream's token response: unchanged in the passthrough
  mode, in the sealed mode with every refresh token replaced by a handle that opens to it, and in the
  rotating mode with a new handle whose record in the store holds the refresh token, alive and not
  revoked. The conditions: one process with a memory store; codecs, printers, sealer and
  upstream that work, and an outbound policy that lets the requests through; a valid relay whose
  upstream has its endpoints configured, so that nothing is discovered; in the sealed and the rotating
  mode an upstream response with a refresh token in it, and in the rotating mode a store, a lifetime
  that is not zero and draws that do not collide with the keys in the store.
\<close>

theorem login_completes:
  assumes "login_ready L M S r u" and "upstream_answers M stored" and "authorize_checks L S r q = Inr (redirect, sc)"
  shows "\<exists>sealed rest.
    fst (run M (authorize L S r u q) w) = found L (as_str (url_append_pairs L (the (authorization_endpoint u))
      ([(''response_type'', ''code''), (''client_id'', client_id u),
        (''redirect_uri'', as_str (endpoint_url L S Callback (u_key u))), (''state'', sealed)] @ rest)))
    \<and> (\<forall>w' cq c. c_state cq = sealed \<longrightarrow> c_code cq = Some c \<longrightarrow> \<not> c_error cq \<longrightarrow>
          fresh_at (seconds w') (seconds w) FLOW_TTL \<longrightarrow>
        (\<exists>code. fst (run M (callback L S u cq) w') = found L (append_state L (append_query_pairs L
            (append_query_pairs L redirect [(''code'', code)]) (c_forwarded cq)) (a_state q))
          \<and> redeems L M S r u q redirect stored (seconds w') code))"
proof -
  have allowed: "redirect_allowed L r redirect (redirect_opts S)"
    and public: "a_code_challenge q = None \<Longrightarrow> client_auth r \<noteq> Public"
    using assms(3) by (auto simp: authorize_checks_def split: if_splits option.splits)
  obtain sealed flow plain rest w1 where
    a: "run M (authorize L S r u q) w = (found L (as_str (url_append_pairs L (the (authorization_endpoint u))
          ([(''response_type'', ''code''), (''client_id'', client_id u),
            (''redirect_uri'', as_str (endpoint_url L S Callback (u_key u))), (''state'', sealed)] @ rest))), w1)"
    and opens: "unseal_with M sealed (u_key u) = Inr plain" "flow_decode L plain = Some flow" "f_relay_key flow = r_key r"
    and flow: "f_app_redirect_uri flow = redirect" "f_client_code_challenge flow = a_code_challenge q"
      "f_app_state flow = a_state q" "f_issued_at flow = seconds w" "f_id_token_nonce flow = a_id_token_nonce q"
    by (rule run_authorize [OF assms(1,3), of w])
  have "\<exists>code. fst (run M (callback L S u cq) w') = found L (append_state L (append_query_pairs L
            (append_query_pairs L redirect [(''code'', code)]) (c_forwarded cq)) (a_state q))
          \<and> redeems L M S r u q redirect stored (seconds w') code"
    if cq: "c_state cq = sealed" "c_code cq = Some c" "\<not> c_error cq" and t: "fresh_at (seconds w') (seconds w) FLOW_TTL"
    for w' cq c
  proof -
    obtain code envelope plain' w2 where
      b: "run M (callback L S u cq) w' = (found L (append_state L (append_query_pairs L
          (append_query_pairs L (f_app_redirect_uri flow) [(''code'', code)]) (c_forwarded cq)) (f_app_state flow)), w2)"
      and envelope: "unseal_with M code (r_key r) = Inr plain'" "code_decode L plain' = Some envelope"
        "ce_relay_key envelope = r_key r" "ce_redirect_uri envelope = f_app_redirect_uri flow"
        "ce_client_code_challenge envelope = f_client_code_challenge flow" "ce_upstream_response envelope = stored"
        "ce_issued_at envelope = seconds w'" "length (ce_envelope_id envelope) = 16"
        "ce_id_token_nonce envelope = f_id_token_nonce flow" "ce_handle_fingerprint envelope = fingerprint L r u"
      by (rule run_callback [OF assms(1,2), of cq plain flow w' c]) (use opens flow allowed cq t in auto)
    have "redeems L M S r u q (ce_redirect_uri envelope) stored (ce_issued_at envelope) code"
      using run_redeems [OF assms(1) envelope(1-3) _ envelope(6,8) _ envelope(10) public] envelope(5,9) flow by simp
    then show ?thesis using b envelope flow by auto
  qed
  with a show ?thesis by (intro exI [of _ sealed] exI [of _ rest]) auto
qed

end
