(* ===== verification/Endpoint_Examples.thy ===== *)
theory Endpoint_Examples
  imports Login_Flow
begin

text \<open>The statements about the endpoints, applied at concrete inputs.\<close>

section \<open>Logging in\<close>

lemma demo_libs_parse: "url_parse demo_router_libs = url_parse demo_libs"
  by simp

lemma demo_allowed: "redirect_allowed demo_router_libs demo_relay ''https://app.example/cb'' demo_options"
  by (rule demo_redirect_allowed) simp

lemma demo_state_simps [simp]:
  "resolve_relay (demo_state r) key = Inr (if key = ''app'' then Some r else None)"
  "resolve_upstream (demo_state r) key = Inr (if key = ''idp'' then Some demo_upstream else None)"
  "has_store (demo_state r)" "has_policy (demo_state r)" "redirect_opts (demo_state r) = demo_options"
  "layout_keys (demo_state r) = SingleSegment"
  by (simp_all add: demo_state_def)

lemma demo_policy: "has_policy (demo_state r) = True"
  by simp

lemma demo_endpoints:
  "resolve_endpoints demo_router_libs policy r demo_upstream =
     Ret (Inr \<lparr>e_authorization_endpoint = demo_url ''https://idp.example/authorize'',
       e_token_endpoint = demo_url ''https://idp.example/token'', e_jwks_uri = None\<rparr>)"
  by (simp add: resolve_endpoints_def endpoints_need_discovery_def resolve_endpoints_from_doc_def or_else_def
      ok_or_def demo_upstream_def url_field_def)

definition code_request :: callback_request where
  "code_request = \<lparr>c_code = Some ''x'', c_state = ''s'', c_error = False, c_forwarded = []\<rparr>"

lemma demo_callback_relay: "callback_relay demo_router_libs (demo_state demo_relay) demo_upstream demo_flow = Some demo_relay"
proof -
  have "resource_key_new ''app'' = Inr ''app''"
    by (simp add: resource_key_new_def starts_with_def ends_with_def key_byte_def byte_class_defs)
  then show ?thesis
    using demo_relay_valid_for demo_allowed
    by (simp add: callback_relay_def demo_flow_def demo_upstream_def) (simp add: demo_relay_def)
qed

definition exchange_query :: http_request where
  "exchange_query = upstream_token_request demo_router_libs demo_upstream (demo_url ''https://idp.example/token'')
     (exchange_form demo_router_libs (demo_state demo_relay) demo_upstream demo_flow ''x'')"

definition exchange_reply :: http_response where
  "exchange_reply = \<lparr>res_status = 200, res_url = demo_url ''https://idp.example/token'', res_content_type = None,
     res_body = Some ''body''\<rparr>"

definition exchange_trace :: "event list" where
  "exchange_trace =
     [EPolicy \<lparr>offered_url = demo_url ''https://idp.example/token'', offered_purpose = TokenExchange,
        offered_relay = Some ''app'', offered_upstream = Some ''idp''\<rparr> True,
      EExecute exchange_query (Some exchange_reply)]"

definition callback_trace :: "event list" where
  "callback_trace =
     EUnseal ''s'' ''idp'' (Inr ''p'') # EUnixNow 100 # exchange_trace
     @ [ERandom 16 (replicate 16 (CHR ''i'')), EUnixNow 101, ESeal [] ''app'' (Inr ''c'')]"

definition callback_location :: string where
  "callback_location = append_state demo_router_libs (append_query_pairs demo_router_libs ''https://app.example/cb''
     [(''code'', ''c'')]) (Some ''s'')"

lemma demo_exchange_sent:
  "path (send_checked True exchange_query TokenExchange (scope_of demo_relay demo_upstream)) exchange_trace (Inr exchange_reply)"
proof -
  have "req_url exchange_query = demo_url ''https://idp.example/token''"
    by (simp add: exchange_query_def upstream_token_request_def demo_upstream_def)
  moreover have "scope_of demo_relay demo_upstream = \<lparr>scope_relay = Some ''app'', scope_upstream = Some ''idp''\<rparr>"
    by (simp add: scope_of_def demo_relay_def demo_upstream_def)
  ultimately show ?thesis
    by (simp add: send_checked_def exchange_trace_def exchange_reply_def is_redirection_def Let_def ex_bool_eq)
qed

lemma demo_callback_path:
  "path (callback demo_router_libs (demo_state demo_relay) demo_upstream code_request) callback_trace
     (found demo_router_libs callback_location)"
proof -
  have flow: "f_app_redirect_uri demo_flow = ''https://app.example/cb''" "f_app_state demo_flow = Some ''s''"
    "f_issued_at demo_flow = 100" "r_key demo_relay = ''app''" "u_key demo_upstream = ''idp''"
    by (simp_all add: demo_flow_def demo_relay_def demo_upstream_def)
  have form: "upstream_token_request demo_router_libs demo_upstream (demo_url ''https://idp.example/token'')
      [(''grant_type'', ''authorization_code''), (''code'', ''x''),
       (''redirect_uri'', as_str (endpoint_url demo_router_libs (demo_state demo_relay) Callback ''idp'')),
       (''code_verifier'', f_upstream_pkce_verifier demo_flow)] = exchange_query"
    by (simp add: exchange_query_def exchange_form_def flow)
  have "path (callback_exchange demo_router_libs (demo_state demo_relay) demo_upstream demo_relay demo_flow code_request ''x'')
      (exchange_trace @ [ERandom 16 (replicate 16 (CHR ''i'')), EUnixNow 101, ESeal [] ''app'' (Inr ''c'')])
      (found demo_router_libs callback_location)"
    unfolding callback_exchange_def demo_endpoints send_upstream_token_request_def bind.simps sum.case
      resolved_endpoints.simps flow(5) form demo_policy
    by (rule path_bindI [OF demo_exchange_sent])
      (simp add: exchange_reply_def read_upstream_response_def Let_def seal_postcard_def flow callback_location_def
        code_request_def append_query_pairs_def)
  then show ?thesis
    using demo_callback_relay flow
    by (simp add: callback_def path_steps unseal_postcard_def fresh_def ok_or_def code_request_def
        fresh_at_def FLOW_TTL_def saturating_add_def saturating_sub_def u64_max_def callback_trace_def)
qed

theorem callback_redirects_witness:
  "\<exists>(flow :: flow_envelope) reply stored ident issued_at plain sealed.
     only_query_added (f_app_redirect_uri flow) callback_location
   \<and> EExecute exchange_query (Some reply) \<in> set callback_trace \<and> read_upstream_response reply = Some stored
   \<and> ERandom 16 ident \<in> set callback_trace \<and> EUnixNow issued_at \<in> set callback_trace
   \<and> ESeal plain ''app'' (Inr sealed) \<in> set callback_trace
   \<and> callback_location = append_state demo_router_libs (append_query_pairs demo_router_libs
       (append_query_pairs demo_router_libs (f_app_redirect_uri flow) [(''code'', sealed)]) []) (f_app_state flow)"
proof -
  have q: "\<not> c_error code_request" "c_forwarded code_request = []" by (simp_all add: code_request_def)
  have "(''location'', callback_location) \<in> set (rs_headers (found demo_router_libs callback_location))"
    by (simp add: found_location)
  from callback_redirects [OF demo_callback_path this, unfolded if_not_P [OF q(1)] q(2)]
  obtain flow :: flow_envelope and r :: relay and endpoint :: url and reply :: http_response
      and stored ident issued_at plain sealed code where
    *: "resolve_relay (demo_state demo_relay) (f_relay_key flow) = Inr (Some r)"
    "only_query_added (f_app_redirect_uri flow) callback_location"
    "EExecute (upstream_token_request demo_router_libs demo_upstream endpoint
       [(''grant_type'', ''authorization_code''), (''code'', code),
        (''redirect_uri'', as_str (endpoint_url demo_router_libs (demo_state demo_relay) Callback (u_key demo_upstream))),
        (''code_verifier'', f_upstream_pkce_verifier flow)]) (Some reply) \<in> set callback_trace"
    "read_upstream_response reply = Some stored" "ERandom 16 ident \<in> set callback_trace"
    "EUnixNow issued_at \<in> set callback_trace" "ESeal plain (r_key r) (Inr sealed) \<in> set callback_trace"
    "callback_location = append_state demo_router_libs (append_query_pairs demo_router_libs
       (append_query_pairs demo_router_libs (f_app_redirect_uri flow) [(''code'', sealed)]) []) (f_app_state flow)"
    by blast
  have "r_key r = ''app''" using *(1) by (auto simp: demo_relay_def split: if_splits)
  moreover have "EExecute exchange_query (Some reply) \<in> set callback_trace"
    using *(3) by (auto simp: callback_trace_def exchange_trace_def)
  ultimately show ?thesis using * by metis
qed

definition demo_authorize :: authorize_request where
  "demo_authorize = empty_authorize\<lparr>a_redirect_uri := Some ''https://app.example/cb'',
     a_code_challenge := Some demo_challenge, a_code_challenge_method := Some ''S256''\<rparr>"

lemma demo_valid_challenge: "valid_pkce_challenge demo_challenge"
  by (simp add: valid_pkce_challenge_def demo_challenge_def byte_class_defs list_all_iff)

lemma redirect_allowed_mode [simp]:
  "redirect_allowed L (r\<lparr>refresh_tokens := rt\<rparr>) v os = redirect_allowed L r v os"
  by (simp add: redirect_allowed_def cong: option.case_cong)

lemma plain_allowed: "redirect_allowed demo_router_libs plain_relay ''https://app.example/cb'' demo_options"
  using demo_allowed by (simp only: plain_relay_def redirect_allowed_mode)

lemma demo_authorize_checks:
  "r = demo_relay \<or> r = plain_relay \<Longrightarrow>
     authorize_checks demo_router_libs (demo_state r) r demo_authorize = Inr (''https://app.example/cb'', Some ''openid'')"
proof -
  assume r: "r = demo_relay \<or> r = plain_relay"
  have allowed: "redirect_allowed demo_router_libs r ''https://app.example/cb'' demo_options"
    using r demo_allowed plain_allowed by blast
  have "scopes r = [''openid'']" "client_auth r = Public"
    using r by (auto simp: plain_relay_def demo_relay_def)
  then show ?thesis
    using allowed demo_valid_challenge
    by (simp add: authorize_checks_def rotation_store_missing_def demo_authorize_def empty_authorize_def)
qed

definition authorize_trace :: "event list" where
  "authorize_trace =
     [ERandom 64 (replicate 64 (CHR ''r'')), EUnixNow 100, ERandom 16 (replicate 16 (CHR ''n'')), ESeal [] ''idp'' (Inr ''e'')]"

theorem authorize_redirects_witness:
  "\<exists>(flow :: flow_envelope) plain sealed verifier endpoint. f_app_redirect_uri flow = ''https://app.example/cb''
    \<and> f_client_code_challenge flow = Some demo_challenge
    \<and> upstream_endpoint demo_router_libs demo_upstream (authorization_endpoint demo_upstream) ''authorization_endpoint''
        endpoint authorize_trace
    \<and> ESeal plain ''idp'' (Inr sealed) \<in> set authorize_trace \<and> ERandom 64 verifier \<in> set authorize_trace
    \<and> f_upstream_pkce_verifier flow = b64url_encode demo_router_libs verifier"
proof -
  have u: "u_key demo_upstream = ''idp''" by (simp add: demo_upstream_def)
  then have "\<exists>location. path (authorize demo_router_libs (demo_state demo_relay) demo_relay demo_upstream demo_authorize)
      authorize_trace (found demo_router_libs location)"
    by (auto simp: authorize_def demo_authorize_checks path_steps demo_endpoints random_urlsafe_def Let_def
        seal_postcard_def authorize_trace_def)
  then obtain location where p: "path (authorize demo_router_libs (demo_state demo_relay) demo_relay demo_upstream demo_authorize)
      authorize_trace (found demo_router_libs location)" by blast
  have q: "a_redirect_uri demo_authorize = Some ''https://app.example/cb''" "a_code_challenge demo_authorize = Some demo_challenge"
    by (simp_all add: demo_authorize_def)
  have "(''location'', location) \<in> set (rs_headers (found demo_router_libs location))" by (simp add: found_location)
  from authorize_redirects [OF p this] obtain redirect and flow :: flow_envelope and plain sealed verifier now nonce endpoint where
    *: "a_redirect_uri demo_authorize = Some redirect"
    "upstream_endpoint demo_router_libs demo_upstream (authorization_endpoint demo_upstream) ''authorization_endpoint''
        endpoint authorize_trace"
    "ERandom 64 verifier \<in> set authorize_trace" "ESeal plain (u_key demo_upstream) (Inr sealed) \<in> set authorize_trace"
    and flow: "flow = \<lparr>f_relay_key = r_key demo_relay, f_app_redirect_uri = redirect, f_app_state = a_state demo_authorize,
         f_upstream_pkce_verifier = b64url_encode demo_router_libs verifier,
         f_client_code_challenge = a_code_challenge demo_authorize,
         f_client_code_challenge_method = map_option (\<lambda>_. ''S256'') (a_code_challenge demo_authorize),
         f_id_token_nonce = a_id_token_nonce demo_authorize, f_issued_at = now, f_nonce = nonce\<rparr>"
    by blast
  have "f_app_redirect_uri flow = ''https://app.example/cb''" "f_client_code_challenge flow = Some demo_challenge"
    "f_upstream_pkce_verifier flow = b64url_encode demo_router_libs verifier"
    using flow q *(1) by simp_all
  then show ?thesis using *(2-4) u by metis
qed

section \<open>Refreshing through\<close>

definition refresh_body :: bytes where
  "refresh_body = demo_members_print
     [(''grant_type'', ''refresh_token''), (''refresh_token'', ''rt'')]"

definition refreshing_form :: token_request where
  "refreshing_form =
     \<lparr>t_grant_type = ''refresh_token'', t_code = None, t_refresh_token = Some ''rt'', t_redirect_uri = None,
      t_client_id = None, t_client_secret = None, t_code_verifier = None, t_scope = None,
      t_client_assertion_type = None, t_client_assertion = None,
      t_pairs = [(''grant_type'', ''refresh_token''), (''refresh_token'', ''rt'')]\<rparr>"

lemma refresh_body_parsed: "parse_token_request demo_router_libs refresh_body = Some refreshing_form"
  by (simp add: parse_token_request_def demo_form_parse_def refresh_body_def demo_members_roundtrip
      token_parameters_def Let_def refreshing_form_def)

definition refresh_query :: http_request where
  "refresh_query = upstream_token_request demo_router_libs demo_upstream (demo_url ''https://idp.example/token'')
     [(''grant_type'', ''refresh_token''), (''refresh_token'', ''rt'')]"

definition refresh_reply :: http_response where
  "refresh_reply = \<lparr>res_status = 200, res_url = demo_url ''https://idp.example/token'', res_content_type = None,
     res_body = Some ''{}''\<rparr>"

definition refresh_trace :: "event list" where
  "refresh_trace =
     [EPolicy \<lparr>offered_url = demo_url ''https://idp.example/token'', offered_purpose = Refresh,
        offered_relay = Some ''app'', offered_upstream = Some ''idp''\<rparr> True,
      EExecute refresh_query (Some refresh_reply)]"

lemma demo_refresh:
  assumes "mode (refresh_tokens r) = Passthrough" and "r_key r = ''app''"
  shows "path (refresh polls demo_router_libs (demo_state r) r demo_upstream refreshing_form) refresh_trace
    (Some (proxy_response refresh_reply))"
proof -
  have q: "req_url refresh_query = demo_url ''https://idp.example/token''"
    by (simp add: refresh_query_def upstream_token_request_def demo_upstream_def)
  have form: "refresh_form (t_pairs refreshing_form) None = [(''grant_type'', ''refresh_token''), (''refresh_token'', ''rt'')]"
    by (simp add: refresh_form_def client_credential_names_def refreshing_form_def)
  have sent: "path (send_checked True refresh_query Refresh (scope_of r demo_upstream)) refresh_trace (Inr refresh_reply)"
    using q assms(2)
    by (simp add: send_checked_def refresh_trace_def refresh_reply_def is_redirection_def scope_of_def Let_def ex_bool_eq)
      (simp add: demo_upstream_def)
  have "resolve_endpoints demo_router_libs True r demo_upstream =
      Ret (Inr \<lparr>e_authorization_endpoint = demo_url ''https://idp.example/authorize'',
        e_token_endpoint = demo_url ''https://idp.example/token'', e_jwks_uri = None\<rparr>)"
    by (simp add: resolve_endpoints_def endpoints_need_discovery_def resolve_endpoints_from_doc_def or_else_def
        ok_or_def demo_upstream_def url_field_def)
  then have "path (send_upstream_refresh demo_router_libs (demo_state r) r demo_upstream refreshing_form None) (refresh_trace @ [])
      (Inr refresh_reply)"
    unfolding send_upstream_refresh_def
    by (simp add: form send_upstream_token_request_def refresh_query_def [symmetric])
      (use path_bindI [OF sent, of "\<lambda>sent. Ret (case sent of Inl _ \<Rightarrow> Inl FailedRequest | Inr reply \<Rightarrow> Inr reply)" "[]"
        "Inr refresh_reply"] in simp)
  moreover have "\<not> has_handle_prefix ''rt''"
    by (simp add: has_handle_prefix_def strip_prefix_def starts_with_def)
  ultimately show ?thesis
    using assms(1)
    by (simp add: refresh_def refresh_without_state_def path_steps scope_rejection_def Let_def refreshing_form_def
        [THEN arg_cong [where f = t_refresh_token]] refreshing_form_def [THEN arg_cong [where f = t_scope]]) blast
qed

lemma plain_simps [simp]:
  "mode (refresh_tokens plain_relay) = Passthrough" "r_key plain_relay = ''app''" "client_auth plain_relay = Public"
  "r_upstream plain_relay = ''idp''"
  by (simp_all add: plain_relay_def refresh_tokens_default_def demo_relay_def)

theorem client_credentials_stay_witness: "(''client_id'', ''cid'') \<in> set (req_form refresh_query)
    \<and> (''client_id'', ''cid'') \<in> {(''client_id'', client_id demo_upstream), (''client_secret'', client_secret demo_upstream)}"
proof -
  have "(''client_id'', ''cid'') \<in> set (req_form refresh_query)"
    by (simp add: refresh_query_def upstream_form) (simp add: demo_upstream_def)
  with client_credentials_stay [OF demo_refresh [of plain_relay 1], of refresh_query "Some refresh_reply" "''client_id''" "''cid''"]
  show ?thesis by (simp add: refresh_trace_def client_credential_names_def)
qed

theorem handles_not_forwarded_witness:
  "(''refresh_token'', ''rt'') \<in> set (req_form refresh_query) \<and> \<not> has_handle_prefix ''rt''"
proof -
  have "(''refresh_token'', ''rt'') \<in> set (req_form refresh_query)"
    by (simp add: refresh_query_def upstream_form)
  with handles_not_forwarded [OF refresh_body_parsed _ demo_refresh [of plain_relay 1], of "''rt''" "butlast refresh_trace"
      refresh_query "Some refresh_reply" "[]" "''rt''"]
  show ?thesis by (simp add: refresh_trace_def refreshing_form_def [THEN arg_cong [where f = t_refresh_token]])
qed

section \<open>Clients\<close>

definition assertion_trace :: "event list" where
  "assertion_trace =
     [EUnixNow 100, EUnixNow 100, EUnixNow 100, ERandom 16 (replicate 16 (CHR ''m'')),
      EPut (assertion_replay_key demo_router_libs ''iuaj'') (replicate 16 (CHR ''m''))
        (from_secs (assertion_ttl 200 60 100)) (Inr True)]"

lemma demo_assertion:
  "path (verify_private_key_jwt demo_router_libs (demo_state plain_relay) (Some ''app'') ''a'' ''i'' ''u''
     (Some (JwksInline JNull)) ''t'' True) assertion_trace (Inr ())"
proof -
  have claims: "json_get demo_claims ''iat'' = Some (JNumber (PosInt 100))" "json_get demo_claims ''nbf'' = None"
    "json_get demo_claims ''iss'' = Some (JString ''i'')" "json_get demo_claims ''sub'' = Some (JString ''u'')"
    "audience_ok demo_claims ''a''" "single_use_claims demo_claims = Some (200, ''j'')"
    by (simp_all add: demo_claims_def audience_ok_def single_use_claims_def)
  have used: "path (consume_assertion demo_router_libs (demo_state plain_relay) ''i'' ''u'' ''a'' demo_claims 60)
      (drop 2 assertion_trace) (Inr ())"
    using claims by (simp add: consume_assertion_def assertion_trace_def)
  have "path (check_assertion demo_router_libs (demo_state plain_relay) ''a'' ''i'' ''u'' demo_claims 60 True)
      ([EUnixNow 100] @ drop 2 assertion_trace) (Inr ())"
    unfolding check_assertion_def using claims used
    by (simp add: bindE_def path_bind saturating_add_def u64_max_def) 
  then show ?thesis
    by (simp add: verify_private_key_jwt_def assertion_jwks_url_def assertion_keys_def ok_or_def find_jwk_def
        client_assertion_algorithms_def Let_def assertion_validation_def validation_new_def assertion_trace_def)
qed

theorem client_assertion_verified_witness:
  "\<exists>identity marker expires_at. single_use_claims demo_claims = Some (expires_at, ''j'')
    \<and> EPut (assertion_replay_key demo_router_libs identity) marker (from_secs (assertion_ttl expires_at 60 100)) (Inr True)
        \<in> set assertion_trace"
proof -
  have "single_use_claims demo_claims = Some (200, ''j'')"
    by (simp add: demo_claims_def single_use_claims_def)
  then show ?thesis
    using client_assertion_verified [OF demo_assertion] by (fastforce simp: assertion_trace_def)
qed

theorem assertion_marker_bounds_witness:
  "(200 :: nat) + 60 < 100 + assertion_ttl 200 60 100 \<and> assertion_ttl 200 60 100 \<le> 421"
  using assertion_marker_bounds [of demo_claims 200 "''j''" 60 100 100]
  by (simp add: demo_claims_def single_use_claims_def u64_max_def)

definition refresh_post :: in_request where
  "refresh_post = \<lparr>in_method = POST, in_path = ''/relay/app/token'', in_query = None, in_headers = [],
     in_body = Some refresh_body\<rparr>"

theorem token_needs_authentication_witness:
  "\<exists>form. parse_token_request demo_router_libs refresh_body = Some form
     \<and> t_client_secret form = None \<and> t_client_assertion form = None"
proof -
  have "path (authenticate demo_router_libs (demo_state plain_relay) plain_relay demo_upstream refreshing_form []) [] (Inr ())"
    by (simp add: authenticate_def refreshing_form_def public_client_header_allowed_def header_values_def)
  moreover have "path (token_grant 1 demo_router_libs (demo_state plain_relay) plain_relay demo_upstream refreshing_form)
      refresh_trace (Some (proxy_response refresh_reply))"
    using demo_refresh [of plain_relay 1] by (simp add: token_grant_def refreshing_form_def [THEN arg_cong [where f = t_grant_type]])
  ultimately have "path (token 1 demo_router_libs (demo_state plain_relay) plain_relay demo_upstream refresh_post)
      refresh_trace (Some (proxy_response refresh_reply))"
    by (simp add: token_def refresh_post_def refresh_body_parsed Let_def path_steps allowed_cors_origin_def
        header_values_def with_cors_def)
      (intro exI [of _ "[]"] exI [of _ "Inr ()"], fastforce)
  from token_needs_authentication [OF this, of "''{}''"] show ?thesis
    by (auto simp: refresh_post_def proxy_response_def refresh_reply_def)
qed

theorem only_valid_resources_served_witness:
  "\<exists>r u. resolve_relay (demo_state demo_relay) ''app'' = Inr (Some r)
     \<and> resolve_upstream (demo_state demo_relay) (r_upstream r) = Inr (Some u)
     \<and> is_ok (relay_validate_for demo_router_libs r demo_options)"
  using only_valid_resources_served [OF demo_jwks_path [of 1]] demo_relay_valid_for
  by (simp add: demo_fetch_trace_def) (auto simp: demo_relay_def)

theorem dispatch_answers_witness:
  "steady 0 (demo_fetch_trace @ EExecute demo_fetch None # []) \<and>
    (\<exists>resp. path (dispatch 51 demo_router_libs (demo_state demo_relay) (demo_get ''/relay/app/jwks''))
       (demo_fetch_trace @ EExecute demo_fetch None # []) (Some resp))"
proof -
  have steady: "steady 0 (demo_fetch_trace @ EExecute demo_fetch None # [])" by (simp add: demo_fetch_trace_def)
  from dispatch_answers [OF demo_jwks_path this] demo_jwks_path [of 51] steady show ?thesis by blast
qed

section \<open>Documents\<close>

definition keys_reply :: http_response where
  "keys_reply = \<lparr>res_status = 200, res_url = demo_discovery, res_content_type = None, res_body = Some ''{}''\<rparr>"

definition demo_scope :: scope where
  "demo_scope = \<lparr>scope_relay = None, scope_upstream = None\<rparr>"

definition fetch_trace :: "event list" where
  "fetch_trace =
     [EPolicy \<lparr>offered_url = demo_discovery, offered_purpose = Discovery, offered_relay = None, offered_upstream = None\<rparr> True,
      EExecute demo_fetch (Some keys_reply)]"

lemma demo_sent: "path (send_checked True demo_fetch Discovery demo_scope) fetch_trace (Inr keys_reply)"
  by (simp add: send_checked_def Let_def demo_fetch_def get_request_def keys_reply_def is_redirection_def demo_scope_def
      fetch_trace_def ex_bool_eq)

theorem no_redirect_is_followed_witness:
  "res_url keys_reply = req_url demo_fetch \<and> \<not> is_redirection (res_status keys_reply)"
  using no_redirect_is_followed [OF demo_sent] by simp

theorem cached_documents_witness:
  "\<exists>q response. EExecute q (Some response) \<in> set fetch_trace \<and> req_url q = demo_discovery
     \<and> is_success_status (res_status response)"
proof -
  let ?key = "cache_key Discovery demo_discovery"
  have "path (fetch_json_object demo_router_libs True demo_scope demo_discovery Discovery) (fetch_trace @ [])
      (Inr (JObject [(''id_token'', JString ''t'')]))"
    unfolding fetch_json_object_def
    by (rule path_bindI [OF demo_sent [unfolded demo_fetch_def]]) (simp add: keys_reply_def is_success_status_def)
  then have "path (Outbound.cached_json demo_router_libs True demo_scope demo_discovery DISCOVERY_TTL Discovery)
      ([ECacheGet DocumentCache ?key None] @ (fetch_trace @ []) @
        [EInstantNow 5, ECachePut DocumentCache ?key \<lparr>fetched = 5, cached_value = JObject [(''id_token'', JString ''t'')]\<rparr>])
      (Inr (JObject [(''id_token'', JString ''t'')]))"
    unfolding Outbound.cached_json_def cached_json_with_client_def Let_def
    by (intro path_bindI [where x = None]) (auto simp: cache_lookup_def cache_store_def intro!: path_bindI)
  from cached_documents [OF this] show ?thesis by auto
qed

section \<open>A whole login\<close>

text \<open>Codecs that write the fields of an envelope as framed strings.\<close>

definition fields_print :: "string list \<Rightarrow> bytes" where
  "fields_print fs = demo_members_print (map (Pair []) fs)"

definition fields_parse :: "bytes \<Rightarrow> string list option" where
  "fields_parse bs = map_option (map snd) (demo_members_parse bs)"

lemma fields_roundtrip [simp]: "fields_parse (fields_print fs) = Some fs"
  by (simp add: fields_parse_def fields_print_def demo_members_roundtrip comp_def)

definition opt_print :: "string option \<Rightarrow> string" where
  "opt_print x = (case x of None \<Rightarrow> [] | Some s \<Rightarrow> CHR ''S'' # s)"

definition opt_parse :: "string \<Rightarrow> string option" where
  "opt_parse s = (case s of [] \<Rightarrow> None | _ # t \<Rightarrow> Some t)"

lemma opt_roundtrip [simp]: "opt_parse (opt_print x) = x"
  by (simp add: opt_parse_def opt_print_def split: option.split)

definition nat_print :: "nat \<Rightarrow> string" where
  "nat_print n = replicate n (CHR ''1'')"

lemma nat_roundtrip [simp]: "length (nat_print n) = n"
  by (simp add: nat_print_def)

definition flow_print :: "flow_envelope \<Rightarrow> bytes" where
  "flow_print f = fields_print
     [f_relay_key f, f_app_redirect_uri f, opt_print (f_app_state f), f_upstream_pkce_verifier f,
      opt_print (f_client_code_challenge f), opt_print (f_client_code_challenge_method f),
      opt_print (f_id_token_nonce f), nat_print (f_issued_at f), f_nonce f]"

definition flow_parse :: "bytes \<Rightarrow> flow_envelope option" where
  "flow_parse bs =
     (case fields_parse bs of
        Some [key, uri, st, verifier, challenge, cmethod, idn, issued, nonce] \<Rightarrow>
          Some \<lparr>f_relay_key = key, f_app_redirect_uri = uri, f_app_state = opt_parse st,
            f_upstream_pkce_verifier = verifier, f_client_code_challenge = opt_parse challenge,
            f_client_code_challenge_method = opt_parse cmethod, f_id_token_nonce = opt_parse idn,
            f_issued_at = length issued, f_nonce = nonce\<rparr>
      | _ \<Rightarrow> None)"

lemma flow_roundtrip: "flow_parse (flow_print f) = Some f"
  by (simp add: flow_parse_def flow_print_def)

definition code_print :: "code_envelope \<Rightarrow> bytes" where
  "code_print c = fields_print
     [ce_relay_key c, ce_envelope_id c, nat_print (ce_issued_at c), ce_redirect_uri c,
      opt_print (ce_client_code_challenge c), opt_print (ce_id_token_nonce c),
      demo_response_encode (ce_upstream_response c), ce_handle_fingerprint c]"

definition code_parse :: "bytes \<Rightarrow> code_envelope option" where
  "code_parse bs =
     (case fields_parse bs of
        Some [key, ident, issued, uri, challenge, idn, resp, fp] \<Rightarrow>
          map_option (\<lambda>stored. \<lparr>ce_relay_key = key, ce_envelope_id = ident, ce_issued_at = length issued,
            ce_redirect_uri = uri, ce_client_code_challenge = opt_parse challenge,
            ce_id_token_nonce = opt_parse idn, ce_upstream_response = stored,
            ce_handle_fingerprint = fp\<rparr>) (demo_response_decode resp)
      | _ \<Rightarrow> None)"

lemma code_roundtrip: "code_parse (code_print c) = Some c"
  by (simp add: code_parse_def code_print_def demo_response_roundtrip)

definition login_libs :: router_libs where
  "login_libs = demo_router_libs\<lparr>flow_encode := (\<lambda>f. Some (flow_print f)), flow_decode := flow_parse,
     code_encode := (\<lambda>c. Some (code_print c)), code_decode := code_parse\<rparr>"

definition login_stored :: stored_response where
  "login_stored = \<lparr>sr_status = 200, sr_content_type = None, sr_body = demo_members_print [(''refresh_token'', ''RT'')]\<rparr>"

definition login_machine :: "unit machine" where
  "login_machine = demo_machine\<lparr>answer := (\<lambda>q h. (Some \<lparr>res_status = 200, res_url = req_url q,
     res_content_type = None, res_body = Some (sr_body login_stored)\<rparr>, h))\<rparr>"

lemma login_simps [simp]:
  "b64url_encode login_libs x = x" "url_parse login_libs = url_parse demo_libs" "sha256 login_libs = take 900"
  by (simp_all add: login_libs_def)

text \<open>A confidential client of the demo relay, which rotates refresh tokens.\<close>

definition login_relay :: relay where
  "login_relay = demo_relay\<lparr>client_auth := ClientSecret ''c'' ''s''\<rparr>"

lemma validated_fields [simp]:
  "validate_redirects L (r\<lparr>refresh_tokens := rt\<rparr>) = validate_redirects L r"
  "validate_redirects L (r\<lparr>client_auth := ca\<rparr>) = validate_redirects L r"
  "validate_scopes (r\<lparr>refresh_tokens := rt\<rparr>) = validate_scopes r"
  "validate_scopes (r\<lparr>client_auth := ca\<rparr>) = validate_scopes r"
  "redirect_allowed L (r\<lparr>client_auth := ca\<rparr>) v os = redirect_allowed L r v os"
  by (simp_all add: validate_redirects_def validate_scopes_def redirect_allowed_def cong: option.case_cong)

lemma login_relay_valid: "is_ok (relay_validate_for login_libs login_relay demo_options)"
proof -
  have "validate_redirects login_libs demo_relay = Inr ()" "validate_scopes demo_relay = Inr ()"
    using relay_validate_ok(3,4) [OF demo_relay_valid [of login_libs]] by (simp_all add: unit_result_ok)
  then have "validate_redirects login_libs login_relay = Inr ()" "validate_scopes login_relay = Inr ()"
    by (simp_all add: login_relay_def)
  moreover have "refresh_tokens_validate (refresh_tokens login_relay) = Inr ()"
    by (simp add: refresh_tokens_validate_def login_relay_def demo_relay_def refresh_tokens_default_def
        DEFAULT_GRACE_PERIOD_SECONDS_def MAX_GRACE_PERIOD_SECONDS_def DEFAULT_MAX_LIFETIME_SECONDS_def
        MAX_MAX_LIFETIME_SECONDS_def)
  moreover have "client_auth login_relay = ClientSecret ''c'' ''s''" "required_id_token_claims login_relay = []"
    "id_token_policy login_relay = None" "redirect_policy login_relay = [Uri ''https://app.example/cb'']"
    by (simp_all add: login_relay_def demo_relay_def)
  ultimately show ?thesis by (simp add: relay_validate_for_def relay_validate_def)
qed

lemma demo_login_ready: "login_ready login_libs login_machine (demo_state login_relay) login_relay demo_upstream"
proof -
  have "resource_key_new ''app'' = Inr ''app''"
    by (simp add: resource_key_new_def starts_with_def ends_with_def key_byte_def byte_class_defs)
  moreover have "machine_ok login_machine"
    using demo_machine_ok by (simp add: machine_ok_def login_machine_def)
  moreover have "\<exists>e. seal_with login_machine n p d = Inr e" for n p d
    by (simp add: login_machine_def demo_machine_def xchacha_seal_def demo_libs_def ok_or_def)
  moreover have "allows login_machine q" for q by (simp add: login_machine_def demo_machine_def)
  moreover have "r_key login_relay = ''app''" "r_upstream login_relay = ''idp''" "u_key demo_upstream = ''idp''"
    by (simp_all add: login_relay_def demo_relay_def demo_upstream_def)
  ultimately show ?thesis
    using login_relay_valid
    by (simp add: login_ready_def login_libs_def flow_roundtrip code_roundtrip endpoints_need_discovery_def)
      (simp add: demo_upstream_def)
qed

lemma demo_upstream_answers: "upstream_answers login_machine login_stored"
  by (simp add: upstream_answers_def login_machine_def is_redirection_def) (simp add: login_stored_def)

lemma login_relay_simps [simp]:
  "scopes login_relay = [''openid'']" "client_auth login_relay = ClientSecret ''c'' ''s''"
  "mode (refresh_tokens login_relay) = Rotating" "required_id_token_claims login_relay = []"
  "id_token_policy login_relay = None"
  by (simp_all add: login_relay_def demo_relay_def)

lemma login_checks:
  "authorize_checks login_libs (demo_state login_relay) login_relay demo_authorize
     = Inr (''https://app.example/cb'', Some ''openid'')"
proof -
  have "redirect_allowed login_libs login_relay ''https://app.example/cb'' demo_options"
    using demo_redirect_allowed [of login_libs] by (simp add: login_relay_def)
  then show ?thesis
    using demo_valid_challenge
    by (simp add: authorize_checks_def rotation_store_missing_def demo_authorize_def empty_authorize_def)
qed

text \<open>The token request of the client, with its secret, for a code.\<close>

definition login_body :: "string \<Rightarrow> bytes" where
  "login_body code = demo_members_print
     [(''grant_type'', ''authorization_code''), (''code'', code), (''redirect_uri'', ''https://app.example/cb''),
      (''code_verifier'', demo_challenge), (''client_id'', ''c''), (''client_secret'', ''s'')]"

definition login_post :: "string \<Rightarrow> in_request" where
  "login_post code = \<lparr>in_method = POST, in_path = ''/relay/app/token'', in_query = None, in_headers = [],
     in_body = Some (login_body code)\<rparr>"

definition login_form :: "string \<Rightarrow> token_request" where
  "login_form code =
     \<lparr>t_grant_type = ''authorization_code'', t_code = Some code, t_refresh_token = None,
      t_redirect_uri = Some ''https://app.example/cb'', t_client_id = Some ''c'', t_client_secret = Some ''s'',
      t_code_verifier = Some demo_challenge, t_scope = None, t_client_assertion_type = None,
      t_client_assertion = None,
      t_pairs = [(''grant_type'', ''authorization_code''), (''code'', code), (''redirect_uri'', ''https://app.example/cb''),
        (''code_verifier'', demo_challenge), (''client_id'', ''c''), (''client_secret'', ''s'')]\<rparr>"

lemma login_parsed: "parse_token_request login_libs (login_body code) = Some (login_form code)"
  by (simp add: parse_token_request_def demo_form_parse_def login_body_def demo_members_roundtrip login_libs_def
      token_parameters_def Let_def login_form_def)

lemma login_authenticates:
  "run M (authenticate login_libs S login_relay u (login_form code) []) w = (Inr (), w)"
  by (simp add: authenticate_def password_matches_def password_credentials_def header_values_def login_form_def
      unwrap_or_default_def constant_eq_def)

lemma login_env: "env_ok login_libs login_machine"
proof -
  have "machine_ok login_machine" using demo_machine_ok by (simp add: machine_ok_def login_machine_def)
  moreover have "seal_with login_machine = seal_with demo_machine" by (simp add: login_machine_def)
  moreover have "record_encode login_libs = record_encode demo_rotation_libs"
    "record_decode login_libs = record_decode demo_rotation_libs"
    "response_encode login_libs = response_encode demo_rotation_libs"
    "response_decode login_libs = response_decode demo_rotation_libs" "utf8_valid login_libs = utf8_valid demo_rotation_libs"
    by (simp_all add: login_libs_def demo_router_libs_def rotation_libs.defs)
  ultimately show ?thesis using demo_env_ok unfolding env_ok_def by (simp add: min.coboundedI2)
qed

lemma login_printers: "printers_ok login_libs"
  by (auto simp: printers_ok_def members_ok_def login_libs_def demo_router_libs_def rotation_libs.defs
      demo_rotation_libs_def seal_libs.defs demo_libs_def demo_members_roundtrip unframe_frame_nat [of _ "[]", simplified])

lemma login_can_issue:
  "can_issue login_libs login_machine (demo_state login_relay) login_relay demo_upstream login_stored
     (abs_world (demo_world Map.empty))"
proof -
  have "members_parse login_libs = demo_members_parse" "raw_string_parse login_libs = Some"
    by (simp_all add: login_libs_def demo_router_libs_def rotation_libs.defs demo_rotation_libs_def seal_libs.defs demo_libs_def)
  then have "upstream_refresh_token login_libs (sr_status login_stored) (sr_body login_stored) = Some ''RT''"
    by (simp add: upstream_refresh_token_def login_stored_def success_status_def demo_members_roundtrip
        REFRESH_TOKEN_MEMBER_def List.map_filter_def)
  moreover have "s_store (abs_world (demo_world Map.empty)) k = None" for k
    by (simp add: abs_world_def demo_world_def retain_live_def)
  moreover have "max_lifetime (rotator_new b (refresh_tokens login_relay)) = from_secs DEFAULT_MAX_LIFETIME_SECONDS" for b
    by (simp add: rotator_new_def login_relay_def demo_relay_def refresh_tokens_default_def)
  moreover have "0 < saturating_add 0 (as_u64 (as_millis (from_secs DEFAULT_MAX_LIFETIME_SECONDS)))"
    by (simp add: saturating_add_def as_u64_def u64_max_def as_millis_def from_secs_def DEFAULT_MAX_LIFETIME_SECONDS_def)
  moreover have "s_now (abs_world (demo_world Map.empty)) div 1000000 = 0" by (simp add: abs_world_def demo_world_def)
  ultimately show ?thesis
    using login_env login_printers by (simp add: can_issue_def Let_def draws_unused_def)
qed

lemma login_form_simps [simp]:
  "t_grant_type (login_form code) = ''authorization_code''" "t_code (login_form code) = Some code"
  "t_redirect_uri (login_form code) = Some ''https://app.example/cb''"
  "t_code_verifier (login_form code) = Some demo_challenge"
  by (simp_all add: login_form_def)

theorem login_completes_witness:
  "\<exists>sealed code handle body. fst (run login_machine (callback login_libs (demo_state login_relay) demo_upstream
        \<lparr>c_code = Some ''c'', c_state = sealed, c_error = False, c_forwarded = []\<rparr>) (demo_world Map.empty)) =
      found login_libs (append_state login_libs (append_query_pairs login_libs
        (append_query_pairs login_libs ''https://app.example/cb'' [(''code'', code)]) []) None)
    \<and> starts_with ROTATING_PREFIX handle \<and> with_refresh_token login_libs 200 (sr_body login_stored) handle = Some body
    \<and> fst (run login_machine (token 51 login_libs (demo_state login_relay) login_relay demo_upstream (login_post code))
        (demo_world Map.empty)) = Some (stored_response login_libs (login_stored\<lparr>sr_body := body\<rparr>))"
proof -
  let ?w = "demo_world Map.empty"
  have now: "seconds ?w = 0" by (simp add: seconds_def demo_world_def)
  obtain sealed where step: "\<forall>w' cq c. c_state cq = sealed \<longrightarrow> c_code cq = Some c \<longrightarrow> \<not> c_error cq \<longrightarrow>
          fresh_at (seconds w') (seconds ?w) FLOW_TTL \<longrightarrow>
        (\<exists>code. fst (run login_machine (callback login_libs (demo_state login_relay) demo_upstream cq) w') =
            found login_libs (append_state login_libs (append_query_pairs login_libs
            (append_query_pairs login_libs ''https://app.example/cb'' [(''code'', code)]) (c_forwarded cq)) (a_state demo_authorize))
          \<and> redeems login_libs login_machine (demo_state login_relay) login_relay demo_upstream demo_authorize
              ''https://app.example/cb'' login_stored (seconds w') code)"
    using login_completes [OF demo_login_ready demo_upstream_answers login_checks, of ?w] by blast
  have fresh: "fresh_at 0 0 FLOW_TTL" "fresh_at 0 0 CODE_TTL" by (simp_all add: fresh_at_def saturating_sub_def)
  have q: "a_code_challenge demo_authorize = Some demo_challenge" "a_state demo_authorize = None"
    by (simp_all add: demo_authorize_def empty_authorize_def)
  have pkce: "valid_pkce_verifier demo_challenge" "pkce_challenge login_libs demo_challenge = demo_challenge"
    by (simp_all add: valid_pkce_verifier_def demo_challenge_def byte_class_defs list_all_iff pkce_challenge_def)
  from step [rule_format, of "\<lparr>c_code = Some ''c'', c_state = sealed, c_error = False, c_forwarded = []\<rparr>" "''c''" ?w]
  obtain code where code: "fst (run login_machine (callback login_libs (demo_state login_relay) demo_upstream
        \<lparr>c_code = Some ''c'', c_state = sealed, c_error = False, c_forwarded = []\<rparr>) ?w) =
      found login_libs (append_state login_libs (append_query_pairs login_libs
        (append_query_pairs login_libs ''https://app.example/cb'' [(''code'', code)]) []) None)"
    and redeems: "redeems login_libs login_machine (demo_state login_relay) login_relay demo_upstream demo_authorize
        ''https://app.example/cb'' login_stored 0 code"
    using fresh q now by auto
  have "run login_machine (validate_id_token_policy login_libs (demo_state login_relay) login_relay demo_upstream
      login_stored nonce) ?w = (Inr (), ?w)" for nonce
    by (simp add: validate_id_token_policy_def policy_applies_def)
  moreover have "s_store (abs_world ?w) k = None" for k by (simp add: abs_world_def demo_world_def retain_live_def)
  moreover have "in_headers (login_post code) = []" "in_body (login_post code) = Some (login_body code)"
    by (simp_all add: login_post_def)
  moreover have "allowed_cors_origin login_libs login_relay [] os = None" for os
    by (simp add: allowed_cors_origin_def header_values_def)
  moreover have "\<exists>resp w3. run login_machine (token 51 login_libs (demo_state login_relay) login_relay demo_upstream
        (login_post code)) ?w = (Some (with_cors resp (allowed_cors_origin login_libs login_relay
          (in_headers (login_post code)) (redirect_opts (demo_state login_relay)))), w3)
      \<and> handed_out login_libs login_machine login_relay demo_upstream login_stored (seconds ?w) resp (abs_world w3)"
    by (rule redeems [unfolded redeems_def, rule_format, of "login_post code" "login_body code" "login_form code" ?w ?w ?w 51])
      (use calculation login_parsed login_authenticates fresh q pkce now login_can_issue in simp_all)
  ultimately obtain resp w3 where "run login_machine (token 51 login_libs (demo_state login_relay) login_relay demo_upstream
        (login_post code)) ?w = (Some (with_cors resp None), w3)"
    and "handed_out login_libs login_machine login_relay demo_upstream login_stored 0 resp (abs_world w3)"
    using now by auto
  then obtain handle body where "starts_with ROTATING_PREFIX handle"
    and "with_refresh_token login_libs 200 (sr_body login_stored) handle = Some body"
    and "resp = stored_response login_libs (login_stored\<lparr>sr_body := body\<rparr>)"
    by (auto simp: handed_out_def login_stored_def)
  with \<open>run _ (token _ _ _ _ _ _) _ = _\<close> code show ?thesis
    by (intro exI [of _ sealed] exI [of _ code] exI [of _ handle] exI [of _ body]) (simp add: with_cors_def)
qed

end
