(* ===== verification/Resolver.thy ===== *)
theory Resolver
  imports Model
begin

text \<open>
  The resource snapshots of \<open>oauthrelay-core/src/resolver.rs\<close>: what a configuration provider
  produces, its validation, the registry the router resolves from, and the merge of several
  providers' snapshots. A \<open>HashMap\<close> is the list of its entries in the order its iterator
  yields them; its keys are distinct (\<open>snapshot_wf\<close>), so \<^const>\<open>map_of\<close> is its \<open>get\<close>.
\<close>

named_theorems snapshot_simps \<open>lookups in snapshots and maps\<close>

section \<open>Snapshots\<close>

record provider_snapshot =
  snap_upstreams :: "(string \<times> upstream) list"
  snap_relays :: "(string \<times> relay) list"

definition snapshot_default :: provider_snapshot where
  "snapshot_default = \<lparr>snap_upstreams = [], snap_relays = []\<rparr>"

definition snapshot_wf :: "provider_snapshot \<Rightarrow> bool" where
  "snapshot_wf s \<longleftrightarrow> distinct (map fst (snap_upstreams s)) \<and> distinct (map fst (snap_relays s))"

definition contains_key :: "(string \<times> 'v) list \<Rightarrow> string \<Rightarrow> bool" where
  "contains_key m key \<longleftrightarrow> map_of m key \<noteq> None"

definition context_error :: "string \<Rightarrow> string + 'a \<Rightarrow> string + 'a" where
  "context_error pre r = (case r of Inl e \<Rightarrow> Inl (pre @ e) | Inr x \<Rightarrow> Inr x)"

definition snapshot_validate :: "'z libs_scheme \<Rightarrow> provider_snapshot \<Rightarrow> string + unit" where
  "snapshot_validate L s =
     bind_result (try_each (\<lambda>(key, u).
        context_error (''Upstream/'' @ key @ '': '') (upstream_validate u)) (snap_upstreams s)) (\<lambda>_.
     try_each (\<lambda>(key, r).
        bind_result (context_error (''Relay/'' @ key @ '': '') (relay_validate L r)) (\<lambda>_.
        when_err (\<not> contains_key (snap_upstreams s) (r_upstream r))
          (''Relay/'' @ key @ '': upstreamRef '' @ r_upstream r @ '' does not exist''))) (snap_relays s))"

section \<open>The registry\<close>

text \<open>\<open>replace\<close> swaps the whole snapshot, and \<open>snapshot\<close> and the two lookups read it.\<close>

record registry =
  resources :: provider_snapshot

definition registry_default :: registry where
  "registry_default = \<lparr>resources = snapshot_default\<rparr>"

definition registry_replace :: "provider_snapshot \<Rightarrow> registry \<Rightarrow> registry" where
  "registry_replace s g = g\<lparr>resources := s\<rparr>"

definition registry_snapshot :: "registry \<Rightarrow> provider_snapshot" where
  "registry_snapshot g = resources g"

definition snapshot_relay :: "provider_snapshot \<Rightarrow> string \<Rightarrow> string + relay option" where
  "snapshot_relay s key = Inr (map_of (snap_relays s) key)"

definition snapshot_upstream :: "provider_snapshot \<Rightarrow> string \<Rightarrow> string + upstream option" where
  "snapshot_upstream s key = Inr (map_of (snap_upstreams s) key)"

definition registry_relay :: "registry \<Rightarrow> string \<Rightarrow> string + relay option" where
  "registry_relay g key = Inr (map_of (snap_relays (resources g)) key)"

definition registry_upstream :: "registry \<Rightarrow> string \<Rightarrow> string + upstream option" where
  "registry_upstream g key = Inr (map_of (snap_upstreams (resources g)) key)"

text \<open>The two loops of \<open>Registry::merge_ordered\<close>: an entry is kept unless its key is taken.\<close>

fun keep_earlier :: "(string \<times> 'v) list \<Rightarrow> (string \<times> 'v) list \<Rightarrow> (string \<times> 'v) list" where
  "keep_earlier merged [] = merged"
| "keep_earlier merged ((key, v) # entries) =
     keep_earlier (if contains_key merged key then merged else merged @ [(key, v)]) entries"

definition merge_one :: "provider_snapshot \<Rightarrow> provider_snapshot \<Rightarrow> provider_snapshot" where
  "merge_one merged s =
     \<lparr>snap_upstreams = keep_earlier (snap_upstreams merged) (snap_upstreams s),
      snap_relays = keep_earlier (snap_relays merged) (snap_relays s)\<rparr>"

definition merge_ordered :: "(string \<times> provider_snapshot) list \<Rightarrow> provider_snapshot" where
  "merge_ordered snapshots = fold (\<lambda>(provider, s) merged. merge_one merged s) snapshots snapshot_default"

section \<open>Validation\<close>

lemma context_error_ok [simp]: "is_ok (context_error pre r) \<longleftrightarrow> is_ok r"
  by (cases r) (auto simp: context_error_def)

lemma is_ok_bind: "is_ok (bind_result r f) \<longleftrightarrow> (\<exists>x. r = Inr x \<and> is_ok (f x))"
  by (cases r) auto

lemma is_ok_when_err [simp]: "is_ok (when_err b e) \<longleftrightarrow> \<not> b"
  by (simp add: when_err_def)

lemma is_ok_bind_unit: "is_ok (bind_result (r :: 'e + unit) (\<lambda>_. g)) \<longleftrightarrow> is_ok r \<and> is_ok g"
  by (cases r) auto

lemma snapshot_validate_ok:
  "is_ok (snapshot_validate L s) \<longleftrightarrow>
     (\<forall>(key, u)\<in>set (snap_upstreams s). is_ok (upstream_validate u)) \<and>
     (\<forall>(key, r)\<in>set (snap_relays s).
        is_ok (relay_validate L r) \<and> contains_key (snap_upstreams s) (r_upstream r))"
  by (auto simp: snapshot_validate_def is_ok_bind_unit try_each_ok)

section \<open>Merging\<close>

lemma contains_key_map_add: "map_of (a @ b) key = (case map_of a key of None \<Rightarrow> map_of b key | Some v \<Rightarrow> Some v)"
  by (auto simp: map_add_def split: option.splits)

lemma keep_earlier_lookup:
  "map_of (keep_earlier merged entries) key =
     (case map_of merged key of Some v \<Rightarrow> Some v | None \<Rightarrow> map_of entries key)"
proof (induction merged entries rule: keep_earlier.induct)
  case (1 merged)
  show ?case by (simp split: option.splits)
next
  case (2 merged k v entries)
  then show ?case by (auto simp: contains_key_def contains_key_map_add split: option.splits)
qed

lemma keep_earlier_distinct:
  "distinct (map fst merged) \<Longrightarrow> distinct (map fst (keep_earlier merged entries))"
proof (induction merged entries rule: keep_earlier.induct)
  case (2 merged k v entries)
  then show ?case by (auto simp: contains_key_def map_of_eq_None_iff)
qed simp

lemma keep_earlier_entries: "set (keep_earlier merged entries) \<subseteq> set merged \<union> set entries"
  by (induction merged entries rule: keep_earlier.induct) auto

lemma keep_earlier_contains:
  "contains_key (keep_earlier merged entries) key \<longleftrightarrow> contains_key merged key \<or> contains_key entries key"
  by (auto simp: contains_key_def keep_earlier_lookup split: option.splits)

lemma merge_one_valid:
  assumes "is_ok (snapshot_validate L merged)" and "is_ok (snapshot_validate L s)"
  shows "is_ok (snapshot_validate L (merge_one merged s))"
  using assms keep_earlier_entries [of "snap_upstreams merged" "snap_upstreams s"]
    keep_earlier_entries [of "snap_relays merged" "snap_relays s"]
  by (fastforce simp: snapshot_validate_ok merge_one_def keep_earlier_contains)

lemma merge_one_wf: "snapshot_wf merged \<Longrightarrow> snapshot_wf (merge_one merged s)"
  by (simp add: snapshot_wf_def merge_one_def keep_earlier_distinct)

text \<open>The first provider, in order, that has the key.\<close>

fun first_with :: "(provider_snapshot \<Rightarrow> string \<Rightarrow> 'v option) \<Rightarrow> (string \<times> provider_snapshot) list
    \<Rightarrow> string \<Rightarrow> 'v option" where
  "first_with look [] key = None"
| "first_with look ((provider, s) # rest) key =
     (case look s key of None \<Rightarrow> first_with look rest key | Some v \<Rightarrow> Some v)"

lemma merge_fold_lookup:
  "map_of (snap_upstreams (fold (\<lambda>(p, s) m. merge_one m s) snaps m)) key =
     (case map_of (snap_upstreams m) key of
        None \<Rightarrow> first_with (\<lambda>s. map_of (snap_upstreams s)) snaps key | Some v \<Rightarrow> Some v)"
  "map_of (snap_relays (fold (\<lambda>(p, s) m. merge_one m s) snaps m)) key =
     (case map_of (snap_relays m) key of
        None \<Rightarrow> first_with (\<lambda>s. map_of (snap_relays s)) snaps key | Some v \<Rightarrow> Some v)"
  by (induction snaps arbitrary: m) (auto simp: merge_one_def keep_earlier_lookup split: option.splits)

lemma merge_lookup:
  "map_of (snap_upstreams (merge_ordered snaps)) key = first_with (\<lambda>s. map_of (snap_upstreams s)) snaps key"
  "map_of (snap_relays (merge_ordered snaps)) key = first_with (\<lambda>s. map_of (snap_relays s)) snaps key"
  by (simp_all add: merge_ordered_def merge_fold_lookup snapshot_default_def)

lemma merge_fold_keeps:
  assumes "\<And>m s. P m \<Longrightarrow> Q s \<Longrightarrow> P (merge_one m s)" and "\<forall>(p, s)\<in>set snaps. Q s" and "P m"
  shows "P (fold (\<lambda>(p, s) m. merge_one m s) snaps m)"
  using assms(2,3) by (induction snaps arbitrary: m) (auto intro: assms(1))

lemma merge_ordered_wf: "snapshot_wf (merge_ordered snaps)"
  unfolding merge_ordered_def
  by (rule merge_fold_keeps [where P = snapshot_wf and Q = "\<lambda>_. True", OF merge_one_wf])
    (simp_all add: snapshot_default_def snapshot_wf_def)

lemma merge_ordered_valid:
  assumes "\<forall>(p, s)\<in>set snaps. is_ok (snapshot_validate L s)"
  shows "is_ok (snapshot_validate L (merge_ordered snaps))"
  unfolding merge_ordered_def
  by (rule merge_fold_keeps [where P = "\<lambda>m. is_ok (snapshot_validate L m)", OF merge_one_valid assms])
    (simp_all add: snapshot_validate_ok snapshot_default_def)

text \<open>
  Merging valid snapshots of several providers gives a valid snapshot in which every key has the
  resource of the first provider that defines it. After it replaces the registry, every relay the
  registry resolves is valid and its upstream resolves to a valid upstream.
\<close>

lemma registry_resolves:
  assumes "\<forall>(p, s)\<in>set snaps. is_ok (snapshot_validate L s)"
    and "g' = registry_replace (merge_ordered snaps) g" and "registry_relay g' key = Inr (Some r)"
  shows "first_with (\<lambda>s. map_of (snap_relays s)) snaps key = Some r \<and> is_ok (relay_validate L r) \<and>
    (\<exists>u. registry_upstream g' (r_upstream r) = Inr (Some u) \<and> is_ok (upstream_validate u) \<and>
       first_with (\<lambda>s. map_of (snap_upstreams s)) snaps (r_upstream r) = Some u)"
proof -
  let ?m = "merge_ordered snaps"
  have m: "resources g' = ?m" using assms(2) by (simp add: registry_replace_def)
  with assms(3) have at: "map_of (snap_relays ?m) key = Some r" by (simp add: registry_relay_def)
  note valid = merge_ordered_valid [OF assms(1), unfolded snapshot_validate_ok]
  from valid map_of_SomeD [OF at] obtain u where u: "map_of (snap_upstreams ?m) (r_upstream r) = Some u"
    by (auto simp: contains_key_def)
  from valid map_of_SomeD [OF at] map_of_SomeD [OF u] at u show ?thesis
    by (auto simp: registry_upstream_def m merge_lookup)
qed

end
