(* ===== verification/Text.thy ===== *)
theory Text
  imports Prelude
begin

text \<open>
  Decimal numerals as the Rust standard library prints and parses them: \<open>u64::to_string\<close> and
  \<open>str::parse::<u64>\<close>. Shared by the configuration, the stores and the server binary.
\<close>

text \<open>An \<open>anyhow\<close> error: the chain of its messages, outermost first.\<close>

type_synonym errors = "string list"

text \<open>
  The \<open>Debug\<close> form of a name or key made of characters that need no escape, as every object name
  and every key of the relay is.
\<close>

definition quoted :: "string \<Rightarrow> string" where
  "quoted name = [CHR 0x22] @ name @ [CHR 0x22]"

definition digit_char :: "nat \<Rightarrow> char" where
  "digit_char d = char_of (48 + d)"

fun decimal :: "nat \<Rightarrow> string" where
  "decimal n = (if n < 10 then [digit_char n] else decimal (n div 10) @ [digit_char (n mod 10)])"

declare decimal.simps [simp del]

definition digits_value :: "string \<Rightarrow> nat" where
  "digits_value s = foldl (\<lambda>acc c. acc * 10 + (byte_value c - 48)) 0 s"

text \<open>An optional \<open>+\<close>, then at least one digit, and no overflow.\<close>

definition parse_u64 :: "string \<Rightarrow> nat option" where
  "parse_u64 s =
     (let ds = (case s of c # rest \<Rightarrow> if c = CHR ''+'' then rest else s | [] \<Rightarrow> s) in
      if ds \<noteq> [] \<and> (\<forall>c\<in>set ds. is_ascii_digit c) \<and> digits_value ds \<le> u64_max
      then Some (digits_value ds) else None)"

lemma byte_value_digit_char [simp]: "d < 10 \<Longrightarrow> byte_value (digit_char d) = 48 + d"
  by (simp add: digit_char_def byte_value_def)

lemma digit_char_digit [simp]: "d < 10 \<Longrightarrow> is_ascii_digit (digit_char d)"
  by (simp add: is_ascii_digit_def)

lemma digits_value_append [simp]:
  "digits_value (s @ [c]) = digits_value s * 10 + (byte_value c - 48)"
  by (simp add: digits_value_def)

lemma digits_value_Nil [simp]: "digits_value [] = 0"
  by (simp add: digits_value_def)

lemma digits_value_decimal [simp]: "digits_value (decimal n) = n"
proof (induction n rule: decimal.induct)
  case (1 n)
  show ?case
  proof (cases "n < 10")
    case True
    then show ?thesis using digits_value_append [of "[]" "digit_char n"] by (simp add: decimal.simps)
  next
    case False
    with 1 show ?thesis by (simp add: decimal.simps [of n])
  qed
qed

lemma decimal_digits: "\<forall>c\<in>set (decimal n). is_ascii_digit c"
proof (induction n rule: decimal.induct)
  case (1 n)
  then show ?case by (cases "n < 10") (auto simp: decimal.simps [of n])
qed

lemma decimal_not_Nil [simp]: "decimal n \<noteq> []"
  by (simp add: decimal.simps [of n])

lemma decimal_inj [simp]: "decimal m = decimal n \<longleftrightarrow> m = n"
  by (metis digits_value_decimal)

lemma plus_not_digit: "\<not> is_ascii_digit (CHR ''+'')"
  by (simp add: byte_class_defs)

lemma parse_u64_decimal:
  assumes "n \<le> u64_max"
  shows "parse_u64 (decimal n) = Some n"
proof -
  obtain c rest where d: "decimal n = c # rest" by (meson decimal_not_Nil list.exhaust)
  moreover from d have "digits_value (c # rest) = n" by (metis digits_value_decimal)
  ultimately show ?thesis
    using decimal_digits [of n] plus_not_digit assms by (auto simp: parse_u64_def Let_def)
qed

lemma parse_u64_bound: "parse_u64 s = Some n \<Longrightarrow> n \<le> u64_max"
  by (auto simp: parse_u64_def Let_def split: if_splits)

end
