(* ===== verification/Config.thy ===== *)
theory Config
  imports Resolver Text
begin

text \<open>
  Configuration documents and their compilation, from \<open>oauthrelay-core/src/config.rs\<close> and
  \<open>jwks.rs\<close>: the resource documents, the secret sources, and \<open>compile_resources\<close> with its
  per-compilation secret cache. The secret resolver is a trait object with effects, here a
  record of two functions over a world \<open>'s\<close>. An \<open>anyhow\<close> error is the chain of its messages,
  outermost first; the texts of errors raised by other crates are left abstract.
\<close>

section \<open>Documents\<close>

datatype api_version = V1Alpha1

record metadata =
  meta_namespace :: "string option"
  meta_name :: string

datatype secret_source =
    Env string
  | File string
  | AwsSsmParameter string
  | SecretKeyRef string string
  | AwsSecretsManager string "string option"

datatype secret_value = SecretInline string | SecretFrom secret_source

fun secret_inline :: "secret_value \<Rightarrow> string option" where
  "secret_inline (SecretInline v) = Some v"
| "secret_inline (SecretFrom _) = None"

fun secret_from :: "secret_value \<Rightarrow> secret_source option" where
  "secret_from (SecretInline _) = None"
| "secret_from (SecretFrom source) = Some source"

record upstream_endpoints =
  ep_authorization :: "string option"
  ep_token :: "string option"
  ep_jwks :: "string option"

datatype auth_method_spec = SpecClientSecretPost | SpecClientSecretBasic

fun auth_method_from :: "auth_method_spec \<Rightarrow> token_endpoint_auth_method" where
  "auth_method_from SpecClientSecretPost = ClientSecretPost"
| "auth_method_from SpecClientSecretBasic = ClientSecretBasic"

record oauth_client =
  oc_client_id :: string
  oc_client_secret :: secret_value
  oc_auth_method :: auth_method_spec

record upstream_spec =
  us_issuer_url :: string
  us_endpoints :: upstream_endpoints
  us_oauth_client :: oauth_client

record upstream_resource =
  ur_api_version :: api_version
  ur_metadata :: metadata
  ur_spec :: upstream_spec

datatype ec_curve = P256 | P384
datatype okp_curve = Ed25519

record jwk_common =
  jwk_kid :: "string option"
  jwk_alg :: "string option"
  jwk_use :: "string option"
  jwk_key_ops :: "string list option"
  jwk_x5u :: "string option"
  jwk_x5c :: "string list option"
  jwk_x5t :: "string option"
  jwk_x5t_s256 :: "string option"

datatype public_jwk =
    RsaKey string string jwk_common
  | EcKey ec_curve string string jwk_common
  | OkpKey okp_curve string jwk_common

record public_jwk_set =
  jwk_keys :: "public_jwk list"

text \<open>\<open>serde_json::to_value\<close> of a key set, by the derived \<open>Serialize\<close> and its attributes.\<close>

fun ec_curve_name :: "ec_curve \<Rightarrow> string" where
  "ec_curve_name P256 = ''P-256''"
| "ec_curve_name P384 = ''P-384''"

fun okp_curve_name :: "okp_curve \<Rightarrow> string" where
  "okp_curve_name Ed25519 = ''Ed25519''"

definition optional_member :: "string \<Rightarrow> ('a \<Rightarrow> json) \<Rightarrow> 'a option \<Rightarrow> (string \<times> json) list" where
  "optional_member name f x = (case x of None \<Rightarrow> [] | Some v \<Rightarrow> [(name, f v)])"

definition string_list :: "string list \<Rightarrow> json" where
  "string_list xs = JArray (map JString xs)"

definition common_members :: "jwk_common \<Rightarrow> (string \<times> json) list" where
  "common_members c =
     optional_member ''kid'' JString (jwk_kid c) @ optional_member ''alg'' JString (jwk_alg c) @
     optional_member ''use'' JString (jwk_use c) @ optional_member ''key_ops'' string_list (jwk_key_ops c) @
     optional_member ''x5u'' JString (jwk_x5u c) @ optional_member ''x5c'' string_list (jwk_x5c c) @
     optional_member ''x5t'' JString (jwk_x5t c) @ optional_member ''x5t#S256'' JString (jwk_x5t_s256 c)"

fun jwk_to_value :: "public_jwk \<Rightarrow> json" where
  "jwk_to_value (RsaKey n e c) =
     JObject ([(''kty'', JString ''RSA''), (''n'', JString n), (''e'', JString e)] @ common_members c)"
| "jwk_to_value (EcKey crv x y c) =
     JObject ([(''kty'', JString ''EC''), (''crv'', JString (ec_curve_name crv)), (''x'', JString x),
               (''y'', JString y)] @ common_members c)"
| "jwk_to_value (OkpKey crv x c) =
     JObject ([(''kty'', JString ''OKP''), (''crv'', JString (okp_curve_name crv)), (''x'', JString x)]
              @ common_members c)"

definition jwks_to_value :: "public_jwk_set \<Rightarrow> json" where
  "jwks_to_value ks = JObject [(''keys'', JArray (map jwk_to_value (jwk_keys ks)))]"

record scope_policy =
  sp_default :: "string list"
  sp_allowed :: "string list option"

datatype refresh_mode_spec = SpecPassthrough | SpecSealed | SpecRotating

record refresh_tokens_spec =
  rs_mode :: refresh_mode_spec
  rs_grace :: "nat option"
  rs_lifetime :: "nat option"

datatype redirect_entry =
    UriEntry string
  | OriginEntry string
  | LoopbackEntry string
  | LoopbackOriginEntry string

datatype client_authentication =
    AuthUpstreamClient
  | AuthPublic
  | AuthClientSecret string secret_value
  | AuthPrivateKeyJwt bool string "string option" "string option" "string option"
      "public_jwk_set option" "string option"

record relay_spec =
  rr_upstream_ref :: string
  rr_scopes :: scope_policy
  rr_required_claims :: "(string \<times> string) list"
  rr_id_token_policy :: "id_token_policy option"
  rr_refresh_tokens :: refresh_tokens_spec
  rr_client_authentication :: client_authentication
  rr_redirect_policy :: "redirect_entry list"

record relay_resource =
  rr_api_version :: api_version
  rr_metadata :: metadata
  rr_spec :: relay_spec

datatype resource_document = UpstreamDoc upstream_resource | RelayDoc relay_resource

fun doc_kind :: "resource_document \<Rightarrow> string" where
  "doc_kind (UpstreamDoc _) = ''Upstream''"
| "doc_kind (RelayDoc _) = ''Relay''"

fun doc_name :: "resource_document \<Rightarrow> string" where
  "doc_name (UpstreamDoc d) = meta_name (ur_metadata d)"
| "doc_name (RelayDoc d) = meta_name (rr_metadata d)"

section \<open>Computations that resolve secrets\<close>

record 's secret_resolver =
  resolve_value :: "string \<Rightarrow> 's \<Rightarrow> (errors + string) \<times> 's"
  resolve_source :: "secret_source \<Rightarrow> 's \<Rightarrow> (errors + string) \<times> 's"

text \<open>The state of one compilation: the secret cache, and the resolver's world.\<close>

type_synonym 's compile_state = "(secret_source \<times> string) list \<times> 's"
type_synonym ('s, 'a) comp = "'s compile_state \<Rightarrow> (errors + 'a) \<times> 's compile_state"

definition comp_lift :: "errors + 'a \<Rightarrow> ('s, 'a) comp" where
  "comp_lift r s = (r, s)"

definition comp_bind :: "('s, 'a) comp \<Rightarrow> ('a \<Rightarrow> ('s, 'b) comp) \<Rightarrow> ('s, 'b) comp" where
  "comp_bind m f s = (case m s of (Inl e, s') \<Rightarrow> (Inl e, s') | (Inr x, s') \<Rightarrow> f x s')"

text \<open>\<open>map_err(anyhow::Error::msg)\<close> and \<open>with_context\<close>.\<close>

definition msg :: "string + 'a \<Rightarrow> errors + 'a" where
  "msg r = (case r of Inl e \<Rightarrow> Inl [e] | Inr x \<Rightarrow> Inr x)"

definition with_context :: "string \<Rightarrow> errors + 'a \<Rightarrow> errors + 'a" where
  "with_context c r = (case r of Inl e \<Rightarrow> Inl (c # e) | Inr x \<Rightarrow> Inr x)"

definition comp_context :: "string \<Rightarrow> ('s, 'a) comp \<Rightarrow> ('s, 'a) comp" where
  "comp_context c m s = (case m s of (r, s') \<Rightarrow> (with_context c r, s'))"

text \<open>A \<open>for\<close> loop that threads the compilation state and an accumulator.\<close>

fun comp_fold :: "('a \<Rightarrow> 'b \<Rightarrow> ('s, 'b) comp) \<Rightarrow> 'a list \<Rightarrow> 'b \<Rightarrow> ('s, 'b) comp" where
  "comp_fold f [] acc = comp_lift (Inr acc)"
| "comp_fold f (x # xs) acc = comp_bind (f x acc) (comp_fold f xs)"

definition resolve_secret :: "'s secret_resolver \<Rightarrow> secret_value \<Rightarrow> ('s, string) comp" where
  "resolve_secret R secret s =
     (let (cache, w) = s in
      case secret of
        SecretInline value \<Rightarrow> (let (r, w') = resolve_value R value w in (r, (cache, w')))
      | SecretFrom source \<Rightarrow>
          (case map_of cache source of
             Some value \<Rightarrow> (Inr value, (cache, w))
           | None \<Rightarrow>
               (case resolve_source R source w of
                  (Inl e, w') \<Rightarrow> (Inl e, (cache, w'))
                | (Inr value, w') \<Rightarrow> (Inr value, (al_insert source value cache, w')))))"

section \<open>Compilation\<close>

definition cfg_resource_key :: "string \<Rightarrow> string \<Rightarrow> errors + string" where
  "cfg_resource_key kind value =
     (if CHR ''/'' \<in> set value
      then Inl [kind @ ''/'' @ value @ '': metadata.name must be one path segment'']
      else case resource_key_new value of
             Inl e \<Rightarrow> Inl [kind @ ''/'' @ value @ '': metadata.name '' @ e]
           | Inr key \<Rightarrow> Inr key)"

definition cfg_parse_url :: "'z libs_scheme \<Rightarrow> string \<Rightarrow> string \<Rightarrow> errors + url" where
  "cfg_parse_url L field value =
     bind_result (with_context field (ok_or [''invalid URL''] (url_parse L value))) (\<lambda>u.
       if \<not> absolute_http u then Inl [field @ '': must be an absolute http(s) URL''] else Inr u)"

definition parse_optional_url :: "'z libs_scheme \<Rightarrow> string \<Rightarrow> string option \<Rightarrow> errors + url option" where
  "parse_optional_url L field value =
     (case value of None \<Rightarrow> Inr None
      | Some v \<Rightarrow> bind_result (cfg_parse_url L field v) (\<lambda>u. Inr (Some u)))"

fun mode_from_spec :: "refresh_mode_spec \<Rightarrow> refresh_token_mode" where
  "mode_from_spec SpecPassthrough = Passthrough"
| "mode_from_spec SpecSealed = Sealed"
| "mode_from_spec SpecRotating = Rotating"

definition compile_refresh_tokens :: "refresh_tokens_spec \<Rightarrow> errors + refresh_tokens" where
  "compile_refresh_tokens spec =
     (let m = mode_from_spec (rs_mode spec) in
      if m \<noteq> Rotating \<and> (rs_grace spec \<noteq> None \<or> rs_lifetime spec \<noteq> None)
      then Inl [''gracePeriodSeconds and maxLifetimeSeconds apply only to mode: rotating'']
      else
        let defaults = refresh_tokens_default;
            compiled = \<lparr>mode = m,
              grace_period_seconds = (case rs_grace spec of None \<Rightarrow> grace_period_seconds defaults | Some n \<Rightarrow> n),
              max_lifetime_seconds = (case rs_lifetime spec of None \<Rightarrow> max_lifetime_seconds defaults | Some n \<Rightarrow> n)\<rparr>
        in bind_result (msg (refresh_tokens_validate compiled)) (\<lambda>_. Inr compiled))"

definition compile_upstream ::
    "'z libs_scheme \<Rightarrow> 's secret_resolver \<Rightarrow> upstream_resource \<Rightarrow> (string \<times> upstream) list
       \<Rightarrow> ('s, (string \<times> upstream) list) comp" where
  "compile_upstream L R d acc =
     comp_bind (comp_lift (cfg_resource_key ''Upstream'' (meta_name (ur_metadata d)))) (\<lambda>key.
     comp_bind (comp_context (''Upstream/'' @ key @ '' spec.oauthClient.clientSecret'')
                 (resolve_secret R (oc_client_secret (us_oauth_client (ur_spec d))))) (\<lambda>secret.
     comp_lift (
       bind_result (cfg_parse_url L ''spec.issuerUrl'' (us_issuer_url (ur_spec d))) (\<lambda>issuer.
       bind_result (parse_optional_url L ''spec.endpoints.authorization'' (ep_authorization (us_endpoints (ur_spec d)))) (\<lambda>az.
       bind_result (parse_optional_url L ''spec.endpoints.token'' (ep_token (us_endpoints (ur_spec d)))) (\<lambda>tok.
       bind_result (parse_optional_url L ''spec.endpoints.jwks'' (ep_jwks (us_endpoints (ur_spec d)))) (\<lambda>jw.
       let u = \<lparr>u_key = key, issuer_url = issuer, authorization_endpoint = az, token_endpoint = tok,
                jwks_uri = jw, client_id = oc_client_id (us_oauth_client (ur_spec d)), client_secret = secret,
                token_endpoint_auth_method = auth_method_from (oc_auth_method (us_oauth_client (ur_spec d)))\<rparr> in
       bind_result (with_context (''Upstream/'' @ key) (msg (upstream_validate u))) (\<lambda>_.
       Inr (al_insert key u acc)))))))))"

definition jwks_source ::
    "'z libs_scheme \<Rightarrow> string \<Rightarrow> string option \<Rightarrow> public_jwk_set option \<Rightarrow> string option
       \<Rightarrow> errors + client_jwks option" where
  "jwks_source L key issuer jwks jwks_url =
     (case (jwks, jwks_url) of
        (None, Some value) \<Rightarrow>
          bind_result (with_context ''spec.clientAuthentication.jwksUrl''
            (ok_or [''invalid URL''] (url_parse L value))) (\<lambda>u. Inr (Some (JwksUrl u)))
      | (Some ks, None) \<Rightarrow> Inr (Some (JwksInline (jwks_to_value ks)))
      | (None, None) \<Rightarrow>
          if issuer \<noteq> None then Inr None
          else Inl [''Relay/'' @ key @ '': PrivateKeyJwt requires exactly one of jwks and jwksUrl, or issuer discovery with neither'']
      | _ \<Rightarrow> Inl [''Relay/'' @ key @ '': PrivateKeyJwt requires exactly one of jwks and jwksUrl, or issuer discovery with neither''])"

fun compile_client_auth ::
    "'z libs_scheme \<Rightarrow> 's secret_resolver \<Rightarrow> string \<Rightarrow> client_authentication \<Rightarrow> ('s, client_auth) comp" where
  "compile_client_auth L R key AuthUpstreamClient = comp_lift (Inr UpstreamClient)"
| "compile_client_auth L R key AuthPublic = comp_lift (Inr Public)"
| "compile_client_auth L R key (AuthClientSecret cid secret) =
     comp_bind (comp_context (''Relay/'' @ key @ '' spec.clientAuthentication.clientSecret'')
                 (resolve_secret R secret)) (\<lambda>value. comp_lift (Inr (ClientSecret cid value)))"
| "compile_client_auth L R key (AuthPrivateKeyJwt single cid issuer subject audience jwks jwks_url) =
     comp_lift (bind_result (jwks_source L key issuer jwks jwks_url) (\<lambda>source.
       Inr (PrivateKeyJwt single cid issuer subject audience source)))"

fun compile_matcher :: "'z libs_scheme \<Rightarrow> redirect_entry \<Rightarrow> string + redirect_matcher" where
  "compile_matcher L (UriEntry v) = matcher_uri L v"
| "compile_matcher L (OriginEntry v) =
     (case url_parse L v of
        Some u \<Rightarrow> if scheme u = ''http'' then matcher_http_origin L v else matcher_origin L v
      | None \<Rightarrow> matcher_origin L v)"
| "compile_matcher L (LoopbackEntry v) = matcher_loopback L v"
| "compile_matcher L (LoopbackOriginEntry v) = matcher_loopback_origin L v"

definition compile_redirects ::
    "'z libs_scheme \<Rightarrow> string \<Rightarrow> redirect_entry list \<Rightarrow> errors + redirect_matcher list" where
  "compile_redirects L key entries =
     try_map (\<lambda>(index, entry).
        with_context (''Relay/'' @ key @ '' spec.redirectPolicy['' @ decimal index @ '']'')
          (msg (compile_matcher L entry))) (enumerate 0 entries)"

definition compile_relay ::
    "'z libs_scheme \<Rightarrow> 's secret_resolver \<Rightarrow> relay_resource \<Rightarrow> (string \<times> relay) list
       \<Rightarrow> ('s, (string \<times> relay) list) comp" where
  "compile_relay L R d acc =
     comp_bind (comp_lift (bind_result (cfg_resource_key ''Relay'' (meta_name (rr_metadata d))) (\<lambda>key.
        bind_result (cfg_resource_key ''Upstream'' (rr_upstream_ref (rr_spec d))) (\<lambda>ups. Inr (key, ups))))) (\<lambda>(key, ups).
     comp_bind (compile_client_auth L R key (rr_client_authentication (rr_spec d))) (\<lambda>auth.
     comp_lift (
       bind_result (compile_redirects L key (rr_redirect_policy (rr_spec d))) (\<lambda>matchers.
       bind_result (with_context (''Relay/'' @ key @ '' spec.refreshTokens'')
          (compile_refresh_tokens (rr_refresh_tokens (rr_spec d)))) (\<lambda>rt.
       let r = \<lparr>r_key = key, r_upstream = ups, generation = None, client_auth = auth,
                scopes = sp_default (rr_scopes (rr_spec d)), allowed_scopes = sp_allowed (rr_scopes (rr_spec d)),
                required_id_token_claims = rr_required_claims (rr_spec d), id_token_policy = rr_id_token_policy (rr_spec d),
                refresh_tokens = rt, redirect_policy = matchers\<rparr> in
       bind_result (with_context (''Relay/'' @ key) (msg (relay_validate L r))) (\<lambda>_.
       Inr (al_insert key r acc)))))))"

text \<open>The first loop: repeated identities are refused, and the documents are split by kind.\<close>

fun split_documents ::
    "(string \<times> string) list \<Rightarrow> resource_document list
       \<Rightarrow> errors + upstream_resource list \<times> relay_resource list" where
  "split_documents seen [] = Inr ([], [])"
| "split_documents seen (d # ds) =
     (if (doc_kind d, doc_name d) \<in> set seen
      then Inl [''duplicate '' @ doc_kind d @ ''/'' @ doc_name d]
      else bind_result (split_documents ((doc_kind d, doc_name d) # seen) ds) (\<lambda>(us, rs).
        Inr (case d of UpstreamDoc u \<Rightarrow> (u # us, rs) | RelayDoc r \<Rightarrow> (us, r # rs))))"

definition compile_resources ::
    "'z libs_scheme \<Rightarrow> 's secret_resolver \<Rightarrow> resource_document list \<Rightarrow> 's \<Rightarrow> (errors + provider_snapshot) \<times> 's" where
  "compile_resources L R documents w =
     (let (r, cache, w') =
        comp_bind (comp_lift (split_documents [] documents)) (\<lambda>(us, rs).
        comp_bind (comp_fold (compile_upstream L R) us []) (\<lambda>ups.
        comp_bind (comp_fold (compile_relay L R) rs []) (\<lambda>rels.
        comp_lift (let s = \<lparr>snap_upstreams = ups, snap_relays = rels\<rparr> in
          bind_result (msg (snapshot_validate L s)) (\<lambda>_. Inr s))))) ([], w)
      in (r, w'))"

end
