(* ===== verification/Compilation.thy ===== *)
theory Compilation
  imports Config Layout
begin

text \<open>
  What a successful compilation of configuration documents establishes: the snapshot is valid and
  holds exactly the resources of the documents, under keys the public layout can route, and no
  secret source is asked twice. The proofs go through two reusable readings of the compilation's
  loops: what they insert (\<open>comp_fold_inserts\<close>), and what they keep of the secret cache
  (\<open>frugal\<close>).
\<close>

section \<open>Reading successful computations\<close>

lemma comp_bind_Inr:
  "comp_bind m f s = (Inr y, s') \<longleftrightarrow> (\<exists>x s1. m s = (Inr x, s1) \<and> f x s1 = (Inr y, s'))"
  by (auto simp: comp_bind_def split: prod.splits sum.splits)

lemma comp_lift_eq [simp]: "comp_lift r s = (r', s') \<longleftrightarrow> r = r' \<and> s = s'"
  by (auto simp: comp_lift_def)

lemma with_context_Inr [simp]: "with_context c r = Inr x \<longleftrightarrow> r = Inr x"
  by (cases r) (auto simp: with_context_def)

lemma msg_Inr [simp]: "msg r = Inr x \<longleftrightarrow> r = Inr x"
  by (cases r) (auto simp: msg_def)

lemma set_al_insert: "set (al_insert k v kvs) \<subseteq> insert (k, v) (set kvs)"
  by (induction k v kvs rule: al_insert.induct) auto

lemmas inserted_keys = fst_set_al_insert [simplified]

text \<open>A loop that inserts one checked entry per element.\<close>

lemma comp_fold_inserts:
  assumes "comp_fold f xs acc s = (Inr acc', s')" and "distinct (map fst acc)"
    and "\<And>x acc s acc' s'. f x acc s = (Inr acc', s') \<Longrightarrow> \<exists>v. acc' = al_insert (nm x) v acc \<and> Q (nm x) v"
  shows "distinct (map fst acc') \<and> fst ` set acc' = fst ` set acc \<union> nm ` set xs \<and>
    (\<forall>(k, v)\<in>set acc'. (k, v) \<in> set acc \<or> Q k v)"
  using assms(1,2)
proof (induction xs arbitrary: acc s)
  case Nil
  then show ?case by auto
next
  case (Cons x xs)
  then obtain acc1 s1 where 1: "f x acc s = (Inr acc1, s1)" "comp_fold f xs acc1 s1 = (Inr acc', s')"
    by (auto simp: comp_bind_Inr)
  from assms(3) [OF 1(1)] obtain v where v: "acc1 = al_insert (nm x) v acc" "Q (nm x) v" by blast
  have "distinct (map fst acc1)" using Cons.prems(2) v(1) by (simp add: distinct_al_insert)
  from Cons.IH [OF 1(2) this] show ?case
    using v set_al_insert [of "nm x" v acc] by (auto simp: inserted_keys)
qed

lemma resource_key_new_id: "resource_key_new value = Inr key \<Longrightarrow> key = value"
  by (simp add: resource_key_new_def split: if_splits)

lemma cfg_resource_key_Inr:
  "cfg_resource_key kind value = Inr key \<longleftrightarrow> key = value \<and> single_segment_key value"
proof -
  have "length (split_on (CHR ''/'') value) = 1 \<longleftrightarrow> CHR ''/'' \<notin> set value"
    using split_on_no_sep [of "CHR ''/''" "value"] split_on_parts [of _ "CHR ''/''" "value"]
      join_split_on [of "CHR ''/''" "value"] by (auto simp: length_Suc_conv)
  then show ?thesis
    by (auto simp: cfg_resource_key_def single_segment_key_def dest: resource_key_new_id split: sum.splits)
qed

lemma compile_upstream_inserts:
  assumes "compile_upstream L R d acc s = (Inr acc', s')"
  shows "\<exists>u. acc' = al_insert (meta_name (ur_metadata d)) u acc \<and>
    is_ok (upstream_validate u) \<and> u_key u = meta_name (ur_metadata d) \<and> single_segment_key (meta_name (ur_metadata d))"
  using assms
  by (force simp: compile_upstream_def comp_bind_Inr bind_result_Inr_iff cfg_resource_key_Inr is_ok_iff
      Let_def)

lemma compile_relay_inserts:
  assumes "compile_relay L R d acc s = (Inr acc', s')"
  shows "\<exists>r. acc' = al_insert (meta_name (rr_metadata d)) r acc \<and>
    is_ok (relay_validate L r) \<and> r_key r = meta_name (rr_metadata d) \<and> r_upstream r = rr_upstream_ref (rr_spec d) \<and> generation r = None \<and>
    single_segment_key (meta_name (rr_metadata d))"
  using assms
  by (force simp: compile_relay_def comp_bind_Inr bind_result_Inr_iff cfg_resource_key_Inr is_ok_iff
      Let_def)

lemma split_documents_sets:
  "split_documents seen ds = Inr (us, rs) \<Longrightarrow>
     set us = {u. UpstreamDoc u \<in> set ds} \<and> set rs = {r. RelayDoc r \<in> set ds}"
proof (induction ds arbitrary: seen us rs)
  case (Cons d ds)
  then obtain us' rs' where
    "split_documents ((doc_kind d, doc_name d) # seen) ds = Inr (us', rs')"
    "(us, rs) = (case d of UpstreamDoc u \<Rightarrow> (u # us', rs') | RelayDoc r \<Rightarrow> (us', r # rs'))"
    by (auto simp: bind_result_Inr_iff split: if_splits)
  with Cons.IH [OF this(1)] show ?case by (cases d) auto
qed simp

text \<open>The two loops, and the checks after them.\<close>

lemma compile_resources_Inr:
  assumes "compile_resources L R documents w = (Inr s, w')"
  obtains us rs s1 s2 where "split_documents [] documents = Inr (us, rs)"
    and "comp_fold (compile_upstream L R) us [] ([], w) = (Inr (snap_upstreams s), s1)"
    and "comp_fold (compile_relay L R) rs [] s1 = (Inr (snap_relays s), s2)"
    and "is_ok (snapshot_validate L s)"
  using assms
  by (auto simp: compile_resources_def comp_bind_Inr bind_result_Inr_iff Let_def is_ok_iff
      split: prod.splits)

lemma upstream_loop:
  assumes "comp_fold (compile_upstream L R) us [] s = (Inr ups, s')"
  shows "distinct (map fst ups) \<and> fst ` set ups = (\<lambda>d. meta_name (ur_metadata d)) ` set us \<and>
    (\<forall>(k, u)\<in>set ups. u_key u = k \<and> single_segment_key k)"
proof -
  let ?nm = "\<lambda>d :: upstream_resource. meta_name (ur_metadata d)"
  let ?Q = "\<lambda>k u. u_key u = k \<and> single_segment_key k"
  have "\<exists>v. acc' = al_insert (?nm x) v acc \<and> ?Q (?nm x) v"
    if "compile_upstream L R x acc s = (Inr acc', s')" for x acc s acc' s'
    using compile_upstream_inserts [OF that] by blast
  from comp_fold_inserts [where nm = ?nm and Q = ?Q, OF assms _ this] show ?thesis by simp
qed

lemma relay_loop:
  assumes "comp_fold (compile_relay L R) rs [] s = (Inr rels, s')"
  shows "distinct (map fst rels) \<and> fst ` set rels = (\<lambda>d. meta_name (rr_metadata d)) ` set rs \<and>
    (\<forall>(k, r)\<in>set rels. r_key r = k \<and> single_segment_key k \<and> generation r = None)"
proof -
  let ?nm = "\<lambda>d :: relay_resource. meta_name (rr_metadata d)"
  let ?Q = "\<lambda>k r. r_key r = k \<and> single_segment_key k \<and> generation r = None"
  have "\<exists>v. acc' = al_insert (?nm x) v acc \<and> ?Q (?nm x) v"
    if "compile_relay L R x acc s = (Inr acc', s')" for x acc s acc' s'
    using compile_relay_inserts [OF that] by blast
  from comp_fold_inserts [where nm = ?nm and Q = ?Q, OF assms _ this] show ?thesis by simp
qed

text \<open>The typing of a snapshot: unique keys, and every resource under its own key, a path segment.\<close>

definition snapshot_typed :: "provider_snapshot \<Rightarrow> bool" where
  "snapshot_typed s \<longleftrightarrow> snapshot_wf s \<and>
     (\<forall>(k, u)\<in>set (snap_upstreams s). u_key u = k \<and> single_segment_key k) \<and>
     (\<forall>(k, r)\<in>set (snap_relays s). r_key r = k \<and> single_segment_key k)"

lemma snapshot_typed_default [simp]: "snapshot_typed snapshot_default"
  by (simp add: snapshot_typed_def snapshot_wf_def snapshot_default_def)

lemma keep_earlier_all:
  "\<forall>x\<in>set merged. P x \<Longrightarrow> \<forall>x\<in>set entries. P x \<Longrightarrow> \<forall>x\<in>set (keep_earlier merged entries). P x"
  using keep_earlier_entries [of merged entries] by blast

lemma merge_one_typed: "snapshot_typed merged \<Longrightarrow> snapshot_typed s \<Longrightarrow> snapshot_typed (merge_one merged s)"
  using merge_one_wf [of merged s]
  unfolding snapshot_typed_def merge_one_def provider_snapshot.simps by (intro conjI keep_earlier_all) simp_all

lemma merge_ordered_typed: "\<forall>(p, s)\<in>set snaps. snapshot_typed s \<Longrightarrow> snapshot_typed (merge_ordered snaps)"
  unfolding merge_ordered_def
  by (rule merge_fold_keeps [where P = snapshot_typed and Q = snapshot_typed]) (simp_all add: merge_one_typed)

text \<open>
  A compiled snapshot is valid and complete: it holds exactly one resource for every document,
  under the document's name, every relay's upstream is among them, and every name is a single path
  segment, so that the public layout routes the resource's paths back to it.
\<close>

lemma compiled_snapshot:
  assumes "compile_resources L R documents w = (Inr s, w')"
  shows "is_ok (snapshot_validate L s) \<and> snapshot_typed s \<and>
    fst ` set (snap_upstreams s) = {doc_name d | d. d \<in> set documents \<and> doc_kind d = ''Upstream''} \<and>
    fst ` set (snap_relays s) = {doc_name d | d. d \<in> set documents \<and> doc_kind d = ''Relay''} \<and>
    (\<forall>(k, u)\<in>set (snap_upstreams s). u_key u = k \<and>
       layout_parse SingleSegment (layout_path Callback k) = Some (Callback, k)) \<and>
    (\<forall>(k, r)\<in>set (snap_relays s). r_key r = k \<and>
       (\<forall>e. layout_parse SingleSegment (layout_path e k) = Some (e, k)))"
proof -
  from assms obtain us rs s1 s2 where split: "split_documents [] documents = Inr (us, rs)"
    and u: "comp_fold (compile_upstream L R) us [] ([], w) = (Inr (snap_upstreams s), s1)"
    and r: "comp_fold (compile_relay L R) rs [] s1 = (Inr (snap_relays s), s2)"
    and valid: "is_ok (snapshot_validate L s)"
    by (rule compile_resources_Inr)
  note sets = split_documents_sets [OF split]
  have names: "{doc_name d | d. d \<in> set documents \<and> doc_kind d = ''Upstream''} = (\<lambda>d. meta_name (ur_metadata d)) ` set us"
    "{doc_name d | d. d \<in> set documents \<and> doc_kind d = ''Relay''} = (\<lambda>d. meta_name (rr_metadata d)) ` set rs"
  proof -
    have d: "doc_kind d = ''Upstream'' \<longleftrightarrow> (\<exists>x. d = UpstreamDoc x)" "doc_kind d = ''Relay'' \<longleftrightarrow> (\<exists>x. d = RelayDoc x)" for d
      by (cases d; simp)+
    have "{doc_name d | d. d \<in> set documents \<and> doc_kind d = ''Upstream''} = doc_name ` UpstreamDoc ` {u. UpstreamDoc u \<in> set documents}"
      "{doc_name d | d. d \<in> set documents \<and> doc_kind d = ''Relay''} = doc_name ` RelayDoc ` {r. RelayDoc r \<in> set documents}"
      unfolding d by blast+
    then show "{doc_name d | d. d \<in> set documents \<and> doc_kind d = ''Upstream''} = (\<lambda>d. meta_name (ur_metadata d)) ` set us"
      "{doc_name d | d. d \<in> set documents \<and> doc_kind d = ''Relay''} = (\<lambda>d. meta_name (rr_metadata d)) ` set rs"
      using sets by (simp_all add: image_image)
  qed
  note upstream_loop [OF u] relay_loop [OF r]
  then show ?thesis
    using valid single.parse_path by (auto simp: snapshot_typed_def snapshot_wf_def names simp del: layout_path.simps)
qed

text \<open>Two facts the providers build on: compiled relays carry no generation, and names are unique.\<close>

lemma compiled_generation:
  assumes "compile_resources L R documents w = (Inr s, w')"
  shows "\<forall>(k, r)\<in>set (snap_relays s). generation r = None"
proof -
  from assms obtain us rs s1 s2 where "comp_fold (compile_relay L R) rs [] s1 = (Inr (snap_relays s), s2)"
    by (rule compile_resources_Inr)
  from relay_loop [OF this] show ?thesis by auto
qed

lemma split_documents_distinct:
  "split_documents seen ds = Inr r \<Longrightarrow>
     distinct (map (\<lambda>d. (doc_kind d, doc_name d)) ds) \<and> set seen \<inter> (\<lambda>d. (doc_kind d, doc_name d)) ` set ds = {}"
proof (induction ds arbitrary: seen r)
  case (Cons d ds)
  then obtain r' where "split_documents ((doc_kind d, doc_name d) # seen) ds = Inr r'"
    "(doc_kind d, doc_name d) \<notin> set seen"
    by (auto simp: bind_result_Inr_iff split: if_splits)
  with Cons.IH [OF this(1)] show ?case by auto
qed simp

lemma compiled_documents_distinct:
  assumes "compile_resources L R documents w = (Inr s, w')"
  shows "distinct (map (\<lambda>d. (doc_kind d, doc_name d)) documents)"
proof -
  from assms obtain us rs where "split_documents [] documents = Inr (us, rs)" by (rule compile_resources_Inr)
  from split_documents_distinct [OF this] show ?thesis by simp
qed

section \<open>Secrets are fetched once\<close>

text \<open>A resolver that records the sources it is asked for.\<close>

definition logging :: "'s secret_resolver \<Rightarrow> (secret_source list \<times> 's) secret_resolver" where
  "logging R =
     \<lparr>resolve_value = (\<lambda>v (log, w). let (r, w') = resolve_value R v w in (r, (log, w'))),
      resolve_source = (\<lambda>source (log, w). let (r, w') = resolve_source R source w in (r, (source # log, w')))\<rparr>"

text \<open>
  A computation is frugal when it keeps the cache in step with the sources asked so far, and has
  asked no source twice even when it fails.
\<close>

definition in_step :: "(secret_source list \<times> 's) compile_state \<Rightarrow> bool" where
  "in_step s \<longleftrightarrow> (case s of (cache, log, w) \<Rightarrow> distinct log \<and> fst ` set cache = set log)"

definition frugal :: "(secret_source list \<times> 's, 'a) comp \<Rightarrow> bool" where
  "frugal m \<longleftrightarrow> (\<forall>s r s'. in_step s \<longrightarrow> m s = (r, s') \<longrightarrow>
     (case s' of (cache, log, w) \<Rightarrow> distinct log) \<and> (is_ok r \<longrightarrow> in_step s'))"

named_theorems frugal_rules \<open>what keeps a computation frugal\<close>

lemma frugal_lift [frugal_rules]: "frugal (comp_lift r)"
  by (auto simp: frugal_def in_step_def)

lemma frugal_bind [frugal_rules]:
  assumes "frugal m" and "\<And>x. frugal (f x)"
  shows "frugal (comp_bind m f)"
  unfolding frugal_def
proof (intro allI impI)
  fix s r s' assume s: "in_step s" and b: "comp_bind m f s = (r, s')"
  obtain r1 s1 where m: "m s = (r1, s1)" by (metis surj_pair)
  show "(case s' of (cache, log, w) \<Rightarrow> distinct log) \<and> (is_ok r \<longrightarrow> in_step s')"
  proof (cases r1)
    case (Inl e)
    with m b have "s' = s1 \<and> r = Inl e" by (simp add: comp_bind_def)
    moreover from assms(1) s m have "case s1 of (cache, log, w) \<Rightarrow> distinct log"
      unfolding frugal_def by blast
    ultimately show ?thesis by simp
  next
    case (Inr x)
    with assms(1) s m have "in_step s1" unfolding frugal_def by fastforce
    moreover from Inr m b have "f x s1 = (r, s')" by (simp add: comp_bind_def)
    ultimately show ?thesis using assms(2) unfolding frugal_def by blast
  qed
qed

lemma frugal_context [frugal_rules]: "frugal m \<Longrightarrow> frugal (comp_context c m)"
  by (auto simp: frugal_def comp_context_def with_context_def split: prod.splits sum.splits)

lemma frugal_fold [frugal_rules]: "(\<And>x acc. frugal (f x acc)) \<Longrightarrow> frugal (comp_fold f xs acc)"
  by (induction xs arbitrary: acc) (simp_all add: frugal_rules)

lemma frugal_case_prod [frugal_rules]: "(\<And>a b. frugal (f a b)) \<Longrightarrow> frugal (case_prod f p)"
  by (cases p) simp

lemma frugal_secret [frugal_rules]: "frugal (resolve_secret (logging R) secret)"
  unfolding frugal_def
proof (intro allI impI)
  fix s r s' assume "in_step s" and res: "resolve_secret (logging R) secret s = (r, s')"
  then obtain cache log w where s: "s = (cache, log, w)" "distinct log" "fst ` set cache = set log"
    by (auto simp: in_step_def)
  show "(case s' of (cache, log, w) \<Rightarrow> distinct log) \<and> (is_ok r \<longrightarrow> in_step s')"
  proof (cases "secret_from secret")
    case None
    then show ?thesis using s res
      by (cases secret) (auto simp: resolve_secret_def logging_def in_step_def split: prod.splits)
  next
    case (Some source)
    then have secret: "secret = SecretFrom source" by (cases secret) auto
    show ?thesis
    proof (cases "map_of cache source")
      case (Some v)
      then show ?thesis using s res by (auto simp: secret resolve_secret_def in_step_def)
    next
      case None
      then have "source \<notin> set log" using s(3) by (simp add: map_of_eq_None_iff)
      moreover have "fst ` set (al_insert source v cache) = insert source (set log)" for v
        using s(3) by (simp add: inserted_keys)
      ultimately show ?thesis using s res None
        by (clarsimp simp: secret resolve_secret_def logging_def in_step_def split: prod.splits sum.splits)
    qed
  qed
qed

lemma frugal_client_auth [frugal_rules]: "frugal (compile_client_auth L (logging R) key auth)"
  by (cases auth) (simp_all add: frugal_rules)

lemma frugal_upstream [frugal_rules]: "frugal (compile_upstream L (logging R) d acc)"
  unfolding compile_upstream_def by (intro frugal_rules)

lemma frugal_relay [frugal_rules]: "frugal (compile_relay L (logging R) d acc)"
  unfolding compile_relay_def by (intro frugal_rules)

lemma asked_once:
  assumes "compile_resources L (logging R) documents ([], w) = (r, (asked, w'))"
  shows "distinct asked"
proof -
  let ?m = "comp_bind (comp_lift (split_documents [] documents)) (\<lambda>(us, rs).
        comp_bind (comp_fold (compile_upstream L (logging R)) us []) (\<lambda>ups.
        comp_bind (comp_fold (compile_relay L (logging R)) rs []) (\<lambda>rels.
        comp_lift (let s = \<lparr>snap_upstreams = ups, snap_relays = rels\<rparr> in
          bind_result (msg (snapshot_validate L s)) (\<lambda>_. Inr s)))))"
  have "frugal ?m" by (intro frugal_rules)
  moreover have "in_step ([], [], w)" by (simp add: in_step_def)
  moreover obtain cache where "?m ([], [], w) = (r, (cache, (asked, w')))"
    using assms by (auto simp: compile_resources_def split: prod.splits)
  ultimately show ?thesis by (fastforce simp: frugal_def)
qed

text \<open>
  C32 No secret source is asked twice by one compilation, whether it succeeds or fails: every reference
  to a source gets the value the first one got.
\<close>

theorem secrets_fetched_once:
  "distinct (fst (snd (compile_resources L (logging R) documents ([], w))))"
  using asked_once by (metis prod.collapse)

section \<open>Refresh-token settings\<close>

lemma compile_refresh_tokens_Inr:
  assumes "compile_refresh_tokens spec = Inr rt"
  shows "mode rt = mode_from_spec (rs_mode spec) \<and> is_ok (refresh_tokens_validate rt) \<and>
    (mode rt \<noteq> Rotating \<longrightarrow> rt = refresh_tokens_default\<lparr>mode := mode rt\<rparr>)"
  using assms
  by (auto simp: compile_refresh_tokens_def bind_result_Inr_iff is_ok_iff Let_def refresh_tokens_default_def
      split: if_splits)

end
