(* ===== verification/Providers.thy ===== *)
theory Providers
  imports Config
begin

text \<open>
  The secret resolver (\<open>oauthrelay-secret-resolver\<close>) and the file and SSM configuration
  providers. The operating system, the AWS services and the YAML decoder are parameters: records
  of functions over a world \<open>'s\<close>.
\<close>

section \<open>Secret sources\<close>

record 's local_secrets =
  environment :: "string \<Rightarrow> 's \<Rightarrow> (errors + string) \<times> 's"
  file_text :: "string \<Rightarrow> 's \<Rightarrow> (errors + string) \<times> 's"

text \<open>\<open>std::env::var\<close> and \<open>std::fs::read_to_string\<close>, whose own error texts stay abstract.\<close>

record 's system =
  env_var :: "string \<Rightarrow> 's \<Rightarrow> (errors + string) \<times> 's"
  read_to_string :: "string \<Rightarrow> 's \<Rightarrow> (errors + string) \<times> 's"

definition in_context :: "string \<Rightarrow> (errors + 'a) \<times> 's \<Rightarrow> (errors + 'a) \<times> 's" where
  "in_context c r = (with_context c (fst r), snd r)"

definition system_local_secrets :: "'s system \<Rightarrow> 's local_secrets" where
  "system_local_secrets OS =
     \<lparr>environment = (\<lambda>n w. in_context (''environment variable '' @ n @ '' is not set'') (env_var OS n w)),
      file_text = (\<lambda>p w. in_context (''read '' @ p) (read_to_string OS p w))\<rparr>"

record 's standard_resolver =
  base_directory :: "string option"
  local_values :: "'s local_secrets"
  aws_values :: "'s secret_resolver option"
  kubernetes_values :: "'s secret_resolver option"

definition standard_new :: "'s system \<Rightarrow> string option \<Rightarrow> 's standard_resolver" where
  "standard_new OS base =
     \<lparr>base_directory = base, local_values = system_local_secrets OS, aws_values = None,
      kubernetes_values = None\<rparr>"

definition with_local_secrets :: "'s local_secrets \<Rightarrow> 's standard_resolver \<Rightarrow> 's standard_resolver" where
  "with_local_secrets loc R = R\<lparr>local_values := loc\<rparr>"

definition with_aws_secrets :: "'s secret_resolver \<Rightarrow> 's standard_resolver \<Rightarrow> 's standard_resolver" where
  "with_aws_secrets aws R = R\<lparr>aws_values := Some aws\<rparr>"

definition with_kubernetes_secrets :: "'s secret_resolver \<Rightarrow> 's standard_resolver \<Rightarrow> 's standard_resolver" where
  "with_kubernetes_secrets k R = R\<lparr>kubernetes_values := Some k\<rparr>"

text \<open>\<open>Path::is_absolute\<close> and \<open>PathBuf::join\<close> of a relative path, on Unix.\<close>

definition path_join :: "string \<Rightarrow> string \<Rightarrow> string" where
  "path_join base p = (if base = [] \<or> ends_with ''/'' base then base @ p else base @ ''/'' @ p)"

definition trim_newlines :: "string \<Rightarrow> string" where
  "trim_newlines s = rev (dropWhile (\<lambda>c. c \<in> {CHR 0x0D, CHR 0x0A}) (rev s))"

definition trimmed :: "(errors + string) \<times> 's \<Rightarrow> (errors + string) \<times> 's" where
  "trimmed r = (bind_result (fst r) (\<lambda>v. Inr (trim_newlines v)), snd r)"

definition delegate :: "string \<Rightarrow> 's secret_resolver option \<Rightarrow> secret_source \<Rightarrow> 's \<Rightarrow> (errors + string) \<times> 's" where
  "delegate missing R source w =
     (case R of None \<Rightarrow> (Inl [missing], w) | Some r \<Rightarrow> resolve_source r source w)"

fun standard_source :: "'s standard_resolver \<Rightarrow> secret_source \<Rightarrow> 's \<Rightarrow> (errors + string) \<times> 's" where
  "standard_source R (SecretKeyRef name key) w =
     delegate ''Kubernetes secret resolution is not configured'' (kubernetes_values R) (SecretKeyRef name key) w"
| "standard_source R (Env name) w = trimmed (environment (local_values R) name w)"
| "standard_source R (File path) w =
     (if starts_with ''/'' path then trimmed (file_text (local_values R) path w)
      else (case base_directory R of
              None \<Rightarrow> (Inl [''relative secret file requires a resource base directory''], w)
            | Some base \<Rightarrow> trimmed (file_text (local_values R) (path_join base path) w)))"
| "standard_source R (AwsSsmParameter name) w =
     delegate ''AWS secret resolution is not configured'' (aws_values R) (AwsSsmParameter name) w"
| "standard_source R (AwsSecretsManager sid jkey) w =
     delegate ''AWS secret resolution is not configured'' (aws_values R) (AwsSecretsManager sid jkey) w"

definition standard_secrets :: "'s standard_resolver \<Rightarrow> 's secret_resolver" where
  "standard_secrets R =
     \<lparr>resolve_value = (\<lambda>v w. (Inr v, w)), resolve_source = standard_source R\<rparr>"

section \<open>AWS clients\<close>

datatype parameter_type = StringParameter | SecureString | StringList

record parameter =
  par_name :: string
  par_value :: string
  par_type :: parameter_type

record parameter_page =
  parameters :: "parameter list"
  next_token :: "string option"

text \<open>A parameter as the AWS SDK returns it, every field optional; other types are \<open>UnknownType\<close>.\<close>

datatype aws_parameter_type = AwsString | AwsSecureString | AwsStringList | UnknownType

record aws_parameter =
  aws_name :: "string option"
  aws_value :: "string option"
  aws_type :: "aws_parameter_type option"

definition convert_parameter :: "aws_parameter \<Rightarrow> parameter option" where
  "convert_parameter p =
     Option.bind (aws_type p) (\<lambda>t.
     Option.bind (case t of AwsString \<Rightarrow> Some StringParameter | AwsSecureString \<Rightarrow> Some SecureString
                  | AwsStringList \<Rightarrow> Some StringList | UnknownType \<Rightarrow> None) (\<lambda>ty.
     Option.bind (aws_name p) (\<lambda>n.
     Option.bind (aws_value p) (\<lambda>v.
     Some \<lparr>par_name = n, par_value = v, par_type = ty\<rparr>))))"

datatype 'a sdk_error = ParameterNotFound | SdkError 'a

record 's aws_sdk =
  sdk_by_path :: "string \<Rightarrow> string option \<Rightarrow> 's \<Rightarrow> (errors + aws_parameter list \<times> string option) \<times> 's"
  sdk_parameter :: "string \<Rightarrow> 's \<Rightarrow> (errors sdk_error + aws_parameter option) \<times> 's"
  sdk_secret :: "string \<Rightarrow> 's \<Rightarrow> (errors + string option) \<times> 's"

record 's aws_client =
  get_parameters_by_path :: "string \<Rightarrow> string option \<Rightarrow> 's \<Rightarrow> (errors + parameter_page) \<times> 's"
  get_parameter :: "string \<Rightarrow> 's \<Rightarrow> (errors + parameter option) \<times> 's"
  get_secret_string :: "string \<Rightarrow> 's \<Rightarrow> (errors + string option) \<times> 's"

definition sdk_client :: "'s aws_sdk \<Rightarrow> 's aws_client" where
  "sdk_client A =
     \<lparr>get_parameters_by_path = (\<lambda>path token w.
        case sdk_by_path A path token w of (r, w') \<Rightarrow>
          (bind_result (with_context ''GetParametersByPath'' r) (\<lambda>(ps, next).
             Inr \<lparr>parameters = List.map_filter convert_parameter ps, next_token = next\<rparr>), w')),
      get_parameter = (\<lambda>n w.
        case sdk_parameter A n w of (r, w') \<Rightarrow>
          ((case r of Inr p \<Rightarrow> Inr (Option.bind p convert_parameter)
            | Inl ParameterNotFound \<Rightarrow> Inr None
            | Inl (SdkError e) \<Rightarrow> Inl (''GetParameter'' # e)), w')),
      get_secret_string = (\<lambda>sid w. in_context ''GetSecretValue'' (sdk_secret A sid w))\<rparr>"

text \<open>\<open>AwsSecretResolver\<close>.\<close>

definition select_json_key :: "'z libs_scheme \<Rightarrow> string option \<Rightarrow> string \<Rightarrow> errors + string" where
  "select_json_key L jkey secret =
     (case jkey of
        None \<Rightarrow> Inr secret
      | Some key \<Rightarrow>
          bind_result (with_context ''Secrets Manager SecretString is not valid JSON''
            (ok_or [''invalid JSON''] (json_parse L secret))) (\<lambda>doc.
          ok_or [''Secrets Manager jsonKey must identify a top-level string field'']
            (Option.bind (json_get doc key) as_string)))"

fun aws_source :: "'z libs_scheme \<Rightarrow> 's aws_client \<Rightarrow> secret_source \<Rightarrow> 's \<Rightarrow> (errors + string) \<times> 's" where
  "aws_source L C (AwsSsmParameter name) w =
     (if \<not> starts_with ''/'' name then (Inl [''SSM parameter name must be absolute''], w)
      else (case get_parameter C name w of (r, w') \<Rightarrow>
        (bind_result r (\<lambda>found.
         bind_result (ok_or [''referenced SSM parameter does not exist''] found) (\<lambda>p.
         if par_type p \<noteq> SecureString
         then Inl [''referenced SSM parameter must use the SecureString type'']
         else Inr (par_value p))), w')))"
| "aws_source L C (AwsSecretsManager sid jkey) w =
     (case get_secret_string C sid w of (r, w') \<Rightarrow>
        (bind_result r (\<lambda>found.
         bind_result (ok_or [''Secrets Manager secret must contain SecretString''] found)
           (select_json_key L jkey)), w'))"
| "aws_source L C (Env name) w = (Inl [''source is not an AWS secret source''], w)"
| "aws_source L C (File path) w = (Inl [''source is not an AWS secret source''], w)"
| "aws_source L C (SecretKeyRef name key) w = (Inl [''source is not an AWS secret source''], w)"

definition aws_secrets :: "'z libs_scheme \<Rightarrow> 's aws_client \<Rightarrow> 's secret_resolver" where
  "aws_secrets L C =
     \<lparr>resolve_value = (\<lambda>v w. (Inl [''inline values are not AWS secret sources''], w)),
      resolve_source = aws_source L C\<rparr>"

section \<open>The SSM provider\<close>

record 's ssm_provider =
  ssm_client :: "'s aws_client"
  ssm_prefix :: string
  ssm_poll :: duration
  ssm_local :: "'s local_secrets"

definition ssm_new ::
    "'s system \<Rightarrow> 's aws_client \<Rightarrow> string \<Rightarrow> duration \<Rightarrow> errors + 's ssm_provider" where
  "ssm_new OS C pre poll =
     (if \<not> starts_with ''/'' pre \<or> \<not> ends_with ''/'' pre
      then Inl [''SSM prefix must start and end with '' @ [CHR 0x27] @ ''/'' @ [CHR 0x27]]
      else if poll = 0 then Inl [''SSM poll interval must be greater than zero'']
      else Inr \<lparr>ssm_client = C, ssm_prefix = pre, ssm_poll = poll,
                ssm_local = system_local_secrets OS\<rparr>)"

definition expected_identity :: "string \<Rightarrow> string \<Rightarrow> errors + string \<times> string" where
  "expected_identity pre name =
     bind_result (ok_or [name @ '': parameter is outside the configured prefix'']
       (strip_prefix pre name)) (\<lambda>relative.
       case split_on (CHR ''/'') relative of
         [kind, res] \<Rightarrow>
           if res = [] then Inl [name @ '': expected '' @ pre @ ''{upstreams|relays}/{name}'']
           else if kind = ''upstreams'' then Inr (''Upstream'', res)
           else if kind = ''relays'' then Inr (''Relay'', res)
           else Inl [name @ '': expected an upstreams or relays resource path'']
       | _ \<Rightarrow> Inl [name @ '': expected '' @ pre @ ''{upstreams|relays}/{name}''])"

text \<open>One parameter of a page; \<open>Y\<close> is the YAML decoder of one document.\<close>

definition ssm_document ::
    "(string \<Rightarrow> errors + resource_document) \<Rightarrow> string \<Rightarrow> parameter \<Rightarrow> errors + resource_document" where
  "ssm_document Y pre p =
     (if par_type p \<noteq> StringParameter
      then Inl [par_name p @ '': resource documents must use the SSM String type'']
      else bind_result (expected_identity pre (par_name p)) (\<lambda>(kind, res).
           bind_result (with_context (par_name p @ '': parse resource document'') (Y (par_value p))) (\<lambda>d.
             if doc_kind d \<noteq> kind \<or> doc_name d \<noteq> res
             then Inl [par_name p @ '': path identifies '' @ kind @ ''/'' @ res @ '', document identifies ''
                       @ doc_kind d @ ''/'' @ doc_name d]
             else Inr d)))"

text \<open>The paging loop, which ends when the service returns no further token.\<close>

partial_function (option) ssm_pages ::
    "(string \<Rightarrow> errors + resource_document) \<Rightarrow> 's ssm_provider \<Rightarrow> string \<Rightarrow> string option
       \<Rightarrow> resource_document list \<Rightarrow> 's \<Rightarrow> ((errors + resource_document list) \<times> 's) option" where
  "ssm_pages Y P path token docs w =
     (case get_parameters_by_path (ssm_client P) path token w of
        (Inl e, w') \<Rightarrow> Some (Inl e, w')
      | (Inr page, w') \<Rightarrow>
          (case try_map (ssm_document Y (ssm_prefix P)) (parameters page) of
             Inl e \<Rightarrow> Some (Inl e, w')
           | Inr ds \<Rightarrow>
               (case next_token page of
                  None \<Rightarrow> Some (Inr (docs @ ds), w')
                | Some t \<Rightarrow> ssm_pages Y P path (Some t) (docs @ ds) w')))"

definition ssm_load ::
    "'z libs_scheme \<Rightarrow> 's system \<Rightarrow> (string \<Rightarrow> errors + resource_document) \<Rightarrow> 's ssm_provider \<Rightarrow> 's
       \<Rightarrow> ((errors + provider_snapshot) \<times> 's) option" where
  "ssm_load L OS Y P w =
     Option.bind (ssm_pages Y P (ssm_prefix P @ ''upstreams/'') None [] w) (\<lambda>(ups, w1).
     case ups of Inl e \<Rightarrow> Some (Inl e, w1) | Inr docs \<Rightarrow>
     Option.bind (ssm_pages Y P (ssm_prefix P @ ''relays/'') None docs w1) (\<lambda>(rels, w2).
     case rels of Inl e \<Rightarrow> Some (Inl e, w2) | Inr docs \<Rightarrow>
       Some (compile_resources L (standard_secrets
         (with_aws_secrets (aws_secrets L (ssm_client P))
           (with_local_secrets (ssm_local P) (standard_new OS None)))) docs w2)))"

section \<open>The file provider\<close>

record 's file_provider =
  fp_path :: string
  fp_poll :: duration
  fp_local :: "'s local_secrets"
  fp_aws :: "'s secret_resolver option"

definition file_new :: "'s system \<Rightarrow> string \<Rightarrow> duration \<Rightarrow> errors + 's file_provider" where
  "file_new OS path poll =
     (if poll = 0 then Inl [''file provider poll interval must be greater than zero'']
      else Inr \<lparr>fp_path = path, fp_poll = poll, fp_local = system_local_secrets OS, fp_aws = None\<rparr>)"

text \<open>\<open>serde_yaml::Deserializer::from_str\<close> yields the documents of a file one by one.\<close>

definition parse_documents ::
    "(string \<Rightarrow> (errors + resource_document) list) \<Rightarrow> string \<Rightarrow> errors + resource_document list" where
  "parse_documents Y yaml = try_map (with_context ''parse resource document'') (Y yaml)"

text \<open>\<open>Path::parent\<close>, a parameter, is \<open>None\<close> for the root and the empty path.\<close>

definition file_load ::
    "'z libs_scheme \<Rightarrow> 's system \<Rightarrow> (string \<Rightarrow> (errors + resource_document) list) \<Rightarrow> (string \<Rightarrow> string option)
       \<Rightarrow> 's file_provider \<Rightarrow> 's \<Rightarrow> (errors + provider_snapshot) \<times> 's" where
  "file_load L OS Y parent P w =
     (case in_context (''read '' @ fp_path P) (read_to_string OS (fp_path P) w) of
        (Inl e, w') \<Rightarrow> (Inl e, w')
      | (Inr contents, w') \<Rightarrow>
          (case parse_documents Y contents of
             Inl e \<Rightarrow> (Inl e, w')
           | Inr docs \<Rightarrow>
               let R = with_local_secrets (fp_local P)
                         (standard_new OS (Some (case parent (fp_path P) of None \<Rightarrow> ''.'' | Some d \<Rightarrow> d)));
                   R = (case fp_aws P of None \<Rightarrow> R | Some aws \<Rightarrow> with_aws_secrets aws R)
               in compile_resources L (standard_secrets R) docs w'))"

end
