(* ===== verification/Kube_Provider.thy ===== *)
theory Kube_Provider
  imports Providers Compilation
begin

text \<open>
  The Kubernetes configuration provider (\<open>oauthrelay-provider-kubernetes/src/lib.rs\<close>): the
  namespace rule, the documents made from custom resources, the Secret resolver, the watch stores
  that make a relist visible at once, and one turn of the provider's select loop. The API server,
  the watch streams and \<open>name_any\<close> of the \<open>kube\<close> crate are parameters; a turn of the loop
  gets the branch that won as its input.
\<close>

section \<open>Ordered maps\<close>

text \<open>\<open>String\<close>'s order, and \<open>BTreeMap\<close> as its entries in key order.\<close>

fun str_less :: "string \<Rightarrow> string \<Rightarrow> bool" where
  "str_less xs [] = False"
| "str_less [] (y # ys) = True"
| "str_less (x # xs) (y # ys) = (byte_value x < byte_value y \<or> (x = y \<and> str_less xs ys))"

fun bt_insert :: "string \<Rightarrow> 'v \<Rightarrow> (string \<times> 'v) list \<Rightarrow> (string \<times> 'v) list" where
  "bt_insert k v [] = [(k, v)]"
| "bt_insert k v ((k', v') # m) =
     (if k = k' then (k, v) # m
      else if str_less k k' then (k, v) # (k', v') # m
      else (k', v') # bt_insert k v m)"

lemma map_of_bt_insert [simp]: "map_of (bt_insert k v m) = (map_of m)(k \<mapsto> v)"
  by (induction k v m rule: bt_insert.induct) auto

section \<open>Namespace and resources\<close>

definition is_ascii_lowercase :: "char \<Rightarrow> bool" where
  "is_ascii_lowercase c \<longleftrightarrow> 97 \<le> byte_value c \<and> byte_value c \<le> 122"

definition select_namespace :: "string option \<Rightarrow> string \<Rightarrow> errors + string" where
  "select_namespace explicit dflt =
     (let namespace = (case explicit of Some n \<Rightarrow> n | None \<Rightarrow> dflt) in
      if namespace = [] \<or> 63 < length namespace \<or>
         \<not> (\<forall>b\<in>set namespace. is_ascii_lowercase b \<or> is_ascii_digit b \<or> b = CHR ''-'') \<or>
         \<not> is_ascii_alphanumeric (hd namespace) \<or> \<not> is_ascii_alphanumeric (last namespace)
      then Inl [''Kubernetes namespace must be a non-empty DNS label of at most 63 characters'']
      else Inr namespace)"

record 'a kube_object =
  ob_namespace :: "string option"
  ob_name :: "string option"
  ob_uid :: "string option"
  ob_spec :: 'a

type_synonym kube_upstream = "upstream_spec kube_object"
type_synonym kube_relay = "relay_spec kube_object"

definition relay_generations :: "kube_relay list \<Rightarrow> (string \<times> string) list" where
  "relay_generations relays =
     fold (\<lambda>r m. case (ob_name r, ob_uid r) of
        (Some n, Some u) \<Rightarrow> al_insert n u m | _ \<Rightarrow> m) relays []"

definition with_generations :: "(string \<times> string) list \<Rightarrow> provider_snapshot \<Rightarrow> provider_snapshot" where
  "with_generations gens s =
     s\<lparr>snap_relays := map (\<lambda>(key, r).
        (key, case map_of gens key of Some uid \<Rightarrow> r\<lparr>generation := Some uid\<rparr> | None \<Rightarrow> r)) (snap_relays s)\<rparr>"

definition kube_metadata :: "string \<Rightarrow> 'a kube_object \<Rightarrow> errors + metadata" where
  "kube_metadata namespace ob =
     (if ob_namespace ob \<noteq> Some namespace
      then Inl [''resource is outside the Kubernetes provider namespace'']
      else bind_result (ok_or [''Kubernetes resource has no name''] (ob_name ob)) (\<lambda>name.
        Inr \<lparr>meta_namespace = Some namespace, meta_name = name\<rparr>))"

definition kube_documents ::
    "string \<Rightarrow> kube_upstream list \<Rightarrow> kube_relay list \<Rightarrow> errors + resource_document list" where
  "kube_documents namespace ups rels =
     bind_result (try_map (\<lambda>ob. bind_result (kube_metadata namespace ob) (\<lambda>m.
        Inr (UpstreamDoc \<lparr>ur_api_version = V1Alpha1, ur_metadata = m, ur_spec = ob_spec ob\<rparr>))) ups) (\<lambda>us.
     bind_result (try_map (\<lambda>ob. bind_result (kube_metadata namespace ob) (\<lambda>m.
        Inr (RelayDoc \<lparr>rr_api_version = V1Alpha1, rr_metadata = m, rr_spec = ob_spec ob\<rparr>))) rels) (\<lambda>rs.
     Inr (us @ rs)))"

section \<open>Secrets\<close>

record 's kube_api =
  api_secret :: "string \<Rightarrow> 's \<Rightarrow> (errors + (string \<times> bytes) list option) \<times> 's"
  api_upstreams :: "string option \<Rightarrow> 's \<Rightarrow> (errors + kube_upstream list \<times> string option) \<times> 's"
  api_relays :: "string option \<Rightarrow> 's \<Rightarrow> (errors + kube_relay list \<times> string option) \<times> 's"

definition secret_name_ok :: "string \<Rightarrow> bool" where
  "secret_name_ok name \<longleftrightarrow>
     \<not> (name = [] \<or> 253 < length name \<or>
        \<not> (\<forall>b\<in>set name. is_ascii_lowercase b \<or> is_ascii_digit b \<or> b \<in> {CHR ''-'', CHR ''.''}) \<or>
        (\<exists>label\<in>set (split_on (CHR ''.'') name).
           label = [] \<or> \<not> is_ascii_alphanumeric (hd label) \<or> \<not> is_ascii_alphanumeric (last label)))"

fun kube_secret_source :: "'z libs_scheme \<Rightarrow> 's kube_api \<Rightarrow> secret_source \<Rightarrow> 's \<Rightarrow> (errors + string) \<times> 's" where
  "kube_secret_source L A (SecretKeyRef name key) w =
     (if \<not> secret_name_ok name \<or> key = []
      then (Inl [''secretKeyRef requires a valid Secret name and non-empty key''], w)
      else (case in_context ''read referenced Kubernetes Secret'' (api_secret A name w) of (r, w') \<Rightarrow>
        (bind_result r (\<lambda>data.
         bind_result (ok_or [''referenced Kubernetes Secret key does not exist'']
           (Option.bind data (\<lambda>m. map_of m key))) (\<lambda>v.
         if utf8_valid L v then Inr v else Inl [''Kubernetes Secret value must be UTF-8''])), w')))"
| "kube_secret_source L A source w = (Inl [''source is not a Kubernetes Secret reference''], w)"

definition kube_secrets :: "'z libs_scheme \<Rightarrow> 's kube_api \<Rightarrow> 's secret_resolver" where
  "kube_secrets L A =
     \<lparr>resolve_value = (\<lambda>v w. (Inl [''inline values are resolved by the standard resolver''], w)),
      resolve_source = kube_secret_source L A\<rparr>"

section \<open>Compiling\<close>

definition DEFAULT_REFRESH_INTERVAL :: duration where "DEFAULT_REFRESH_INTERVAL = from_secs 60"

record 's kube_provider =
  kp_api :: "'s kube_api"
  kp_namespace :: string
  kp_refresh :: duration
  kp_aws :: "'s secret_resolver option"

definition kube_provider_new :: "'s kube_api \<Rightarrow> string \<Rightarrow> duration \<Rightarrow> errors + 's kube_provider" where
  "kube_provider_new A namespace refresh_interval =
     bind_result (select_namespace (Some namespace) []) (\<lambda>n.
       if refresh_interval = 0 then Inl [''Kubernetes refresh interval must be greater than zero'']
       else Inr \<lparr>kp_api = A, kp_namespace = n, kp_refresh = refresh_interval, kp_aws = None\<rparr>)"

text \<open>\<open>timed_out\<close> says whether the compilation outlasted \<open>REQUEST_TIMEOUT\<close>.\<close>

definition kube_compile ::
    "'z libs_scheme \<Rightarrow> 's system \<Rightarrow> 's kube_provider \<Rightarrow> bool \<Rightarrow> kube_upstream list \<Rightarrow> kube_relay list \<Rightarrow> 's
       \<Rightarrow> (errors + provider_snapshot) \<times> 's" where
  "kube_compile L OS P timed_out ups rels w =
     (case kube_documents (kp_namespace P) ups rels of
        Inl e \<Rightarrow> (Inl e, w)
      | Inr docs \<Rightarrow>
          let R = with_kubernetes_secrets (kube_secrets L (kp_api P)) (standard_new OS None);
              R = (case kp_aws P of None \<Rightarrow> R | Some aws \<Rightarrow> with_aws_secrets aws R);
              (r, w') = compile_resources L (standard_secrets R) docs w
          in if timed_out then (Inl [''Kubernetes configuration compilation timed out''], w')
             else (bind_result r (\<lambda>s. Inr (with_generations (relay_generations rels) s)), w'))"

text \<open>The paging loop of \<open>list\<close>; an empty continue token ends it like a missing one.\<close>

partial_function (option) kube_list ::
    "(string option \<Rightarrow> 's \<Rightarrow> (errors + 'o list \<times> string option) \<times> 's) \<Rightarrow> string option \<Rightarrow> 'o list \<Rightarrow> 's
       \<Rightarrow> ((errors + 'o list) \<times> 's) option" where
  "kube_list api token acc w =
     (case api token w of
        (Inl e, w') \<Rightarrow> Some (Inl e, w')
      | (Inr (items, cont), w') \<Rightarrow>
          (case cont of
             None \<Rightarrow> Some (Inr (acc @ items), w')
           | Some t \<Rightarrow> if t = [] then Some (Inr (acc @ items), w')
                       else kube_list api (Some t) (acc @ items) w'))"

section \<open>Watch stores\<close>

record 'o watch_store =
  ws_objects :: "(string \<times> 'o) list"
  ws_staging :: "(string \<times> 'o) list option"
  ws_initialized :: bool

definition watch_store_default :: "'o watch_store" where
  "watch_store_default = \<lparr>ws_objects = [], ws_staging = None, ws_initialized = False\<rparr>"

definition ws_ready :: "'o watch_store \<Rightarrow> bool" where
  "ws_ready st \<longleftrightarrow> ws_initialized st \<and> ws_staging st = None"

datatype 'o watch_event = WInit | WInitApply 'o | WInitDone | WApply 'o | WDelete 'o

fun ws_apply :: "('o \<Rightarrow> string) \<Rightarrow> 'o watch_event \<Rightarrow> 'o watch_store \<Rightarrow> bool \<times> 'o watch_store" where
  "ws_apply nm WInit st = (False, st\<lparr>ws_staging := Some []\<rparr>)"
| "ws_apply nm (WInitApply ob) st =
     (False, st\<lparr>ws_staging := Some (bt_insert (nm ob) ob
        (case ws_staging st of None \<Rightarrow> [] | Some m \<Rightarrow> m))\<rparr>)"
| "ws_apply nm WInitDone st =
     (True, st\<lparr>ws_objects := (case ws_staging st of None \<Rightarrow> [] | Some m \<Rightarrow> m), ws_staging := None,
               ws_initialized := True\<rparr>)"
| "ws_apply nm (WApply ob) st = (True, st\<lparr>ws_objects := bt_insert (nm ob) ob (ws_objects st)\<rparr>)"
| "ws_apply nm (WDelete ob) st = (True, st\<lparr>ws_objects := al_remove (nm ob) (ws_objects st)\<rparr>)"

text \<open>What the stream yields: the end, an error, or an event.\<close>

definition watch_turn ::
    "('o \<Rightarrow> string) \<Rightarrow> string \<Rightarrow> (unit + 'o watch_event) option \<Rightarrow> 'o watch_store
       \<Rightarrow> errors + bool \<times> 'o watch_store" where
  "watch_turn nm kind ev st =
     (case ev of
        Some (Inr e) \<Rightarrow> Inr (ws_apply nm e st)
      | Some (Inl _) \<Rightarrow> Inr (False, st)
      | None \<Rightarrow> Inl [''Kubernetes '' @ kind @ '' watch stopped''])"

fun secret_ref_name :: "secret_value \<Rightarrow> string option" where
  "secret_ref_name (SecretFrom (SecretKeyRef name key)) = Some name"
| "secret_ref_name _ = None"

fun client_secret_of :: "client_authentication \<Rightarrow> secret_value option" where
  "client_secret_of (AuthClientSecret cid secret) = Some secret"
| "client_secret_of _ = None"

definition referenced_secrets :: "kube_upstream watch_store \<Rightarrow> kube_relay watch_store \<Rightarrow> string list" where
  "referenced_secrets ups rels =
     List.map_filter secret_ref_name
       (map (\<lambda>(k, u). oc_client_secret (us_oauth_client (ob_spec u))) (ws_objects ups) @
        List.map_filter (\<lambda>(k, r). client_secret_of (rr_client_authentication (ob_spec r))) (ws_objects rels))"

section \<open>The provider's loop\<close>

record kube_run =
  kr_upstreams :: "kube_upstream watch_store"
  kr_relays :: "kube_relay watch_store"
  kr_secrets :: "unit kube_object watch_store"
  kr_published :: bool

definition kube_run_start :: kube_run where
  "kube_run_start =
     \<lparr>kr_upstreams = watch_store_default, kr_relays = watch_store_default,
      kr_secrets = watch_store_default, kr_published = False\<rparr>"

text \<open>
  The branch of the first \<open>select!\<close> that won, and the one of the second. The deadline branches are
  disabled once a snapshot is published; a disabled branch is a turn in which nothing happens.
\<close>

datatype kube_input =
    ReceiverGone
  | SyncDeadline
  | UpstreamEvent "(unit + kube_upstream watch_event) option"
  | RelayEvent "(unit + kube_relay watch_event) option"
  | SecretEvent "(unit + unit kube_object watch_event) option"
  | RefreshTick

datatype compile_branch = CompileReceiverGone | CompileDeadline | Compiled bool bool

text \<open>
  How a turn ends: the provider returns, or goes on, possibly having published a snapshot.
  \<open>Compiled timed_out open\<close>: the compilation finished, and the receiver was still there.
\<close>

datatype kube_turn = KubeReturns "errors + unit" | KubeGoesOn kube_run "provider_snapshot option"

definition secret_relevant ::
    "(unit kube_object \<Rightarrow> string) \<Rightarrow> kube_run \<Rightarrow> (unit + unit kube_object watch_event) option \<Rightarrow> bool" where
  "secret_relevant nm st ev =
     (case ev of
        Some (Inr (WApply ob)) \<Rightarrow> nm ob \<in> set (referenced_secrets (kr_upstreams st) (kr_relays st))
      | Some (Inr (WDelete ob)) \<Rightarrow> nm ob \<in> set (referenced_secrets (kr_upstreams st) (kr_relays st))
      | _ \<Rightarrow> True)"

record kube_naming =
  nm_upstream :: "kube_upstream \<Rightarrow> string"
  nm_relay :: "kube_relay \<Rightarrow> string"
  nm_secret :: "unit kube_object \<Rightarrow> string"

text \<open>The first \<open>select!\<close>: whether anything relevant changed, and the stores after it.\<close>

fun kube_select :: "kube_naming \<Rightarrow> kube_input \<Rightarrow> kube_run \<Rightarrow> (errors + unit) + bool \<times> kube_run" where
  "kube_select N ReceiverGone st = Inl (Inr ())"
| "kube_select N SyncDeadline st =
     (if kr_published st then Inr (False, st)
      else Inl (Inl [''initial Kubernetes synchronization timed out'']))"
| "kube_select N (UpstreamEvent ev) st =
     (case watch_turn (nm_upstream N) ''Upstream'' ev (kr_upstreams st) of
        Inl e \<Rightarrow> Inl (Inl e) | Inr (c, s) \<Rightarrow> Inr (c, st\<lparr>kr_upstreams := s\<rparr>))"
| "kube_select N (RelayEvent ev) st =
     (case watch_turn (nm_relay N) ''Relay'' ev (kr_relays st) of
        Inl e \<Rightarrow> Inl (Inl e) | Inr (c, s) \<Rightarrow> Inr (c, st\<lparr>kr_relays := s\<rparr>))"
| "kube_select N (SecretEvent ev) st =
     (case watch_turn (nm_secret N) ''Secret'' ev (kr_secrets st) of
        Inl e \<Rightarrow> Inl (Inl e)
      | Inr (c, s) \<Rightarrow> Inr (c \<and> secret_relevant (nm_secret N) st ev, st\<lparr>kr_secrets := s\<rparr>))"
| "kube_select N RefreshTick st = Inr (True, st)"

definition kube_ready :: "kube_run \<Rightarrow> bool" where
  "kube_ready st \<longleftrightarrow> ws_ready (kr_upstreams st) \<and> ws_ready (kr_relays st) \<and> ws_ready (kr_secrets st)"

definition kube_publish ::
    "'z libs_scheme \<Rightarrow> 's system \<Rightarrow> 's kube_provider \<Rightarrow> compile_branch \<Rightarrow> kube_run \<Rightarrow> 's \<Rightarrow> kube_turn \<times> 's" where
  "kube_publish L OS P branch st w =
     (case branch of
        CompileReceiverGone \<Rightarrow> (KubeReturns (Inr ()), w)
      | CompileDeadline \<Rightarrow>
          (if kr_published st then KubeGoesOn st None
           else KubeReturns (Inl [''initial Kubernetes synchronization timed out'']), w)
      | Compiled timed_out receiver_open \<Rightarrow>
          (case kube_compile L OS P timed_out (map snd (ws_objects (kr_upstreams st)))
                  (map snd (ws_objects (kr_relays st))) w of
             (Inr s, w') \<Rightarrow>
               (if receiver_open then KubeGoesOn (st\<lparr>kr_published := True\<rparr>) (Some s)
                else KubeReturns (Inr ()), w')
           | (Inl e, w') \<Rightarrow>
               (if \<not> kr_published st then KubeReturns (Inl (''invalid initial Kubernetes configuration'' # e))
                else KubeGoesOn st None, w')))"

definition kube_turn_of ::
    "'z libs_scheme \<Rightarrow> 's system \<Rightarrow> 's kube_provider \<Rightarrow> kube_naming \<Rightarrow> kube_input \<Rightarrow> compile_branch
       \<Rightarrow> kube_run \<Rightarrow> 's \<Rightarrow> kube_turn \<times> 's" where
  "kube_turn_of L OS P N input branch st w =
     (case kube_select N input st of
        Inl r \<Rightarrow> (KubeReturns r, w)
      | Inr (changed, st') \<Rightarrow>
          if changed \<and> kube_ready st' then kube_publish L OS P branch st' w
          else (KubeGoesOn st' None, w))"

text \<open>
  \<open>ConfigProvider::load\<close>: both lists, then the compilation, all of it within a time limit. The two
  lists are fetched concurrently; here the upstreams come first.
\<close>

definition kube_load ::
    "'z libs_scheme \<Rightarrow> 's system \<Rightarrow> 's kube_provider \<Rightarrow> bool \<Rightarrow> bool \<Rightarrow> 's
       \<Rightarrow> ((errors + provider_snapshot) \<times> 's) option" where
  "kube_load L OS P load_timed_out compile_timed_out w =
     Option.bind (kube_list (api_upstreams (kp_api P)) None [] w) (\<lambda>(ups, w1).
     case ups of Inl e \<Rightarrow> Some (Inl e, w1) | Inr us \<Rightarrow>
     Option.bind (kube_list (api_relays (kp_api P)) None [] w1) (\<lambda>(rels, w2).
     case rels of Inl e \<Rightarrow> Some (Inl e, w2) | Inr rs \<Rightarrow>
       (case kube_compile L OS P compile_timed_out us rs w2 of (r, w3) \<Rightarrow>
         Some (if load_timed_out then Inl [''initial Kubernetes configuration read timed out''] else r, w3))))"

section \<open>What a turn publishes\<close>

lemma relay_validate_generation [simp]: "relay_validate L (r\<lparr>generation := g\<rparr>) = relay_validate L r"
  by (simp add: relay_validate_def validate_scopes_def validate_redirects_def)

lemma with_generations_valid:
  "is_ok (snapshot_validate L s) \<Longrightarrow> is_ok (snapshot_validate L (with_generations gens s))"
  by (fastforce simp: snapshot_validate_ok with_generations_def split: option.splits)

lemma with_generations_keys [simp]:
  "map fst (snap_relays (with_generations gens s)) = map fst (snap_relays s)"
  "snap_upstreams (with_generations gens s) = snap_upstreams s"
  by (auto simp: with_generations_def)

lemma with_generations_typed: "snapshot_typed s \<Longrightarrow> snapshot_typed (with_generations gens s)"
  by (fastforce simp: snapshot_typed_def snapshot_wf_def with_generations_def comp_def split_def split: option.splits)

lemma with_generations_lookup:
  "map_of (snap_relays (with_generations gens s)) k =
     map_option (\<lambda>r. case map_of gens k of Some uid \<Rightarrow> r\<lparr>generation := Some uid\<rparr> | None \<Rightarrow> r)
       (map_of (snap_relays s) k)"
proof -
  have "map_of (map (\<lambda>(key, r). (key, f key r)) rs) k = map_option (f k) (map_of rs k)" for f and rs :: "(string \<times> relay) list"
    by (induction rs) auto
  then show ?thesis by (simp add: with_generations_def)
qed

definition note_generation :: "kube_relay \<Rightarrow> (string \<times> string) list \<Rightarrow> (string \<times> string) list" where
  "note_generation r m = (case (ob_name r, ob_uid r) of (Some n, Some u) \<Rightarrow> al_insert n u m | _ \<Rightarrow> m)"

lemma relay_generations_note: "relay_generations relays = fold note_generation relays []"
  by (simp add: relay_generations_def note_generation_def [abs_def])

lemma note_generation_other: "Some k \<notin> ob_name ` set relays \<Longrightarrow> map_of (fold note_generation relays m) k = map_of m k"
  by (induction relays arbitrary: m) (auto simp: note_generation_def split: option.splits)

lemma relay_generations_lookup:
  assumes "distinct (map ob_name relays)" and "ob \<in> set relays" and "ob_name ob = Some k"
  shows "map_of (relay_generations relays) k = ob_uid ob"
proof -
  have "map_of (fold note_generation relays m) k = (case ob_uid ob of None \<Rightarrow> map_of m k | Some u \<Rightarrow> Some u)" for m
    using assms
  proof (induction relays arbitrary: m)
    case (Cons r relays)
    show ?case
    proof (cases "r = ob")
      case True
      then have "Some k \<notin> ob_name ` set relays" using Cons.prems by auto
      then show ?thesis using True Cons.prems
        by (simp add: note_generation_other) (auto simp: note_generation_def split: option.splits)
    next
      case False
      then have "ob \<in> set relays" "ob_name r \<noteq> Some k" using Cons.prems by (auto, metis image_eqI)
      then show ?thesis using Cons by (auto simp: note_generation_def split: option.splits)
    qed
  qed simp
  from this [of "[]"] show ?thesis by (simp add: relay_generations_note split: option.splits)
qed

lemma kube_metadata_Inr:
  "kube_metadata namespace ob = Inr m \<longleftrightarrow>
     ob_namespace ob = Some namespace \<and> ob_name ob = Some (meta_name m) \<and> meta_namespace m = Some namespace"
  by (cases m) (auto simp: kube_metadata_def bind_result_Inr_iff)

lemma kube_documents_names:
  assumes "kube_documents namespace ups rels = Inr docs"
  obtains us rs where "docs = us @ rs"
    and "list_all2 (\<lambda>ob d. doc_kind d = ''Upstream'' \<and> ob_name ob = Some (doc_name d) \<and> ob_namespace ob = Some namespace) ups us"
    and "list_all2 (\<lambda>ob d. doc_kind d = ''Relay'' \<and> ob_name ob = Some (doc_name d) \<and> ob_namespace ob = Some namespace) rels rs"
proof -
  from assms obtain us rs where d: "docs = us @ rs"
    and u: "list_all2 (\<lambda>ob d. bind_result (kube_metadata namespace ob) (\<lambda>m.
        Inr (UpstreamDoc \<lparr>ur_api_version = V1Alpha1, ur_metadata = m, ur_spec = ob_spec ob\<rparr>)) = (Inr d :: errors + _)) ups us"
    and r: "list_all2 (\<lambda>ob d. bind_result (kube_metadata namespace ob) (\<lambda>m.
        Inr (RelayDoc \<lparr>rr_api_version = V1Alpha1, rr_metadata = m, rr_spec = ob_spec ob\<rparr>)) = (Inr d :: errors + _)) rels rs"
    by (auto simp: kube_documents_def bind_result_Inr_iff try_map_Inr)
  show ?thesis
    by (rule that [OF d list_all2_mono [OF u] list_all2_mono [OF r]])
      (auto simp: bind_result_Inr_iff kube_metadata_Inr)
qed

text \<open>What a compilation of the watched objects gives.\<close>

definition compiled_from ::
    "'z libs_scheme \<Rightarrow> string \<Rightarrow> kube_upstream list \<Rightarrow> kube_relay list \<Rightarrow> provider_snapshot \<Rightarrow> bool" where
  "compiled_from L namespace ups rels s \<longleftrightarrow>
     is_ok (snapshot_validate L s) \<and> snapshot_typed s \<and>
     Some ` fst ` set (snap_upstreams s) = ob_name ` set ups \<and>
     Some ` fst ` set (snap_relays s) = ob_name ` set rels \<and>
     (\<forall>ob\<in>set ups. ob_namespace ob = Some namespace) \<and>
     (\<forall>ob\<in>set rels. ob_namespace ob = Some namespace \<and>
        (\<exists>k r. ob_name ob = Some k \<and> map_of (snap_relays s) k = Some r \<and> generation r = ob_uid ob))"

lemma names_of_kind:
  assumes "list_all2 (\<lambda>ob d. doc_kind d = kind \<and> ob_name ob = Some (doc_name d) \<and> ob_namespace ob = Some namespace) obs ds"
  shows "ob_name ` set obs = Some ` doc_name ` set ds \<and> (\<forall>d\<in>set ds. doc_kind d = kind) \<and>
    (\<forall>ob\<in>set obs. ob_namespace ob = Some namespace) \<and> map ob_name obs = map (Some \<circ> doc_name) ds"
  using assms by (induction rule: list_all2_induct) auto

lemma kube_compile_Inr:
  assumes "kube_compile L OS P timed_out ups rels w = (Inr s, w')"
  shows "compiled_from L (kp_namespace P) ups rels s"
proof -
  obtain docs where docs: "kube_documents (kp_namespace P) ups rels = Inr docs"
    using assms by (auto simp: kube_compile_def split: sum.splits)
  then obtain us rs where d: "docs = us @ rs"
    and u: "list_all2 (\<lambda>ob d. doc_kind d = ''Upstream'' \<and> ob_name ob = Some (doc_name d) \<and> ob_namespace ob = Some (kp_namespace P)) ups us"
    and r: "list_all2 (\<lambda>ob d. doc_kind d = ''Relay'' \<and> ob_name ob = Some (doc_name d) \<and> ob_namespace ob = Some (kp_namespace P)) rels rs"
    by (rule kube_documents_names)
  note nu = names_of_kind [OF u] and nr = names_of_kind [OF r]
  from assms docs obtain R s0 where c: "compile_resources L R docs w = (Inr s0, w')"
    and s: "s = with_generations (relay_generations rels) s0"
    by (auto simp: kube_compile_def Let_def bind_result_Inr_iff split: prod.splits if_splits)
  note valid = compiled_snapshot [OF c]
  have "d \<in> set docs \<and> doc_kind d = ''Upstream'' \<longleftrightarrow> d \<in> set us"
    "d \<in> set docs \<and> doc_kind d = ''Relay'' \<longleftrightarrow> d \<in> set rs" for d
    using bspec [of "set us"] bspec [of "set rs"] nu [THEN conjunct2, THEN conjunct1]
      nr [THEN conjunct2, THEN conjunct1] unfolding d by auto
  then have kinds: "{doc_name d |d. d \<in> set docs \<and> doc_kind d = ''Upstream''} = doc_name ` set us"
    "{doc_name d |d. d \<in> set docs \<and> doc_kind d = ''Relay''} = doc_name ` set rs"
    by blast+
  have keys: "fst ` set (snap_relays s) = fst ` set (snap_relays s0)" "snap_upstreams s = snap_upstreams s0"
    unfolding s by (simp_all flip: set_map)
  have distinct: "distinct (map ob_name rels)"
  proof -
    have "distinct (map (\<lambda>d. (doc_kind d, doc_name d)) rs)"
      using compiled_documents_distinct [OF c] unfolding d by simp
    then have "distinct (map (Pair ''Relay'') (map doc_name rs))"
      using nr [THEN conjunct2, THEN conjunct1] by (simp cong: map_cong)
    then have "distinct (map doc_name rs)" by (rule distinct_map [THEN iffD1, THEN conjunct1])
    moreover have "map ob_name rels = map Some (map doc_name rs)" using nr by simp
    ultimately show ?thesis by (simp add: distinct_map inj_on_def)
  qed
  have relays: "\<exists>k r. ob_name ob = Some k \<and> map_of (snap_relays s) k = Some r \<and> generation r = ob_uid ob"
    if ob: "ob \<in> set rels" for ob
  proof -
    from ob nr have "ob_name ob \<in> Some ` doc_name ` set rs" by (metis image_eqI)
    then obtain k where k: "ob_name ob = Some k" "k \<in> doc_name ` set rs" by blast
    then obtain r0 where r0: "map_of (snap_relays s0) k = Some r0"
      using valid kinds(2) by (metis map_of_eq_None_iff not_None_eq)
    then have "generation r0 = None" using compiled_generation [OF c] by (auto dest: map_of_SomeD)
    moreover have "map_of (relay_generations rels) k = ob_uid ob"
      by (rule relay_generations_lookup [OF distinct ob k(1)])
    ultimately show ?thesis
      using k(1) r0 by (auto simp: s with_generations_lookup split: option.split)
  qed
  have "is_ok (snapshot_validate L s)" "snapshot_typed s"
    using valid unfolding s by (simp_all add: with_generations_valid with_generations_typed)
  then show ?thesis
    unfolding compiled_from_def using valid nu nr relays by (simp add: kinds keys)
qed

section \<open>A relist is atomic\<close>

lemma ws_apply_relisting:
  "ws_staging st \<noteq> None \<Longrightarrow> e \<noteq> WInitDone \<Longrightarrow> ws_staging (snd (ws_apply nm e st)) \<noteq> None"
  by (cases e) auto

definition ws_run :: "('o \<Rightarrow> string) \<Rightarrow> 'o watch_event list \<Rightarrow> 'o watch_store \<Rightarrow> 'o watch_store" where
  "ws_run nm es st = fold (\<lambda>e st. snd (ws_apply nm e st)) es st"

lemma ws_run_staged:
  "ws_staging st = Some m \<Longrightarrow>
     ws_run nm (map WInitApply obs) st = st\<lparr>ws_staging := Some (fold (\<lambda>ob. bt_insert (nm ob) ob) obs m)\<rparr>"
  unfolding ws_run_def by (induction obs arbitrary: st m) (auto simp: bt_insert.simps)

lemma lookup_staged:
  "map_of (fold (\<lambda>ob. bt_insert (nm ob) ob) obs m) k =
     (case map_of (rev (map (\<lambda>ob. (nm ob, ob)) obs)) k of None \<Rightarrow> map_of m k | Some ob \<Rightarrow> Some ob)"
  by (induction obs arbitrary: m) (auto simp: map_add_def split: option.splits)

text \<open>
  While a relist is under way the watched objects stay as they were and the store is not ready, so
  nothing is compiled from it; when it is done the store holds exactly the listed objects, what is
  no longer listed included in the removal.
\<close>

theorem relist_is_atomic:
  "ws_objects (ws_run nm (WInit # map WInitApply obs) st) = ws_objects st \<and>
   \<not> ws_ready (ws_run nm (WInit # map WInitApply obs) st) \<and>
   ws_ready (ws_run nm (WInit # map WInitApply obs @ [WInitDone]) st) \<and>
   map_of (ws_objects (ws_run nm (WInit # map WInitApply obs @ [WInitDone]) st)) =
     map_of (rev (map (\<lambda>ob. (nm ob, ob)) obs))"
proof -
  let ?st = "st\<lparr>ws_staging := Some []\<rparr>"
  have init: "ws_run nm (WInit # es) st = ws_run nm es ?st" for es by (simp add: ws_run_def)
  have fin: "ws_run nm (es @ [WInitDone]) s = snd (ws_apply nm WInitDone (ws_run nm es s))" for es s
    by (simp add: ws_run_def)
  have staged: "ws_run nm (map WInitApply obs) ?st =
      ?st\<lparr>ws_staging := Some (fold (\<lambda>ob. bt_insert (nm ob) ob) obs [])\<rparr>"
    by (rule ws_run_staged) simp
  show ?thesis
    by (auto simp: init fin staged ws_ready_def fun_eq_iff lookup_staged split: option.splits)
qed

section \<open>What is published\<close>

lemma kube_publish_Some:
  assumes "kube_publish L OS P branch st w = (KubeGoesOn st' (Some s), w')"
  shows "st' = st\<lparr>kr_published := True\<rparr> \<and>
    (\<exists>timed_out. kube_compile L OS P timed_out (map snd (ws_objects (kr_upstreams st)))
       (map snd (ws_objects (kr_relays st))) w = (Inr s, w'))"
  using assms by (auto simp: kube_publish_def split: compile_branch.splits prod.splits sum.splits if_splits)

text \<open>
  C30 The provider publishes a snapshot only when none of its three watches is being relisted, and the
  snapshot is valid, comes from exactly the watched objects of its namespace, and marks every relay
  with the uid of its object, so that the handles of a deleted relay do not open for a new one of
  the same name.
\<close>

theorem published_when_ready:
  assumes "kube_turn_of L OS P N input branch st w = (KubeGoesOn st' (Some s), w')"
  shows "kube_ready st' \<and>
    compiled_from L (kp_namespace P) (map snd (ws_objects (kr_upstreams st')))
      (map snd (ws_objects (kr_relays st'))) s"
proof -
  from assms obtain changed st1 where "kube_ready st1"
    and p: "kube_publish L OS P branch st1 w = (KubeGoesOn st' (Some s), w')"
    by (auto simp: kube_turn_of_def split: sum.splits prod.splits if_splits)
  moreover from kube_publish_Some [OF p] obtain timed_out where
    "kube_compile L OS P timed_out (map snd (ws_objects (kr_upstreams st1)))
       (map snd (ws_objects (kr_relays st1))) w = (Inr s, w')" and "st' = st1\<lparr>kr_published := True\<rparr>"
    by auto
  ultimately show ?thesis using kube_compile_Inr by (fastforce simp: kube_ready_def)
qed

text \<open>After the first snapshot a bad configuration never ends the provider: it keeps going.\<close>

lemma bad_configuration_survived:
  assumes "kr_published st" and "kube_publish L OS P (Compiled timed_out True) st w = (t, w')"
  shows "\<exists>st' s. t = KubeGoesOn st' s \<and> kr_published st'"
  using assms by (auto simp: kube_publish_def split: prod.splits sum.splits if_splits)

end
