(* ===== verification/Provider_Loops.thy ===== *)
theory Provider_Loops
  imports Kube_Provider
begin

text \<open>
  The \<open>run\<close> loops of the file and SSM providers, turn by turn, and the three providers behind the
  one trait \<open>ConfigProvider\<close> through which the server uses them. What the process gets from outside
  (operating system, decoders, clients, time limits) is the record \<open>host\<close>, over a world \<open>'s\<close>.
\<close>

section \<open>The polling loops\<close>

text \<open>
  A turn of a loop: it returns, or goes on with \<open>has_sent\<close> and possibly a snapshot sent. Sending
  fails when the receiver is gone.
\<close>

datatype poll_turn = PollReturns "errors + unit" | PollGoesOn bool "provider_snapshot option"

definition file_poll :: "bool \<Rightarrow> bool \<Rightarrow> errors + provider_snapshot \<Rightarrow> poll_turn" where
  "file_poll receiver_open has_sent loaded =
     (if \<not> has_sent
      then (case loaded of
              Inl e \<Rightarrow> PollReturns (Inl e)
            | Inr s \<Rightarrow> if receiver_open then PollGoesOn True (Some s)
                       else PollReturns (Inl [''registry receiver closed'']))
      else (case loaded of
              Inr s \<Rightarrow> if receiver_open then PollGoesOn True (Some s) else PollReturns (Inr ())
            | Inl e \<Rightarrow> PollGoesOn True None))"

definition ssm_poll_turn :: "bool \<Rightarrow> bool \<Rightarrow> errors + provider_snapshot \<Rightarrow> poll_turn" where
  "ssm_poll_turn receiver_open has_sent loaded =
     (case loaded of
        Inr s \<Rightarrow> if receiver_open then PollGoesOn True (Some s) else PollReturns (Inr ())
      | Inl e \<Rightarrow> if \<not> has_sent then PollReturns (Inl e) else PollGoesOn has_sent None)"

section \<open>The trait\<close>

record 's host =
  ho_system :: "'s system"
  ho_yaml_documents :: "string \<Rightarrow> (errors + resource_document) list"
  ho_yaml_document :: "string \<Rightarrow> errors + resource_document"
  ho_parent :: "string \<Rightarrow> string option"
  ho_naming :: kube_naming
  ho_late :: "'s \<Rightarrow> bool \<times> bool"

text \<open>
  The providers the server can run. A load may not return only when the SSM or Kubernetes API
  pages without end; \<open>ho_late\<close> says which of the two time limits of a Kubernetes load pass.
\<close>

datatype 's provider = FileP "'s file_provider" | SsmP "'s ssm_provider" | KubeP "'s kube_provider"

fun provider_name :: "'s provider \<Rightarrow> string" where
  "provider_name (FileP P) = ''file''"
| "provider_name (SsmP P) = ''ssm''"
| "provider_name (KubeP P) = ''kubernetes''"

fun provider_load ::
    "'z libs_scheme \<Rightarrow> 's host \<Rightarrow> 's provider \<Rightarrow> 's \<Rightarrow> ((errors + provider_snapshot) \<times> 's) option" where
  "provider_load L H (FileP P) w = Some (file_load L (ho_system H) (ho_yaml_documents H) (ho_parent H) P w)"
| "provider_load L H (SsmP P) w = ssm_load L (ho_system H) (ho_yaml_document H) P w"
| "provider_load L H (KubeP P) w =
     kube_load L (ho_system H) P (fst (ho_late H w)) (snd (ho_late H w)) w"

text \<open>The state of a provider's task: whether it has sent yet, or the stores of its watches.\<close>

datatype task_state = Polling bool | Watching kube_run

fun task_start :: "'s provider \<Rightarrow> task_state" where
  "task_start (KubeP P) = Watching kube_run_start"
| "task_start _ = Polling False"

datatype task_turn = TaskReturns "errors + unit" | TaskGoesOn task_state "provider_snapshot option"

text \<open>What the surroundings decide about a turn: a select branch, its outcome, and the receiver.\<close>

record task_input =
  ti_receiver_open :: bool
  ti_select :: kube_input
  ti_branch :: compile_branch

fun of_poll :: "poll_turn \<Rightarrow> task_turn" where
  "of_poll (PollReturns r) = TaskReturns r"
| "of_poll (PollGoesOn sent s) = TaskGoesOn (Polling sent) s"

fun of_kube :: "kube_turn \<Rightarrow> task_turn" where
  "of_kube (KubeReturns r) = TaskReturns r"
| "of_kube (KubeGoesOn st s) = TaskGoesOn (Watching st) s"

fun task_turn_of ::
    "'z libs_scheme \<Rightarrow> 's host \<Rightarrow> 's provider \<Rightarrow> task_input \<Rightarrow> task_state \<Rightarrow> 's \<Rightarrow> (task_turn \<times> 's) option" where
  "task_turn_of L H (FileP P) i (Polling sent) w =
     map_option (\<lambda>(r, w'). (of_poll (file_poll (ti_receiver_open i) sent r), w')) (provider_load L H (FileP P) w)"
| "task_turn_of L H (SsmP P) i (Polling sent) w =
     map_option (\<lambda>(r, w'). (of_poll (ssm_poll_turn (ti_receiver_open i) sent r), w')) (provider_load L H (SsmP P) w)"
| "task_turn_of L H (KubeP P) i (Watching st) w =
     (let (t, w') = kube_turn_of L (ho_system H) P (ho_naming H) (ti_select i) (ti_branch i) st w
      in Some (of_kube t, w'))"
| "task_turn_of L H _ i _ w = None"

section \<open>Providers only ever give valid snapshots\<close>

lemma compile_valid':
  "compile_resources L R docs w = (Inr s, w') \<Longrightarrow> is_ok (snapshot_validate L s) \<and> snapshot_typed s"
  using compiled_snapshot [THEN conjunct1] compiled_snapshot [THEN conjunct2, THEN conjunct1] by fast

lemma compile_valid:
  "fst (compile_resources L R docs w) = Inr s \<Longrightarrow> is_ok (snapshot_validate L s) \<and> snapshot_typed s"
  using compile_valid' by (metis prod.collapse)

lemma file_load_valid: "fst (file_load L OS Y parent P w) = Inr s \<Longrightarrow> is_ok (snapshot_validate L s) \<and> snapshot_typed s"
  by (auto simp: file_load_def Let_def split: prod.splits sum.splits dest: compile_valid)

lemma ssm_load_valid:
  "ssm_load L OS Y P w = Some (Inr s, w') \<Longrightarrow> is_ok (snapshot_validate L s) \<and> snapshot_typed s"
  by (auto simp: ssm_load_def split: Option.bind_split_asm sum.split_asm dest!: compile_valid')

lemma kube_compile_valid:
  "kube_compile L OS P timed_out ups rels w = (Inr s, w') \<Longrightarrow> is_ok (snapshot_validate L s) \<and> snapshot_typed s"
  by (auto simp: compiled_from_def dest: kube_compile_Inr)

lemma kube_load_valid:
  "kube_load L OS P a b w = Some (Inr s, w') \<Longrightarrow> is_ok (snapshot_validate L s) \<and> snapshot_typed s"
  by (auto simp: kube_load_def split: Option.bind_split_asm sum.split_asm prod.split_asm if_split_asm dest: kube_compile_valid)

lemma provider_load_valid:
  "provider_load L H P w = Some (Inr s, w') \<Longrightarrow> is_ok (snapshot_validate L s) \<and> snapshot_typed s"
proof (cases P)
  case (FileP Q)
  moreover assume "provider_load L H P w = Some (Inr s, w')"
  ultimately show ?thesis using file_load_valid by (metis fst_conv option.inject provider_load.simps(1))
qed (auto dest: ssm_load_valid kube_load_valid)

lemma poll_sends:
  "file_poll receiver_open sent r = PollGoesOn st (Some s) \<Longrightarrow> r = Inr s \<and> st"
  "ssm_poll_turn receiver_open sent r = PollGoesOn st (Some s) \<Longrightarrow> r = Inr s \<and> st"
  by (auto simp: file_poll_def ssm_poll_turn_def split: sum.splits if_splits)

lemma of_poll_sends: "of_poll t = TaskGoesOn st (Some s) \<longleftrightarrow> (\<exists>sent. t = PollGoesOn sent (Some s) \<and> st = Polling sent)"
  by (cases t) auto

lemma of_kube_sends: "of_kube t = TaskGoesOn st (Some s) \<longleftrightarrow> (\<exists>run. t = KubeGoesOn run (Some s) \<and> st = Watching run)"
  by (cases t) auto

text \<open>Whether a task has sent a snapshot.\<close>

fun task_sent :: "task_state \<Rightarrow> bool" where
  "task_sent (Polling sent) \<longleftrightarrow> sent"
| "task_sent (Watching run) \<longleftrightarrow> kr_published run"

lemma kube_turn_sends:
  assumes "kube_turn_of L OS P N input branch st w = (KubeGoesOn st' (Some s), w')"
  shows "kr_published st' \<and> is_ok (snapshot_validate L s) \<and> snapshot_typed s"
  using assms
  by (auto simp: kube_turn_of_def split: sum.splits prod.splits if_splits
      dest!: kube_publish_Some kube_compile_valid)

lemma task_sends_valid:
  assumes "task_turn_of L H P i st w = Some (TaskGoesOn st' (Some s), w')"
  shows "task_sent st' \<and> is_ok (snapshot_validate L s) \<and> snapshot_typed s"
proof (cases P)
  case (FileP Q)
  with assms obtain sent r where "st = Polling sent" "provider_load L H P w = Some (r, w')"
    "of_poll (file_poll (ti_receiver_open i) sent r) = TaskGoesOn st' (Some s)"
    by (cases st) (auto simp del: provider_load.simps)
  then show ?thesis by (auto simp: of_poll_sends dest!: poll_sends provider_load_valid)
next
  case (SsmP Q)
  with assms obtain sent r where "st = Polling sent" "provider_load L H P w = Some (r, w')"
    "of_poll (ssm_poll_turn (ti_receiver_open i) sent r) = TaskGoesOn st' (Some s)"
    by (cases st) (auto simp del: provider_load.simps)
  then show ?thesis by (auto simp: of_poll_sends dest!: poll_sends provider_load_valid)
next
  case (KubeP Q)
  with assms obtain run t where "kube_turn_of L (ho_system H) Q (ho_naming H) (ti_select i) (ti_branch i) run w = (t, w')"
    "of_kube t = TaskGoesOn st' (Some s)"
    by (cases st) (auto split: prod.splits)
  then show ?thesis by (auto simp: of_kube_sends dest!: kube_turn_sends)
qed

text \<open>A task that has sent a snapshot never forgets it, and a failed load does not end it.\<close>

lemma kube_select_published: "kube_select N input st = Inr (c, st') \<Longrightarrow> kr_published st' = kr_published st"
  by (cases "(N, input, st)" rule: kube_select.cases) (auto split: sum.splits if_splits)

lemma kube_turn_published:
  assumes "kube_turn_of L OS P N input branch st w = (KubeGoesOn st' out, w')" and "kr_published st"
  shows "kr_published st'"
  using assms kube_select_published [of N input st]
  by (fastforce simp: kube_turn_of_def kube_publish_def
      split: sum.splits prod.splits if_splits compile_branch.splits)

lemma poll_stays:
  "PollGoesOn sent out = file_poll receiver_open True r \<Longrightarrow> sent"
  "PollGoesOn sent out = ssm_poll_turn receiver_open True r \<Longrightarrow> sent"
  by (cases r; auto simp: file_poll_def ssm_poll_turn_def split: if_splits)+

lemma task_sent_stays:
  assumes "task_turn_of L H P i st w = Some (TaskGoesOn st' out, w')" and "task_sent st"
  shows "task_sent st'"
proof -
  consider (poll) sent t where "st = Polling sent" "of_poll t = TaskGoesOn st' out"
      "(\<exists>r. t = file_poll (ti_receiver_open i) sent r) \<or> (\<exists>r. t = ssm_poll_turn (ti_receiver_open i) sent r)"
    | (watch) Q run t where "st = Watching run" "of_kube t = TaskGoesOn st' out"
      "kube_turn_of L (ho_system H) Q (ho_naming H) (ti_select i) (ti_branch i) run w = (t, w')"
    using assms(1) by (cases P; cases st) (auto simp del: provider_load.simps split: prod.splits)
  then show ?thesis
  proof cases
    case poll
    with assms(2) show ?thesis by (cases t) (auto dest!: poll_stays)
  next
    case watch
    with assms(2) show ?thesis by (cases t) (auto dest: kube_turn_published)
  qed
qed

text \<open>
  The last good configuration survives: once a provider has sent a snapshot, a load that fails
  neither ends its task nor sends anything.
\<close>

lemma failed_poll_keeps:
  "file_poll receiver_open True (Inl e) = PollGoesOn True None"
  "ssm_poll_turn receiver_open True (Inl e) = PollGoesOn True None"
  by (simp_all add: file_poll_def ssm_poll_turn_def)

end
