(* ===== verification/Kube_Mapping.thy ===== *)
theory Kube_Mapping
  imports Libs Text "HOL-Library.Word"
begin

unbundle bit_operations_syntax

text \<open>
  How the Kubernetes store lays a record out as an object
  (\<open>oauthrelay-store-kubernetes/src/mapping.rs\<close> and \<open>crd.rs\<close>): object names, labels and the
  expiry buckets the sweeper selects by, and the encoding and decoding of both resources. The
  timestamp formatting of \<open>jiff\<close> is a parameter. A name is quoted as \<open>{:?}\<close> prints it, which
  for the characters of object names is the text between quotes.
\<close>

section \<open>Records\<close>

record stored =
  st_name :: string
  st_version :: string
  st_value :: bytes
  st_expires :: nat

record new_record =
  nr_name :: string
  nr_key :: string
  nr_value :: bytes
  nr_expires :: nat

section \<open>Names\<close>

definition NAME_PREFIX :: string where "NAME_PREFIX = ''oauthrelay-''"
definition DEX_NAME_PREFIX :: string where "DEX_NAME_PREFIX = ''zzzzzzzzzzz''"
definition BASE32_ALPHABET :: string where "BASE32_ALPHABET = ''abcdefghijklmnopqrstuvwxyz234567''"

text \<open>The inner loop, which emits a character for every five buffered bits.\<close>

fun base32_drain :: "nat \<Rightarrow> nat \<Rightarrow> string \<Rightarrow> nat \<times> string" where
  "base32_drain buffer bits out =
     (if 5 \<le> bits
      then base32_drain buffer (bits - 5) (out @ [BASE32_ALPHABET ! (drop_bit (bits - 5) buffer AND 31)])
      else (bits, out))"

declare base32_drain.simps [simp del]

text \<open>The outer loop; \<open>buffer\<close> is a \<open>u32\<close>.\<close>

fun base32_loop :: "bytes \<Rightarrow> nat \<Rightarrow> nat \<Rightarrow> string \<Rightarrow> string" where
  "base32_loop [] buffer bits out =
     (if 0 < bits
      then out @ [BASE32_ALPHABET ! (take_bit 32 (push_bit (5 - bits) buffer) AND 31)]
      else out)"
| "base32_loop (b # bs) buffer bits out =
     (let buffer = take_bit 32 (push_bit 8 buffer) OR byte_value b;
          (bits, out) = base32_drain buffer (bits + 8) out
      in base32_loop bs (buffer AND (push_bit bits 1 - 1)) bits out)"

definition base32_lower :: "bytes \<Rightarrow> string" where
  "base32_lower bs = base32_loop bs 0 0 []"

definition prefixed_name :: "'z libs_scheme \<Rightarrow> string \<Rightarrow> string \<Rightarrow> string" where
  "prefixed_name L pre key = pre @ base32_lower (sha256 L key)"

definition object_name :: "'z libs_scheme \<Rightarrow> string \<Rightarrow> string" where
  "object_name L key = prefixed_name L NAME_PREFIX key"

section \<open>Labels and expiry buckets\<close>

definition MANAGED_BY_LABEL :: string where "MANAGED_BY_LABEL = ''app.kubernetes.io/managed-by''"
definition MANAGED_BY_VALUE :: string where "MANAGED_BY_VALUE = ''oauthrelay''"
definition MANAGED_SELECTOR :: string where
  "MANAGED_SELECTOR = ''app.kubernetes.io/managed-by=oauthrelay''"
definition PURPOSE_LABEL :: string where "PURPOSE_LABEL = ''oauthrelay.dev/purpose''"
definition EXPIRES_HOUR_LABEL :: string where "EXPIRES_HOUR_LABEL = ''oauthrelay.dev/expires-hour''"
definition EXPIRY_BUCKET_MS :: nat where "EXPIRY_BUCKET_MS = 3600000"

definition purpose :: "string \<Rightarrow> string option" where
  "purpose key =
     (let segment = hd (split_on (CHR '':'') key) in
      if segment \<noteq> [] \<and> length segment \<le> 63 \<and>
         (\<forall>b\<in>set segment. is_ascii_alphanumeric b \<or> b \<in> {CHR ''-'', CHR ''_'', CHR ''.''}) \<and>
         is_ascii_alphanumeric (hd segment) \<and> is_ascii_alphanumeric (last segment)
      then Some segment else None)"

definition expiry_hour :: "nat \<Rightarrow> nat" where
  "expiry_hour expires_at_ms = expires_at_ms div EXPIRY_BUCKET_MS"

definition expiry_selector :: "nat list \<Rightarrow> string" where
  "expiry_selector hours =
     MANAGED_SELECTOR @ '','' @ EXPIRES_HOUR_LABEL @ '' in ('' @ join '','' (map decimal hours) @ '')''"

definition labels :: "string \<Rightarrow> nat \<Rightarrow> (string \<times> string) list" where
  "labels key expires_at_ms =
     [(MANAGED_BY_LABEL, MANAGED_BY_VALUE), (EXPIRES_HOUR_LABEL, decimal (expiry_hour expires_at_ms))] @
     (case purpose key of None \<Rightarrow> [] | Some p \<Rightarrow> [(PURPOSE_LABEL, p)])"

section \<open>Timestamps\<close>

text \<open>
  \<open>Timestamp::from_millisecond\<close> with the millisecond format, the RFC 3339 parser in
  milliseconds, and \<open>Timestamp::MAX.as_second()\<close>.
\<close>

record time_lib =
  time_format :: "int \<Rightarrow> string option"
  time_parse :: "string \<Rightarrow> int option"
  time_max_second :: int

definition i64_max :: nat where "i64_max = 9223372036854775807"

definition format_time :: "time_lib \<Rightarrow> nat \<Rightarrow> errors + string" where
  "format_time T ms =
     (if i64_max < ms then Inl [''timestamp out of range'']
      else ok_or [''timestamp out of range''] (time_format T (int ms)))"

definition parse_time :: "time_lib \<Rightarrow> string \<Rightarrow> errors + nat" where
  "parse_time T text =
     (case time_parse T text of
        None \<Rightarrow> Inl [''invalid RFC 3339 timestamp'']
      | Some ms \<Rightarrow> Inr (if 0 \<le> ms then nat ms else 0))"

definition max_expiry_millis :: "time_lib \<Rightarrow> nat" where
  "max_expiry_millis T = (if 0 \<le> time_max_second T * 1000 then nat (time_max_second T * 1000) else 0)"

section \<open>The two resources\<close>

datatype record_mapping = TransientRecord | DexAuthCode

definition ALL_MAPPINGS :: "record_mapping list" where
  "ALL_MAPPINGS = [TransientRecord, DexAuthCode]"

definition DEX_CLIENT_ID :: string where "DEX_CLIENT_ID = ''oauthrelay:transient-record''"
definition DEX_REDIRECT_URI :: string where "DEX_REDIRECT_URI = ''urn:oauthrelay:transient-record''"
definition DEX_CONNECTOR_ID :: string where "DEX_CONNECTOR_ID = ''oauthrelay''"

fun mapping_object_name :: "'z libs_scheme \<Rightarrow> record_mapping \<Rightarrow> string \<Rightarrow> string" where
  "mapping_object_name L TransientRecord key = object_name L key"
| "mapping_object_name L DexAuthCode key = prefixed_name L DEX_NAME_PREFIX key"

fun needs_explicit_namespace :: "record_mapping \<Rightarrow> bool" where
  "needs_explicit_namespace DexAuthCode = True"
| "needs_explicit_namespace TransientRecord = False"

fun resource_name :: "record_mapping \<Rightarrow> string" where
  "resource_name TransientRecord = ''transientrecords.oauthrelay.dev''"
| "resource_name DexAuthCode = ''authcodes.dex.coreos.com''"

definition from_resource_name :: "string \<Rightarrow> record_mapping option" where
  "from_resource_name name = List.find (\<lambda>m. resource_name m = name) ALL_MAPPINGS"

record dynamic_object =
  do_name :: "string option"
  do_namespace :: "string option"
  do_labels :: "(string \<times> string) list option"
  do_version :: "string option"
  do_data :: json

text \<open>\<open>challenge\<close> is the random 32 bytes of the PKCE challenge of an \<open>AuthCode\<close>.\<close>

definition encode_data ::
    "'z libs_scheme \<Rightarrow> record_mapping \<Rightarrow> bytes \<Rightarrow> new_record \<Rightarrow> string \<Rightarrow> json" where
  "encode_data L m challenge r expires_at =
     (case m of
        TransientRecord \<Rightarrow>
          JObject [(''spec'', JObject [(''key'', JString (nr_key r)),
            (''value'', JString (b64_encode L (nr_value r))), (''expiresAt'', JString expires_at)])]
      | DexAuthCode \<Rightarrow>
          JObject [(''clientID'', JString DEX_CLIENT_ID), (''redirectURI'', JString DEX_REDIRECT_URI),
            (''connectorID'', JString DEX_CONNECTOR_ID),
            (''connectorData'', JString (b64_encode L (nr_value r))), (''expiry'', JString expires_at),
            (''code_challenge'', JString (b64url_encode L challenge)),
            (''code_challenge_method'', JString ''S256'')])"

definition mapping_encode ::
    "'z libs_scheme \<Rightarrow> time_lib \<Rightarrow> record_mapping \<Rightarrow> bytes \<Rightarrow> string \<Rightarrow> new_record \<Rightarrow> errors + dynamic_object" where
  "mapping_encode L T m challenge namespace r =
     bind_result (format_time T (nr_expires r)) (\<lambda>expires_at.
       Inr \<lparr>do_name = Some (nr_name r), do_namespace = Some namespace,
            do_labels = Some (labels (nr_key r) (nr_expires r)), do_version = None,
            do_data = encode_data L m challenge r expires_at\<rparr>)"

text \<open>\<open>serde_json::from_value\<close> into the derived struct: an object with the three members, or a sequence.\<close>

definition spec_from_value :: "json \<Rightarrow> (string \<times> string \<times> string) option" where
  "spec_from_value v =
     (case v of
        JArray [JString key, JString val, JString expires] \<Rightarrow> Some (key, val, expires)
      | _ \<Rightarrow>
          Option.bind (Option.bind (json_get v ''key'') as_string) (\<lambda>key.
          Option.bind (Option.bind (json_get v ''value'') as_string) (\<lambda>val.
          Option.bind (Option.bind (json_get v ''expiresAt'') as_string) (\<lambda>expires.
          Some (key, val, expires)))))"

definition b64_value :: "'z libs_scheme \<Rightarrow> string \<Rightarrow> string \<Rightarrow> errors + bytes" where
  "b64_value L context text =
     (case b64_decode L text of None \<Rightarrow> Inl [context, ''invalid base64''] | Some v \<Rightarrow> Inr v)"

definition timed :: "time_lib \<Rightarrow> string \<Rightarrow> string \<Rightarrow> errors + nat" where
  "timed T context text =
     (case parse_time T text of Inl e \<Rightarrow> Inl (context # e) | Inr ms \<Rightarrow> Inr ms)"

definition decode_data ::
    "'z libs_scheme \<Rightarrow> time_lib \<Rightarrow> record_mapping \<Rightarrow> string \<Rightarrow> json \<Rightarrow> errors + bytes \<times> nat" where
  "decode_data L T m name data =
     (let ob = ''object '' @ quoted name in
      case m of
        TransientRecord \<Rightarrow>
          bind_result (ok_or [ob @ '' has no spec''] (json_get data ''spec'')) (\<lambda>spec.
          bind_result (ok_or [ob @ '' has an invalid spec''] (spec_from_value spec)) (\<lambda>(key, val, expires).
          bind_result (b64_value L (ob @ '' has an invalid value'') val) (\<lambda>v.
          bind_result (timed T (ob @ '' has an invalid expiresAt'') expires) (\<lambda>ms.
          Inr (v, ms)))))
      | DexAuthCode \<Rightarrow>
          let field = (\<lambda>f. ok_or [ob @ '' has no '' @ f] (Option.bind (json_get data f) as_string)) in
          bind_result (field ''connectorData'') (\<lambda>val.
          bind_result (b64_value L (ob @ '' has an invalid connectorData'') val) (\<lambda>v.
          bind_result (field ''expiry'') (\<lambda>expires.
          bind_result (timed T (ob @ '' has an invalid expiry'') expires) (\<lambda>ms.
          Inr (v, ms))))))"

definition mapping_decode ::
    "'z libs_scheme \<Rightarrow> time_lib \<Rightarrow> record_mapping \<Rightarrow> dynamic_object \<Rightarrow> errors + stored" where
  "mapping_decode L T m ob =
     bind_result (ok_or [''object has no name''] (do_name ob)) (\<lambda>name.
     bind_result (ok_or [''object '' @ quoted name @ '' has no resourceVersion''] (do_version ob)) (\<lambda>version.
     bind_result (decode_data L T m name (do_data ob)) (\<lambda>(v, ms).
     Inr \<lparr>st_name = name, st_version = version, st_value = v, st_expires = ms\<rparr>)))"

section \<open>Object names are injective in the hash\<close>

text \<open>
  The reference reading of base32: the bytes are one big-endian number, padded with zero bits on
  the right to a whole number of base-32 digits.
\<close>

definition base_value :: "nat \<Rightarrow> nat list \<Rightarrow> nat" where
  "base_value base ds = foldl (\<lambda>acc d. acc * base + d) 0 ds"

lemma base_value_foldl: "foldl (\<lambda>acc d. acc * base + d) acc ds = acc * base ^ length ds + base_value base ds"
proof (induction ds arbitrary: acc)
  case Nil
  show ?case by (simp add: base_value_def)
next
  case (Cons d ds)
  have "base_value base (d # ds) = d * base ^ length ds + base_value base ds"
    using Cons [of d] by (simp add: base_value_def)
  with Cons [of "acc * base + d"] show ?case by (simp add: algebra_simps)
qed

lemma base_value_Nil [simp]: "base_value base [] = 0"
  by (simp add: base_value_def)

lemma base_value_Cons: "base_value base (d # ds) = d * base ^ length ds + base_value base ds"
  using base_value_foldl [of base d ds] by (simp add: base_value_def)

lemma base_value_append: "base_value base (a @ b) = base_value base a * base ^ length b + base_value base b"
  by (induction a) (simp_all add: base_value_Cons algebra_simps power_add)

lemma base_value_bound: "\<forall>d\<in>set ds. d < base \<Longrightarrow> base_value base ds < base ^ length ds"
proof (induction ds)
  case (Cons d ds)
  then have "d * base ^ length ds + base_value base ds < (d + 1) * base ^ length ds" by simp
  also have "\<dots> \<le> base * base ^ length ds" using Cons.prems by (intro mult_le_mono1) auto
  finally show ?case by (simp add: base_value_Cons)
qed simp

lemma base_value_inj:
  "length a = length b \<Longrightarrow> \<forall>d\<in>set a \<union> set b. d < base \<Longrightarrow> base_value base a = base_value base b \<Longrightarrow> a = b"
proof (induction a b rule: list_induct2)
  case (Cons x a y b)
  have "base_value base a < base ^ length a" "base_value base b < base ^ length a"
    using Cons base_value_bound [of a base] base_value_bound [of b base] by auto
  moreover have "x * base ^ length a + base_value base a = y * base ^ length a + base_value base b"
    using Cons by (simp add: base_value_Cons)
  ultimately have "x = y \<and> base_value base a = base_value base b"
    by (metis div_mult_self3 mod_mult_self3 div_less mod_less add_cancel_right_right not_less_zero add.commute)
  with Cons show ?case by simp
qed simp

fun drain_digits :: "nat \<Rightarrow> nat \<Rightarrow> nat list" where
  "drain_digits buffer bits =
     (if 5 \<le> bits then (buffer div 2 ^ (bits - 5) mod 32) # drain_digits buffer (bits - 5) else [])"

declare drain_digits.simps [simp del]

lemma and_31: "(n :: nat) AND 31 = n mod 32"
proof -
  have "n AND mask 5 = take_bit 5 n" by (simp add: take_bit_eq_mask)
  moreover have "mask 5 = (31 :: nat)" by (simp add: mask_eq_exp_minus_1)
  ultimately show ?thesis by (simp add: take_bit_eq_mod)
qed

lemma base32_drain_digits:
  "base32_drain buffer bits out = (bits mod 5, out @ map ((!) BASE32_ALPHABET) (drain_digits buffer bits))"
proof (induction buffer bits out rule: base32_drain.induct)
  case (1 buffer bits out)
  show ?case
  proof (cases "5 \<le> bits")
    case True
    with 1 show ?thesis
      by (simp add: base32_drain.simps [of buffer bits] drain_digits.simps [of buffer bits] and_31
          drop_bit_eq_div le_mod_geq)
  next
    case False
    then show ?thesis by (simp add: base32_drain.simps [of buffer bits] drain_digits.simps [of buffer bits])
  qed
qed

lemma drain_digits_length: "length (drain_digits buffer bits) = bits div 5"
proof (induction buffer bits rule: drain_digits.induct)
  case (1 buffer bits)
  then show ?case
    by (cases "5 \<le> bits") (simp_all add: drain_digits.simps [of buffer bits] le_div_geq)
qed

lemma drain_digits_bound: "d \<in> set (drain_digits buffer bits) \<Longrightarrow> d < 32"
proof (induction buffer bits rule: drain_digits.induct)
  case (1 buffer bits)
  then show ?case
    by (cases "5 \<le> bits") (auto simp: drain_digits.simps [of buffer bits])
qed

lemma drain_digits_value:
  "buffer < 2 ^ bits \<Longrightarrow> base_value 32 (drain_digits buffer bits) = buffer div 2 ^ (bits mod 5)"
proof -
  have "base_value 32 (drain_digits buffer bits) = buffer mod 2 ^ bits div 2 ^ (bits mod 5)"
  proof (induction buffer bits rule: drain_digits.induct)
    case (1 buffer bits)
    show ?case
    proof (cases "5 \<le> bits")
      case False
      then show ?thesis by (simp add: drain_digits.simps [of buffer bits])
    next
      case True
      define k where "k = bits - 5"
      have bits: "bits = k + 5" using True by (simp add: k_def)
      define m where "m = k mod 5"
      define q where "q = k div 5"
      have k: "k = 5 * q + m" by (simp add: m_def q_def)
      have split: "buffer mod 2 ^ (k + 5) = buffer div 2 ^ k mod 32 * 2 ^ k + buffer mod 2 ^ k"
        using mod_mult2_eq [of buffer "2 ^ k" 32] by (simp add: power_add mult.commute)
      have "base_value 32 (drain_digits buffer bits) =
          (buffer div 2 ^ k mod 32) * 32 ^ q + buffer mod 2 ^ k div 2 ^ m"
        using 1 True drain_digits_length [of buffer k]
        unfolding bits by (simp add: drain_digits.simps [of buffer "k + 5"] base_value_Cons m_def q_def)
      also have "\<dots> = buffer mod 2 ^ bits div 2 ^ (bits mod 5)"
      proof -
        have "(2 :: nat) ^ k = 32 ^ q * 2 ^ m" by (simp add: k power_add power_mult)
        then have "buffer mod 2 ^ (k + 5) =
            (buffer div 2 ^ k mod 32 * 32 ^ q) * 2 ^ m + buffer mod 2 ^ k"
          using split by (simp add: mult.assoc)
        then show ?thesis by (simp add: bits m_def)
      qed
      finally show ?thesis .
    qed
  qed
  then show "buffer < 2 ^ bits \<Longrightarrow> ?thesis" by simp
qed

lemma or_byte:
  assumes "b < 256"
  shows "push_bit 8 (n :: nat) OR b = n * 256 + b"
proof -
  have "take_bit 8 b = b" using assms by (simp add: take_bit_nat_eq_self_iff)
  then have lt: "bit b i \<Longrightarrow> i < 8" for i by (metis bit_take_bit_iff)
  have "push_bit 8 n AND b = 0" by (auto intro!: bit_eqI simp: bit_and_iff bit_push_bit_iff dest!: lt)
  then show ?thesis using disjunctive_add_eq_or [of "push_bit 8 n" b] by (simp add: push_bit_eq_mult)
qed

lemma ceil5: "(n :: nat) \<le> 5 * ((n + 4) div 5)"
  by presburger

text \<open>The \<open>u32\<close> buffer never overflows: it holds less than five bits between two bytes.\<close>

lemma base32_loop_value:
  assumes "bits < 5" and "buffer < 2 ^ bits"
  shows "\<exists>ds. base32_loop bs buffer bits out = out @ map ((!) BASE32_ALPHABET) ds \<and>
    length ds = (8 * length bs + bits + 4) div 5 \<and> (\<forall>d\<in>set ds. d < 32) \<and>
    base_value 32 ds = (buffer * 256 ^ length bs + base_value 256 (map byte_value bs)) *
      2 ^ (5 * length ds - (8 * length bs + bits))"
  using assms
proof (induction bs arbitrary: buffer bits out)
  case Nil
  show ?case
  proof (cases "bits = 0")
    case True
    then show ?thesis using Nil by (intro exI [of _ "[]"]) simp
  next
    case False
    have "buffer * 2 ^ (5 - bits) < 2 ^ bits * 2 ^ (5 - bits)" using Nil by simp
    then have small: "buffer * 2 ^ (5 - bits) < 32" using Nil by (simp flip: power_add)
    then have "take_bit 32 (push_bit (5 - bits) buffer) AND 31 = buffer * 2 ^ (5 - bits)"
      by (simp add: and_31 push_bit_eq_mult take_bit_eq_mod)
    then show ?thesis
      using False Nil small by (intro exI [of _ "[buffer * 2 ^ (5 - bits)]"]) (simp add: base_value_Cons)
  qed
next
  case (Cons b bs)
  let ?n = "length bs" and ?m = "(bits + 8) mod 5"
  define buf where "buf = buffer * 256 + byte_value b"
  have byte: "byte_value b < 256" by (simp add: byte_value_def)
  have "(2 :: nat) ^ bits \<le> 2 ^ 4" using Cons.prems(1) by (intro power_increasing) auto
  then have small: "buffer * 256 < 2 ^ 32" using Cons.prems(2) by simp
  have buf: "take_bit 32 (push_bit 8 buffer) OR byte_value b = buf"
    using or_byte [OF byte, of buffer] small
    by (simp add: buf_def take_bit_nat_eq_self push_bit_eq_mult mult.commute)
  have "(buffer + 1) * 256 \<le> 2 ^ bits * 256" using Cons.prems(2) by (intro mult_le_mono1) simp
  then have bound: "buf < 2 ^ (bits + 8)" using byte by (simp add: buf_def power_add)
  have mask: "buf AND (push_bit k 1 - 1) = buf mod 2 ^ k" for k
  proof -
    have "push_bit k 1 - 1 = (mask k :: nat)" by (simp add: push_bit_eq_mult mask_eq_exp_minus_1)
    then show ?thesis by (simp flip: take_bit_eq_mask add: take_bit_eq_mod)
  qed
  note mask' = mask [simplified push_bit_of_1]
  have step: "base32_loop (b # bs) buffer bits out =
      base32_loop bs (buf mod 2 ^ ?m) ?m (out @ map ((!) BASE32_ALPHABET) (drain_digits buf (bits + 8)))"
    by (simp add: buf base32_drain_digits mask' [simplified] Let_def)
  let ?ds = "drain_digits buf (bits + 8)"
  obtain ds where ds: "base32_loop bs (buf mod 2 ^ ?m) ?m (out @ map ((!) BASE32_ALPHABET) ?ds) =
      (out @ map ((!) BASE32_ALPHABET) ?ds) @ map ((!) BASE32_ALPHABET) ds"
    and len: "length ds = (8 * ?n + ?m + 4) div 5" and lt: "\<forall>d\<in>set ds. d < 32"
    and v: "base_value 32 ds = (buf mod 2 ^ ?m * 256 ^ ?n + base_value 256 (map byte_value bs)) *
      2 ^ (5 * length ds - (8 * ?n + ?m))"
    using Cons.IH [of ?m "buf mod 2 ^ ?m" "out @ map ((!) BASE32_ALPHABET) ?ds"] by auto
  define q where "q = (bits + 8) div 5"
  have q: "bits + 8 = 5 * q + ?m" by (simp add: q_def)
  have lq: "length ?ds = q" by (simp add: drain_digits_length q_def)
  have all: "8 * length (b # bs) + bits = 8 * ?n + ?m + 5 * q" using q by simp
  have pad: "5 * length (?ds @ ds) - (8 * length (b # bs) + bits) = 5 * length ds - (8 * ?n + ?m)"
    unfolding all by (simp add: lq)
  have total: "length (?ds @ ds) = (8 * length (b # bs) + bits + 4) div 5"
    unfolding all using len by (simp add: lq)
  define p where "p = 5 * length ds - (8 * ?n + ?m)"
  have "8 * ?n + ?m \<le> 5 * length ds" unfolding len by (rule ceil5)
  then have "5 * length ds = 8 * ?n + ?m + p" by (simp add: p_def)
  then have "(2 :: nat) ^ (5 * length ds) = 2 ^ ?m * 2 ^ (8 * ?n) * 2 ^ p" by (simp add: power_add)
  then have pow: "(32 :: nat) ^ length ds = 2 ^ ?m * 256 ^ ?n * 2 ^ p" by (simp add: power_mult)
  have "base_value 32 (?ds @ ds) =
      buf div 2 ^ ?m * (2 ^ ?m * 256 ^ ?n * 2 ^ p) + (buf mod 2 ^ ?m * 256 ^ ?n + base_value 256 (map byte_value bs)) * 2 ^ p"
    by (simp add: base_value_append drain_digits_value [OF bound] v pow flip: p_def)
  also have "\<dots> = ((buf div 2 ^ ?m * 2 ^ ?m + buf mod 2 ^ ?m) * 256 ^ ?n + base_value 256 (map byte_value bs)) * 2 ^ p"
    by (simp only: algebra_simps)
  also have "\<dots> = (buffer * 256 ^ length (b # bs) + base_value 256 (map byte_value (b # bs))) * 2 ^ p"
    by (simp add: buf_def base_value_Cons algebra_simps)
  finally have val: "base_value 32 (?ds @ ds) =
      (buffer * 256 ^ length (b # bs) + base_value 256 (map byte_value (b # bs))) * 2 ^ p" .
  show ?case
    by (rule exI [of _ "?ds @ ds"])
      (use step ds total val pad lt drain_digits_bound in \<open>auto simp: p_def simp del: base32_loop.simps\<close>)
qed

lemma base32_lower_value:
  "\<exists>ds. base32_lower bs = map ((!) BASE32_ALPHABET) ds \<and> length ds = (8 * length bs + 4) div 5 \<and>
    (\<forall>d\<in>set ds. d < 32) \<and> base_value 32 ds = base_value 256 (map byte_value bs) * 2 ^ (5 * length ds - 8 * length bs)"
  using base32_loop_value [of 0 0 bs "[]"] by (simp add: base32_lower_def)

lemma alphabet_inj: "inj_on ((!) BASE32_ALPHABET) {..<32}"
  by (rule inj_on_nth) (simp_all add: BASE32_ALPHABET_def)

lemma base32_lower_length: "length (base32_lower bs) = (8 * length bs + 4) div 5"
  using base32_lower_value [of bs] by force

lemma base32_lower_inj:
  assumes "length a = length b" and "base32_lower a = base32_lower b"
  shows "a = b"
proof -
  obtain da where a: "base32_lower a = map ((!) BASE32_ALPHABET) da" "\<forall>d\<in>set da. d < 32"
    "length da = (8 * length a + 4) div 5"
    "base_value 32 da = base_value 256 (map byte_value a) * 2 ^ (5 * length da - 8 * length a)"
    using base32_lower_value [of a] by blast
  obtain db where b: "base32_lower b = map ((!) BASE32_ALPHABET) db" "\<forall>d\<in>set db. d < 32"
    "length db = (8 * length b + 4) div 5"
    "base_value 32 db = base_value 256 (map byte_value b) * 2 ^ (5 * length db - 8 * length b)"
    using base32_lower_value [of b] by blast
  have "map ((!) BASE32_ALPHABET) da = map ((!) BASE32_ALPHABET) db" using assms(2) a(1) b(1) by simp
  moreover have "inj_on ((!) BASE32_ALPHABET) (set da \<union> set db)"
    by (rule inj_on_subset [OF alphabet_inj]) (use a(2) b(2) in auto)
  ultimately have "da = db" using map_inj_on by blast
  then have "base_value 256 (map byte_value a) = base_value 256 (map byte_value b)"
    using a(4) b(4) assms(1) by simp
  moreover have "\<forall>d\<in>set (map byte_value a) \<union> set (map byte_value b). d < 256"
    by (auto simp: byte_value_def)
  ultimately have "map byte_value a = map byte_value b"
    using base_value_inj [of "map byte_value a" "map byte_value b" 256] assms(1) by simp
  then show "a = b"
    by (metis (no_types) byte_value_def char_of_char list.map_comp list.map_id0 map_eq_conv comp_apply inj_map_eq_map injI)
qed

text \<open>Two keys share an object exactly if their hashes agree, and the two resources share no name.\<close>

lemma object_name_iff:
  assumes "\<And>k. length (sha256 L k) = 32"
  shows "mapping_object_name L m key = mapping_object_name L m' key' \<longleftrightarrow> m = m' \<and> sha256 L key = sha256 L key'"
proof -
  have "base32_lower (sha256 L key) = base32_lower (sha256 L key') \<longleftrightarrow> sha256 L key = sha256 L key'"
    using base32_lower_inj assms by metis
  then show ?thesis
    by (cases m; cases m') (auto simp: object_name_def prefixed_name_def NAME_PREFIX_def DEX_NAME_PREFIX_def)
qed

lemma object_name_length:
  "length (sha256 L key) = 32 \<Longrightarrow> length (mapping_object_name L m key) = 63"
  by (cases m) (simp_all add: object_name_def prefixed_name_def NAME_PREFIX_def DEX_NAME_PREFIX_def
      base32_lower_length)

section \<open>What is written is read back\<close>

text \<open>
  C33 A record written in either resource decodes to the value and the expiry it was written with,
  whatever version the API server gives the object, and the expiry label names the hour bucket the
  sweeper finds it in.
\<close>

theorem record_roundtrip:
  assumes "mapping_encode L T m challenge namespace r = Inr ob"
    and "\<And>v. b64_decode L (b64_encode L v) = Some v"
    and "\<And>ms stamp. time_format T ms = Some stamp \<Longrightarrow> time_parse T stamp = Some ms"
  shows "mapping_decode L T m (ob\<lparr>do_version := Some version\<rparr>) =
      Inr \<lparr>st_name = nr_name r, st_version = version, st_value = nr_value r, st_expires = nr_expires r\<rparr> \<and>
    Option.bind (do_labels ob) (\<lambda>ls. map_of ls EXPIRES_HOUR_LABEL) = Some (decimal (nr_expires r div EXPIRY_BUCKET_MS)) \<and>
    Option.bind (do_labels ob) (\<lambda>ls. map_of ls MANAGED_BY_LABEL) = Some MANAGED_BY_VALUE"
proof -
  from assms(1) obtain stamp where stamp: "time_format T (int (nr_expires r)) = Some stamp"
    and ob: "ob = \<lparr>do_name = Some (nr_name r), do_namespace = Some namespace,
      do_labels = Some (labels (nr_key r) (nr_expires r)), do_version = None,
      do_data = encode_data L m challenge r stamp\<rparr>"
    by (auto simp: mapping_encode_def bind_result_Inr_iff format_time_def split: if_splits)
  from assms(3) [OF stamp] have time: "parse_time T stamp = Inr (nr_expires r)" by (simp add: parse_time_def)
  have "decode_data L T m (nr_name r) (encode_data L m challenge r stamp) = Inr (nr_value r, nr_expires r)"
    by (cases m) (simp_all add: decode_data_def encode_data_def spec_from_value_def b64_value_def timed_def
        assms(2) time ok_or_def Let_def)
  then show ?thesis
    by (simp add: ob mapping_decode_def ok_or_def labels_def EXPIRES_HOUR_LABEL_def MANAGED_BY_LABEL_def
        expiry_hour_def)
qed

end
