(* ===== verification/Kube_Store.thy ===== *)
theory Kube_Store
  imports Kube_Mapping Store
begin

text \<open>
  The Kubernetes transient store (\<open>oauthrelay-store-kubernetes/src/lib.rs\<close>): its four operations,
  the startup probe and the sweeper, as programs over the calls of the \<open>KubernetesClient\<close> trait
  and the clock. A program is a tree of calls; \<open>kpath p es r\<close> says that it can make the calls
  \<open>es\<close>, with the answers recorded there, and return \<open>r\<close>. A call that runs into the operation
  deadline is a call that fails, its effect unknown; \<open>operations_bounded\<close> shows that this is all
  the deadline of an operation adds.
\<close>

section \<open>The client's interface\<close>

datatype create_outcome = Created | AlreadyExists
datatype replace_outcome = Replaced | ReplaceConflict | ReplaceNotFound
datatype delete_outcome = Deleted | DeleteConflict | DeleteNotFound

record page =
  pg_items :: "stored list"
  pg_undecodable :: "string list"
  pg_continue :: "string option"

datatype kevent =
    NowE nat
  | GetE string "errors + stored option"
  | CreateE new_record "errors + create_outcome"
  | ReplaceE new_record string "errors + replace_outcome"
  | DeleteE string "string option" "errors + delete_outcome"
  | ListE string nat "string option" "errors + page"
  | PermitsE string "errors + bool"

datatype 'r kprog =
    KRet 'r
  | KNow "nat \<Rightarrow> 'r kprog"
  | KGet string "errors + stored option \<Rightarrow> 'r kprog"
  | KCreate new_record "errors + create_outcome \<Rightarrow> 'r kprog"
  | KReplace new_record string "errors + replace_outcome \<Rightarrow> 'r kprog"
  | KDelete string "string option" "errors + delete_outcome \<Rightarrow> 'r kprog"
  | KList string nat "string option" "errors + page \<Rightarrow> 'r kprog"
  | KPermits string "errors + bool \<Rightarrow> 'r kprog"

inductive kpath :: "'r kprog \<Rightarrow> kevent list \<Rightarrow> 'r \<Rightarrow> bool" where
  path_ret: "kpath (KRet r) [] r"
| path_now: "kpath (f t) es r \<Longrightarrow> kpath (KNow f) (NowE t # es) r"
| path_get: "kpath (f a) es r \<Longrightarrow> kpath (KGet n f) (GetE n a # es) r"
| path_create: "kpath (f a) es r \<Longrightarrow> kpath (KCreate rec f) (CreateE rec a # es) r"
| path_replace: "kpath (f a) es r \<Longrightarrow> kpath (KReplace rec v f) (ReplaceE rec v a # es) r"
| path_delete: "kpath (f a) es r \<Longrightarrow> kpath (KDelete n v f) (DeleteE n v a # es) r"
| path_list: "kpath (f a) es r \<Longrightarrow> kpath (KList sel lim tok f) (ListE sel lim tok a # es) r"
| path_permits: "kpath (f a) es r \<Longrightarrow> kpath (KPermits verb f) (PermitsE verb a # es) r"

inductive_simps kpath_simps:
  "kpath (KRet r) es r'"
  "kpath (KNow f) es r"
  "kpath (KGet n f) es r"
  "kpath (KCreate rec f) es r"
  "kpath (KReplace rec v f) es r"
  "kpath (KDelete n v f) es r"
  "kpath (KList sel lim tok f) es r"
  "kpath (KPermits verb f) es r"

primrec kbind :: "'a kprog \<Rightarrow> ('a \<Rightarrow> 'b kprog) \<Rightarrow> 'b kprog" where
  "kbind (KRet x) f = f x"
| "kbind (KNow g) f = KNow (\<lambda>a. kbind (g a) f)"
| "kbind (KGet n g) f = KGet n (\<lambda>a. kbind (g a) f)"
| "kbind (KCreate rec g) f = KCreate rec (\<lambda>a. kbind (g a) f)"
| "kbind (KReplace rec v g) f = KReplace rec v (\<lambda>a. kbind (g a) f)"
| "kbind (KDelete n v g) f = KDelete n v (\<lambda>a. kbind (g a) f)"
| "kbind (KList sel lim tok g) f = KList sel lim tok (\<lambda>a. kbind (g a) f)"
| "kbind (KPermits verb g) f = KPermits verb (\<lambda>a. kbind (g a) f)"

section \<open>The store's operations\<close>

definition SWEEP_PAGE_SIZE :: nat where "SWEEP_PAGE_SIZE = 500"
definition OPERATION_DEADLINE :: duration where "OPERATION_DEADLINE = from_secs 10"
definition SWEEP_GRACE :: duration where "SWEEP_GRACE = from_secs 30"
definition FULL_SWEEP_INTERVAL :: duration where "FULL_SWEEP_INTERVAL = from_secs (24 * 3600)"
definition HOURS_PER_LIST :: nat where "HOURS_PER_LIST = 20"
definition REQUIRED_VERBS :: "string list" where
  "REQUIRED_VERBS = [''get'', ''list'', ''create'', ''update'', ''delete'']"
definition REPLACE_ROUNDS :: nat where "REPLACE_ROUNDS = 3"

text \<open>What the store is bound to: the object name of a key, the latest expiry, and the messages.\<close>

record kube_client =
  kc_object_name :: "string \<Rightarrow> string"
  kc_max_expiry :: nat
  kc_target :: string
  kc_install_hint :: string

definition millis :: "duration \<Rightarrow> nat" where
  "millis d = min (as_millis d) u64_max"

definition unix_millis :: "int \<Rightarrow> nat" where
  "unix_millis elapsed_ns = (if elapsed_ns < 0 then 0 else min (as_millis (nat elapsed_ns)) u64_max)"

definition kube_expiry :: "kube_client \<Rightarrow> nat \<Rightarrow> duration \<Rightarrow> store_error + nat" where
  "kube_expiry C now ttl =
     (case checked_add now (millis ttl) of
        Some expiry \<Rightarrow> if expiry \<le> kc_max_expiry C then Inr expiry else Inl (StoreInvalid ''ttl is too large'')
      | None \<Rightarrow> Inl (StoreInvalid ''ttl is too large''))"

definition is_ours :: "stored option \<Rightarrow> bytes \<Rightarrow> nat \<Rightarrow> bool" where
  "is_ours ob mine now \<longleftrightarrow> (case ob of None \<Rightarrow> False | Some r \<Rightarrow> now < st_expires r \<and> st_value r = mine)"

fun put_rounds :: "nat \<Rightarrow> new_record \<Rightarrow> nat \<Rightarrow> (store_error + bool) kprog" where
  "put_rounds 0 rec now = KRet (Inr False)"
| "put_rounds (Suc n) rec now =
     KCreate rec (\<lambda>created. case created of
       Inl _ \<Rightarrow> KRet (Inl StoreBackend)
     | Inr Created \<Rightarrow> KRet (Inr True)
     | Inr AlreadyExists \<Rightarrow>
         KGet (nr_name rec) (\<lambda>existing. case existing of
           Inl _ \<Rightarrow> KRet (Inl StoreBackend)
         | Inr found \<Rightarrow>
             if is_ours found (nr_value rec) now then KRet (Inr True)
             else (case found of
                     None \<Rightarrow> put_rounds n rec now
                   | Some old \<Rightarrow>
                       if now < st_expires old then KRet (Inr False)
                       else KReplace rec (st_version old) (\<lambda>replaced. case replaced of
                              Inl _ \<Rightarrow> KRet (Inl StoreBackend)
                            | Inr Replaced \<Rightarrow> KRet (Inr True)
                            | Inr _ \<Rightarrow> put_rounds n rec now))))"

definition inner_put_if_absent :: "kube_client \<Rightarrow> string \<Rightarrow> bytes \<Rightarrow> duration \<Rightarrow> (store_error + bool) kprog" where
  "inner_put_if_absent C key v ttl =
     KNow (\<lambda>now. case kube_expiry C now ttl of
        Inl e \<Rightarrow> KRet (Inl e)
      | Inr expires \<Rightarrow>
          put_rounds REPLACE_ROUNDS
            \<lparr>nr_name = kc_object_name C key, nr_key = key, nr_value = v, nr_expires = expires\<rparr> now)"

definition inner_get :: "kube_client \<Rightarrow> string \<Rightarrow> (store_error + entry option) kprog" where
  "inner_get C key =
     KNow (\<lambda>now. KGet (kc_object_name C key) (\<lambda>found. case found of
        Inl _ \<Rightarrow> KRet (Inl StoreBackend)
      | Inr None \<Rightarrow> KRet (Inr None)
      | Inr (Some r) \<Rightarrow>
          KRet (Inr (if now < st_expires r
                     then Some \<lparr>value_of = st_value r, expires_in = from_millis (st_expires r - now)\<rparr>
                     else None))))"

definition inner_compare_and_swap ::
    "kube_client \<Rightarrow> string \<Rightarrow> bytes \<Rightarrow> bytes \<Rightarrow> duration \<Rightarrow> (store_error + bool) kprog" where
  "inner_compare_and_swap C key expected new ttl =
     KNow (\<lambda>now. case kube_expiry C now ttl of
        Inl e \<Rightarrow> KRet (Inl e)
      | Inr expires \<Rightarrow>
          KGet (kc_object_name C key) (\<lambda>found. case found of
            Inl _ \<Rightarrow> KRet (Inl StoreBackend)
          | Inr current \<Rightarrow>
              (case current of
                 None \<Rightarrow> KRet (Inr False)
               | Some cur \<Rightarrow>
                   if \<not> (now < st_expires cur \<and> st_value cur = expected) then KRet (Inr False)
                   else KReplace
                     \<lparr>nr_name = kc_object_name C key, nr_key = key, nr_value = new, nr_expires = expires\<rparr>
                     (st_version cur) (\<lambda>outcome. case outcome of
                       Inl _ \<Rightarrow> KRet (Inl StoreBackend)
                     | Inr Replaced \<Rightarrow> KRet (Inr True)
                     | Inr ReplaceNotFound \<Rightarrow> KRet (Inr False)
                     | Inr ReplaceConflict \<Rightarrow>
                         KGet (kc_object_name C key) (\<lambda>latest. case latest of
                           Inl _ \<Rightarrow> KRet (Inl StoreBackend)
                         | Inr ob \<Rightarrow> KRet (Inr (is_ours ob new now)))))))"

definition inner_delete :: "kube_client \<Rightarrow> string \<Rightarrow> (store_error + unit) kprog" where
  "inner_delete C key =
     KDelete (kc_object_name C key) None (\<lambda>r. case r of
       Inl _ \<Rightarrow> KRet (Inl StoreBackend) | Inr _ \<Rightarrow> KRet (Inr ()))"

text \<open>The operations of the trait, which check the request first.\<close>

definition kube_put_if_absent :: "kube_client \<Rightarrow> string \<Rightarrow> bytes \<Rightarrow> duration \<Rightarrow> (store_error + bool) kprog" where
  "kube_put_if_absent C key v ttl =
     (case bind_result (validate_key key) (\<lambda>_. validate_ttl ttl) of
        Inl e \<Rightarrow> KRet (Inl e)
      | Inr _ \<Rightarrow> inner_put_if_absent C key v ttl)"

definition kube_get :: "kube_client \<Rightarrow> string \<Rightarrow> (store_error + entry option) kprog" where
  "kube_get C key = (case validate_key key of Inl e \<Rightarrow> KRet (Inl e) | Inr _ \<Rightarrow> inner_get C key)"

definition kube_compare_and_swap ::
    "kube_client \<Rightarrow> string \<Rightarrow> bytes \<Rightarrow> bytes \<Rightarrow> duration \<Rightarrow> (store_error + bool) kprog" where
  "kube_compare_and_swap C key expected new ttl =
     (case bind_result (validate_key key) (\<lambda>_. validate_ttl ttl) of
        Inl e \<Rightarrow> KRet (Inl e)
      | Inr _ \<Rightarrow> inner_compare_and_swap C key expected new ttl)"

definition kube_delete :: "kube_client \<Rightarrow> string \<Rightarrow> (store_error + unit) kprog" where
  "kube_delete C key = (case validate_key key of Inl e \<Rightarrow> KRet (Inl e) | Inr _ \<Rightarrow> inner_delete C key)"

lemmas kube_operation_defs =
  kube_put_if_absent_def inner_put_if_absent_def kube_get_def inner_get_def
  kube_compare_and_swap_def inner_compare_and_swap_def kube_delete_def inner_delete_def

section \<open>The operation deadline\<close>

text \<open>
  \<open>kcut p es\<close>: the deadline passes while the last call of \<open>es\<close> is under way, so that its answer is
  not seen. An operation that runs with a deadline then fails.
\<close>

inductive kcut :: "'r kprog \<Rightarrow> kevent list \<Rightarrow> bool" where
  cut_get: "kcut (KGet n f) [GetE n (Inl e)]"
| cut_create: "kcut (KCreate rec f) [CreateE rec (Inl e)]"
| cut_replace: "kcut (KReplace rec v f) [ReplaceE rec v (Inl e)]"
| cut_delete: "kcut (KDelete n v f) [DeleteE n v (Inl e)]"
| cut_list: "kcut (KList sel lim tok f) [ListE sel lim tok (Inl e)]"
| cut_permits: "kcut (KPermits verb f) [PermitsE verb (Inl e)]"
| after_now: "kcut (f t) es \<Longrightarrow> kcut (KNow f) (NowE t # es)"
| after_get: "kcut (f a) es \<Longrightarrow> kcut (KGet n f) (GetE n a # es)"
| after_create: "kcut (f a) es \<Longrightarrow> kcut (KCreate rec f) (CreateE rec a # es)"
| after_replace: "kcut (f a) es \<Longrightarrow> kcut (KReplace rec v f) (ReplaceE rec v a # es)"
| after_delete: "kcut (f a) es \<Longrightarrow> kcut (KDelete n v f) (DeleteE n v a # es)"
| after_list: "kcut (f a) es \<Longrightarrow> kcut (KList sel lim tok f) (ListE sel lim tok a # es)"
| after_permits: "kcut (f a) es \<Longrightarrow> kcut (KPermits verb f) (PermitsE verb a # es)"

definition bounded :: "(store_error + 'a) kprog \<Rightarrow> kevent list \<Rightarrow> store_error + 'a \<Rightarrow> bool" where
  "bounded p es r \<longleftrightarrow> kpath p es r \<or> kcut p es \<and> r = Inl StoreBackend"

text \<open>
  The operations answer every failed call with the error of the deadline, so a deadline adds
  no behaviour: it is a call that fails, its effect unknown.
\<close>

primrec fails_closed :: "(store_error + 'a) kprog \<Rightarrow> bool" where
  "fails_closed (KRet r) \<longleftrightarrow> True"
| "fails_closed (KNow f) \<longleftrightarrow> (\<forall>t. fails_closed (f t))"
| "fails_closed (KGet n f) \<longleftrightarrow> (\<forall>e. f (Inl e) = KRet (Inl StoreBackend)) \<and> (\<forall>a. fails_closed (f a))"
| "fails_closed (KCreate rec f) \<longleftrightarrow> (\<forall>e. f (Inl e) = KRet (Inl StoreBackend)) \<and> (\<forall>a. fails_closed (f a))"
| "fails_closed (KReplace rec v f) \<longleftrightarrow> (\<forall>e. f (Inl e) = KRet (Inl StoreBackend)) \<and> (\<forall>a. fails_closed (f a))"
| "fails_closed (KDelete n v f) \<longleftrightarrow> (\<forall>e. f (Inl e) = KRet (Inl StoreBackend)) \<and> (\<forall>a. fails_closed (f a))"
| "fails_closed (KList sel lim tok f) \<longleftrightarrow> (\<forall>e. f (Inl e) = KRet (Inl StoreBackend)) \<and> (\<forall>a. fails_closed (f a))"
| "fails_closed (KPermits verb f) \<longleftrightarrow> (\<forall>e. f (Inl e) = KRet (Inl StoreBackend)) \<and> (\<forall>a. fails_closed (f a))"

lemma cut_is_failed_call: "kcut p es \<Longrightarrow> fails_closed p \<Longrightarrow> kpath p es (Inl StoreBackend)"
  by (induction rule: kcut.induct) (auto simp: kpath_simps)

lemma bounded_path: "fails_closed p \<Longrightarrow> bounded p es r \<longleftrightarrow> kpath p es r"
  by (auto simp: bounded_def cut_is_failed_call)

lemma put_rounds_fails_closed: "fails_closed (put_rounds n rec now)"
  by (induction n) (auto split: sum.splits option.splits create_outcome.splits replace_outcome.splits)

lemma operations_bounded:
  "bounded (kube_put_if_absent C key v ttl) es rp \<longleftrightarrow> kpath (kube_put_if_absent C key v ttl) es rp"
  "bounded (kube_get C key) es rg \<longleftrightarrow> kpath (kube_get C key) es rg"
  "bounded (kube_compare_and_swap C key e v ttl) es rc \<longleftrightarrow> kpath (kube_compare_and_swap C key e v ttl) es rc"
  "bounded (kube_delete C key) es rd \<longleftrightarrow> kpath (kube_delete C key) es rd"
  by (rule bounded_path; auto simp: kube_operation_defs put_rounds_fails_closed
      split: sum.splits option.splits replace_outcome.splits)+

section \<open>The startup probe\<close>

fun probe_verbs :: "string \<Rightarrow> string list \<Rightarrow> string list \<Rightarrow> (errors + string list) kprog" where
  "probe_verbs target missing [] = KRet (Inr missing)"
| "probe_verbs target missing (verb # verbs) =
     KPermits verb (\<lambda>allowed. case allowed of
       Inl e \<Rightarrow> KRet (Inl ((''cannot check whether the role may '' @ verb @ '' '' @ target @
                  '' (SelfSubjectAccessReview)'') # e))
     | Inr b \<Rightarrow> probe_verbs target (if b then missing else missing @ [verb]) verbs)"

definition kube_probe :: "kube_client \<Rightarrow> (errors + unit) kprog" where
  "kube_probe C =
     KList MANAGED_SELECTOR 1 None (\<lambda>listed. case listed of
       Inl e \<Rightarrow> KRet (Inl ((''cannot list '' @ kc_target C @ '': check that '' @ kc_install_hint C @
                  '' and that the role grants '' @ join '', '' REQUIRED_VERBS @ '' on it'') # e))
     | Inr _ \<Rightarrow>
         kbind (probe_verbs (kc_target C) [] REQUIRED_VERBS) (\<lambda>r. KRet (bind_result r (\<lambda>missing.
           if missing \<noteq> []
           then Inl [''the role lacks '' @ join '', '' missing @ '' on '' @ kc_target C @ '': it needs ''
                     @ join '', '' REQUIRED_VERBS]
           else Inr ()))))"

section \<open>The sweeper\<close>

record sweep_report =
  listed :: nat
  deleted :: nat
  skipped :: nat

definition empty_report :: sweep_report where
  "empty_report = \<lparr>listed = 0, deleted = 0, skipped = 0\<rparr>"

record sweep_state =
  watermark_hour :: nat
  last_full_ms :: nat

definition settled_hour :: "nat \<Rightarrow> nat" where
  "settled_hour now = expiry_hour (saturating_sub now (millis SWEEP_GRACE))"

definition sweepable :: "nat \<Rightarrow> stored \<Rightarrow> bool" where
  "sweepable now r \<longleftrightarrow> saturating_add (st_expires r) (millis SWEEP_GRACE) \<le> now"

fun sweep_items :: "stored list \<Rightarrow> sweep_report \<Rightarrow> (errors + sweep_report) kprog" where
  "sweep_items [] rep = KRet (Inr rep)"
| "sweep_items (r # rs) rep =
     KDelete (st_name r) (Some (st_version r)) (\<lambda>outcome. case outcome of
       Inl e \<Rightarrow> KRet (Inl e)
     | Inr Deleted \<Rightarrow> sweep_items rs (rep\<lparr>deleted := deleted rep + 1\<rparr>)
     | Inr _ \<Rightarrow> sweep_items rs (rep\<lparr>skipped := skipped rep + 1\<rparr>))"

text \<open>
  The paging loop of \<open>sweep_selector\<close>, for at most \<open>pages\<close> pages; \<open>None\<close> when there are more.
\<close>

fun sweep_selector ::
    "nat \<Rightarrow> string \<Rightarrow> string option \<Rightarrow> sweep_report \<Rightarrow> (errors + sweep_report) option kprog" where
  "sweep_selector 0 sel tok rep = KRet None"
| "sweep_selector (Suc pages) sel tok rep =
     KList sel SWEEP_PAGE_SIZE tok (\<lambda>answer. case answer of
       Inl e \<Rightarrow> KRet (Some (Inl e))
     | Inr pg \<Rightarrow>
         KNow (\<lambda>now.
         kbind (sweep_items (filter (sweepable now) (pg_items pg))
                  (rep\<lparr>listed := listed rep + length (pg_items pg)\<rparr>)) (\<lambda>swept. case swept of
           Inl e \<Rightarrow> KRet (Some (Inl e))
         | Inr rep' \<Rightarrow>
             (case pg_continue pg of
                None \<Rightarrow> KRet (Some (Inr rep'))
              | Some t \<Rightarrow> if t = [] then KRet (Some (Inr rep')) else sweep_selector pages sel (Some t) rep'))))"

text \<open>A pass returns its report and the state of the sweeper after it.\<close>

definition full_sweep ::
    "nat \<Rightarrow> sweep_state option \<Rightarrow> (errors + sweep_report \<times> sweep_state option) option kprog" where
  "full_sweep pages state =
     KNow (\<lambda>started.
     kbind (sweep_selector pages MANAGED_SELECTOR None empty_report) (\<lambda>r.
       KRet (map_option (\<lambda>res. bind_result res (\<lambda>rep.
         Inr (rep, Some \<lparr>watermark_hour = settled_hour started, last_full_ms = started\<rparr>))) r)))"

definition add_report :: "sweep_report \<Rightarrow> sweep_report \<Rightarrow> sweep_report" where
  "add_report a b = \<lparr>listed = listed a + listed b, deleted = deleted a + deleted b, skipped = skipped a + skipped b\<rparr>"

fun chunks :: "nat \<Rightarrow> 'a list \<Rightarrow> 'a list list" where
  "chunks n xs = (if xs = [] \<or> n = 0 then [] else take n xs # chunks n (drop n xs))"

declare chunks.simps [simp del]

fun sweep_chunks ::
    "nat \<Rightarrow> nat list list \<Rightarrow> sweep_report \<Rightarrow> (errors + sweep_report) option kprog" where
  "sweep_chunks pages [] rep = KRet (Some (Inr rep))"
| "sweep_chunks pages (hours # rest) rep =
     kbind (sweep_selector pages (expiry_selector hours) None empty_report) (\<lambda>r. case r of
       Some (Inr part) \<Rightarrow> sweep_chunks pages rest (add_report rep part)
     | Some (Inl e) \<Rightarrow> KRet (Some (Inl e))
     | None \<Rightarrow> KRet None)"

definition due_state :: "nat \<Rightarrow> sweep_state option \<Rightarrow> sweep_state option" where
  "due_state now state =
     (case state of
        Some st \<Rightarrow> if saturating_sub now (last_full_ms st) < millis FULL_SWEEP_INTERVAL then Some st else None
      | None \<Rightarrow> None)"

definition sweep_tick ::
    "nat \<Rightarrow> sweep_state option \<Rightarrow> (errors + sweep_report \<times> sweep_state option) option kprog" where
  "sweep_tick pages state =
     KNow (\<lambda>now.
       case due_state now state of
         None \<Rightarrow> full_sweep pages state
       | Some st \<Rightarrow>
           (let last_hour = settled_hour now;
                hours = [watermark_hour st ..< Suc last_hour] in
            kbind (sweep_chunks pages (chunks HOURS_PER_LIST hours) empty_report) (\<lambda>r.
              KRet (map_option (\<lambda>res. bind_result res (\<lambda>rep.
                Inr (rep, map_option (\<lambda>cur. cur\<lparr>watermark_hour := max (watermark_hour cur) last_hour\<rparr>) state))) r))))"

text \<open>
  \<open>KubernetesStore::sweep\<close>, and a turn of the loop that \<open>with_sweeper\<close> starts: a tick that fails
  leaves the state as it was.
\<close>

definition kube_sweep ::
    "nat \<Rightarrow> sweep_state option \<Rightarrow> (errors + sweep_report \<times> sweep_state option) option kprog" where
  "kube_sweep pages state = full_sweep pages state"

definition sweeper_turn :: "nat \<Rightarrow> sweep_state option \<Rightarrow> sweep_state option kprog" where
  "sweeper_turn pages state =
     kbind (sweep_tick pages state) (\<lambda>r. KRet (case r of Some (Inr (rep, state')) \<Rightarrow> state' | _ \<Rightarrow> state))"

end
