(* ===== verification/Server.thy ===== *)
theory Server
  imports Provider_Loops Kube_Store Sealing
begin

text \<open>
  The server binary (\<open>oauthrelay/src/main.rs\<close>), built with its default features: reading the
  environment, choosing providers and store, the order of the startup checks, the registry
  updater, and the Lambda configuration refresher. The environment is a function from names to
  values; clients of AWS and Kubernetes are handed in. HTTP serving, tracing and signals are not
  modelled.
\<close>

type_synonym env = "string \<Rightarrow> string option"

section \<open>Values of the environment\<close>

definition required_url :: "'z libs_scheme \<Rightarrow> env \<Rightarrow> string \<Rightarrow> errors + url" where
  "required_url L env name =
     bind_result (ok_or [name @ '' is required'', ''environment variable not found''] (env name)) (\<lambda>v.
     bind_result (ok_or [name @ '' must be a URL'', ''invalid URL''] (url_parse L v)) (\<lambda>u.
       if \<not> ((scheme u = ''http'' \<or> scheme u = ''https'') \<and> host_str u \<noteq> None)
       then Inl [name @ '' must be an absolute http(s) URL'']
       else if query u \<noteq> None \<or> fragment u \<noteq> None
       then Inl [name @ '' must not contain a query or fragment'']
       else Inr u))"

definition seal_key :: "'z libs_scheme \<Rightarrow> env \<Rightarrow> string \<Rightarrow> bool \<Rightarrow> errors + bytes option" where
  "seal_key L env name needed =
     (case env name of
        None \<Rightarrow> if needed then Inl [name @ '' is required''] else Inr None
      | Some v \<Rightarrow>
          let encoded = (case strip_prefix ''base64:'' v of Some rest \<Rightarrow> rest | None \<Rightarrow> v) in
          bind_result (ok_or [name @ '' must be base64'', ''invalid base64''] (b64_decode L encoded)) (\<lambda>key.
            if length key \<noteq> 32 then Inl [name @ '' must decode to exactly 32 bytes''] else Inr (Some key)))"

definition parse_bool :: "string \<Rightarrow> string \<Rightarrow> errors + bool" where
  "parse_bool name v =
     (if v = ''true'' then Inr True else if v = ''false'' then Inr False
      else Inl [name @ '' must be true or false'', ''provided string was not `true` or `false`''])"

definition bool_env :: "env \<Rightarrow> string \<Rightarrow> bool \<Rightarrow> errors + bool" where
  "bool_env env name dflt = (case env name of None \<Rightarrow> Inr dflt | Some v \<Rightarrow> parse_bool name v)"

definition checked_mul :: "nat \<Rightarrow> nat \<Rightarrow> nat option" where
  "checked_mul a b = (if a * b \<le> u64_max then Some (a * b) else None)"

definition duration_unit :: "string \<Rightarrow> (string \<times> nat) option" where
  "duration_unit v =
     (case strip_suffix ''ms'' v of Some n \<Rightarrow> Some (n, 1) | None \<Rightarrow>
     (case strip_suffix ''s'' v of Some n \<Rightarrow> Some (n, 1000) | None \<Rightarrow>
     (case strip_suffix ''m'' v of Some n \<Rightarrow> Some (n, 60000) | None \<Rightarrow>
     (case strip_suffix ''h'' v of Some n \<Rightarrow> Some (n, 3600000) | None \<Rightarrow> None))))"

definition parse_duration :: "string \<Rightarrow> string \<Rightarrow> errors + duration" where
  "parse_duration name v =
     (case duration_unit v of
        None \<Rightarrow> Inl [name @ '' must use ms, s, m, or h units'']
      | Some (number, multiplier) \<Rightarrow>
          bind_result (ok_or [''invalid '' @ name, ''invalid digit''] (parse_u64 number)) (\<lambda>ms.
          bind_result (ok_or [name @ '' is too large''] (checked_mul ms multiplier)) (\<lambda>ms.
            if from_millis ms = 0 then Inl [name @ '' must be greater than zero'']
            else Inr (from_millis ms))))"

definition duration_env :: "env \<Rightarrow> string \<Rightarrow> duration \<Rightarrow> errors + duration" where
  "duration_env env name dflt = (case env name of None \<Rightarrow> Inr dflt | Some v \<Rightarrow> parse_duration name v)"

definition is_lambda_runtime :: "env \<Rightarrow> bool" where
  "is_lambda_runtime env \<longleftrightarrow> env ''AWS_LAMBDA_RUNTIME_API'' \<noteq> None"

section \<open>The transient store\<close>

datatype store_config = ConfigMemory | ConfigDynamoDb string
  | ConfigKubernetes "string option" "string option" "duration option"

definition DEFAULT_KUBERNETES_SWEEP :: duration where "DEFAULT_KUBERNETES_SWEEP = from_secs 60"

record store_env =
  se_kind :: "string option"
  se_dynamodb_table :: "string option"
  se_kubernetes_resource :: "string option"
  se_kubernetes_namespace :: "string option"
  se_kubernetes_sweep :: "string option"

definition kubernetes_settings :: "store_env \<Rightarrow> (string \<times> string option) list" where
  "kubernetes_settings e =
     [(''OAUTHRELAY_STORE_KUBERNETES_RESOURCE'', se_kubernetes_resource e),
      (''OAUTHRELAY_STORE_KUBERNETES_NAMESPACE'', se_kubernetes_namespace e),
      (''OAUTHRELAY_STORE_KUBERNETES_SWEEP'', se_kubernetes_sweep e)]"

definition valid_table_name :: "string \<Rightarrow> bool" where
  "valid_table_name table \<longleftrightarrow>
     3 \<le> length table \<and> length table \<le> 255 \<and>
     (\<forall>b\<in>set table. is_ascii_alphanumeric b \<or> b \<in> {CHR ''_'', CHR ''-'', CHR ''.''})"

definition parse_store_config :: "store_env \<Rightarrow> errors + store_config" where
  "parse_store_config e =
     (if se_kind e \<noteq> Some ''dynamodb'' \<and> se_dynamodb_table e \<noteq> None
      then Inl [''OAUTHRELAY_STORE_DYNAMODB_TABLE requires OAUTHRELAY_STORE=dynamodb'']
      else case (if se_kind e \<noteq> Some ''kubernetes''
                 then List.find (\<lambda>(n, v). v \<noteq> None) (kubernetes_settings e) else None) of
        Some (n, v) \<Rightarrow> Inl [n @ '' requires OAUTHRELAY_STORE=kubernetes'']
      | None \<Rightarrow>
          (case se_kind e of
             None \<Rightarrow> Inr ConfigMemory
           | Some kind \<Rightarrow>
               if kind = ''memory'' then Inr ConfigMemory
               else if kind = ''dynamodb''
               then bind_result (ok_or [''OAUTHRELAY_STORE=dynamodb requires OAUTHRELAY_STORE_DYNAMODB_TABLE'']
                      (se_dynamodb_table e)) (\<lambda>table.
                    if \<not> valid_table_name table
                    then Inl [''OAUTHRELAY_STORE_DYNAMODB_TABLE must be a DynamoDB table name: 3-255 characters from A-Z, a-z, 0-9, ''
                              @ [CHR 0x27] @ ''_'' @ [CHR 0x27] @ '', '' @ [CHR 0x27] @ ''-'' @ [CHR 0x27] @ '' and ''
                              @ [CHR 0x27] @ ''.'' @ [CHR 0x27]]
                    else Inr (ConfigDynamoDb table))
               else if kind = ''kubernetes''
               then bind_result (case se_kubernetes_sweep e of
                      None \<Rightarrow> Inr (Some DEFAULT_KUBERNETES_SWEEP)
                    | Some v \<Rightarrow> if v = ''off'' then Inr None
                                else bind_result (parse_duration ''OAUTHRELAY_STORE_KUBERNETES_SWEEP'' v) (\<lambda>d. Inr (Some d))) (\<lambda>sweep.
                    Inr (ConfigKubernetes (se_kubernetes_resource e) (se_kubernetes_namespace e) sweep))
               else Inl [''OAUTHRELAY_STORE must be memory, dynamodb or kubernetes, got '' @ quoted kind]))"

fun reject_kubernetes_on_lambda :: "store_config \<Rightarrow> bool \<Rightarrow> errors + unit" where
  "reject_kubernetes_on_lambda (ConfigKubernetes res ns sweep) lambda =
     (if lambda
      then Inl [''OAUTHRELAY_STORE=kubernetes is not supported on AWS Lambda: the process is frozen between '' @
                ''invocations, so nothing would delete expired records. Use OAUTHRELAY_STORE=dynamodb, whose TTL deletes them'']
      else Inr ())"
| "reject_kubernetes_on_lambda _ lambda = Inr ()"

definition kubernetes_store_namespace ::
    "record_mapping \<Rightarrow> string option \<Rightarrow> string option \<Rightarrow> string \<Rightarrow> errors + string" where
  "kubernetes_store_namespace m explicit provider dflt =
     (if needs_explicit_namespace m \<and> explicit = None
      then Inl [''OAUTHRELAY_STORE_KUBERNETES_RESOURCE='' @ resource_name m @
                '' requires OAUTHRELAY_STORE_KUBERNETES_NAMESPACE to name Dex'' @ [CHR 0x27] @
                ''s namespace: Dex garbage-collects expired authcodes only there, so it is never inferred from the provider or pod namespace'']
      else select_namespace (case explicit of Some n \<Rightarrow> Some n | None \<Rightarrow> provider) dflt)"

definition kubernetes_mapping :: "string option \<Rightarrow> errors + record_mapping" where
  "kubernetes_mapping resource =
     (case resource of
        None \<Rightarrow> Inr TransientRecord
      | Some name \<Rightarrow>
          ok_or [''OAUTHRELAY_STORE_KUBERNETES_RESOURCE must be one of '' @
                 join '', '' (map resource_name ALL_MAPPINGS) @ '', got '' @ quoted name] (from_resource_name name))"

text \<open>
  What \<open>configured_store\<close> builds. The Kubernetes configuration is the result of \<open>kube_config\<close>, with
  the namespace it defaults to, and \<open>probe\<close> the startup probe of the store it would use.
\<close>

datatype store_plan = PlanMemory | PlanDynamoDb string | PlanKubernetes record_mapping string "duration option"

definition store_env_of :: "env \<Rightarrow> store_env" where
  "store_env_of env =
     \<lparr>se_kind = env ''OAUTHRELAY_STORE'', se_dynamodb_table = env ''OAUTHRELAY_STORE_DYNAMODB_TABLE'',
      se_kubernetes_resource = env ''OAUTHRELAY_STORE_KUBERNETES_RESOURCE'',
      se_kubernetes_namespace = env ''OAUTHRELAY_STORE_KUBERNETES_NAMESPACE'',
      se_kubernetes_sweep = env ''OAUTHRELAY_STORE_KUBERNETES_SWEEP''\<rparr>"

definition configured_store ::
    "env \<Rightarrow> errors + string \<Rightarrow> (record_mapping \<Rightarrow> string \<Rightarrow> errors + unit) \<Rightarrow> errors + store_plan" where
  "configured_store env kube_default probe =
     bind_result (parse_store_config (store_env_of env)) (\<lambda>config.
     bind_result (reject_kubernetes_on_lambda config (is_lambda_runtime env)) (\<lambda>_.
     case config of
       ConfigMemory \<Rightarrow> Inr PlanMemory
     | ConfigDynamoDb table \<Rightarrow> Inr (PlanDynamoDb table)
     | ConfigKubernetes resource namespace sweep \<Rightarrow>
         bind_result (kubernetes_mapping resource) (\<lambda>m.
         bind_result kube_default (\<lambda>dflt.
         bind_result (bool_env env ''OAUTHRELAY_PROVIDER_KUBERNETES'' False) (\<lambda>enabled.
         bind_result (kubernetes_store_namespace m namespace
            (if enabled then env ''OAUTHRELAY_PROVIDER_KUBERNETES_NAMESPACE'' else None) dflt) (\<lambda>ns.
         bind_result (probe m ns) (\<lambda>_. Inr (PlanKubernetes m ns sweep))))))))"

section \<open>The providers\<close>

text \<open>\<open>LazyAwsSecretResolver\<close>: the clients are created on the first use, from the process defaults.\<close>

definition lazy_aws_secrets :: "'z libs_scheme \<Rightarrow> 's aws_sdk \<Rightarrow> 's secret_resolver" where
  "lazy_aws_secrets L A =
     \<lparr>resolve_value = (\<lambda>v w. (Inl [''inline values are resolved by StandardSecretResolver''], w)),
      resolve_source = aws_source L (sdk_client A)\<rparr>"

definition configured_file ::
    "'z libs_scheme \<Rightarrow> env \<Rightarrow> 's host \<Rightarrow> 's aws_sdk \<Rightarrow> errors + 's provider list" where
  "configured_file L env H A =
     (case env ''OAUTHRELAY_PROVIDER_FILE'' of
        None \<Rightarrow> Inr []
      | Some file \<Rightarrow>
          bind_result (duration_env env ''OAUTHRELAY_PROVIDER_FILE_POLL'' (from_secs 30)) (\<lambda>poll.
          bind_result (file_new (ho_system H) file poll) (\<lambda>P.
            Inr [FileP (P\<lparr>fp_aws := Some (lazy_aws_secrets L A)\<rparr>)])))"

definition configured_ssm :: "env \<Rightarrow> 's host \<Rightarrow> 's aws_sdk \<Rightarrow> errors + 's provider list" where
  "configured_ssm env H A =
     (case env ''OAUTHRELAY_PROVIDER_SSM_PREFIX'' of
        None \<Rightarrow> Inr []
      | Some pre \<Rightarrow>
          bind_result (duration_env env ''OAUTHRELAY_PROVIDER_SSM_POLL'' (from_secs 60)) (\<lambda>poll.
          bind_result (ssm_new (ho_system H) (sdk_client A) pre poll) (\<lambda>P. Inr [SsmP P])))"

definition configured_kubernetes ::
    "'z libs_scheme \<Rightarrow> env \<Rightarrow> 's aws_sdk \<Rightarrow> 's kube_api \<Rightarrow> errors + string \<Rightarrow> errors + 's provider list" where
  "configured_kubernetes L env A api kube_default =
     bind_result (bool_env env ''OAUTHRELAY_PROVIDER_KUBERNETES'' False) (\<lambda>enabled.
       if \<not> enabled then Inr []
       else
         bind_result kube_default (\<lambda>dflt.
         bind_result (select_namespace (env ''OAUTHRELAY_PROVIDER_KUBERNETES_NAMESPACE'') dflt) (\<lambda>namespace.
         bind_result (duration_env env ''OAUTHRELAY_PROVIDER_KUBERNETES_REFRESH'' DEFAULT_REFRESH_INTERVAL) (\<lambda>refresh_interval.
         bind_result (kube_provider_new api namespace refresh_interval) (\<lambda>P.
           Inr [KubeP (P\<lparr>kp_aws := Some (lazy_aws_secrets L A)\<rparr>)])))))"

definition configured_providers ::
    "'z libs_scheme \<Rightarrow> env \<Rightarrow> 's host \<Rightarrow> 's aws_sdk \<Rightarrow> 's kube_api \<Rightarrow> errors + string \<Rightarrow> errors + 's provider list" where
  "configured_providers L env H A api kube_default =
     bind_result (configured_file L env H A) (\<lambda>fs.
     bind_result (configured_ssm env H A) (\<lambda>ss.
     bind_result (configured_kubernetes L env A api kube_default) (\<lambda>ks.
       Inr (fs @ ss @ ks))))"

section \<open>The registry and its providers\<close>

text \<open>
  A running provider: its task, and the \<open>watch\<close> channel it sends on. The receiver has seen the
  value or not; the channel closes when the task ends.
\<close>

record 's running =
  rn_provider :: "'s provider"
  rn_task :: task_state
  rn_value :: provider_snapshot
  rn_unseen :: bool
  rn_closed :: bool

definition start_provider :: "'s provider \<Rightarrow> 's running" where
  "start_provider P =
     \<lparr>rn_provider = P, rn_task = task_start P, rn_value = snapshot_default, rn_unseen = False, rn_closed = False\<rparr>"

text \<open>A turn of a provider's task, with what it sends on the channel.\<close>

definition running_turn ::
    "'z libs_scheme \<Rightarrow> 's host \<Rightarrow> task_input \<Rightarrow> 's running \<Rightarrow> 's \<Rightarrow> ('s running \<times> 's) option" where
  "running_turn L H i r w =
     (if rn_closed r then None
      else case task_turn_of L H (rn_provider r) i (rn_task r) w of
        None \<Rightarrow> None
      | Some (TaskReturns res, w') \<Rightarrow> Some (r\<lparr>rn_closed := True\<rparr>, w')
      | Some (TaskGoesOn st None, w') \<Rightarrow> Some (r\<lparr>rn_task := st\<rparr>, w')
      | Some (TaskGoesOn st (Some s), w') \<Rightarrow> Some (r\<lparr>rn_task := st, rn_value := s, rn_unseen := True\<rparr>, w'))"

text \<open>\<open>rx.changed().await\<close>: \<open>None\<close> while it waits.\<close>

definition initial_snapshot :: "'s running \<Rightarrow> (errors + 's running) option" where
  "initial_snapshot r =
     (if rn_unseen r then Some (Inr (r\<lparr>rn_unseen := False\<rparr>))
      else if rn_closed r
      then Some (Inl [''provider '' @ provider_name (rn_provider r) @ '' stopped before its first snapshot'', ''channel closed''])
      else None)"

definition replace_registry :: "'s running list \<Rightarrow> registry \<Rightarrow> registry" where
  "replace_registry rs g =
     registry_replace (merge_ordered (map (\<lambda>r. (provider_name (rn_provider r), rn_value r)) rs)) g"

text \<open>One round of \<open>spawn_registry_updater\<close>: a closed channel counts as unchanged.\<close>

definition updater_round :: "'s running list \<Rightarrow> registry \<Rightarrow> 's running list \<times> registry" where
  "updater_round rs g =
     (let rs' = map (\<lambda>r. if \<not> rn_closed r \<and> rn_unseen r then r\<lparr>rn_unseen := False\<rparr> else r) rs in
      if \<exists>r\<in>set rs. \<not> rn_closed r \<and> rn_unseen r then (rs', replace_registry rs' g) else (rs', g))"

definition sorted_keys :: "(string \<times> 'v) list \<Rightarrow> string list" where
  "sorted_keys m = map fst (fold (\<lambda>(k, v). bt_insert k ()) m [])"

definition check_redirect_options ::
    "'z libs_scheme \<Rightarrow> provider_snapshot \<Rightarrow> redirect_options \<Rightarrow> errors + unit" where
  "check_redirect_options L s options =
     try_each (\<lambda>key. case map_of (snap_relays s) key of
        Some r \<Rightarrow> (case relay_validate_for L r options of
                     Inl e \<Rightarrow> Inl [''Relay/'' @ key @ '': '' @ e] | Inr _ \<Rightarrow> Inr ())
      | None \<Rightarrow> Inr ()) (sorted_keys (snap_relays s))"

section \<open>Startup\<close>

record 's server_plan =
  sv_public_url :: url
  sv_sealer :: xchacha_sealer
  sv_store :: store_plan
  sv_redirect :: redirect_options
  sv_running :: "'s running list"

fun seal_error_text :: "seal_error \<Rightarrow> string" where
  "seal_error_text InvalidKey = ''invalid sealing key: expected 32 bytes''"
| "seal_error_text InvalidEnvelope = ''invalid sealed envelope''"
| "seal_error_text SealerDown = ''sealer unavailable''"

text \<open>\<open>main\<close> up to \<open>start_providers\<close>, in its order.\<close>

definition startup ::
    "'z libs_scheme \<Rightarrow> env \<Rightarrow> 's host \<Rightarrow> 's aws_sdk \<Rightarrow> 's kube_api \<Rightarrow> errors + string
       \<Rightarrow> (record_mapping \<Rightarrow> string \<Rightarrow> errors + unit) \<Rightarrow> errors + 's server_plan" where
  "startup L env H A api kube_default probe =
     bind_result (required_url L env ''OAUTHRELAY_PUBLIC_URL'') (\<lambda>public_url.
     bind_result (seal_key L env ''OAUTHRELAY_SEAL_KEY'' True) (\<lambda>cur.
     bind_result (seal_key L env ''OAUTHRELAY_SEAL_KEY_PREVIOUS'' False) (\<lambda>prev.
     bind_result (case cur of
         None \<Rightarrow> Inl [''required key'']
       | Some key \<Rightarrow> (case xchacha_new key prev of Inl e \<Rightarrow> Inl [seal_error_text e] | Inr s \<Rightarrow> Inr s)) (\<lambda>sealer.
     bind_result (configured_providers L env H A api kube_default) (\<lambda>providers.
     if providers = []
     then Inl [''at least one provider is required; set OAUTHRELAY_PROVIDER_FILE, OAUTHRELAY_PROVIDER_SSM_PREFIX, or OAUTHRELAY_PROVIDER_KUBERNETES=true'']
     else
       bind_result (configured_store env kube_default probe) (\<lambda>store.
       bind_result (bool_env env ''OAUTHRELAY_ALLOW_LOCALHOST_LOOPBACK'' False) (\<lambda>localhost.
       bind_result (bool_env env ''OAUTHRELAY_ALLOW_HTTP_ORIGINS'' False) (\<lambda>http_origins.
         Inr \<lparr>sv_public_url = public_url, sv_sealer = sealer, sv_store = store,
              sv_redirect = \<lparr>allow_localhost_loopback = localhost, allow_http_origins = http_origins\<rparr>,
              sv_running = map start_provider providers\<rparr>))))))))"

text \<open>The server while it starts, and once it serves.\<close>

record 's server =
  sr_running :: "'s running list"
  sr_awaiting :: nat
  sr_registry :: registry
  sr_serving :: bool
  sr_world :: 's

definition server_start :: "'s server_plan \<Rightarrow> 's \<Rightarrow> 's server" where
  "server_start p w =
     \<lparr>sr_running = sv_running p, sr_awaiting = 0, sr_registry = registry_default, sr_serving = False, sr_world = w\<rparr>"

text \<open>
  The steps of the process: a turn of the task of provider \<open>k\<close>; the next initial snapshot arrives;
  all have arrived, the registry is filled and passes the check of the redirect options, and the
  service starts; a round of the updater.
\<close>

inductive server_step :: "'z libs_scheme \<Rightarrow> 's host \<Rightarrow> redirect_options \<Rightarrow> 's server \<Rightarrow> 's server \<Rightarrow> bool"
  for L H options where
  step_task: "k < length (sr_running s) \<Longrightarrow> running_turn L H i (sr_running s ! k) (sr_world s) = Some (r, w) \<Longrightarrow>
    server_step L H options s (s\<lparr>sr_running := (sr_running s)[k := r], sr_world := w\<rparr>)"
| step_initial: "sr_awaiting s < length (sr_running s) \<Longrightarrow>
    initial_snapshot (sr_running s ! sr_awaiting s) = Some (Inr r) \<Longrightarrow>
    server_step L H options s
      (s\<lparr>sr_running := (sr_running s)[sr_awaiting s := r], sr_awaiting := Suc (sr_awaiting s)\<rparr>)"
| step_serve: "\<not> sr_serving s \<Longrightarrow> sr_awaiting s = length (sr_running s) \<Longrightarrow>
    g = replace_registry (sr_running s) (sr_registry s) \<Longrightarrow>
    check_redirect_options L (registry_snapshot g) options = Inr () \<Longrightarrow>
    server_step L H options s (s\<lparr>sr_registry := g, sr_serving := True\<rparr>)"
| step_update: "sr_serving s \<Longrightarrow> updater_round (sr_running s) (sr_registry s) = (rs, g) \<Longrightarrow>
    server_step L H options s (s\<lparr>sr_running := rs, sr_registry := g\<rparr>)"

inductive server_runs :: "'z libs_scheme \<Rightarrow> 's host \<Rightarrow> redirect_options \<Rightarrow> 's server \<Rightarrow> 's server \<Rightarrow> bool"
  for L H options where
  runs_refl: "server_runs L H options s s"
| runs_more: "server_runs L H options s s1 \<Longrightarrow> server_step L H options s1 s2 \<Longrightarrow> server_runs L H options s s2"

section \<open>Configuration on Lambda\<close>

record 's lambda_provider =
  lp_provider :: "'s provider"
  lp_snapshot :: provider_snapshot

record 's lambda_refresher =
  rf_registry :: registry
  rf_ttl :: duration
  rf_last_attempt :: nat
  rf_providers :: "'s lambda_provider list"

definition DEFAULT_LAMBDA_CONFIG_TTL :: duration where "DEFAULT_LAMBDA_CONFIG_TTL = from_secs 60"

definition refresher_new :: "registry \<Rightarrow> 's running list \<Rightarrow> duration \<Rightarrow> nat \<Rightarrow> 's lambda_refresher" where
  "refresher_new g rs ttl now =
     \<lparr>rf_registry = g, rf_ttl = ttl, rf_last_attempt = now,
      rf_providers = map (\<lambda>r. \<lparr>lp_provider = rn_provider r, lp_snapshot = rn_value r\<rparr>) rs\<rparr>"

fun reload_all ::
    "'z libs_scheme \<Rightarrow> 's host \<Rightarrow> 's lambda_provider list \<Rightarrow> 's \<Rightarrow> ('s lambda_provider list \<times> 's) option" where
  "reload_all L H [] w = Some ([], w)"
| "reload_all L H (p # ps) w =
     (case provider_load L H (lp_provider p) w of
        None \<Rightarrow> None
      | Some (r, w') \<Rightarrow>
          map_option (\<lambda>(ps', w''). ((case r of Inr s \<Rightarrow> p\<lparr>lp_snapshot := s\<rparr> | Inl _ \<Rightarrow> p) # ps', w''))
            (reload_all L H ps w'))"

text \<open>\<open>now\<close> and \<open>now'\<close> are the two readings of the wall clock, which may go backwards.\<close>

definition refresh_if_stale ::
    "'z libs_scheme \<Rightarrow> 's host \<Rightarrow> nat \<Rightarrow> nat \<Rightarrow> 's lambda_refresher \<Rightarrow> 's \<Rightarrow> ('s lambda_refresher \<times> 's) option" where
  "refresh_if_stale L H now now' f w =
     (if rf_last_attempt f \<le> now \<and> now - rf_last_attempt f < rf_ttl f then Some (f, w)
      else map_option (\<lambda>(ps, w').
        (f\<lparr>rf_last_attempt := now', rf_providers := ps,
           rf_registry := registry_replace
             (merge_ordered (map (\<lambda>p. (provider_name (lp_provider p), lp_snapshot p)) ps)) (rf_registry f)\<rparr>, w'))
        (reload_all L H (rf_providers f) w))"

end
