(* ===== verification/Server_Safety.thy ===== *)
theory Server_Safety
  imports Server
begin

text \<open>
  What the server guarantees of its configuration: it serves only after every provider has sent a
  snapshot and the redirect options of the merge were checked, and from then on the registry is
  always the ordered merge of one valid snapshot per provider, each sent by the provider's task,
  whatever the tasks go through.
  The same for the refresher on Lambda; then the bounds of configured durations and what the
  startup accepts.
\<close>

section \<open>The running server\<close>

definition good_snapshot :: "'z libs_scheme \<Rightarrow> provider_snapshot \<Rightarrow> bool" where
  "good_snapshot L s \<longleftrightarrow> is_ok (snapshot_validate L s) \<and> snapshot_typed s"

lemma good_default [simp]: "good_snapshot L snapshot_default"
  unfolding good_snapshot_def by (simp add: snapshot_validate_ok) (simp add: snapshot_default_def)

definition running_ok :: "'z libs_scheme \<Rightarrow> 's running \<Rightarrow> bool" where
  "running_ok L r \<longleftrightarrow> good_snapshot L (rn_value r) \<and> (rn_unseen r \<longrightarrow> task_sent (rn_task r))"

text \<open>The registry is the merge of one valid snapshot per provider, in their order.\<close>

definition merged_from :: "'z libs_scheme \<Rightarrow> string list \<Rightarrow> registry \<Rightarrow> bool" where
  "merged_from L names g \<longleftrightarrow>
     (\<exists>snaps. map fst snaps = names \<and> (\<forall>(p, s)\<in>set snaps. good_snapshot L s) \<and> resources g = merge_ordered snaps)"

definition server_ok :: "'z libs_scheme \<Rightarrow> string list \<Rightarrow> 's server \<Rightarrow> bool" where
  "server_ok L names s \<longleftrightarrow>
     (\<forall>r\<in>set (sr_running s). running_ok L r) \<and>
     map (provider_name \<circ> rn_provider) (sr_running s) = names \<and>
     sr_awaiting s \<le> length (sr_running s) \<and>
     (\<forall>k < sr_awaiting s. task_sent (rn_task (sr_running s ! k))) \<and>
     (sr_serving s \<longrightarrow> sr_awaiting s = length (sr_running s) \<and> merged_from L names (sr_registry s))"

lemma start_ok: "running_ok L (start_provider P)"
  by (simp add: running_ok_def start_provider_def)

lemma running_turn_ok:
  assumes "running_turn L H i r w = Some (r', w')" and "running_ok L r"
  shows "running_ok L r' \<and> rn_provider r' = rn_provider r \<and> (task_sent (rn_task r) \<longrightarrow> task_sent (rn_task r'))"
proof -
  from assms(1) obtain t where t: "task_turn_of L H (rn_provider r) i (rn_task r) w = Some (t, w')"
    and r': "r' = (case t of TaskReturns res \<Rightarrow> r\<lparr>rn_closed := True\<rparr>
      | TaskGoesOn st None \<Rightarrow> r\<lparr>rn_task := st\<rparr>
      | TaskGoesOn st (Some s) \<Rightarrow> r\<lparr>rn_task := st, rn_value := s, rn_unseen := True\<rparr>)"
    by (auto simp: running_turn_def split: if_splits option.splits prod.splits task_turn.splits)
  show ?thesis
  proof (cases t)
    case (TaskReturns res)
    with assms(2) r' show ?thesis by (simp add: running_ok_def)
  next
    case (TaskGoesOn st out)
    with t have stays: "task_sent (rn_task r) \<longrightarrow> task_sent st" by (auto intro: task_sent_stays)
    show ?thesis
    proof (cases out)
      case None
      with TaskGoesOn r' stays assms(2) show ?thesis by (simp add: running_ok_def)
    next
      case (Some s)
      with TaskGoesOn t have "task_sent st \<and> is_ok (snapshot_validate L s) \<and> snapshot_typed s"
        by (auto dest: task_sends_valid)
      with TaskGoesOn Some r' show ?thesis by (simp add: running_ok_def good_snapshot_def)
    qed
  qed
qed

lemma initial_ok:
  "initial_snapshot r = Some (Inr r') \<Longrightarrow> running_ok L r \<Longrightarrow>
     running_ok L r' \<and> rn_provider r' = rn_provider r \<and> rn_task r' = rn_task r \<and> task_sent (rn_task r')"
  by (auto simp: initial_snapshot_def running_ok_def split: if_splits)

lemma replace_merged:
  assumes "\<forall>r\<in>set rs. running_ok L r" and "map (provider_name \<circ> rn_provider) rs = names"
  shows "merged_from L names (replace_registry rs g)"
  unfolding merged_from_def replace_registry_def
  using assms by (intro exI [of _ "map (\<lambda>r. (provider_name (rn_provider r), rn_value r)) rs"])
    (auto simp: registry_replace_def running_ok_def)

lemma updater_ok:
  assumes "updater_round rs g = (rs', g')" and "\<forall>r\<in>set rs. running_ok L r"
    and "map (provider_name \<circ> rn_provider) rs = names" and "merged_from L names g"
  shows "(\<forall>r\<in>set rs'. running_ok L r) \<and> map (provider_name \<circ> rn_provider) rs' = names \<and>
    map rn_task rs' = map rn_task rs \<and> merged_from L names g'"
proof -
  let ?rs = "map (\<lambda>r. if \<not> rn_closed r \<and> rn_unseen r then r\<lparr>rn_unseen := False\<rparr> else r) rs"
  have rs: "\<forall>r\<in>set ?rs. running_ok L r" "map (provider_name \<circ> rn_provider) ?rs = names" "map rn_task ?rs = map rn_task rs"
    using assms(2,3) by (auto simp: running_ok_def)
  have "rs' = ?rs" "g' = g \<or> g' = replace_registry ?rs g"
    using assms(1) by (auto simp: updater_round_def Let_def split: if_splits)
  with rs replace_merged [OF rs(1,2)] assms(4) show ?thesis by auto
qed

lemma map_update_same: "f x = f (xs ! k) \<Longrightarrow> map f (xs[k := x]) = map f xs"
  by (metis list_update_id map_update)

lemma server_step_ok:
  assumes "server_step L H options s s'" and "server_ok L names s"
  shows "server_ok L names s'"
  using assms
proof (induction rule: server_step.induct)
  case (step_task k s i r w)
  have ok: "running_ok L (sr_running s ! k)" using step_task by (simp add: server_ok_def)
  note turn = running_turn_ok [OF step_task(2) ok]
  have "map (provider_name \<circ> rn_provider) ((sr_running s)[k := r]) = names"
    using step_task turn map_update_same [of "provider_name \<circ> rn_provider" r "sr_running s" k]
    by (simp add: server_ok_def)
  with step_task turn show ?case
    by (auto simp: server_ok_def nth_list_update dest!: set_update_subset_insert [THEN subsetD])
next
  case (step_initial s r)
  have ok: "running_ok L (sr_running s ! sr_awaiting s)" using step_initial by (simp add: server_ok_def)
  note init = initial_ok [OF step_initial(2) ok]
  have "map (provider_name \<circ> rn_provider) ((sr_running s)[sr_awaiting s := r]) = names"
    using step_initial init map_update_same [of "provider_name \<circ> rn_provider" r "sr_running s" "sr_awaiting s"]
    by (simp add: server_ok_def)
  with step_initial init show ?case
    by (auto simp: server_ok_def nth_list_update less_Suc_eq dest!: set_update_subset_insert [THEN subsetD])
next
  case (step_serve s g)
  then show ?case using replace_merged [of "sr_running s" L names "sr_registry s"] by (auto simp: server_ok_def)
next
  case (step_update s rs g)
  then have upd: "(\<forall>r\<in>set rs. running_ok L r) \<and> map (provider_name \<circ> rn_provider) rs = names \<and>
      map rn_task rs = map rn_task (sr_running s) \<and> merged_from L names g"
    by (intro updater_ok [OF step_update(2)]) (auto simp: server_ok_def)
  then have len: "length rs = length (sr_running s)" by (metis length_map)
  have "rn_task (rs ! k) = rn_task (sr_running s ! k)" if "k < length rs" for k
    using upd len that by (metis nth_map)
  with step_update upd len show ?case by (auto simp: server_ok_def)
qed

lemma server_runs_ok:
  "server_runs L H options s s' \<Longrightarrow> server_ok L names s \<Longrightarrow> server_ok L names s'"
  by (induction rule: server_runs.induct) (auto intro: server_step_ok)

lemma startup_running:
  assumes "startup L env H A api kube_default probe = Inr p"
  obtains ps where "configured_providers L env H A api kube_default = Inr ps" and "ps \<noteq> []"
    and "sv_running p = map start_provider ps"
  using assms by (auto simp: startup_def bind_result_Inr_iff split: if_splits)

lemma step_providers: "server_step L H options s s' \<Longrightarrow> map rn_provider (sr_running s') = map rn_provider (sr_running s)"
proof (induction rule: server_step.induct)
  case (step_task k s i r w)
  then have "rn_provider r = rn_provider (sr_running s ! k)"
    by (auto simp: running_turn_def split: if_splits option.splits prod.splits task_turn.splits)
  then show ?case by (simp add: map_update_same)
next
  case (step_initial s r)
  then have "rn_provider r = rn_provider (sr_running s ! sr_awaiting s)"
    by (auto simp: initial_snapshot_def split: if_splits)
  then show ?case by (simp add: map_update_same)
next
  case (step_update s rs g)
  then show ?case by (auto simp: updater_round_def Let_def split: if_splits)
qed simp

lemma runs_providers: "server_runs L H options s s' \<Longrightarrow> map rn_provider (sr_running s') = map rn_provider (sr_running s)"
  by (induction rule: server_runs.induct) (auto dest: step_providers)

section \<open>What the registry is made of\<close>

text \<open>
  A snapshot that the task of provider \<open>k\<close> sent at some point of the run from \<open>s0\<close> to \<open>s\<close>: a turn of
  that task, in the state it was in, sends it.
\<close>

definition delivered ::
    "'z libs_scheme \<Rightarrow> 's host \<Rightarrow> redirect_options \<Rightarrow> 's server \<Rightarrow> 's server \<Rightarrow> nat \<Rightarrow> provider_snapshot \<Rightarrow> bool" where
  "delivered L H options s0 s k x \<longleftrightarrow>
     (\<exists>t i st w. server_runs L H options s0 t \<and> server_runs L H options t s \<and>
        task_turn_of L H (rn_provider (sr_running t ! k)) i (rn_task (sr_running t ! k)) (sr_world t) =
          Some (TaskGoesOn st (Some x), w))"

text \<open>What the channels hold, in the order of the providers.\<close>

definition channel_values :: "'s server \<Rightarrow> (string \<times> provider_snapshot) list" where
  "channel_values s = map (\<lambda>r. (provider_name (rn_provider r), rn_value r)) (sr_running s)"

definition registry_taken ::
    "'z libs_scheme \<Rightarrow> 's host \<Rightarrow> redirect_options \<Rightarrow> 's server \<Rightarrow> 's server \<Rightarrow> 's server \<Rightarrow> bool" where
  "registry_taken L H options s0 s' s \<longleftrightarrow>
     server_runs L H options s0 s' \<and> server_runs L H options s' s \<and>
     length (sr_running s') = length (sr_running s) \<and>
     (\<forall>k < length (sr_running s). delivered L H options s0 s' k (rn_value (sr_running s' ! k)) \<and>
        (\<not> rn_unseen (sr_running s ! k) \<longrightarrow> rn_value (sr_running s ! k) = rn_value (sr_running s' ! k))) \<and>
     resources (sr_registry s) = merge_ordered (channel_values s')"

definition channels_ok ::
    "'z libs_scheme \<Rightarrow> 's host \<Rightarrow> redirect_options \<Rightarrow> 's server \<Rightarrow> 's server \<Rightarrow> bool" where
  "channels_ok L H options s0 s \<longleftrightarrow>
     (\<forall>k < length (sr_running s). rn_unseen (sr_running s ! k) \<or> k < sr_awaiting s \<longrightarrow>
        delivered L H options s0 s k (rn_value (sr_running s ! k))) \<and>
     (sr_serving s \<longrightarrow> (\<exists>s'. registry_taken L H options s0 s' s))"

lemma delivered_later:
  "delivered L H options s0 s k x \<Longrightarrow> server_step L H options s s2 \<Longrightarrow> delivered L H options s0 s2 k x"
  unfolding delivered_def by (blast intro: runs_more)

lemma running_turn_value:
  assumes "running_turn L H i r w = Some (r', w')"
  shows "(rn_value r' = rn_value r \<and> rn_unseen r' = rn_unseen r) \<or>
    (\<exists>st. task_turn_of L H (rn_provider r) i (rn_task r) w = Some (TaskGoesOn st (Some (rn_value r')), w') \<and> rn_unseen r')"
  using assms by (auto simp: running_turn_def split: if_splits option.splits prod.splits task_turn.splits)

lemma registry_taken_now:
  assumes "server_runs L H options s0 s" and "resources (sr_registry s) = merge_ordered (channel_values s)"
    and "\<forall>k < length (sr_running s). delivered L H options s0 s k (rn_value (sr_running s ! k))"
  shows "registry_taken L H options s0 s s"
  using assms by (simp add: registry_taken_def runs_refl)

lemma registry_taken_later:
  assumes "registry_taken L H options s0 s' s" and "server_step L H options s s2"
    and "sr_registry s2 = sr_registry s" and "length (sr_running s2) = length (sr_running s)"
    and "\<forall>k < length (sr_running s). \<not> rn_unseen (sr_running s2 ! k) \<longrightarrow>
      \<not> rn_unseen (sr_running s ! k) \<and> rn_value (sr_running s2 ! k) = rn_value (sr_running s ! k)"
  shows "registry_taken L H options s0 s' s2"
  using assms unfolding registry_taken_def by (auto intro: runs_more)

lemma channels_step:
  assumes "server_step L H options s s2" and "channels_ok L H options s0 s" and "server_ok L names s"
    and "server_runs L H options s0 s"
  shows "channels_ok L H options s0 s2"
  using assms(1)
proof (cases rule: server_step.cases)
  case (step_task k i r w)
  note later = delivered_later [OF _ assms(1)]
  have held: "(rn_value r = rn_value (sr_running s ! k) \<and> rn_unseen r = rn_unseen (sr_running s ! k)) \<or>
      (rn_unseen r \<and> delivered L H options s0 s2 k (rn_value r))"
    using running_turn_value [OF step_task(3)] assms(4) runs_more [OF runs_refl assms(1)]
    unfolding delivered_def by blast
  have "delivered L H options s0 s2 j (rn_value (sr_running s2 ! j))"
    if "j < length (sr_running s2)" "rn_unseen (sr_running s2 ! j) \<or> j < sr_awaiting s2" for j
    using that step_task(1,2) held later assms(2)
    by (cases "j = k") (auto simp: channels_ok_def)
  moreover have "\<exists>s'. registry_taken L H options s0 s' s2" if "sr_serving s2"
  proof -
    from that assms(2) step_task(1) obtain s' where "registry_taken L H options s0 s' s" by (auto simp: channels_ok_def)
    moreover have "\<not> rn_unseen (sr_running s ! j) \<and> rn_value (sr_running s2 ! j) = rn_value (sr_running s ! j)"
      if "j < length (sr_running s)" "\<not> rn_unseen (sr_running s2 ! j)" for j
      using that step_task(1,2) held by (cases "j = k") auto
    ultimately show ?thesis using registry_taken_later [OF _ assms(1)] step_task(1) by auto
  qed
  ultimately show ?thesis by (simp add: channels_ok_def)
next
  case (step_initial r)
  have unseen: "rn_unseen (sr_running s ! sr_awaiting s)" "rn_value r = rn_value (sr_running s ! sr_awaiting s)"
    using step_initial(3) by (auto simp: initial_snapshot_def split: if_splits)
  have "\<not> sr_serving s" using assms(3) step_initial(2) by (auto simp: server_ok_def)
  with step_initial(1,2) unseen assms(2) delivered_later [OF _ assms(1)] show ?thesis
    by (auto simp: channels_ok_def nth_list_update less_Suc_eq)
next
  case (step_serve g)
  have now: "\<forall>k < length (sr_running s2). delivered L H options s0 s2 k (rn_value (sr_running s2 ! k))"
    using step_serve(1,3) assms(2) delivered_later [OF _ assms(1)] by (auto simp: channels_ok_def)
  moreover have "resources (sr_registry s2) = merge_ordered (channel_values s2)"
    using step_serve(1,4) by (simp add: replace_registry_def registry_replace_def channel_values_def)
  ultimately show ?thesis
    using registry_taken_now [OF runs_more [OF assms(4,1)]] by (auto simp: channels_ok_def)
next
  case (step_update rs g)
  let ?f = "\<lambda>r. if \<not> rn_closed r \<and> rn_unseen r then r\<lparr>rn_unseen := False\<rparr> else r"
  have rs: "rs = map ?f (sr_running s)"
    and g: "if \<exists>r\<in>set (sr_running s). \<not> rn_closed r \<and> rn_unseen r then g = replace_registry rs (sr_registry s)
      else g = sr_registry s"
    using step_update(3) by (auto simp: updater_round_def Let_def split: if_splits)
  have held: "rn_value (sr_running s2 ! k) = rn_value (sr_running s ! k)" if "k < length (sr_running s)" for k
    using that step_update(1) by (simp add: rs)
  have now: "\<forall>k < length (sr_running s2). delivered L H options s0 s2 k (rn_value (sr_running s2 ! k))"
    using step_update(1,2) held assms(2,3) delivered_later [OF _ assms(1)]
    by (auto simp: channels_ok_def server_ok_def rs)
  have "\<exists>s'. registry_taken L H options s0 s' s2"
  proof (cases "\<exists>r\<in>set (sr_running s). \<not> rn_closed r \<and> rn_unseen r")
    case True
    with g step_update(1) have "resources (sr_registry s2) = merge_ordered (channel_values s2)"
      by (simp add: replace_registry_def registry_replace_def channel_values_def)
    with registry_taken_now [OF runs_more [OF assms(4,1)]] now show ?thesis by blast
  next
    case False
    then have same: "rs = sr_running s" unfolding rs by (intro map_idI) auto
    from step_update(2) assms(2) obtain s' where "registry_taken L H options s0 s' s" by (auto simp: channels_ok_def)
    from registry_taken_later [OF this assms(1)] False g same step_update(1) show ?thesis by auto
  qed
  with now show ?thesis by (simp add: channels_ok_def)
qed

lemma server_runs_channels:
  assumes "server_runs L H options s0 s" and "server_ok L names s0" and "channels_ok L H options s0 s0"
  shows "channels_ok L H options s0 s"
  using assms
proof (induction rule: server_runs.induct)
  case (runs_more s0 s1 s2)
  then show ?case using channels_step [OF runs_more(2) _ server_runs_ok [OF runs_more(1)]] by blast
qed

lemma server_starts_quiet:
  assumes "sv_running p = map start_provider ps"
  shows "server_ok L (map provider_name ps) (server_start p w)" "channels_ok L H options (server_start p w) (server_start p w)"
  using assms
  by (auto simp: server_ok_def server_start_def start_ok channels_ok_def) (simp_all add: start_provider_def)

text \<open>
  C22 Once the server serves, the registry is the ordered merge of what the providers' channels held at
  one earlier point of the run: for every provider a valid snapshot its task had sent, and the newest
  one it has sent unless that is still waiting for the updater. So a relay or an upstream that resolves is
  the one in the snapshot of the first provider that defines it, a relay that resolves is valid, and
  its upstream resolves to a valid upstream.
\<close>

theorem serving_registry_valid:
  assumes "startup L env H A api kube_default probe = Inr p"
    and "server_runs L H (sv_redirect p) (server_start p w) s" and "sr_serving s"
  shows "\<exists>s'. server_runs L H (sv_redirect p) (server_start p w) s' \<and> server_runs L H (sv_redirect p) s' s \<and>
    map rn_provider (sr_running s') = map rn_provider (sr_running s) \<and>
    (\<forall>k < length (sr_running s). let x = rn_value (sr_running s' ! k) in
       delivered L H (sv_redirect p) (server_start p w) s' k x \<and> is_ok (snapshot_validate L x) \<and>
       (\<not> rn_unseen (sr_running s ! k) \<longrightarrow> rn_value (sr_running s ! k) = x)) \<and>
    (\<forall>key. registry_relay (sr_registry s) key =
       Inr (first_with (\<lambda>x. map_of (snap_relays x)) (channel_values s') key)) \<and>
    (\<forall>key. registry_upstream (sr_registry s) key =
       Inr (first_with (\<lambda>x. map_of (snap_upstreams x)) (channel_values s') key)) \<and>
    (\<forall>key r. registry_relay (sr_registry s) key = Inr (Some r) \<longrightarrow> is_ok (relay_validate L r) \<and>
       (\<exists>u. registry_upstream (sr_registry s) (r_upstream r) = Inr (Some u) \<and> is_ok (upstream_validate u)))"
proof -
  from startup_running [OF assms(1)] obtain ps where ps: "sv_running p = map start_provider ps" by blast
  note quiet = server_starts_quiet [OF ps]
  from server_runs_channels [OF assms(2) quiet] assms(3) obtain s' where
    taken: "registry_taken L H (sv_redirect p) (server_start p w) s' s" by (auto simp: channels_ok_def)
  have runs: "server_runs L H (sv_redirect p) (server_start p w) s'" "server_runs L H (sv_redirect p) s' s"
    using taken by (simp_all add: registry_taken_def)
  have ok: "server_ok L (map provider_name ps) s'" using server_runs_ok [OF runs(1) quiet(1)] .
  have valid: "\<forall>(q, x)\<in>set (channel_values s'). is_ok (snapshot_validate L x)"
    using ok by (auto simp: channel_values_def server_ok_def running_ok_def good_snapshot_def)
  have registry: "sr_registry s = registry_replace (merge_ordered (channel_values s')) (sr_registry s)"
    using taken by (simp add: registry_taken_def registry_replace_def)
  have "registry_relay (sr_registry s) key = Inr (first_with (\<lambda>x. map_of (snap_relays x)) (channel_values s') key)"
    "registry_upstream (sr_registry s) key = Inr (first_with (\<lambda>x. map_of (snap_upstreams x)) (channel_values s') key)" for key
    using taken by (simp_all add: registry_relay_def registry_upstream_def registry_taken_def merge_lookup)
  moreover have "is_ok (snapshot_validate L (rn_value (sr_running s' ! k)))" if "k < length (sr_running s)" for k
    using that ok taken by (auto simp: registry_taken_def server_ok_def running_ok_def good_snapshot_def)
  moreover have "map rn_provider (sr_running s') = map rn_provider (sr_running s)" using runs_providers [OF runs(2)] by simp
  moreover note registry_resolves [OF valid registry] taken runs
  ultimately show ?thesis unfolding registry_taken_def Let_def by (intro exI [of _ s']) blast
qed

text \<open>Serving starts with the redirect options checked.\<close>

lemma redirects_checked:
  assumes "server_step L H options s s'" and "\<not> sr_serving s" and "sr_serving s'"
  shows "check_redirect_options L (registry_snapshot (sr_registry s')) options = Inr ()"
  using assms by (cases rule: server_step.cases) auto

section \<open>Lambda\<close>

lemma reload_all_good:
  assumes "reload_all L H ps w = Some (ps', w')" and "\<forall>p\<in>set ps. good_snapshot L (lp_snapshot p)"
  shows "(\<forall>p\<in>set ps'. good_snapshot L (lp_snapshot p)) \<and> map lp_provider ps' = map lp_provider ps"
  using assms
proof (induction ps arbitrary: w ps' w')
  case (Cons p ps)
  from Cons.prems(1) obtain r w1 ps1 where load: "provider_load L H (lp_provider p) w = Some (r, w1)"
    and rest: "reload_all L H ps w1 = Some (ps1, w')"
    and ps': "ps' = (case r of Inr s \<Rightarrow> p\<lparr>lp_snapshot := s\<rparr> | Inl _ \<Rightarrow> p) # ps1"
    by (auto split: option.splits prod.splits)
  have "good_snapshot L (lp_snapshot (hd ps')) \<and> lp_provider (hd ps') = lp_provider p"
    using Cons.prems(2) load ps' by (cases r) (auto simp: good_snapshot_def dest: provider_load_valid)
  with Cons.IH [OF rest] Cons.prems(2) ps' show ?case by simp
qed simp

text \<open>What holds of the refresher between requests.\<close>

definition refresher_ok :: "'z libs_scheme \<Rightarrow> string list \<Rightarrow> 's lambda_refresher \<Rightarrow> bool" where
  "refresher_ok L names f \<longleftrightarrow>
     (\<forall>p\<in>set (rf_providers f). good_snapshot L (lp_snapshot p)) \<and>
     map (provider_name \<circ> lp_provider) (rf_providers f) = names"

lemma refreshed:
  assumes "refresh_if_stale L H now now' f w = Some (f', w')" and "refresher_ok L names f"
  shows "refresher_ok L names f' \<and>
    (if rf_last_attempt f \<le> now \<and> now < rf_last_attempt f + rf_ttl f then f' = f \<and> w' = w
     else rf_last_attempt f' = now' \<and> merged_from L names (rf_registry f'))"
proof (cases "rf_last_attempt f \<le> now \<and> now - rf_last_attempt f < rf_ttl f")
  case True
  with assms show ?thesis by (auto simp: refresh_if_stale_def)
next
  case False
  with assms(1) obtain ps where ps: "reload_all L H (rf_providers f) w = Some (ps, w')"
    and f': "f' = f\<lparr>rf_last_attempt := now', rf_providers := ps,
        rf_registry := registry_replace
          (merge_ordered (map (\<lambda>p. (provider_name (lp_provider p), lp_snapshot p)) ps)) (rf_registry f)\<rparr>"
    by (auto simp: refresh_if_stale_def)
  have good: "(\<forall>p\<in>set ps. good_snapshot L (lp_snapshot p)) \<and> map lp_provider ps = map lp_provider (rf_providers f)"
    using reload_all_good [OF ps] assms(2) by (simp add: refresher_ok_def)
  then have names: "map (provider_name \<circ> lp_provider) ps = names"
    using assms(2) unfolding refresher_ok_def by (metis list.map_comp)
  then have "merged_from L names (rf_registry f')"
    unfolding merged_from_def f'
    using good by (intro exI [of _ "map (\<lambda>p. (provider_name (lp_provider p), lp_snapshot p)) ps"])
      (auto simp: registry_replace_def comp_def)
  moreover have "\<not> (rf_last_attempt f \<le> now \<and> now < rf_last_attempt f + rf_ttl f)" using False by linarith
  ultimately show ?thesis using good names f' by (auto simp: refresher_ok_def)
qed

text \<open>
  The loads happen one after the other, each in the state the one before left, whether or not that
  one succeeded: \<open>ws\<close> are the states between them.
\<close>

definition loads_in_turn ::
    "'z libs_scheme \<Rightarrow> 's host \<Rightarrow> 's lambda_provider list \<Rightarrow> 's list \<Rightarrow> (errors + provider_snapshot) list \<Rightarrow> bool" where
  "loads_in_turn L H ps ws rs \<longleftrightarrow>
     length ws = Suc (length ps) \<and> length rs = length ps \<and>
     (\<forall>k < length ps. provider_load L H (lp_provider (ps ! k)) (ws ! k) = Some (rs ! k, ws ! Suc k))"

lemma reload_all_turns:
  assumes "reload_all L H ps w = Some (ps', w')"
  shows "\<exists>ws rs. loads_in_turn L H ps ws rs \<and> hd ws = w \<and> last ws = w' \<and>
    ps' = map2 (\<lambda>p r. case r of Inr s \<Rightarrow> p\<lparr>lp_snapshot := s\<rparr> | Inl _ \<Rightarrow> p) ps rs"
  using assms
proof (induction ps arbitrary: w ps' w')
  case Nil
  then show ?case by (intro exI [of _ "[w]"] exI [of _ "[]"]) (simp add: loads_in_turn_def)
next
  case (Cons p ps)
  from Cons.prems obtain r w1 ps1 where load: "provider_load L H (lp_provider p) w = Some (r, w1)"
    and rest: "reload_all L H ps w1 = Some (ps1, w')"
    and ps': "ps' = (case r of Inr s \<Rightarrow> p\<lparr>lp_snapshot := s\<rparr> | Inl _ \<Rightarrow> p) # ps1"
    by (auto split: option.splits prod.splits)
  from Cons.IH [OF rest] obtain ws rs where turns: "loads_in_turn L H ps ws rs" "hd ws = w1" "last ws = w'"
    and ps1: "ps1 = map2 (\<lambda>p r. case r of Inr s \<Rightarrow> p\<lparr>lp_snapshot := s\<rparr> | Inl _ \<Rightarrow> p) ps rs" by blast
  then obtain w2 ws' where ws: "ws = w2 # ws'" by (cases ws) (auto simp: loads_in_turn_def)
  have "loads_in_turn L H (p # ps) (w # ws) (r # rs)"
    using turns(1,2) load unfolding ws by (auto simp: loads_in_turn_def nth_Cons split: nat.splits)
  then show ?case
    using turns(3) ws ps' ps1 by (intro exI [of _ "w # ws"] exI [of _ "r # rs"]) simp
qed

text \<open>
  C24 A refresh on Lambda within the time to live changes nothing. Otherwise every provider is loaded
  once, in order; each keeps the fresh snapshot if its load succeeded and the one it had if the load
  failed, and all are valid. The registry becomes the ordered merge of exactly these: a relay or an
  upstream that resolves is the one of the first provider whose snapshot defines it, a relay that
  resolves is valid, and its upstream resolves to a valid upstream.
\<close>

theorem lambda_refresh_keeps_valid:
  assumes "refresh_if_stale L H now now' f w = Some (f', w')"
    and "\<forall>p\<in>set (rf_providers f). good_snapshot L (lp_snapshot p)"
  shows "if rf_last_attempt f \<le> now \<and> now < rf_last_attempt f + rf_ttl f then f' = f \<and> w' = w
    else rf_last_attempt f' = now' \<and> rf_ttl f' = rf_ttl f \<and>
      map lp_provider (rf_providers f') = map lp_provider (rf_providers f) \<and>
      (\<forall>p\<in>set (rf_providers f'). good_snapshot L (lp_snapshot p)) \<and>
      (\<exists>ws rs. loads_in_turn L H (rf_providers f) ws rs \<and> hd ws = w \<and> last ws = w' \<and>
         (\<forall>k < length (rf_providers f).
            (\<forall>s. rs ! k = Inr s \<longrightarrow> lp_snapshot (rf_providers f' ! k) = s) \<and>
            (\<forall>e. rs ! k = Inl e \<longrightarrow> lp_snapshot (rf_providers f' ! k) = lp_snapshot (rf_providers f ! k)))) \<and>
      (let snaps = map (\<lambda>p. (provider_name (lp_provider p), lp_snapshot p)) (rf_providers f') in
         (\<forall>key. registry_relay (rf_registry f') key = Inr (first_with (\<lambda>x. map_of (snap_relays x)) snaps key)) \<and>
         (\<forall>key. registry_upstream (rf_registry f') key = Inr (first_with (\<lambda>x. map_of (snap_upstreams x)) snaps key))) \<and>
      (\<forall>key r. registry_relay (rf_registry f') key = Inr (Some r) \<longrightarrow> is_ok (relay_validate L r) \<and>
         (\<exists>u. registry_upstream (rf_registry f') (r_upstream r) = Inr (Some u) \<and> is_ok (upstream_validate u)))"
proof (cases "rf_last_attempt f \<le> now \<and> now - rf_last_attempt f < rf_ttl f")
  case True
  with assms show ?thesis by (auto simp: refresh_if_stale_def)
next
  case False
  let ?snaps = "\<lambda>ps. map (\<lambda>p. (provider_name (lp_provider p), lp_snapshot p)) ps"
  from False assms(1) obtain ps where ps: "reload_all L H (rf_providers f) w = Some (ps, w')"
    and f': "f' = f\<lparr>rf_last_attempt := now', rf_providers := ps,
        rf_registry := registry_replace (merge_ordered (?snaps ps)) (rf_registry f)\<rparr>"
    by (auto simp: refresh_if_stale_def)
  note good = reload_all_good [OF ps assms(2)]
  from reload_all_turns [OF ps] obtain ws rs where turns: "loads_in_turn L H (rf_providers f) ws rs" "hd ws = w" "last ws = w'"
    and ps': "ps = map2 (\<lambda>p r. case r of Inr s \<Rightarrow> p\<lparr>lp_snapshot := s\<rparr> | Inl _ \<Rightarrow> p) (rf_providers f) rs" by blast
  then have "\<exists>ws rs. loads_in_turn L H (rf_providers f) ws rs \<and> hd ws = w \<and> last ws = w' \<and>
      (\<forall>k < length (rf_providers f). (\<forall>s. rs ! k = Inr s \<longrightarrow> lp_snapshot (rf_providers f' ! k) = s) \<and>
        (\<forall>e. rs ! k = Inl e \<longrightarrow> lp_snapshot (rf_providers f' ! k) = lp_snapshot (rf_providers f ! k)))"
    by (intro exI [of _ ws] exI [of _ rs]) (simp add: f' loads_in_turn_def)
  moreover have "is_ok (relay_validate L r) \<and>
      (\<exists>u. registry_upstream (rf_registry f') (r_upstream r) = Inr (Some u) \<and> is_ok (upstream_validate u))"
    if "registry_relay (rf_registry f') key = Inr (Some r)" for key r
    using registry_resolves [of "?snaps ps" L "rf_registry f'" "rf_registry f" key r] that good
    by (auto simp: f' good_snapshot_def)
  moreover have "\<not> (rf_last_attempt f \<le> now \<and> now < rf_last_attempt f + rf_ttl f)" using False by linarith
  ultimately show ?thesis
    using good by (auto simp: f' registry_relay_def registry_upstream_def registry_replace_def merge_lookup)
qed

section \<open>Configured values\<close>

text \<open>A configured duration is positive, a whole number of milliseconds, and no larger than \<open>u64\<close> of them.\<close>

lemma parse_duration_Inr:
  assumes "parse_duration name v = Inr d"
  shows "\<exists>ms. d = from_millis ms \<and> 0 < ms \<and> ms \<le> u64_max"
  using assms
  by (auto simp: parse_duration_def bind_result_Inr_iff checked_mul_def from_millis_def
      split: option.splits if_splits)

lemma parse_u64_decimal_iff: "parse_u64 (decimal n) = (if n \<le> u64_max then Some n else None)"
proof (cases "n \<le> u64_max")
  case False
  obtain c rest where d: "decimal n = c # rest" by (meson decimal_not_Nil list.exhaust)
  moreover from d have "digits_value (c # rest) = n" by (metis digits_value_decimal)
  ultimately show ?thesis
    using decimal_digits [of n] plus_not_digit False by (auto simp: parse_u64_def Let_def)
qed (simp add: parse_u64_decimal)

definition duration_units :: "(string \<times> nat) list" where
  "duration_units = [(''ms'', 1), (''s'', 1000), (''m'', 60000), (''h'', 3600000)]"

lemma strip_suffix_append [simp]: "strip_suffix p (s @ p) = Some s"
  by (simp add: strip_suffix_def)

lemma last_of_drop: "drop k l = p \<Longrightarrow> p \<noteq> [] \<Longrightarrow> last p = last l"
  by (metis drop_eq_Nil last_drop not_le)

lemma strip_suffix_other:
  assumes "p \<noteq> []" and "q \<noteq> []" and "last p \<noteq> last q"
  shows "strip_suffix p (s @ q) = None"
proof -
  have "drop k (s @ q) \<noteq> p" for k
    using last_of_drop [of k "s @ q" p] assms by auto
  then show ?thesis by (simp add: strip_suffix_def del: drop_append)
qed

lemma strip_ms: "is_ascii_digit c \<Longrightarrow> strip_suffix ''ms'' ((s @ [c]) @ ''s'') = None"
  by (auto simp: strip_suffix_def byte_class_defs)

lemma duration_unit_of:
  assumes "(unit_name, multiplier) \<in> set duration_units"
  shows "duration_unit (decimal n @ unit_name) = Some (decimal n, multiplier)"
proof -
  obtain s c where d: "decimal n = s @ [c]" by (metis decimal_not_Nil rev_exhaust)
  with decimal_digits [of n] have "is_ascii_digit c" by auto
  from strip_ms [OF this, of s] assms show ?thesis
    unfolding d [symmetric] duration_units_def
    by (auto simp: duration_unit_def strip_suffix_other simp del: append_assoc)
qed

text \<open>
  A number and a unit are read as that many units, when the product is positive and fits in \<open>u64\<close>
  milliseconds, and are refused otherwise.
\<close>

theorem durations_read:
  assumes "(unit_name, multiplier) \<in> set duration_units"
  shows "parse_duration name (decimal n @ unit_name) = Inr d \<longleftrightarrow>
    d = from_millis (n * multiplier) \<and> 0 < n * multiplier \<and> n * multiplier \<le> u64_max"
proof -
  have "1 \<le> multiplier" using assms by (auto simp: duration_units_def)
  then have "\<not> n \<le> u64_max \<Longrightarrow> \<not> n * multiplier \<le> u64_max"
    using mult_le_mono2 [of 1 multiplier n] by linarith
  then show ?thesis
    by (cases "n \<le> u64_max")
      (auto simp: parse_duration_def duration_unit_of [OF assms] parse_u64_decimal_iff ok_or_def checked_mul_def
        from_millis_def)
qed

lemma parse_store_config_Inr:
  assumes "parse_store_config (store_env_of env) = Inr config"
  shows "case config of
      ConfigMemory \<Rightarrow> (env ''OAUTHRELAY_STORE'' = None \<or> env ''OAUTHRELAY_STORE'' = Some ''memory'') \<and>
        env ''OAUTHRELAY_STORE_DYNAMODB_TABLE'' = None \<and> env ''OAUTHRELAY_STORE_KUBERNETES_RESOURCE'' = None \<and>
        env ''OAUTHRELAY_STORE_KUBERNETES_NAMESPACE'' = None \<and> env ''OAUTHRELAY_STORE_KUBERNETES_SWEEP'' = None
    | ConfigDynamoDb table \<Rightarrow> env ''OAUTHRELAY_STORE'' = Some ''dynamodb'' \<and>
        env ''OAUTHRELAY_STORE_DYNAMODB_TABLE'' = Some table \<and> valid_table_name table \<and>
        env ''OAUTHRELAY_STORE_KUBERNETES_RESOURCE'' = None \<and>
        env ''OAUTHRELAY_STORE_KUBERNETES_NAMESPACE'' = None \<and> env ''OAUTHRELAY_STORE_KUBERNETES_SWEEP'' = None
    | ConfigKubernetes resource namespace sweep \<Rightarrow> env ''OAUTHRELAY_STORE'' = Some ''kubernetes'' \<and>
        env ''OAUTHRELAY_STORE_DYNAMODB_TABLE'' = None \<and>
        resource = env ''OAUTHRELAY_STORE_KUBERNETES_RESOURCE'' \<and>
        namespace = env ''OAUTHRELAY_STORE_KUBERNETES_NAMESPACE'' \<and>
        (case env ''OAUTHRELAY_STORE_KUBERNETES_SWEEP'' of
           None \<Rightarrow> sweep = Some DEFAULT_KUBERNETES_SWEEP
         | Some v \<Rightarrow> if v = ''off'' then sweep = None
             else \<exists>d. sweep = Some d \<and> 0 < d \<and> parse_duration ''OAUTHRELAY_STORE_KUBERNETES_SWEEP'' v = Inr d)"
proof -
  have positive: "0 < d" if "parse_duration name v = Inr d" for name v d
    using parse_duration_Inr [OF that] by (auto simp: from_millis_def)
  show ?thesis
    using assms
    by (auto simp: parse_store_config_def store_env_of_def kubernetes_settings_def bind_result_Inr_iff positive
        split: if_splits option.splits)
qed

lemma mapping_chosen:
  "kubernetes_mapping resource = Inr m \<Longrightarrow>
     (case resource of None \<Rightarrow> m = TransientRecord | Some name \<Rightarrow> resource_name m = name)"
  by (auto simp: kubernetes_mapping_def from_resource_name_def find_Some_iff split: option.splits)

lemma namespace_chosen:
  assumes "kubernetes_store_namespace m explicit provider dflt = Inr ns"
  shows "(case explicit of
      Some n \<Rightarrow> ns = n
    | None \<Rightarrow> m \<noteq> DexAuthCode \<and> (case provider of Some n \<Rightarrow> ns = n | None \<Rightarrow> ns = dflt)) \<and>
    is_ok (select_namespace (Some ns) [])"
  using assms
  by (auto simp: kubernetes_store_namespace_def select_namespace_def Let_def split: if_splits option.splits)

lemma provider_enabled:
  "bool_env env name False = Inr enabled \<Longrightarrow> enabled \<longleftrightarrow> env name = Some ''true''"
  by (auto simp: bool_env_def parse_bool_def split: option.splits if_splits)

text \<open>
  C31 The transient store that is configured uses every setting that is given: a setting of a backend
  that is not chosen stops the startup, the table, the record type and the sweep interval are
  the ones set, or their defaults, and the records go to the namespace that is set, or to the one the
  Kubernetes provider watches, or to the default of the cluster configuration; those of Dex only to one
  that is set. The Kubernetes store is never chosen on Lambda, and its probe has passed.
\<close>

theorem configured_store_sound:
  assumes "configured_store env kube_default probe = Inr plan"
  shows "case plan of
      PlanMemory \<Rightarrow> (env ''OAUTHRELAY_STORE'' = None \<or> env ''OAUTHRELAY_STORE'' = Some ''memory'') \<and>
        env ''OAUTHRELAY_STORE_DYNAMODB_TABLE'' = None \<and> env ''OAUTHRELAY_STORE_KUBERNETES_RESOURCE'' = None \<and>
        env ''OAUTHRELAY_STORE_KUBERNETES_NAMESPACE'' = None \<and> env ''OAUTHRELAY_STORE_KUBERNETES_SWEEP'' = None
    | PlanDynamoDb table \<Rightarrow> env ''OAUTHRELAY_STORE'' = Some ''dynamodb'' \<and>
        env ''OAUTHRELAY_STORE_DYNAMODB_TABLE'' = Some table \<and> valid_table_name table \<and>
        env ''OAUTHRELAY_STORE_KUBERNETES_RESOURCE'' = None \<and>
        env ''OAUTHRELAY_STORE_KUBERNETES_NAMESPACE'' = None \<and> env ''OAUTHRELAY_STORE_KUBERNETES_SWEEP'' = None
    | PlanKubernetes m ns sweep \<Rightarrow> env ''OAUTHRELAY_STORE'' = Some ''kubernetes'' \<and>
        env ''OAUTHRELAY_STORE_DYNAMODB_TABLE'' = None \<and> \<not> is_lambda_runtime env \<and> probe m ns = Inr () \<and>
        (case env ''OAUTHRELAY_STORE_KUBERNETES_RESOURCE'' of
           None \<Rightarrow> m = TransientRecord
         | Some name \<Rightarrow> resource_name m = name) \<and>
        (case env ''OAUTHRELAY_STORE_KUBERNETES_NAMESPACE'' of
           Some n \<Rightarrow> ns = n
         | None \<Rightarrow> m \<noteq> DexAuthCode \<and>
             (case env ''OAUTHRELAY_PROVIDER_KUBERNETES_NAMESPACE'' of
                Some n \<Rightarrow> if env ''OAUTHRELAY_PROVIDER_KUBERNETES'' = Some ''true'' then ns = n else kube_default = Inr ns
              | None \<Rightarrow> kube_default = Inr ns)) \<and>
        is_ok (select_namespace (Some ns) []) \<and>
        (case env ''OAUTHRELAY_STORE_KUBERNETES_SWEEP'' of
           None \<Rightarrow> sweep = Some DEFAULT_KUBERNETES_SWEEP
         | Some v \<Rightarrow> if v = ''off'' then sweep = None
             else \<exists>d. sweep = Some d \<and> 0 < d \<and> parse_duration ''OAUTHRELAY_STORE_KUBERNETES_SWEEP'' v = Inr d)"
proof -
  from assms obtain config where config: "parse_store_config (store_env_of env) = Inr config"
    and lambda: "reject_kubernetes_on_lambda config (is_lambda_runtime env) = Inr ()"
    and plan: "(case config of
       ConfigMemory \<Rightarrow> Inr PlanMemory
     | ConfigDynamoDb table \<Rightarrow> Inr (PlanDynamoDb table)
     | ConfigKubernetes resource namespace sweep \<Rightarrow>
         bind_result (kubernetes_mapping resource) (\<lambda>m.
         bind_result kube_default (\<lambda>dflt.
         bind_result (bool_env env ''OAUTHRELAY_PROVIDER_KUBERNETES'' False) (\<lambda>enabled.
         bind_result (kubernetes_store_namespace m namespace
            (if enabled then env ''OAUTHRELAY_PROVIDER_KUBERNETES_NAMESPACE'' else None) dflt) (\<lambda>ns.
         bind_result (probe m ns) (\<lambda>_. Inr (PlanKubernetes m ns sweep))))))) = Inr plan"
    unfolding configured_store_def bind_result_Inr_iff by auto
  note settings = parse_store_config_Inr [OF config]
  show ?thesis
  proof (cases config)
    case ConfigMemory
    with settings plan show ?thesis by simp
  next
    case (ConfigDynamoDb table)
    with settings plan show ?thesis by auto
  next
    case (ConfigKubernetes resource namespace sweep)
    from lambda have "\<not> is_lambda_runtime env" by (auto simp: ConfigKubernetes split: if_splits)
    moreover from plan obtain m ns dflt enabled where chosen: "plan = PlanKubernetes m ns sweep" "probe m ns = Inr ()"
      "kubernetes_mapping resource = Inr m" "kube_default = Inr dflt"
      "bool_env env ''OAUTHRELAY_PROVIDER_KUBERNETES'' False = Inr enabled"
      "kubernetes_store_namespace m namespace
        (if enabled then env ''OAUTHRELAY_PROVIDER_KUBERNETES_NAMESPACE'' else None) dflt = Inr ns"
      by (auto simp: ConfigKubernetes bind_result_Inr_iff)
    ultimately show ?thesis
      using settings mapping_chosen [OF chosen(3)] provider_enabled [OF chosen(5)] namespace_chosen [OF chosen(6)]
      unfolding chosen(1) by (cases enabled) (auto simp: ConfigKubernetes chosen(2,4) split: option.splits)
  qed
qed

end
