(* ===== verification/Config_Examples.thy ===== *)
theory Config_Examples
  imports Server_Safety Contracts
begin

text \<open>
  The server on a concrete configuration: a file with one upstream and one relay, whose secret
  comes from the environment, served from the first snapshot on; the Lambda refresher over it;
  stores and durations read from the environment.
\<close>

section \<open>A file of two documents\<close>

definition demo_upstream_doc :: "string option \<Rightarrow> upstream_resource" where
  "demo_upstream_doc ns =
     \<lparr>ur_api_version = V1Alpha1, ur_metadata = \<lparr>meta_namespace = ns, meta_name = ''idp''\<rparr>,
      ur_spec = \<lparr>us_issuer_url = ''https://app.example/idp'',
        us_endpoints = \<lparr>ep_authorization = None, ep_token = None, ep_jwks = None\<rparr>,
        us_oauth_client = \<lparr>oc_client_id = ''relay'', oc_client_secret = SecretFrom (Env ''SECRET''),
          oc_auth_method = SpecClientSecretBasic\<rparr>\<rparr>\<rparr>"

definition demo_relay_doc :: "string option \<Rightarrow> relay_resource" where
  "demo_relay_doc ns =
     \<lparr>rr_api_version = V1Alpha1, rr_metadata = \<lparr>meta_namespace = ns, meta_name = ''app''\<rparr>,
      rr_spec = \<lparr>rr_upstream_ref = ''idp'',
        rr_scopes = \<lparr>sp_default = [''openid''], sp_allowed = Some [''openid'', ''email'']\<rparr>,
        rr_required_claims = [], rr_id_token_policy = None,
        rr_refresh_tokens = \<lparr>rs_mode = SpecRotating, rs_grace = None, rs_lifetime = None\<rparr>,
        rr_client_authentication = AuthPublic, rr_redirect_policy = [UriEntry ''https://app.example/cb'']\<rparr>\<rparr>"

definition idp_upstream :: upstream where
  "idp_upstream =
     \<lparr>u_key = ''idp'', issuer_url = demo_url ''https://app.example/idp'', authorization_endpoint = None,
      token_endpoint = None, jwks_uri = None, client_id = ''relay'', client_secret = ''secret'',
      token_endpoint_auth_method = ClientSecretBasic\<rparr>"

definition demo_snapshot :: provider_snapshot where
  "demo_snapshot = \<lparr>snap_upstreams = [(''idp'', idp_upstream)], snap_relays = [(''app'', demo_relay)]\<rparr>"

definition demo_system :: "unit system" where
  "demo_system = \<lparr>env_var = (\<lambda>n w. (Inr ''secret'', w)), read_to_string = (\<lambda>p w. (Inr ''documents'', w))\<rparr>"

lemma idp_valid: "upstream_validate idp_upstream = Inr ()"
  by (simp add: upstream_validate_def upstream_urls_def idp_upstream_def demo_url_def absolute_http_def
      when_err_def)

lemma demo_url_parses: "url_parse demo_libs ''https://app.example/idp'' = Some (demo_url ''https://app.example/idp'')"
  by (simp add: demo_libs_def starts_with_def)

lemma demo_keys:
  "cfg_resource_key kind ''idp'' = Inr ''idp''" "cfg_resource_key kind ''app'' = Inr ''app''"
  by (simp_all add: cfg_resource_key_Inr single_segment_key_def resource_key_segments key_segment_def
      key_byte_def byte_class_defs)

lemma demo_upstream_compiles:
  "resolve_secret R (SecretFrom (Env ''SECRET'')) s = (Inr ''secret'', s') \<Longrightarrow>
    compile_upstream demo_libs R (demo_upstream_doc ns) [] s = (Inr [(''idp'', idp_upstream)], s')"
  using idp_valid
  by (simp add: compile_upstream_def demo_upstream_doc_def demo_keys comp_bind_def comp_lift_def
      comp_context_def with_context_def cfg_parse_url_def parse_optional_url_def demo_url_parses ok_or_def
      absolute_http_def demo_url_def idp_upstream_def msg_def)

lemma demo_relay_compiles:
  "compile_relay demo_libs R (demo_relay_doc ns) [] s = (Inr [(''app'', demo_relay)], s)"
proof -
  have rt: "compile_refresh_tokens \<lparr>rs_mode = SpecRotating, rs_grace = None, rs_lifetime = None\<rparr> =
      Inr (refresh_tokens_default\<lparr>mode := Rotating\<rparr>)"
    by (simp add: compile_refresh_tokens_def Let_def msg_def refresh_tokens_validate_def refresh_tokens_default_def
        DEFAULT_GRACE_PERIOD_SECONDS_def MAX_GRACE_PERIOD_SECONDS_def DEFAULT_MAX_LIFETIME_SECONDS_def
        MAX_MAX_LIFETIME_SECONDS_def)
  have redirects: "compile_redirects demo_libs key [UriEntry ''https://app.example/cb''] = Inr [Uri ''https://app.example/cb'']" for key
    using demo_exact_uri [of demo_libs] by (auto simp: compile_redirects_def matcher_uri_def msg_def is_ok_iff with_context_def)
  from demo_relay_valid [OF refl] obtain u where "relay_validate demo_libs demo_relay = Inr u"
    by (auto simp: is_ok_iff)
  then show ?thesis
    by (simp add: compile_relay_def demo_relay_doc_def demo_keys comp_bind_def comp_lift_def rt redirects
        with_context_def msg_def demo_relay_def)
qed

lemma demo_snapshot_valid: "snapshot_validate demo_libs demo_snapshot = Inr ()"
  using demo_relay_valid [OF refl]
  by (auto simp: snapshot_validate_def demo_snapshot_def idp_valid context_error_def is_ok_iff demo_relay_def
      contains_key_def when_err_def)

lemma demo_documents_compile:
  assumes "\<And>w. resolve_source R (Env ''SECRET'') w = (Inr ''secret'', w)"
  shows "compile_resources demo_libs R [UpstreamDoc (demo_upstream_doc ns), RelayDoc (demo_relay_doc ns)] w = (Inr demo_snapshot, w)"
proof -
  have split: "split_documents [] [UpstreamDoc (demo_upstream_doc ns), RelayDoc (demo_relay_doc ns)] =
      Inr ([(demo_upstream_doc ns)], [(demo_relay_doc ns)])"
    by (simp add: demo_upstream_doc_def demo_relay_doc_def)
  have "resolve_secret R (SecretFrom (Env ''SECRET'')) ([], w) = (Inr ''secret'', [(Env ''SECRET'', ''secret'')], w)"
    by (simp add: resolve_secret_def assms)
  from demo_upstream_compiles [OF this] show ?thesis
    using demo_snapshot_valid
    by (simp add: compile_resources_def split comp_bind_def comp_lift_def demo_relay_compiles msg_def demo_snapshot_def)
qed

section \<open>The server over the file\<close>

definition demo_host :: "unit host" where
  "demo_host =
     \<lparr>ho_system = demo_system,
      ho_yaml_documents = (\<lambda>t. [Inr (UpstreamDoc (demo_upstream_doc None)), Inr (RelayDoc (demo_relay_doc None))]),
      ho_yaml_document = (\<lambda>t. Inr (RelayDoc (demo_relay_doc None))), ho_parent = (\<lambda>p. Some ''/etc''),
      ho_naming = \<lparr>nm_upstream = (\<lambda>u. []), nm_relay = (\<lambda>r. []), nm_secret = (\<lambda>s. [])\<rparr>, ho_late = (\<lambda>w. (False, False))\<rparr>"

definition demo_aws :: "unit aws_sdk" where
  "demo_aws =
     \<lparr>sdk_by_path = (\<lambda>p t w. (Inl [''no AWS''], w)), sdk_parameter = (\<lambda>n w. (Inl (SdkError [''no AWS'']), w)),
      sdk_secret = (\<lambda>n w. (Inl [''no AWS''], w))\<rparr>"

definition demo_kube_api :: "unit kube_api" where
  "demo_kube_api =
     \<lparr>api_secret = (\<lambda>n w. (Inr None, w)), api_upstreams = (\<lambda>t w. (Inr ([], None), w)),
      api_relays = (\<lambda>t w. (Inr ([], None), w))\<rparr>"

definition demo_env :: env where
  "demo_env = map_of
     [(''OAUTHRELAY_PUBLIC_URL'', ''https://app.example/''), (''OAUTHRELAY_SEAL_KEY'', ''base64:'' @ replicate 32 (CHR ''k'')),
      (''OAUTHRELAY_PROVIDER_FILE'', ''/etc/relay.yaml''), (''OAUTHRELAY_PROVIDER_FILE_POLL'', ''5s'')]"

definition demo_file :: "unit file_provider" where
  "demo_file =
     \<lparr>fp_path = ''/etc/relay.yaml'', fp_poll = from_millis 5000, fp_local = system_local_secrets demo_system,
      fp_aws = Some (lazy_aws_secrets demo_libs demo_aws)\<rparr>"

definition demo_plan :: "unit server_plan" where
  "demo_plan =
     \<lparr>sv_public_url = demo_url ''https://app.example/'', sv_sealer = demo_sealer, sv_store = PlanMemory,
      sv_redirect = demo_options, sv_running = [start_provider (FileP demo_file)]\<rparr>"

lemma demo_env_lookup:
  "demo_env ''OAUTHRELAY_PUBLIC_URL'' = Some ''https://app.example/''"
  "demo_env ''OAUTHRELAY_SEAL_KEY'' = Some (''base64:'' @ replicate 32 (CHR ''k''))"
  "demo_env ''OAUTHRELAY_SEAL_KEY_PREVIOUS'' = None" "demo_env ''OAUTHRELAY_PROVIDER_FILE'' = Some ''/etc/relay.yaml''"
  "demo_env ''OAUTHRELAY_PROVIDER_FILE_POLL'' = Some ''5s''" "demo_env ''OAUTHRELAY_PROVIDER_SSM_PREFIX'' = None"
  "demo_env ''OAUTHRELAY_PROVIDER_KUBERNETES'' = None" "demo_env ''OAUTHRELAY_STORE'' = None"
  "demo_env ''OAUTHRELAY_STORE_DYNAMODB_TABLE'' = None" "demo_env ''OAUTHRELAY_STORE_KUBERNETES_RESOURCE'' = None"
  "demo_env ''OAUTHRELAY_STORE_KUBERNETES_NAMESPACE'' = None" "demo_env ''OAUTHRELAY_STORE_KUBERNETES_SWEEP'' = None"
  "demo_env ''AWS_LAMBDA_RUNTIME_API'' = None" "demo_env ''OAUTHRELAY_ALLOW_LOCALHOST_LOOPBACK'' = None"
  "demo_env ''OAUTHRELAY_ALLOW_HTTP_ORIGINS'' = None"
  by (simp_all add: demo_env_def)

lemma five_seconds: "parse_duration name ''5s'' = Inr (from_millis 5000)"
proof -
  have "decimal 5 = ''5''" by code_simp
  then show ?thesis
    using durations_read [of "''s''" 1000 name 5 "from_millis 5000"] by (simp add: duration_units_def u64_max_def)
qed

lemma demo_startup:
  "startup demo_libs demo_env demo_host demo_aws demo_kube_api (Inl [''no cluster'']) (\<lambda>m ns. Inr ()) = Inr demo_plan"
proof -
  have "configured_providers demo_libs demo_env demo_host demo_aws demo_kube_api (Inl [''no cluster'']) = Inr [FileP demo_file]"
    by (simp add: configured_providers_def configured_file_def configured_ssm_def configured_kubernetes_def
        demo_env_lookup duration_env_def five_seconds file_new_def bool_env_def demo_host_def demo_file_def
        from_millis_def)
  moreover have "configured_store demo_env (Inl [''no cluster'']) (\<lambda>m ns. Inr ()) = Inr PlanMemory"
    by (simp add: configured_store_def parse_store_config_def store_env_of_def demo_env_lookup kubernetes_settings_def)
  moreover have "required_url demo_libs demo_env ''OAUTHRELAY_PUBLIC_URL'' = Inr (demo_url ''https://app.example/'')"
    by (simp add: required_url_def demo_env_lookup ok_or_def demo_libs_def starts_with_def) (simp add: demo_url_def)
  moreover have "seal_key demo_libs demo_env ''OAUTHRELAY_SEAL_KEY'' True = Inr (Some (replicate 32 (CHR ''k'')))"
    by (simp add: seal_key_def demo_env_lookup ok_or_def demo_libs_def strip_prefix_def Let_def)
  moreover have "seal_key demo_libs demo_env ''OAUTHRELAY_SEAL_KEY_PREVIOUS'' False = Inr None"
    by (simp add: seal_key_def demo_env_lookup)
  moreover have "xchacha_new (replicate 32 (CHR ''k'')) None = Inr demo_sealer"
    by (simp add: xchacha_new_def demo_sealer_def)
  ultimately show ?thesis
    by (simp add: startup_def bool_env_def demo_env_lookup demo_plan_def demo_options_def)
qed

definition first_input :: task_input where
  "first_input = \<lparr>ti_receiver_open = True, ti_select = RefreshTick, ti_branch = CompileDeadline\<rparr>"

definition loaded_file :: "unit running" where
  "loaded_file =
     \<lparr>rn_provider = FileP demo_file, rn_task = Polling True, rn_value = demo_snapshot, rn_unseen = False, rn_closed = False\<rparr>"

lemma demo_secret:
  "resolve_source (standard_secrets
     \<lparr>base_directory = base, local_values = system_local_secrets demo_system, aws_values = aws, kubernetes_values = k\<rparr>)
     (Env ''SECRET'') v = (Inr ''secret'', v)"
  by (simp add: standard_secrets_def trimmed_def system_local_secrets_def in_context_def with_context_def demo_system_def
      trim_newlines_def)

lemma demo_file_loads: "provider_load demo_libs demo_host (FileP demo_file) w = Some (Inr demo_snapshot, w)"
  using demo_secret
  by (simp add: file_load_def demo_host_def demo_file_def demo_system_def in_context_def with_context_def
      parse_documents_def with_local_secrets_def with_aws_secrets_def standard_new_def demo_documents_compile)

lemma demo_serves:
  "server_runs demo_libs demo_host demo_options (server_start demo_plan ())
     \<lparr>sr_running = [loaded_file], sr_awaiting = 1, sr_registry = \<lparr>resources = demo_snapshot\<rparr>, sr_serving = True, sr_world = ()\<rparr>"
proof -
  let ?s = "\<lambda>r k. \<lparr>sr_running = [r], sr_awaiting = k, sr_registry = registry_default, sr_serving = False, sr_world = ()\<rparr>"
  have start: "server_start demo_plan () = ?s (start_provider (FileP demo_file)) 0"
    by (simp add: server_start_def demo_plan_def)
  have "running_turn demo_libs demo_host first_input (start_provider (FileP demo_file)) () =
      Some (loaded_file\<lparr>rn_unseen := True\<rparr>, ())"
    using demo_file_loads [of "()"]
    by (simp add: running_turn_def start_provider_def first_input_def file_poll_def loaded_file_def del: provider_load.simps)
  from step_task [where k = 0 and s = "server_start demo_plan ()" and L = demo_libs and H = demo_host and i = first_input
      and options = demo_options] this
  have 1: "server_step demo_libs demo_host demo_options (server_start demo_plan ()) (?s (loaded_file\<lparr>rn_unseen := True\<rparr>) 0)"
    by (simp add: start)
  have 2: "server_step demo_libs demo_host demo_options (?s (loaded_file\<lparr>rn_unseen := True\<rparr>) 0) (?s loaded_file 1)"
    using step_initial [of "?s (loaded_file\<lparr>rn_unseen := True\<rparr>) 0" loaded_file]
    by (simp add: initial_snapshot_def loaded_file_def)
  have merged: "replace_registry [loaded_file] registry_default = \<lparr>resources = demo_snapshot\<rparr>"
    by (simp add: replace_registry_def registry_replace_def registry_default_def merge_ordered_def merge_one_def
        snapshot_default_def demo_snapshot_def loaded_file_def contains_key_def)
  have "is_ok (relay_validate demo_libs demo_relay)" by (rule demo_relay_valid [OF refl])
  then have "check_redirect_options demo_libs demo_snapshot demo_options = Inr ()"
    by (auto simp: check_redirect_options_def sorted_keys_def demo_snapshot_def relay_validate_for_def is_ok_iff
        demo_relay_def demo_options_def)
  then have 3: "server_step demo_libs demo_host demo_options (?s loaded_file 1)
      \<lparr>sr_running = [loaded_file], sr_awaiting = 1, sr_registry = \<lparr>resources = demo_snapshot\<rparr>, sr_serving = True, sr_world = ()\<rparr>"
    using step_serve [where s = "?s loaded_file 1" and g = "\<lparr>resources = demo_snapshot\<rparr>"] by (simp add: merged registry_snapshot_def)
  from runs_more [OF runs_more [OF runs_more [OF runs_refl 1] 2] 3] show ?thesis .
qed

lemma serving_registry_valid_witness:
  "\<exists>s'. channel_values s' = [(''file'', demo_snapshot)] \<and>
    delivered demo_libs demo_host demo_options (server_start demo_plan ()) s' 0 demo_snapshot \<and>
    first_with (\<lambda>x. map_of (snap_relays x)) (channel_values s') ''app'' = Some demo_relay \<and>
    is_ok (relay_validate demo_libs demo_relay)"
proof -
  have options: "sv_redirect demo_plan = demo_options" by (simp add: demo_plan_def)
  from serving_registry_valid [OF demo_startup demo_serves [folded options], simplified, unfolded options] obtain s' where
    s': "map rn_provider (sr_running s') = [FileP demo_file]"
      "delivered demo_libs demo_host demo_options (server_start demo_plan ()) s' 0 (rn_value (sr_running s' ! 0))"
      "rn_value (sr_running s' ! 0) = demo_snapshot"
    and relay: "\<forall>key. registry_relay \<lparr>resources = demo_snapshot\<rparr> key =
        Inr (first_with (\<lambda>x. map_of (snap_relays x)) (channel_values s') key)"
      "\<forall>key r. registry_relay \<lparr>resources = demo_snapshot\<rparr> key = Inr (Some r) \<longrightarrow> is_ok (relay_validate demo_libs r)"
    by (elim exE conjE) (rule that, auto simp: loaded_file_def Let_def)
  from s'(1) obtain r where "sr_running s' = [r]" "rn_provider r = FileP demo_file" by auto
  with s'(3) have "channel_values s' = [(''file'', demo_snapshot)]" by (simp add: channel_values_def)
  moreover have "registry_relay \<lparr>resources = demo_snapshot\<rparr> ''app'' = Inr (Some demo_relay)"
    by (simp add: registry_relay_def demo_snapshot_def)
  ultimately show ?thesis using s' relay by (intro exI [of _ s']) auto
qed

section \<open>A refresh on Lambda\<close>

definition demo_refresher :: "unit lambda_refresher" where
  "demo_refresher = refresher_new registry_default [start_provider (FileP demo_file)] DEFAULT_LAMBDA_CONFIG_TTL 0"

lemma demo_refreshes:
  "refresh_if_stale demo_libs demo_host (from_secs 61) (from_secs 61) demo_refresher () =
     Some (demo_refresher\<lparr>rf_last_attempt := from_secs 61,
       rf_providers := [\<lparr>lp_provider = FileP demo_file, lp_snapshot = demo_snapshot\<rparr>],
       rf_registry := \<lparr>resources = demo_snapshot\<rparr>\<rparr>, ())"
  by (simp add: refresh_if_stale_def demo_refresher_def refresher_new_def start_provider_def demo_file_loads
      DEFAULT_LAMBDA_CONFIG_TTL_def from_secs_def registry_replace_def registry_default_def merge_ordered_def
      merge_one_def snapshot_default_def demo_snapshot_def contains_key_def del: provider_load.simps)

lemma lambda_refresh_keeps_valid_witness:
  "good_snapshot demo_libs demo_snapshot \<and>
    (\<exists>ws. loads_in_turn demo_libs demo_host (rf_providers demo_refresher) ws [Inr demo_snapshot]) \<and>
    is_ok (relay_validate demo_libs demo_relay)"
proof -
  have good: "\<forall>p\<in>set (rf_providers demo_refresher). good_snapshot demo_libs (lp_snapshot p)"
    by (simp add: demo_refresher_def refresher_new_def start_provider_def)
  have stale: "\<not> from_secs 61 < rf_last_attempt demo_refresher + rf_ttl demo_refresher"
    by (simp add: demo_refresher_def refresher_new_def DEFAULT_LAMBDA_CONFIG_TTL_def from_secs_def)
  note holds = lambda_refresh_keeps_valid [OF demo_refreshes good]
  from holds stale obtain ws rs where "good_snapshot demo_libs demo_snapshot"
    and turns: "loads_in_turn demo_libs demo_host (rf_providers demo_refresher) ws rs"
    and relay: "\<forall>key r. registry_relay \<lparr>resources = demo_snapshot\<rparr> key = Inr (Some r) \<longrightarrow> is_ok (relay_validate demo_libs r)"
    by auto
  moreover from turns have "rs = [Inr demo_snapshot]"
    by (auto simp: loads_in_turn_def demo_refresher_def refresher_new_def start_provider_def demo_file_loads
        length_Suc_conv simp del: provider_load.simps)
  moreover have "registry_relay \<lparr>resources = demo_snapshot\<rparr> ''app'' = Inr (Some demo_relay)"
    by (simp add: registry_relay_def demo_snapshot_def)
  ultimately show ?thesis by blast
qed

section \<open>A store on Kubernetes\<close>

definition dex_env :: env where
  "dex_env = map_of
     [(''OAUTHRELAY_STORE'', ''kubernetes''), (''OAUTHRELAY_STORE_KUBERNETES_RESOURCE'', ''authcodes.dex.coreos.com''),
      (''OAUTHRELAY_STORE_KUBERNETES_NAMESPACE'', ''dex''), (''OAUTHRELAY_STORE_KUBERNETES_SWEEP'', ''off'')]"

lemma dex_store:
  "configured_store dex_env (Inr ''relay'') (\<lambda>m ns. Inr ()) = Inr (PlanKubernetes DexAuthCode ''dex'' None)"
  by (simp add: configured_store_def store_env_of_def dex_env_def parse_store_config_def is_lambda_runtime_def
      kubernetes_mapping_def from_resource_name_def ALL_MAPPINGS_def ok_or_def bool_env_def kubernetes_store_namespace_def
      select_namespace_def is_ascii_lowercase_def byte_class_defs)

lemma configured_store_sound_witness:
  "resource_name DexAuthCode = ''authcodes.dex.coreos.com'' \<and> dex_env ''OAUTHRELAY_STORE_KUBERNETES_NAMESPACE'' = Some ''dex'' \<and>
    dex_env ''OAUTHRELAY_STORE_KUBERNETES_SWEEP'' = Some ''off'' \<and> is_ok (select_namespace (Some ''dex'') [])"
  using configured_store_sound [OF dex_store] by (simp add: dex_env_def)

section \<open>The Kubernetes provider\<close>

definition watched_upstream :: kube_upstream where
  "watched_upstream = \<lparr>ob_namespace = Some ''relay'', ob_name = Some ''idp'', ob_uid = Some ''u-1'', ob_spec = ur_spec (demo_upstream_doc None)\<rparr>"

definition watched_relay :: kube_relay where
  "watched_relay = \<lparr>ob_namespace = Some ''relay'', ob_name = Some ''app'', ob_uid = Some ''u-2'', ob_spec = rr_spec (demo_relay_doc None)\<rparr>"

definition ready_run :: kube_run where
  "ready_run =
     \<lparr>kr_upstreams = \<lparr>ws_objects = [(''idp'', watched_upstream)], ws_staging = None, ws_initialized = True\<rparr>,
      kr_relays = \<lparr>ws_objects = [(''app'', watched_relay)], ws_staging = None, ws_initialized = True\<rparr>,
      kr_secrets = \<lparr>ws_objects = [], ws_staging = None, ws_initialized = True\<rparr>, kr_published = False\<rparr>"

definition demo_kube :: "unit kube_provider" where
  "demo_kube = \<lparr>kp_api = demo_kube_api, kp_namespace = ''relay'', kp_refresh = DEFAULT_REFRESH_INTERVAL, kp_aws = None\<rparr>"

definition generated_snapshot :: provider_snapshot where
  "generated_snapshot =
     \<lparr>snap_upstreams = [(''idp'', idp_upstream)], snap_relays = [(''app'', demo_relay\<lparr>generation := Some ''u-2''\<rparr>)]\<rparr>"

lemma demo_kube_publishes:
  "kube_turn_of demo_libs demo_system demo_kube (ho_naming demo_host) RefreshTick (Compiled False True) ready_run () =
     (KubeGoesOn (ready_run\<lparr>kr_published := True\<rparr>) (Some generated_snapshot), ())"
proof -
  have docs: "kube_documents ''relay'' [watched_upstream] [watched_relay] =
      Inr [UpstreamDoc (demo_upstream_doc (Some ''relay'')), RelayDoc (demo_relay_doc (Some ''relay''))]"
    by (simp add: kube_documents_def kube_metadata_def watched_upstream_def watched_relay_def ok_or_def
        demo_upstream_doc_def demo_relay_doc_def)
  have "relay_generations [watched_relay] = [(''app'', ''u-2'')]"
    by (simp add: relay_generations_def watched_relay_def)
  then have "kube_compile demo_libs demo_system demo_kube False [watched_upstream] [watched_relay] () =
      (Inr generated_snapshot, ())"
    using demo_secret
    by (simp add: kube_compile_def demo_kube_def docs with_kubernetes_secrets_def standard_new_def Let_def
        demo_documents_compile with_generations_def demo_snapshot_def generated_snapshot_def)
  then show ?thesis
    by (simp add: kube_turn_of_def kube_ready_def ready_run_def ws_ready_def kube_publish_def)
qed

lemma published_when_ready_witness:
  "kube_ready (ready_run\<lparr>kr_published := True\<rparr>) \<and>
    compiled_from demo_libs ''relay'' [watched_upstream] [watched_relay] generated_snapshot"
  using published_when_ready [OF demo_kube_publishes] by (simp add: demo_kube_def ready_run_def)

end
