(* ===== verification/Kube_Safety.thy ===== *)
theory Kube_Safety
  imports Kube_Store
begin

text \<open>
  The Kubernetes store against an API server that any number of clients use at once. The server is
  a map of objects with versions; a step of it performs one call, and a call that is not answered
  by its own success may or may not have had its effect: the response was lost, and the client
  library retried. Every write gives the object a version it never had. On every interleaving, a
  compare-and-swap or a creation that reports success took effect at one instant, on the record
  it claims to have replaced. The sweeper among such clients is in \<open>Kube_Sweep\<close>.
\<close>

section \<open>The API server\<close>

record kserver =
  objs :: "string \<rightharpoonup> stored"
  past :: "stored set"

text \<open>\<open>past\<close> holds every object state there has been; a version names one state of its object.\<close>

definition valid_server :: "kserver \<Rightarrow> bool" where
  "valid_server s \<longleftrightarrow>
     (\<forall>n r. objs s n = Some r \<longrightarrow> st_name r = n \<and> r \<in> past s) \<and>
     (\<forall>a\<in>past s. \<forall>b\<in>past s. st_name a = st_name b \<and> st_version a = st_version b \<longrightarrow> a = b)"

definition kwrite :: "new_record \<Rightarrow> kserver \<Rightarrow> kserver \<Rightarrow> bool" where
  "kwrite rec s s' \<longleftrightarrow>
     (\<exists>r. st_name r = nr_name rec \<and> st_value r = nr_value rec \<and> st_expires r = nr_expires rec \<and>
       (\<forall>old\<in>past s. st_name old = nr_name rec \<longrightarrow> st_version old \<noteq> st_version r) \<and>
       s' = s\<lparr>objs := (objs s)(nr_name rec \<mapsto> r), past := insert r (past s)\<rparr>)"

inductive kstep :: "kevent \<Rightarrow> kserver \<Rightarrow> kserver \<Rightarrow> bool" where
  step_now: "kstep (NowE t) s s"
| step_permits: "kstep (PermitsE verb a) s s"
| step_get: "kstep (GetE n (Inr (objs s n))) s s"
| step_get_fails: "kstep (GetE n (Inl e)) s s"
| step_list: "set (pg_items pg) \<subseteq> past s \<Longrightarrow> kstep (ListE sel lim tok (Inr pg)) s s"
| step_list_fails: "kstep (ListE sel lim tok (Inl e)) s s"
| step_create: "objs s (nr_name rec) = None \<Longrightarrow> kwrite rec s s' \<Longrightarrow> kstep (CreateE rec a) s s'"
| step_create_not: "a \<noteq> Inr Created \<Longrightarrow> kstep (CreateE rec a) s s"
| step_replace: "objs s (nr_name rec) = Some r \<Longrightarrow> st_version r = v \<Longrightarrow> kwrite rec s s' \<Longrightarrow>
    kstep (ReplaceE rec v a) s s'"
| step_replace_not: "a \<noteq> Inr Replaced \<Longrightarrow> kstep (ReplaceE rec v a) s s"
| step_delete: "(\<forall>v. ver = Some v \<longrightarrow> (\<exists>r. objs s n = Some r \<and> st_version r = v)) \<Longrightarrow>
    kstep (DeleteE n ver a) s (s\<lparr>objs := (objs s)(n := None)\<rparr>)"
| step_delete_not: "a \<noteq> Inr Deleted \<Longrightarrow> kstep (DeleteE n ver a) s s"

inductive_cases create_stepE: "kstep (CreateE rec a) s s'"
inductive_cases replace_stepE: "kstep (ReplaceE rec v a) s s'"
inductive_cases delete_stepE: "kstep (DeleteE n ver a) s s'"
inductive_cases get_stepE: "kstep (GetE n a) s s'"
inductive_cases list_stepE: "kstep (ListE sel lim tok a) s s'"

text \<open>
  An execution interleaves the calls of the clients: each entry holds the client, its call with
  the answer, and the server after it.
\<close>

type_synonym kentry = "nat \<times> kevent \<times> kserver"

fun kruns :: "kserver \<Rightarrow> kentry list \<Rightarrow> bool" where
  "kruns s [] \<longleftrightarrow> True"
| "kruns s ((i, e, s1) # tr) \<longleftrightarrow> kstep e s s1 \<and> kruns s1 tr"

fun after :: "kserver \<Rightarrow> kentry list \<Rightarrow> kserver" where
  "after s [] = s"
| "after s ((i, e, s1) # tr) = after s1 tr"

definition events_of :: "nat \<Rightarrow> kentry list \<Rightarrow> kevent list" where
  "events_of i tr = map (\<lambda>(j, e, s). e) (filter (\<lambda>(j, e, s). j = i) tr)"

lemma events_of_simps [simp]:
  "events_of i [] = []"
  "events_of i ((j, e, s) # tr) = (if j = i then [e] else []) @ events_of i tr"
  "events_of i (a @ b) = events_of i a @ events_of i b"
  by (simp_all add: events_of_def)

lemma after_append [simp]: "after s (a @ b) = after (after s a) b"
  by (induction s a rule: after.induct) auto

lemma kruns_append [simp]: "kruns s (a @ b) \<longleftrightarrow> kruns s a \<and> kruns (after s a) b"
  by (induction s a rule: kruns.induct) auto

text \<open>An event of a client, and what comes before and after it.\<close>

lemma event_splits:
  "events_of i tr = es1 @ e # es2 \<Longrightarrow>
     \<exists>pre s post. tr = pre @ (i, e, s) # post \<and> events_of i pre = es1 \<and> events_of i post = es2"
proof (induction tr arbitrary: es1)
  case (Cons x tr)
  obtain j f s where x: "x = (j, f, s)" by (cases x)
  show ?case
  proof (cases "j = i \<and> es1 = []")
    case True
    with Cons.prems x show ?thesis by (intro exI [of _ "[]"] exI [of _ s] exI [of _ tr]) auto
  next
    case False
    define es0 where "es0 = (if j = i then tl es1 else es1)"
    with False Cons.prems x have "events_of i tr = es0 @ e # es2" and "es1 = (if j = i then [f] else []) @ es0"
      by (cases es1; auto)+
    with Cons.IH obtain pre s' post where
      "tr = pre @ (i, e, s') # post" "events_of i pre = es0" "events_of i post = es2" by blast
    with x \<open>es1 = _\<close> show ?thesis by (intro exI [of _ "x # pre"] exI [of _ s'] exI [of _ post]) auto
  qed
qed simp

lemma event_in_splits:
  assumes "e \<in> set (events_of i tr)"
  obtains pre s post where "tr = pre @ (i, e, s) # post"
proof -
  from assms obtain xs ys where "events_of i tr = xs @ e # ys" by (meson split_list)
  from event_splits [OF this] that show thesis by blast
qed

section \<open>Versions name states\<close>

lemma kwrite_valid: "kwrite rec s s' \<Longrightarrow> valid_server s \<Longrightarrow> valid_server s' \<and> past s \<subseteq> past s'"
  unfolding kwrite_def valid_server_def by (fastforce split: if_splits)

lemma kstep_valid: "kstep e s s' \<Longrightarrow> valid_server s \<Longrightarrow> valid_server s' \<and> past s \<subseteq> past s'"
proof (induction rule: kstep.induct)
  case (step_delete ver s n a)
  then show ?case by (auto simp: valid_server_def split: if_splits)
qed (use kwrite_valid in auto)

lemma kruns_valid:
  "kruns s tr \<Longrightarrow> valid_server s \<Longrightarrow> valid_server (after s tr) \<and> past s \<subseteq> past (after s tr)"
proof (induction s tr rule: kruns.induct)
  case (2 s i e s1 tr)
  with kstep_valid [of e s s1] show ?case by auto
qed simp

lemma same_version_same_object:
  assumes "valid_server s" and "kruns s tr" and "objs (after s tr) n = Some r" and "st_version r = st_version old"
    and "old \<in> past s" and "st_name old = n"
  shows "r = old"
  using assms kruns_valid [OF assms(2,1)] by (auto simp: valid_server_def)

section \<open>Where a value came from\<close>

fun writes :: "string \<Rightarrow> bytes \<Rightarrow> kevent \<Rightarrow> bool" where
  "writes n v (CreateE rec a) \<longleftrightarrow> nr_name rec = n \<and> nr_value rec = v"
| "writes n v (ReplaceE rec ver a) \<longleftrightarrow> nr_name rec = n \<and> nr_value rec = v"
| "writes n v _ \<longleftrightarrow> False"

definition holds :: "kserver \<Rightarrow> string \<Rightarrow> bytes \<Rightarrow> bool" where
  "holds s n v \<longleftrightarrow> (\<exists>r. objs s n = Some r \<and> st_value r = v)"

lemma kstep_holds:
  assumes "kstep e s s'" and "holds s' n v" and "\<not> holds s n v"
  shows "writes n v e"
  using assms by (cases rule: kstep.cases) (auto simp: holds_def kwrite_def split: if_splits)

text \<open>A value that a name holds now and did not before was put there by one step.\<close>

lemma kruns_holds:
  assumes "kruns s tr" and "holds (after s tr) n v" and "\<not> holds s n v"
  obtains pre i e s2 post where "tr = pre @ (i, e, s2) # post" and "kstep e (after s pre) s2"
    and "writes n v e" and "\<not> holds (after s pre) n v" and "holds s2 n v"
  using assms
proof (induction s tr arbitrary: thesis rule: kruns.induct)
  case (2 s i e s1 tr)
  show ?case
  proof (cases "holds s1 n v")
    case True
    with 2 kstep_holds [of e s s1 n v] show ?thesis by (intro "2.prems"(1) [of "[]" i e s1 tr]) auto
  next
    case False
    with 2 obtain pre j f t post where
      "tr = pre @ (j, f, t) # post" "kstep f (after s1 pre) t" "writes n v f" "\<not> holds (after s1 pre) n v" "holds t n v"
      by (metis (no_types, lifting) after.simps(2) kruns.simps(2))
    then show ?thesis by (intro "2.prems"(1) [of "(i, e, s1) # pre" j f t post]) auto
  qed
qed simp

section \<open>Reading the programs' paths\<close>

text \<open>Every event of a path is justified by the ones before it.\<close>

fun guarded :: "(kevent set \<Rightarrow> kevent \<Rightarrow> bool) \<Rightarrow> kevent set \<Rightarrow> kevent list \<Rightarrow> bool" where
  "guarded G ctx [] \<longleftrightarrow> True"
| "guarded G ctx (e # es) \<longleftrightarrow> G ctx e \<and> guarded G (insert e ctx) es"

lemma guarded_append: "guarded G ctx (a @ b) \<longleftrightarrow> guarded G ctx a \<and> guarded G (ctx \<union> set a) b"
  by (induction a arbitrary: ctx) (auto simp: insert_commute)

lemma guarded_split: "guarded G {} (xs @ e # ys) \<Longrightarrow> G (set xs) e"
  by (simp add: guarded_append)

text \<open>
  A store operation writes its own object only, and replaces it only in the version it read, when
  what it read allows it.
\<close>

fun write_guard :: "string \<Rightarrow> (stored \<Rightarrow> bool) \<Rightarrow> kevent set \<Rightarrow> kevent \<Rightarrow> bool" where
  "write_guard n Q ctx (ReplaceE rec ver a) \<longleftrightarrow>
     nr_name rec = n \<and> (\<exists>old. GetE n (Inr (Some old)) \<in> ctx \<and> st_version old = ver \<and> Q old)"
| "write_guard n Q ctx (CreateE rec a) \<longleftrightarrow> nr_name rec = n"
| "write_guard n Q ctx (DeleteE m ver a) \<longleftrightarrow> False"
| "write_guard n Q ctx _ \<longleftrightarrow> True"

text \<open>The last call of a successful write: its own success, or a read that shows the value.\<close>

definition shown :: "string \<Rightarrow> bytes \<Rightarrow> kevent list \<Rightarrow> bool" where
  "shown n v es \<longleftrightarrow>
     (\<exists>es1 e. es = es1 @ [e] \<and>
        ((\<exists>rec. e = CreateE rec (Inr Created) \<and> nr_name rec = n \<and> nr_value rec = v) \<or>
         (\<exists>rec ver. e = ReplaceE rec ver (Inr Replaced) \<and> nr_name rec = n \<and> nr_value rec = v) \<or>
         (\<exists>r. e = GetE n (Inr (Some r)) \<and> st_value r = v)))"

lemma shown_Cons: "shown n v es \<Longrightarrow> shown n v (e # es)"
  unfolding shown_def by (metis append_Cons)

lemma shown_Cons_iff: "shown n v (e # e' # es) \<longleftrightarrow> shown n v (e' # es)"
  by (auto simp: shown_def Cons_eq_append_conv)

lemma shown_last:
  "shown n v [CreateE rec (Inr Created)] \<longleftrightarrow> nr_name rec = n \<and> nr_value rec = v"
  "shown n v [ReplaceE rec ver (Inr Replaced)] \<longleftrightarrow> nr_name rec = n \<and> nr_value rec = v"
  "shown n v [GetE n (Inr (Some r))] \<longleftrightarrow> st_value r = v"
  by (auto simp: shown_def)

definition expired_at :: "nat \<Rightarrow> stored \<Rightarrow> bool" where
  "expired_at now r \<longleftrightarrow> st_expires r \<le> now"

definition live_with :: "bytes \<Rightarrow> nat \<Rightarrow> stored \<Rightarrow> bool" where
  "live_with e now r \<longleftrightarrow> st_value r = e \<and> now < st_expires r"

text \<open>Branching programs: a path goes through one of the branches.\<close>

lemma kpath_branches:
  "kpath (case x of Inl e \<Rightarrow> f e | Inr y \<Rightarrow> g y) es r \<longleftrightarrow>
     (\<exists>e. x = Inl e \<and> kpath (f e) es r) \<or> (\<exists>y. x = Inr y \<and> kpath (g y) es r)"
  "kpath (case ob of None \<Rightarrow> p | Some z \<Rightarrow> h z) es r \<longleftrightarrow>
     (ob = None \<and> kpath p es r) \<or> (\<exists>z. ob = Some z \<and> kpath (h z) es r)"
  "kpath (case c of Created \<Rightarrow> p | AlreadyExists \<Rightarrow> q) es r \<longleftrightarrow>
     (c = Created \<and> kpath p es r) \<or> (c = AlreadyExists \<and> kpath q es r)"
  "kpath (case ro of Replaced \<Rightarrow> p | ReplaceConflict \<Rightarrow> q | ReplaceNotFound \<Rightarrow> p') es r \<longleftrightarrow>
     (ro = Replaced \<and> kpath p es r) \<or> (ro = ReplaceConflict \<and> kpath q es r) \<or>
     (ro = ReplaceNotFound \<and> kpath p' es r)"
  "kpath (case d of Deleted \<Rightarrow> p | DeleteConflict \<Rightarrow> q | DeleteNotFound \<Rightarrow> p') es r \<longleftrightarrow>
     (d = Deleted \<and> kpath p es r) \<or> (d = DeleteConflict \<and> kpath q es r) \<or>
     (d = DeleteNotFound \<and> kpath p' es r)"
  "kpath (if b then p else q) es r \<longleftrightarrow> (b \<and> kpath p es r) \<or> (\<not> b \<and> kpath q es r)"
  by (auto split: sum.splits option.splits create_outcome.splits replace_outcome.splits delete_outcome.splits)

lemmas kpath_steps = kpath_simps kpath_branches

lemma is_ours_simps [simp]:
  "is_ours None v now \<longleftrightarrow> False"
  "is_ours (Some r) v now \<longleftrightarrow> now < st_expires r \<and> st_value r = v"
  by (simp_all add: is_ours_def)

lemma is_oursE: "is_ours ob v now \<Longrightarrow> \<exists>r. ob = Some r \<and> st_value r = v"
  by (cases ob) auto

lemma expired_atI: "\<not> now < st_expires r \<Longrightarrow> expired_at now r"
  by (simp add: expired_at_def)

lemma put_rounds_guarded:
  "kpath (put_rounds n rec now) es r \<Longrightarrow> guarded (write_guard (nr_name rec) (expired_at now)) ctx es"
proof (induction n arbitrary: es ctx)
  case (Suc n)
  from Suc.prems show ?case
    by (simp add: kpath_steps) (elim exE conjE disjE; force intro: expired_atI Suc.IH)
qed (simp add: kpath_simps)

lemma put_rounds_shown:
  "kpath (put_rounds n rec now) es (Inr True) \<Longrightarrow> shown (nr_name rec) (nr_value rec) es"
proof (induction n arbitrary: es)
  case (Suc n)
  from Suc.prems show ?case
    by (simp add: kpath_steps)
      (elim exE conjE disjE; fastforce simp: shown_last dest: is_oursE intro: shown_Cons Suc.IH)
qed (simp add: kpath_simps)

lemma put_path:
  assumes "kpath (kube_put_if_absent C key v ttl) es (Inr True)"
  shows "\<exists>now es'. es = NowE now # es' \<and>
    guarded (write_guard (kc_object_name C key) (expired_at now)) {NowE now} es' \<and>
    shown (kc_object_name C key) v es'"
proof (cases "bind_result (validate_key key) (\<lambda>_. validate_ttl ttl)")
  case (Inr u)
  with assms obtain now es' where es: "es = NowE now # es'" and p: "kpath (case kube_expiry C now ttl of
      Inl e \<Rightarrow> KRet (Inl e)
    | Inr expires \<Rightarrow> put_rounds REPLACE_ROUNDS
        \<lparr>nr_name = kc_object_name C key, nr_key = key, nr_value = v, nr_expires = expires\<rparr> now) es' (Inr True)"
    by (auto simp: kube_put_if_absent_def inner_put_if_absent_def kpath_simps(2))
  show ?thesis
  proof (cases "kube_expiry C now ttl")
    case (Inr expires)
    with p have "kpath (put_rounds REPLACE_ROUNDS
      \<lparr>nr_name = kc_object_name C key, nr_key = key, nr_value = v, nr_expires = expires\<rparr> now) es' (Inr True)"
      by simp
    from put_rounds_guarded [OF this, of "{NowE now}"] put_rounds_shown [OF this] es show ?thesis by simp
  qed (use p in \<open>simp add: kpath_simps\<close>)
qed (use assms in \<open>simp add: kube_put_if_absent_def inner_put_if_absent_def kpath_simps\<close>)

lemma cas_path:
  assumes "kpath (kube_compare_and_swap C key e n ttl) es (Inr True)"
  shows "\<exists>now es'. es = NowE now # es' \<and>
    guarded (write_guard (kc_object_name C key) (live_with e now)) {NowE now} es' \<and>
    shown (kc_object_name C key) n es' \<and> (\<forall>rec a. CreateE rec a \<notin> set es')"
proof (cases "bind_result (validate_key key) (\<lambda>_. validate_ttl ttl)")
  case (Inr u)
  with assms show ?thesis
    unfolding kube_compare_and_swap_def inner_compare_and_swap_def
    apply (simp add: kpath_simps(2))
    apply (elim exE conjE)
    subgoal for now es'
      by (cases "kube_expiry C now ttl")
        (auto simp: kpath_steps live_with_def shown_last shown_Cons_iff dest: is_oursE)
    done
qed (use assms in \<open>simp add: kube_compare_and_swap_def inner_compare_and_swap_def kpath_simps\<close>)

section \<open>A reported success took effect\<close>

text \<open>
  \<open>took_effect\<close>: some call of client \<open>i\<close> put the value in place, at an instant at which what was
  there before satisfied \<open>P\<close>.
\<close>

definition took_effect ::
    "nat \<Rightarrow> string \<Rightarrow> bytes \<Rightarrow> (stored option \<Rightarrow> bool) \<Rightarrow> kserver \<Rightarrow> kentry list \<Rightarrow> bool" where
  "took_effect i n v P s tr \<longleftrightarrow>
     (\<exists>pre ev s2 post. tr = pre @ (i, ev, s2) # post \<and> kstep ev (after s pre) s2 \<and>
        P (objs (after s pre) n) \<and> \<not> holds (after s pre) n v \<and> holds s2 n v)"

lemma took_effect_mono:
  "took_effect i n v P s tr \<Longrightarrow> (\<And>ob. P ob \<Longrightarrow> Q ob) \<Longrightarrow> took_effect i n v Q s tr"
  unfolding took_effect_def by blast

text \<open>The caller's obligation: the value is new, and nobody else writes it.\<close>

definition fresh_value :: "nat \<Rightarrow> string \<Rightarrow> bytes \<Rightarrow> kserver \<Rightarrow> kentry list \<Rightarrow> bool" where
  "fresh_value i n v s tr \<longleftrightarrow> \<not> holds s n v \<and> (\<forall>(j, ev, s')\<in>set tr. writes n v ev \<longrightarrow> j = i)"

lemma kwrite_holds: "kwrite rec s s' \<Longrightarrow> holds s' (nr_name rec) (nr_value rec)"
  by (auto simp: kwrite_def holds_def)

lemma shown_holds:
  assumes "kruns s tr" and "shown n v (events_of i tr)"
  shows "\<exists>pre post. tr = pre @ post \<and> holds (after s pre) n v"
proof -
  from assms(2) obtain es1 e where e: "events_of i tr = es1 @ [e]"
    and kind: "(\<exists>rec. e = CreateE rec (Inr Created) \<and> nr_name rec = n \<and> nr_value rec = v) \<or>
      (\<exists>rec ver. e = ReplaceE rec ver (Inr Replaced) \<and> nr_name rec = n \<and> nr_value rec = v) \<or>
      (\<exists>r. e = GetE n (Inr (Some r)) \<and> st_value r = v)"
    unfolding shown_def by blast
  from event_splits [OF e] obtain pre sb post where tr: "tr = pre @ (i, e, sb) # post" by blast
  with assms(1) have "kstep e (after s pre) sb" by simp
  then have "holds sb n v"
    using kind
    by (auto simp: holds_def dest: sym elim!: create_stepE replace_stepE get_stepE dest!: kwrite_holds)
  then show ?thesis using tr by (intro exI [of _ "pre @ [(i, e, sb)]"] exI [of _ post]) auto
qed

text \<open>What was read in a version is what a write conditional on that version replaces.\<close>

lemma read_before_replace:
  assumes "valid_server s" and "kruns s pre" and "GetE n (Inr (Some old)) \<in> set (events_of i pre)"
    and "objs (after s pre) n = Some r" and "st_version r = st_version old"
  shows "r = old"
proof -
  from assms(3) obtain p1 sg p2 where pre: "pre = p1 @ (i, GetE n (Inr (Some old)), sg) # p2"
    by (rule event_in_splits)
  with assms(2) have sg: "kruns s p1" "objs sg n = Some old" "kruns sg p2" "sg = after s p1"
    by (auto elim!: get_stepE)
  from kruns_valid [OF sg(1) assms(1)] sg(4) have valid: "valid_server sg" by simp
  with sg(2) have "old \<in> past sg" "st_name old = n" by (auto simp: valid_server_def)
  moreover from assms(4) pre have "objs (after sg p2) n = Some r" by simp
  ultimately show ?thesis using same_version_same_object [OF valid sg(3)] assms(5) by blast
qed

lemma replace_step_changes:
  assumes "kstep (ReplaceE rec ver a) s1 s2" and "\<not> holds s1 n v" and "holds s2 n v"
  shows "\<exists>r. objs s1 (nr_name rec) = Some r \<and> st_version r = ver"
  using assms by (auto elim!: replace_stepE)

lemma create_step_changes:
  assumes "kstep (CreateE rec a) s1 s2" and "\<not> holds s1 n v" and "holds s2 n v"
  shows "objs s1 (nr_name rec) = None"
  using assms by (auto elim!: create_stepE)

lemma linearizes:
  assumes valid: "valid_server s" and runs: "kruns s tr" and fresh: "fresh_value i n v s tr"
    and es: "events_of i tr = NowE now # es" and guard: "guarded (write_guard n Q) {NowE now} es"
    and shown: "shown n v es"
  shows "took_effect i n v (\<lambda>ob. case ob of None \<Rightarrow> \<exists>rec a. CreateE rec a \<in> set es | Some r \<Rightarrow> Q r) s tr"
proof -
  have "shown n v (events_of i tr)" unfolding es using shown by (rule shown_Cons)
  from shown_holds [OF runs this] obtain pre0 post0 where split: "tr = pre0 @ post0" "holds (after s pre0) n v"
    by blast
  with runs have run0: "kruns s pre0" by simp
  from fresh have "\<not> holds s n v" by (simp add: fresh_value_def)
  from kruns_holds [OF run0 split(2) this] obtain pre j ev s2 post where
    step: "pre0 = pre @ (j, ev, s2) # post" "kstep ev (after s pre) s2" "writes n v ev"
      "\<not> holds (after s pre) n v" "holds s2 n v" .
  with split(1) have tr: "tr = pre @ (i, ev, s2) # post @ post0" using fresh by (auto simp: fresh_value_def)
  have "NowE now # es = events_of i pre @ ev # events_of i (post @ post0)"
    using es tr by simp
  then obtain xs ys where pre: "events_of i pre = NowE now # xs" "es = xs @ ev # ys"
    using step(3) by (cases "events_of i pre") auto
  with guard have g: "write_guard n Q ({NowE now} \<union> set xs) ev" by (simp add: guarded_append)
  have "case objs (after s pre) n of None \<Rightarrow> \<exists>rec a. CreateE rec a \<in> set es | Some r \<Rightarrow> Q r"
  proof (cases ev)
    case (CreateE rec a)
    with create_step_changes [of rec a "after s pre" s2 n v] step g pre show ?thesis by auto
  next
    case (ReplaceE rec ver a)
    with g obtain old where old: "GetE n (Inr (Some old)) \<in> set xs" "st_version old = ver" "Q old" "nr_name rec = n"
      by auto
    from replace_step_changes [of rec ver a "after s pre" s2 n v] step ReplaceE old(4)
    obtain r where r: "objs (after s pre) n = Some r" "st_version r = ver" by auto
    from run0 step(1) have "kruns s pre" by simp
    from read_before_replace [OF valid this _ r(1), of old i] old pre r have "r = old" by simp
    with r old show ?thesis by simp
  qed (use step(3) in simp_all)
  then show ?thesis unfolding took_effect_def using tr step by blast
qed

text \<open>
  A compare-and-swap that reports success did, at one instant of the interleaving, replace the
  expected value while it was live by the caller's clock.
\<close>

lemma cas_took_effect:
  assumes "valid_server s" and "kruns s tr" and "fresh_value i (kc_object_name C key) v s tr"
    and "kpath (kube_compare_and_swap C key e v ttl) (events_of i tr) (Inr True)"
  shows "\<exists>now. NowE now \<in> set (events_of i tr) \<and>
    took_effect i (kc_object_name C key) v
      (\<lambda>ob. \<exists>r. ob = Some r \<and> st_value r = e \<and> now < st_expires r) s tr"
proof -
  from cas_path [OF assms(4)] obtain now es where es: "events_of i tr = NowE now # es"
    and g: "guarded (write_guard (kc_object_name C key) (live_with e now)) {NowE now} es"
    and sh: "shown (kc_object_name C key) v es" and no: "\<forall>rec a. CreateE rec a \<notin> set es" by blast
  from linearizes [OF assms(1-3) es g sh]
  have "took_effect i (kc_object_name C key) v (\<lambda>ob. \<exists>r. ob = Some r \<and> st_value r = e \<and> now < st_expires r) s tr"
    by (rule took_effect_mono) (use no in \<open>auto simp: live_with_def split: option.splits\<close>)
  with es show ?thesis by auto
qed

section \<open>One winner\<close>

text \<open>Two instants at which one value was replaced need that value written in between.\<close>

lemma replaced_twice:
  assumes "kruns s tr" and "\<forall>(k, ev, s')\<in>set tr. \<not> writes n e ev"
    and "took_effect i n v (\<lambda>ob. \<exists>r. ob = Some r \<and> st_value r = e) s tr"
    and "took_effect j n w (\<lambda>ob. \<exists>r. ob = Some r \<and> st_value r = e) s tr"
  shows "i = j"
proof -
  from assms(3) obtain p1 e1 t1 q1 where 1: "tr = p1 @ (i, e1, t1) # q1" "kstep e1 (after s p1) t1"
    "holds (after s p1) n e" "\<not> holds (after s p1) n v" "holds t1 n v"
    unfolding took_effect_def holds_def by blast
  from assms(4) obtain p2 e2 t2 q2 where 2: "tr = p2 @ (j, e2, t2) # q2" "kstep e2 (after s p2) t2"
    "holds (after s p2) n e" "\<not> holds (after s p2) n w" "holds t2 n w"
    unfolding took_effect_def holds_def by blast
  have gone: "\<not> holds (after s q) n e"
    if tr: "tr = p @ (k, ev, t) # p' @ q'" and q: "q = p @ (k, ev, t) # p'" and "holds (after s p) n e"
      and "holds t n x" "\<not> holds (after s p) n x" for p k ev t p' q' q x
  proof
    assume h: "holds (after s q) n e"
    from that have "\<not> holds t n e" by (auto simp: holds_def)
    moreover from assms(1) tr have "kruns t p'" by simp
    moreover from h q have "holds (after t p') n e" by simp
    ultimately obtain a b c d f where "p' = a @ (b, c, d) # f" "writes n e c"
      using kruns_holds by metis
    with assms(2) tr show False by auto
  qed
  from 1(1) 2(1) consider "p1 = p2" | p' where "p2 = p1 @ (i, e1, t1) # p'" | p' where "p1 = p2 @ (j, e2, t2) # p'"
    by (auto simp: append_eq_append_conv2 Cons_eq_append_conv append_eq_Cons_conv)
  then show ?thesis
  proof cases
    case 1
    with \<open>tr = p1 @ _\<close> \<open>tr = p2 @ _\<close> show ?thesis by simp
  next
    case 2
    with gone [of p1 i e1 t1 p' "(j, e2, t2) # q2" p2 v] \<open>tr = p2 @ _\<close> 1(3-5) 2 show ?thesis
      using \<open>holds (after s p2) n e\<close> by simp
  next
    case 3
    with gone [of p2 j e2 t2 p' "(i, e1, t1) # q1" p1 w] \<open>tr = p1 @ _\<close> 2(3-5) 1 show ?thesis
      using \<open>holds (after s p1) n e\<close> by simp
  qed
qed

text \<open>
  C20 However the calls interleave and whichever responses are lost, at most one client wins a
  compare-and-swap of a value that nobody writes again.
\<close>

theorem kube_cas_single_winner:
  assumes "valid_server s" and "kruns s tr"
    and "\<forall>(k, ev, s')\<in>set tr. \<not> writes (kc_object_name C key) e ev"
    and "fresh_value i (kc_object_name C key) v s tr" and "fresh_value j (kc_object_name C key) w s tr"
    and "kpath (kube_compare_and_swap C key e v ttl) (events_of i tr) (Inr True)" and "i \<noteq> j"
  shows "\<not> kpath (kube_compare_and_swap C key e w ttl') (events_of j tr) (Inr True)"
proof
  assume other: "kpath (kube_compare_and_swap C key e w ttl') (events_of j tr) (Inr True)"
  from cas_took_effect [OF assms(1,2,4,6)]
  have "took_effect i (kc_object_name C key) v (\<lambda>ob. \<exists>r. ob = Some r \<and> st_value r = e) s tr"
    by (auto intro: took_effect_mono)
  moreover from cas_took_effect [OF assms(1,2,5) other]
  have "took_effect j (kc_object_name C key) w (\<lambda>ob. \<exists>r. ob = Some r \<and> st_value r = e) s tr"
    by (auto intro: took_effect_mono)
  ultimately have "i = j" using replaced_twice [OF assms(2,3)] by blast
  with assms(7) show False ..
qed

text \<open>
  A conditional creation that reports success put its value in place at an instant at which there
  was no record under the key, or one that had expired by the caller's clock.
\<close>

theorem kube_put_took_effect:
  assumes "valid_server s" and "kruns s tr" and "fresh_value i (kc_object_name C key) v s tr"
    and "kpath (kube_put_if_absent C key v ttl) (events_of i tr) (Inr True)"
  shows "\<exists>now. NowE now \<in> set (events_of i tr) \<and>
    took_effect i (kc_object_name C key) v (\<lambda>ob. \<forall>r. ob = Some r \<longrightarrow> st_expires r \<le> now) s tr"
proof -
  from put_path [OF assms(4)] obtain now es where es: "events_of i tr = NowE now # es"
    and g: "guarded (write_guard (kc_object_name C key) (expired_at now)) {NowE now} es"
    and sh: "shown (kc_object_name C key) v es" by blast
  from linearizes [OF assms(1-3) es g sh]
  have "took_effect i (kc_object_name C key) v (\<lambda>ob. \<forall>r. ob = Some r \<longrightarrow> st_expires r \<le> now) s tr"
    by (rule took_effect_mono) (auto simp: expired_at_def split: option.splits)
  with es show ?thesis by auto
qed

end
