(* ===== verification/Kube_Sweep.thy ===== *)
theory Kube_Sweep
  imports Kube_Safety
begin

text \<open>
  The sweeper of the Kubernetes store among other clients. It deletes only what a page it listed
  showed, in the version the page showed, and only what had expired for the grace by the clock
  it read after the page; so on a server where versions name states, what a deletion removes is
  an object the sweeper has seen expired, however stale the page was.
\<close>

section \<open>Paths of composed programs\<close>

lemma kpath_bindI: "kpath p es1 x \<Longrightarrow> kpath (f x) es2 r \<Longrightarrow> kpath (kbind p f) (es1 @ es2) r"
  by (induction rule: kpath.induct) (auto intro: kpath.intros)

lemma kpath_bindD:
  "kpath (kbind p f) es r \<Longrightarrow> \<exists>es1 x es2. es = es1 @ es2 \<and> kpath p es1 x \<and> kpath (f x) es2 r"
proof (induction p arbitrary: es)
  case (KNow g)
  from KNow.prems obtain t es' where "es = NowE t # es'" "kpath (kbind (g t) f) es' r" by (auto simp: kpath_simps)
  with KNow.IH [OF rangeI this(2)] show ?case by (metis append_Cons path_now)
next
  case (KGet n g)
  from KGet.prems obtain a es' where "es = GetE n a # es'" "kpath (kbind (g a) f) es' r" by (auto simp: kpath_simps)
  with KGet.IH [OF rangeI this(2)] show ?case by (metis append_Cons path_get)
next
  case (KCreate rec g)
  from KCreate.prems obtain a es' where "es = CreateE rec a # es'" "kpath (kbind (g a) f) es' r" by (auto simp: kpath_simps)
  with KCreate.IH [OF rangeI this(2)] show ?case by (metis append_Cons path_create)
next
  case (KReplace rec v g)
  from KReplace.prems obtain a es' where "es = ReplaceE rec v a # es'" "kpath (kbind (g a) f) es' r" by (auto simp: kpath_simps)
  with KReplace.IH [OF rangeI this(2)] show ?case by (metis append_Cons path_replace)
next
  case (KDelete n v g)
  from KDelete.prems obtain a es' where "es = DeleteE n v a # es'" "kpath (kbind (g a) f) es' r" by (auto simp: kpath_simps)
  with KDelete.IH [OF rangeI this(2)] show ?case by (metis append_Cons path_delete)
next
  case (KList sel lim tok g)
  from KList.prems obtain a es' where "es = ListE sel lim tok a # es'" "kpath (kbind (g a) f) es' r" by (auto simp: kpath_simps)
  with KList.IH [OF rangeI this(2)] show ?case by (metis append_Cons path_list)
next
  case (KPermits verb g)
  from KPermits.prems obtain a es' where "es = PermitsE verb a # es'" "kpath (kbind (g a) f) es' r" by (auto simp: kpath_simps)
  with KPermits.IH [OF rangeI this(2)] show ?case by (metis append_Cons path_permits)
qed (simp add: kpath_simps)

lemma kpath_bind:
  "kpath (kbind p f) es r \<longleftrightarrow> (\<exists>es1 x es2. es = es1 @ es2 \<and> kpath p es1 x \<and> kpath (f x) es2 r)"
  using kpath_bindI kpath_bindD by metis

section \<open>What a deletion rests on\<close>

fun sweep_guard :: "kevent set \<Rightarrow> kevent \<Rightarrow> bool" where
  "sweep_guard ctx (DeleteE n ver a) \<longleftrightarrow>
     (\<exists>sel lim tok pg now. \<exists>r \<in> set (pg_items pg).
        ListE sel lim tok (Inr pg) \<in> ctx \<and> NowE now \<in> ctx \<and> sweepable now r \<and>
        n = st_name r \<and> ver = Some (st_version r))"
| "sweep_guard ctx (CreateE rec a) \<longleftrightarrow> False"
| "sweep_guard ctx (ReplaceE rec ver a) \<longleftrightarrow> False"
| "sweep_guard ctx _ \<longleftrightarrow> True"

lemma sweep_items_guarded:
  assumes "kpath (sweep_items rs rep) es r" and "ListE sel lim tok (Inr pg) \<in> ctx" and "NowE now \<in> ctx"
    and "set rs \<subseteq> {x \<in> set (pg_items pg). sweepable now x}"
  shows "guarded sweep_guard ctx es"
  using assms
proof (induction rs arbitrary: rep es ctx)
  case (Cons x rs)
  from Cons.prems(1) obtain a es' where es: "es = DeleteE (st_name x) (Some (st_version x)) a # es'"
    and rest: "es' = [] \<or> (\<exists>rep'. kpath (sweep_items rs rep') es' r)"
    by (auto simp: kpath_steps)
  have "guarded sweep_guard (insert (DeleteE (st_name x) (Some (st_version x)) a) ctx) es'"
    using rest
  proof (elim disjE exE)
    fix rep' assume "kpath (sweep_items rs rep') es' r"
    then show ?thesis using Cons.prems by (intro Cons.IH) auto
  qed simp
  moreover have "sweep_guard ctx (DeleteE (st_name x) (Some (st_version x)) a)"
    using Cons.prems(2-4) unfolding sweep_guard.simps by (metis (lifting) list.set_intros(1) mem_Collect_eq subset_iff)
  ultimately show ?case by (simp add: es)
qed (simp add: kpath_simps)

lemma sweep_selector_guarded:
  "kpath (sweep_selector pages sel tok rep) es r \<Longrightarrow> guarded sweep_guard ctx es"
proof (induction pages arbitrary: tok rep es ctx)
  case (Suc pages)
  from Suc.prems obtain a es1 where es: "es = ListE sel SWEEP_PAGE_SIZE tok a # es1"
    and p: "kpath (case a of Inl e \<Rightarrow> KRet (Some (Inl e)) | Inr pg \<Rightarrow> KNow (\<lambda>now.
         kbind (sweep_items (filter (sweepable now) (pg_items pg))
                  (rep\<lparr>listed := listed rep + length (pg_items pg)\<rparr>)) (\<lambda>swept. case swept of
           Inl e \<Rightarrow> KRet (Some (Inl e))
         | Inr rep' \<Rightarrow>
             (case pg_continue pg of
                None \<Rightarrow> KRet (Some (Inr rep'))
              | Some t \<Rightarrow> if t = [] then KRet (Some (Inr rep')) else sweep_selector pages sel (Some t) rep')))) es1 r"
    by (auto simp: kpath_simps(7))
  show ?case
  proof (cases a)
    case (Inl e)
    with p es show ?thesis by (simp add: kpath_simps)
  next
    case (Inr pg)
    with p obtain now es2 x es3 where es1: "es1 = NowE now # es2 @ es3"
      and items: "kpath (sweep_items (filter (sweepable now) (pg_items pg))
        (rep\<lparr>listed := listed rep + length (pg_items pg)\<rparr>)) es2 x"
      and tail: "kpath (case x of Inl e \<Rightarrow> KRet (Some (Inl e)) | Inr rep' \<Rightarrow>
             (case pg_continue pg of
                None \<Rightarrow> KRet (Some (Inr rep'))
              | Some t \<Rightarrow> if t = [] then KRet (Some (Inr rep')) else sweep_selector pages sel (Some t) rep')) es3 r"
      by (auto simp: kpath_simps(2) kpath_bind)
    let ?ctx = "insert (NowE now) (insert (ListE sel SWEEP_PAGE_SIZE tok (Inr pg)) ctx)"
    have "guarded sweep_guard ?ctx es2"
      by (rule sweep_items_guarded [OF items, of sel SWEEP_PAGE_SIZE tok pg ?ctx now]) auto
    moreover have "guarded sweep_guard (?ctx \<union> set es2) es3"
      using tail by (auto simp: kpath_steps intro: Suc.IH)
    ultimately show ?thesis using es es1 Inr by (simp add: guarded_append)
  qed
qed (simp add: kpath_simps)

lemma sweep_chunks_guarded:
  "kpath (sweep_chunks pages cs rep) es r \<Longrightarrow> guarded sweep_guard ctx es"
proof (induction cs arbitrary: rep es ctx)
  case (Cons c cs)
  from Cons.prems obtain es1 x es2 where es: "es = es1 @ es2"
    and sel: "kpath (sweep_selector pages (expiry_selector c) None empty_report) es1 x"
    and tail: "kpath (case x of Some (Inr part) \<Rightarrow> sweep_chunks pages cs (add_report rep part)
        | Some (Inl e) \<Rightarrow> KRet (Some (Inl e)) | None \<Rightarrow> KRet None) es2 r"
    by (auto simp: kpath_bind)
  have "guarded sweep_guard (ctx \<union> set es1) es2"
  proof (cases "\<exists>part. x = Some (Inr part)")
    case True
    with tail show ?thesis by (auto intro: Cons.IH)
  next
    case False
    with tail show ?thesis by (auto simp: kpath_simps split: option.splits sum.splits)
  qed
  with sweep_selector_guarded [OF sel] show ?case by (simp add: guarded_append es)
qed (simp add: kpath_simps)

lemma full_sweep_guarded:
  assumes "kpath (full_sweep pages state) es r"
  shows "guarded sweep_guard ctx es"
proof -
  from assms obtain started es1 x where "es = NowE started # es1"
    "kpath (sweep_selector pages MANAGED_SELECTOR None empty_report) es1 x"
    by (auto simp: full_sweep_def kpath_simps kpath_bind)
  from this(1) sweep_selector_guarded [OF this(2)] show ?thesis by simp
qed

lemma sweep_tick_guarded:
  assumes "kpath (sweep_tick pages state) es r"
  shows "guarded sweep_guard {} es"
proof -
  from assms obtain now es1 where es: "es = NowE now # es1"
    and p: "kpath (case due_state now state of None \<Rightarrow> full_sweep pages state
       | Some st \<Rightarrow> kbind (sweep_chunks pages (chunks HOURS_PER_LIST
           [watermark_hour st ..< Suc (settled_hour now)]) empty_report) (\<lambda>r.
              KRet (map_option (\<lambda>res. bind_result res (\<lambda>rep.
                Inr (rep, map_option (\<lambda>cur. cur\<lparr>watermark_hour := max (watermark_hour cur) (settled_hour now)\<rparr>) state))) r))) es1 r"
    unfolding sweep_tick_def Let_def by (auto simp: kpath_simps(2))
  show ?thesis
  proof (cases "due_state now state")
    case None
    with p full_sweep_guarded es show ?thesis by simp
  next
    case (Some st)
    with p es show ?thesis by (auto simp: kpath_bind kpath_simps(1) sweep_chunks_guarded)
  qed
qed

section \<open>What it removes\<close>

lemma listed_is_past:
  assumes "valid_server s" and "kruns s pre" and "ListE sel lim tok (Inr pg) \<in> set (events_of i pre)"
  shows "set (pg_items pg) \<subseteq> past (after s pre)"
proof -
  from assms(3) obtain p1 sg p2 where pre: "pre = p1 @ (i, ListE sel lim tok (Inr pg), sg) # p2"
    by (rule event_in_splits)
  with assms(2) have sg: "kruns s p1" "sg = after s p1" "set (pg_items pg) \<subseteq> past sg" "kruns sg p2"
    by (auto elim!: list_stepE)
  from kruns_valid [OF sg(1) assms(1)] kruns_valid [OF sg(4)] sg(2,3) pre show ?thesis by auto
qed

text \<open>
  C28 Whatever the interleaving, an object that a call of the sweeper changes is removed, and is one
  that had been expired for the grace at a time the sweeper read before.
\<close>

theorem sweep_removes_expired:
  assumes valid: "valid_server s" and runs: "kruns s tr"
    and path: "kpath (sweep_tick pages state) (events_of i tr) r"
    and tr: "tr = pre @ (i, ev, s2) # post"
    and gone: "objs (after s pre) n = Some x" and changed: "objs s2 n \<noteq> Some x"
  shows "objs s2 n = None \<and> (\<exists>now. NowE now \<in> set (events_of i pre) \<and> sweepable now x)"
proof -
  have "events_of i tr = events_of i pre @ ev # events_of i post" using tr by simp
  with sweep_tick_guarded [OF path] have g: "sweep_guard (set (events_of i pre)) ev"
    by (simp add: guarded_append)
  from runs tr have run: "kruns s pre" and ev: "kstep ev (after s pre) s2" by auto
  have x: "x \<in> past (after s pre)" "st_name x = n" and uniq: "valid_server (after s pre)"
    using gone kruns_valid [OF run valid] by (auto simp: valid_server_def)
  from ev show ?thesis
  proof cases
    case (step_delete ver m a)
    with gone changed have m: "m = n" "objs s2 n = None" by (auto split: if_splits)
    from g step_delete obtain sel lim tok pg now old where old: "old \<in> set (pg_items pg)"
      "ListE sel lim tok (Inr pg) \<in> set (events_of i pre)" "NowE now \<in> set (events_of i pre)"
      "sweepable now old" "n = st_name old" "ver = Some (st_version old)"
      using m by auto
    from listed_is_past [OF valid run old(2)] old(1) have "old \<in> past (after s pre)" by blast
    moreover have "st_version x = st_version old" using step_delete old(6) gone m by auto
    ultimately have "x = old" using x uniq old(5) by (auto simp: valid_server_def)
    with old m show ?thesis by auto
  qed (use g gone changed in auto)
qed

section \<open>What it does not miss\<close>

text \<open>Every list is followed to its last page, and every page is swept by a later reading of the clock.\<close>

definition follows :: "kevent list \<Rightarrow> bool" where
  "follows es \<longleftrightarrow>
     (\<forall>sel tok pg t. ListE sel SWEEP_PAGE_SIZE tok (Inr pg) \<in> set es \<and> pg_continue pg = Some t \<and> t \<noteq> [] \<longrightarrow>
        (\<exists>pg'. ListE sel SWEEP_PAGE_SIZE (Some t) (Inr pg') \<in> set es))"

definition answered_delete :: "stored \<Rightarrow> kevent list \<Rightarrow> bool" where
  "answered_delete r es \<longleftrightarrow> (\<exists>a. DeleteE (st_name r) (Some (st_version r)) (Inr a) \<in> set es)"

definition pages_swept :: "kevent list \<Rightarrow> bool" where
  "pages_swept es \<longleftrightarrow>
     (\<forall>sel lim tok pg. ListE sel lim tok (Inr pg) \<in> set es \<longrightarrow>
        (\<exists>t. NowE t \<in> set es \<and> (\<forall>r\<in>set (pg_items pg). sweepable t r \<longrightarrow> answered_delete r es)))"

definition first_page :: "string \<Rightarrow> kevent list \<Rightarrow> bool" where
  "first_page sel es \<longleftrightarrow> (\<exists>pg. ListE sel SWEEP_PAGE_SIZE None (Inr pg) \<in> set es)"

lemma swept_append:
  "follows a \<Longrightarrow> follows b \<Longrightarrow> follows (a @ b)"
  "pages_swept a \<Longrightarrow> pages_swept b \<Longrightarrow> pages_swept (a @ b)"
  unfolding follows_def pages_swept_def answered_delete_def by (fastforce | blast)+

definition lists_nothing :: "kevent list \<Rightarrow> bool" where
  "lists_nothing es \<longleftrightarrow> (\<forall>sel lim tok a. ListE sel lim tok a \<notin> set es)"

lemma page_swept:
  assumes "\<And>r. r \<in> set (pg_items pg) \<Longrightarrow> sweepable now r \<Longrightarrow> answered_delete r es" and "lists_nothing es"
  shows "pages_swept (ListE sel lim tok (Inr pg) # NowE now # es)"
  unfolding pages_swept_def
proof (intro allI impI)
  fix sel' lim' tok' pg'
  assume "ListE sel' lim' tok' (Inr pg') \<in> set (ListE sel lim tok (Inr pg) # NowE now # es)"
  with assms(2) have "pg' = pg" by (auto simp: lists_nothing_def)
  with assms(1) show "\<exists>t. NowE t \<in> set (ListE sel lim tok (Inr pg) # NowE now # es) \<and> (\<forall>r\<in>set (pg_items pg').
      sweepable t r \<longrightarrow> answered_delete r (ListE sel lim tok (Inr pg) # NowE now # es))"
    by (intro exI [of _ now]) (auto simp: answered_delete_def)
qed

lemma page_followed:
  assumes "\<And>t. pg_continue pg = Some t \<Longrightarrow> t \<noteq> [] \<Longrightarrow> \<exists>pg'. ListE sel SWEEP_PAGE_SIZE (Some t) (Inr pg') \<in> set es'"
    and "lists_nothing es" and "follows es'"
  shows "follows (ListE sel SWEEP_PAGE_SIZE tok (Inr pg) # NowE now # es @ es')"
  unfolding follows_def
proof (intro allI impI)
  fix sel' tok' pg' t
  assume "ListE sel' SWEEP_PAGE_SIZE tok' (Inr pg') \<in> set (ListE sel SWEEP_PAGE_SIZE tok (Inr pg) # NowE now # es @ es') \<and>
    pg_continue pg' = Some t \<and> t \<noteq> []"
  with assms(2) have "sel' = sel \<and> pg' = pg \<and> pg_continue pg = Some t \<and> t \<noteq> [] \<or>
      ListE sel' SWEEP_PAGE_SIZE tok' (Inr pg') \<in> set es' \<and> pg_continue pg' = Some t \<and> t \<noteq> []"
    by (auto simp: lists_nothing_def)
  then have "\<exists>pg''. ListE sel' SWEEP_PAGE_SIZE (Some t) (Inr pg'') \<in> set es'"
    using assms(1,3) unfolding follows_def by blast
  then show "\<exists>pg''. ListE sel' SWEEP_PAGE_SIZE (Some t) (Inr pg'') \<in> set (ListE sel SWEEP_PAGE_SIZE tok (Inr pg) # NowE now # es @ es')"
    by auto
qed

lemma sweep_items_deletes:
  "kpath (sweep_items rs rep) es (Inr rep') \<Longrightarrow> (\<forall>r\<in>set rs. answered_delete r es) \<and> lists_nothing es"
proof (induction rs arbitrary: rep es)
  case (Cons r rs)
  from Cons.prems obtain a es' rep'' where "es = DeleteE (st_name r) (Some (st_version r)) (Inr a) # es'"
    and "kpath (sweep_items rs rep'') es' (Inr rep')"
    by (auto simp: kpath_steps)
  with Cons.IH [OF this(2)] show ?case by (auto simp: answered_delete_def lists_nothing_def)
qed (simp add: kpath_simps lists_nothing_def)

lemma sweep_selector_swept:
  "kpath (sweep_selector pages sel tok rep) es (Some (Inr rep')) \<Longrightarrow>
     (\<exists>pg. ListE sel SWEEP_PAGE_SIZE tok (Inr pg) \<in> set es) \<and> follows es \<and> pages_swept es"
proof (induction pages arbitrary: tok rep es)
  case (Suc pages)
  from Suc.prems obtain pg now es2 rep1 es3 where
    es: "es = ListE sel SWEEP_PAGE_SIZE tok (Inr pg) # NowE now # es2 @ es3"
    and items: "kpath (sweep_items (filter (sweepable now) (pg_items pg))
        (rep\<lparr>listed := listed rep + length (pg_items pg)\<rparr>)) es2 (Inr rep1)"
    and tail: "kpath (case pg_continue pg of
        None \<Rightarrow> KRet (Some (Inr rep1))
      | Some t \<Rightarrow> if t = [] then KRet (Some (Inr rep1)) else sweep_selector pages sel (Some t) rep1) es3 (Some (Inr rep'))"
    by (auto simp: kpath_steps kpath_bind)
  note deleted = sweep_items_deletes [OF items]
  have rest: "follows es3" "pages_swept es3"
    "\<And>t. pg_continue pg = Some t \<Longrightarrow> t \<noteq> [] \<Longrightarrow> \<exists>pg'. ListE sel SWEEP_PAGE_SIZE (Some t) (Inr pg') \<in> set es3"
    using tail Suc.IH by (auto simp: kpath_steps follows_def pages_swept_def split: option.splits if_splits)
  have "pages_swept (ListE sel SWEEP_PAGE_SIZE tok (Inr pg) # NowE now # es2)"
    using deleted by (intro page_swept) auto
  with rest(2) have "pages_swept es" using swept_append(2) es by fastforce
  moreover have "follows es" unfolding es using rest(1,3) deleted by (intro page_followed) auto
  ultimately show ?case by (auto simp: es)
qed (simp add: kpath_simps)

lemma in_chunks: "0 < n \<Longrightarrow> x \<in> set xs \<Longrightarrow> \<exists>c\<in>set (chunks n xs). x \<in> set c"
proof (induction n xs rule: chunks.induct)
  case (1 n xs)
  then have "xs \<noteq> []" by auto
  from "1.prems"(2) have "x \<in> set (take n xs) \<or> x \<in> set (drop n xs)"
    by (metis append_take_drop_id set_append UnE)
  with 1 \<open>xs \<noteq> []\<close> show ?case by (subst chunks.simps) (auto simp: chunks.simps [of n xs])
qed

lemma sweep_chunks_swept:
  "kpath (sweep_chunks pages cs rep) es (Some (Inr rep')) \<Longrightarrow>
     (\<forall>c\<in>set cs. first_page (expiry_selector c) es) \<and> follows es \<and> pages_swept es"
proof (induction cs arbitrary: rep es)
  case (Cons c cs)
  from Cons.prems obtain es1 part es2 where es: "es = es1 @ es2"
    and sel: "kpath (sweep_selector pages (expiry_selector c) None empty_report) es1 (Some (Inr part))"
    and tail: "kpath (sweep_chunks pages cs (add_report rep part)) es2 (Some (Inr rep'))"
    by (auto simp: kpath_bind kpath_steps)
  from sweep_selector_swept [OF sel] Cons.IH [OF tail] show ?case
    by (auto simp: es swept_append) (auto simp: first_page_def)
qed (simp add: kpath_simps follows_def pages_swept_def)

text \<open>The readings of the clock, in their order.\<close>

fun clock :: "kevent list \<Rightarrow> nat list" where
  "clock [] = []"
| "clock (NowE t # es) = t # clock es"
| "clock (_ # es) = clock es"

lemma set_clock: "t \<in> set (clock es) \<longleftrightarrow> NowE t \<in> set es"
  by (induction es rule: clock.induct) auto

text \<open>Every record of an hour before the settled one has been expired for the grace.\<close>

lemma settled_sweepable:
  assumes "expiry_hour (st_expires r) < settled_hour now" and "now \<le> t"
  shows "sweepable t r"
proof -
  have "st_expires r < now - millis SWEEP_GRACE"
  proof (rule ccontr)
    assume "\<not> st_expires r < now - millis SWEEP_GRACE"
    then have "settled_hour now \<le> expiry_hour (st_expires r)"
      by (simp add: settled_hour_def expiry_hour_def saturating_sub_def div_le_mono)
    with assms(1) show False by simp
  qed
  then have "st_expires r + millis SWEEP_GRACE < now" by (simp add: less_diff_conv)
  with assms(2) show ?thesis by (auto simp: sweepable_def saturating_add_def min_def)
qed

lemma Some_eq_map_option: "Some y = map_option f x \<longleftrightarrow> (\<exists>z. x = Some z \<and> f z = y)"
  by (cases x) auto

lemma full_sweep_covers:
  assumes "kpath (full_sweep pages state) es (Some (Inr (rep, Some st)))"
  shows "\<exists>started es'. es = NowE started # es' \<and> watermark_hour st = settled_hour started \<and>
    first_page MANAGED_SELECTOR es' \<and> follows es' \<and> pages_swept es'"
proof -
  from assms obtain started es' res where "es = NowE started # es'" "watermark_hour st = settled_hour started"
    and sel: "kpath (sweep_selector pages MANAGED_SELECTOR None empty_report) es' (Some (Inr res))"
    by (auto simp: full_sweep_def kpath_simps kpath_bind Some_eq_map_option bind_result_Inr_iff)
  with sweep_selector_swept [OF sel] show ?thesis by (auto simp: first_page_def)
qed

lemma window_covered:
  assumes "kpath (sweep_chunks pages (chunks HOURS_PER_LIST [lo ..< Suc hi]) rep) es (Some (Inr rep'))"
    and "lo \<le> h" and "h \<le> hi"
  shows "(\<exists>hours. h \<in> set hours \<and> first_page (expiry_selector hours) es) \<and> follows es \<and> pages_swept es"
proof -
  have "0 < HOURS_PER_LIST" "h \<in> set [lo ..< Suc hi]" using assms(2,3) by (auto simp: HOURS_PER_LIST_def)
  from in_chunks [OF this] sweep_chunks_swept [OF assms(1)] show ?thesis by blast
qed

lemma tick_covers:
  assumes "kpath (sweep_tick pages state) es (Some (Inr (rep, Some st)))" and "sorted (clock es)"
    and "h < watermark_hour st"
    and "\<And>old. due_state (hd (clock es)) state = Some old \<Longrightarrow> watermark_hour old \<le> h"
  shows "\<exists>start readings es'. es = map NowE readings @ es' \<and> h < settled_hour start \<and> (\<forall>t\<in>set (clock es'). start \<le> t) \<and>
    (first_page MANAGED_SELECTOR es' \<or> (\<exists>hours. h \<in> set hours \<and> first_page (expiry_selector hours) es')) \<and>
    follows es' \<and> pages_swept es'"
proof -
  from assms(1) obtain now es1 where es: "es = NowE now # es1"
    and p: "kpath (case due_state now state of None \<Rightarrow> full_sweep pages state
       | Some st \<Rightarrow> kbind (sweep_chunks pages (chunks HOURS_PER_LIST
           [watermark_hour st ..< Suc (settled_hour now)]) empty_report) (\<lambda>r.
              KRet (map_option (\<lambda>res. bind_result res (\<lambda>rep.
                Inr (rep, map_option (\<lambda>cur. cur\<lparr>watermark_hour := max (watermark_hour cur) (settled_hour now)\<rparr>) state))) r))) es1
       (Some (Inr (rep, Some st)))"
    unfolding sweep_tick_def Let_def by (auto simp: kpath_simps(2))
  show ?thesis
  proof (cases "due_state now state")
    case None
    with p full_sweep_covers obtain started es' where full: "es1 = NowE started # es'"
      "watermark_hour st = settled_hour started" "first_page MANAGED_SELECTOR es'" "follows es'" "pages_swept es'"
      by fastforce
    then have "es = map NowE [now, started] @ es'" "\<forall>t\<in>set (clock es'). started \<le> t" using es assms(2) by auto
    with full assms(3) show ?thesis by metis
  next
    case (Some old)
    with p obtain res where chunks: "kpath (sweep_chunks pages (chunks HOURS_PER_LIST
         [watermark_hour old ..< Suc (settled_hour now)]) empty_report) es1 (Some (Inr res))"
      and st: "st = old\<lparr>watermark_hour := max (watermark_hour old) (settled_hour now)\<rparr>"
      by (auto simp: kpath_simps(1) kpath_bind Some_eq_map_option bind_result_Inr_iff due_state_def
          split: option.splits if_splits)
    have h: "watermark_hour old \<le> h" "h < settled_hour now" using assms(3,4) Some st es by auto
    moreover have "es = map NowE [now] @ es1" "\<forall>t\<in>set (clock es1). now \<le> t" using es assms(2) by auto
    ultimately show ?thesis using window_covered [OF chunks, of h] by (metis less_imp_le)
  qed
qed

text \<open>
  C29 Every hour that a successful tick puts behind the watermark was listed to its last page, and
  every record listed with an expiry in it was deleted, or found changed or gone: the sweeper
  leaves no expired record behind, provided its clock does not step back during the tick.
\<close>

theorem sweep_misses_nothing:
  assumes "kpath (sweep_tick pages state) es (Some (Inr (rep, Some st)))" and "sorted (clock es)"
    and "h < watermark_hour st"
    and "\<And>old. due_state (hd (clock es)) state = Some old \<Longrightarrow> watermark_hour old \<le> h"
  shows "(first_page MANAGED_SELECTOR es \<or> (\<exists>hours. h \<in> set hours \<and> first_page (expiry_selector hours) es)) \<and>
    follows es \<and>
    (\<forall>sel lim tok pg. ListE sel lim tok (Inr pg) \<in> set es \<longrightarrow>
       (\<forall>r\<in>set (pg_items pg). expiry_hour (st_expires r) = h \<longrightarrow> answered_delete r es))"
proof -
  from tick_covers [OF assms] obtain start readings es' where es: "es = map NowE readings @ es'"
    and start: "h < settled_hour start" "\<forall>t\<in>set (clock es'). start \<le> t" and follows: "follows es'"
    and pages: "first_page MANAGED_SELECTOR es' \<or> (\<exists>hours. h \<in> set hours \<and> first_page (expiry_selector hours) es')"
      "pages_swept es'"
    by blast
  have events: "e \<in> set es \<longleftrightarrow> e \<in> set es'" if "\<forall>t. e \<noteq> NowE t" for e using that es by auto
  have "answered_delete r es'"
    if l: "ListE sel lim tok (Inr pg) \<in> set es'" "r \<in> set (pg_items pg)" "expiry_hour (st_expires r) = h" for sel lim tok pg r
  proof -
    from pages(2) l(1) obtain t where "NowE t \<in> set es'" "sweepable t r \<longrightarrow> answered_delete r es'"
      using l(2) unfolding pages_swept_def by blast
    with start l(3) settled_sweepable [of r start t] show ?thesis by (auto simp: set_clock)
  qed
  with pages(1) follows show ?thesis by (simp add: first_page_def follows_def answered_delete_def events)
qed

end
