(* ===== verification/Kube_Client.thy ===== *)
theory Kube_Client
  imports Kube_Safety
begin

text \<open>
  The \<open>kube\<close>-backed client of the Kubernetes store (\<open>oauthrelay-store-kubernetes/src/kube_client.rs\<close>)
  and the store running on it. The API of the cluster is a parameter: a record of the calls
  the client makes, over a world \<open>'s\<close>. \<open>run_store\<close> runs a store program on a client and a clock.
\<close>

section \<open>Answers of the API server\<close>

record api_status =
  as_code :: nat
  as_reason :: string
  as_details_name :: "string option"
  as_message :: string

datatype api_error = ApiStatus api_status | OtherError errors

fun error_chain :: "api_error \<Rightarrow> errors" where
  "error_chain (ApiStatus st) = [as_message st]"
| "error_chain (OtherError e) = e"

fun status_code :: "api_error \<Rightarrow> nat option" where
  "status_code (ApiStatus st) = Some (as_code st)"
| "status_code (OtherError e) = None"

definition is_object_not_found :: "api_status \<Rightarrow> string \<Rightarrow> bool" where
  "is_object_not_found st name \<longleftrightarrow>
     as_code st = 404 \<and> as_reason st = ''NotFound'' \<and> as_details_name st = Some name"

fun is_missing_object :: "api_error \<Rightarrow> string \<Rightarrow> bool" where
  "is_missing_object (ApiStatus st) name \<longleftrightarrow> is_object_not_found st name"
| "is_missing_object (OtherError e) name \<longleftrightarrow> False"

section \<open>The resource\<close>

record api_resource =
  ar_group :: string
  ar_version :: string
  ar_kind :: string
  ar_plural :: string

fun mapping_resource :: "record_mapping \<Rightarrow> api_resource" where
  "mapping_resource TransientRecord =
     \<lparr>ar_group = ''oauthrelay.dev'', ar_version = ''v1alpha1'', ar_kind = ''TransientRecord'',
      ar_plural = ''transientrecords''\<rparr>"
| "mapping_resource DexAuthCode =
     \<lparr>ar_group = ''dex.coreos.com'', ar_version = ''v1'', ar_kind = ''AuthCode'', ar_plural = ''authcodes''\<rparr>"

fun install_hint :: "record_mapping \<Rightarrow> string" where
  "install_hint TransientRecord = ''the CRD is installed (`oauthrelay crds`)''"
| "install_hint DexAuthCode = ''Dex is installed and running in that namespace (it creates the CRD)''"

section \<open>The client\<close>

record access_review =
  rv_namespace :: "string option"
  rv_verb :: "string option"
  rv_group :: "string option"
  rv_resource :: "string option"

text \<open>The calls of \<open>kube::Api\<close> the client makes; \<open>random32\<close> is \<open>rand::random\<close>.\<close>

record 's kube_calls =
  call_get :: "string \<Rightarrow> 's \<Rightarrow> (api_error + dynamic_object) \<times> 's"
  call_create :: "dynamic_object \<Rightarrow> 's \<Rightarrow> (api_error + unit) \<times> 's"
  call_replace :: "string \<Rightarrow> dynamic_object \<Rightarrow> 's \<Rightarrow> (api_error + unit) \<times> 's"
  call_delete :: "string \<Rightarrow> string option \<Rightarrow> 's \<Rightarrow> (api_error + unit) \<times> 's"
  call_list :: "string \<Rightarrow> nat \<Rightarrow> string option \<Rightarrow> 's \<Rightarrow> (api_error + dynamic_object list \<times> string option) \<times> 's"
  call_review :: "access_review \<Rightarrow> 's \<Rightarrow> (api_error + bool option) \<times> 's"
  random32 :: "'s \<Rightarrow> bytes \<times> 's"

record 's kube_access =
  ka_calls :: "'s kube_calls"
  ka_mapping :: record_mapping
  ka_namespace :: string
  ka_times :: time_lib

definition access_target :: "'s kube_access \<Rightarrow> string" where
  "access_target K = resource_name (ka_mapping K) @ '' in namespace '' @ quoted (ka_namespace K)"

definition access_permits :: "'s kube_access \<Rightarrow> string \<Rightarrow> 's \<Rightarrow> (errors + bool) \<times> 's" where
  "access_permits K verb w =
     (let res = mapping_resource (ka_mapping K) in
      case call_review (ka_calls K) \<lparr>rv_namespace = Some (ka_namespace K), rv_verb = Some verb,
             rv_group = Some (ar_group res), rv_resource = Some (ar_plural res)\<rparr> w of
        (Inl e, w') \<Rightarrow> (Inl (''create SelfSubjectAccessReview'' # error_chain e), w')
      | (Inr st, w') \<Rightarrow> (Inr (st = Some True), w'))"

definition access_get ::
    "'z libs_scheme \<Rightarrow> 's kube_access \<Rightarrow> string \<Rightarrow> 's \<Rightarrow> (errors + stored option) \<times> 's" where
  "access_get L K name w =
     (case call_get (ka_calls K) name w of
        (Inl e, w') \<Rightarrow>
          (if is_missing_object e name then Inr None else Inl (''get object'' # error_chain e), w')
      | (Inr ob, w') \<Rightarrow>
          (bind_result (mapping_decode L (ka_times K) (ka_mapping K) ob) (\<lambda>r. Inr (Some r)), w'))"

text \<open>\<open>RecordMapping::encode\<close> draws the random challenge of an \<open>AuthCode\<close>, after the timestamp.\<close>

definition access_encode ::
    "'z libs_scheme \<Rightarrow> 's kube_access \<Rightarrow> new_record \<Rightarrow> 's \<Rightarrow> (errors + dynamic_object) \<times> 's" where
  "access_encode L K rec w =
     (if ka_mapping K = DexAuthCode \<and> is_ok (format_time (ka_times K) (nr_expires rec))
      then (let (challenge, w') = random32 (ka_calls K) w in
            (mapping_encode L (ka_times K) (ka_mapping K) challenge (ka_namespace K) rec, w'))
      else (mapping_encode L (ka_times K) (ka_mapping K) [] (ka_namespace K) rec, w))"

definition access_create ::
    "'z libs_scheme \<Rightarrow> 's kube_access \<Rightarrow> new_record \<Rightarrow> 's \<Rightarrow> (errors + create_outcome) \<times> 's" where
  "access_create L K rec w =
     (case access_encode L K rec w of
        (Inl e, w') \<Rightarrow> (Inl e, w')
      | (Inr ob, w') \<Rightarrow>
          (case call_create (ka_calls K) ob w' of
             (Inr _, w'') \<Rightarrow> (Inr Created, w'')
           | (Inl e, w'') \<Rightarrow>
               (if status_code e = Some 409 then Inr AlreadyExists
                else Inl (''create object'' # error_chain e), w'')))"

definition access_replace ::
    "'z libs_scheme \<Rightarrow> 's kube_access \<Rightarrow> new_record \<Rightarrow> string \<Rightarrow> 's \<Rightarrow> (errors + replace_outcome) \<times> 's" where
  "access_replace L K rec version w =
     (case access_encode L K rec w of
        (Inl e, w') \<Rightarrow> (Inl e, w')
      | (Inr ob, w') \<Rightarrow>
          (case call_replace (ka_calls K) (nr_name rec) (ob\<lparr>do_version := Some version\<rparr>) w' of
             (Inr _, w'') \<Rightarrow> (Inr Replaced, w'')
           | (Inl e, w'') \<Rightarrow>
               (if status_code e = Some 409 then Inr ReplaceConflict
                else if is_missing_object e (nr_name rec) then Inr ReplaceNotFound
                else Inl (''replace object'' # error_chain e), w'')))"

definition access_delete ::
    "'s kube_access \<Rightarrow> string \<Rightarrow> string option \<Rightarrow> 's \<Rightarrow> (errors + delete_outcome) \<times> 's" where
  "access_delete K name version w =
     (case call_delete (ka_calls K) name version w of
        (Inr _, w') \<Rightarrow> (Inr Deleted, w')
      | (Inl e, w') \<Rightarrow>
          (if status_code e = Some 409 then Inr DeleteConflict
           else if is_missing_object e name then Inr DeleteNotFound
           else Inl (''delete object'' # error_chain e), w'))"

text \<open>Objects that do not decode are listed by name, and never touched.\<close>

fun sort_page :: "('o \<Rightarrow> errors + stored) \<Rightarrow> ('o \<Rightarrow> string option) \<Rightarrow> 'o list \<Rightarrow> page \<Rightarrow> page" where
  "sort_page decode name [] pg = pg"
| "sort_page decode name (ob # obs) pg =
     sort_page decode name obs
       (case decode ob of
          Inr r \<Rightarrow> pg\<lparr>pg_items := pg_items pg @ [r]\<rparr>
        | Inl _ \<Rightarrow> pg\<lparr>pg_undecodable := pg_undecodable pg @ [case name ob of Some n \<Rightarrow> n | None \<Rightarrow> []]\<rparr>)"

definition access_list ::
    "'z libs_scheme \<Rightarrow> 's kube_access \<Rightarrow> string \<Rightarrow> nat \<Rightarrow> string option \<Rightarrow> 's \<Rightarrow> (errors + page) \<times> 's" where
  "access_list L K sel lim tok w =
     (case call_list (ka_calls K) sel lim tok w of
        (Inl e, w') \<Rightarrow> (Inl (''list objects'' # error_chain e), w')
      | (Inr (obs, cont), w') \<Rightarrow>
          (Inr (sort_page (mapping_decode L (ka_times K) (ka_mapping K)) do_name obs
             \<lparr>pg_items = [], pg_undecodable = [],
              pg_continue = (case cont of Some t \<Rightarrow> if t = [] then None else Some t | None \<Rightarrow> None)\<rparr>), w'))"

text \<open>The store's view of its client: \<open>KubernetesStore::new\<close> on a \<open>KubeClient\<close>.\<close>

definition store_client :: "'z libs_scheme \<Rightarrow> 's kube_access \<Rightarrow> kube_client" where
  "store_client L K =
     \<lparr>kc_object_name = mapping_object_name L (ka_mapping K),
      kc_max_expiry = max_expiry_millis (ka_times K),
      kc_target = access_target K, kc_install_hint = install_hint (ka_mapping K)\<rparr>"

section \<open>Running a store program\<close>

text \<open>\<open>clock\<close> reads the system clock in milliseconds. A run returns its calls as well.\<close>

primrec run_store ::
    "'z libs_scheme \<Rightarrow> 's kube_access \<Rightarrow> ('s \<Rightarrow> nat) \<Rightarrow> 'r kprog \<Rightarrow> 's \<Rightarrow> 'r \<times> kevent list \<times> 's" where
  "run_store L K clock (KRet r) w = (r, [], w)"
| "run_store L K clock (KNow f) w =
     (let (r, es, w') = run_store L K clock (f (clock w)) w in (r, NowE (clock w) # es, w'))"
| "run_store L K clock (KGet n f) w =
     (let (a, w1) = access_get L K n w; (r, es, w') = run_store L K clock (f a) w1 in (r, GetE n a # es, w'))"
| "run_store L K clock (KCreate rec f) w =
     (let (a, w1) = access_create L K rec w; (r, es, w') = run_store L K clock (f a) w1
      in (r, CreateE rec a # es, w'))"
| "run_store L K clock (KReplace rec v f) w =
     (let (a, w1) = access_replace L K rec v w; (r, es, w') = run_store L K clock (f a) w1
      in (r, ReplaceE rec v a # es, w'))"
| "run_store L K clock (KDelete n v f) w =
     (let (a, w1) = access_delete K n v w; (r, es, w') = run_store L K clock (f a) w1
      in (r, DeleteE n v a # es, w'))"
| "run_store L K clock (KList sel lim tok f) w =
     (let (a, w1) = access_list L K sel lim tok w; (r, es, w') = run_store L K clock (f a) w1
      in (r, ListE sel lim tok a # es, w'))"
| "run_store L K clock (KPermits verb f) w =
     (let (a, w1) = access_permits K verb w; (r, es, w') = run_store L K clock (f a) w1
      in (r, PermitsE verb a # es, w'))"

lemma run_store_path:
  "run_store L K clock p w = (r, es, w') \<Longrightarrow> kpath p es r"
  by (induction p arbitrary: w es) (fastforce simp: Let_def split: prod.splits intro: kpath.intros)+

section \<open>What is not there, and what is not reachable\<close>

text \<open>
  A read says that a record is absent only when the API server says that this very object does
  not exist: a resource type that is not served, a proxy's answer and every other failure are
  errors, and so is an object that does not decode.
\<close>

lemma access_get_None:
  "fst (access_get L K name w) = Inr None \<longleftrightarrow>
     (\<exists>st. fst (call_get (ka_calls K) name w) = Inl (ApiStatus st) \<and> is_object_not_found st name)"
proof (cases "call_get (ka_calls K) name w")
  case (Pair a w')
  show ?thesis
  proof (cases a)
    case (Inl e)
    then show ?thesis using Pair by (cases e) (auto simp: access_get_def)
  next
    case (Inr ob)
    then show ?thesis
      using Pair by (cases "mapping_decode L (ka_times K) (ka_mapping K) ob") (auto simp: access_get_def)
  qed
qed

text \<open>
  An API that does not serve the resource (the definition was removed, a proxy answers, the server
  is down) fails every call with an answer that is neither a conflict nor the named object's own
  \<open>NotFound\<close>.
\<close>

fun unserved :: "api_error \<Rightarrow> bool" where
  "unserved (ApiStatus st) \<longleftrightarrow>
     as_code st \<noteq> 409 \<and> \<not> (as_code st = 404 \<and> as_reason st = ''NotFound'' \<and> as_details_name st \<noteq> None)"
| "unserved (OtherError e) \<longleftrightarrow> True"

lemma unserved_not_missing [simp]:
  "unserved e \<Longrightarrow> \<not> is_missing_object e name"
  "unserved e \<Longrightarrow> status_code e \<noteq> Some 409"
  by (cases e; auto simp: is_object_not_found_def)+

definition unreachable :: "'s kube_calls \<Rightarrow> bool" where
  "unreachable A \<longleftrightarrow>
     (\<forall>n w. \<exists>e. fst (call_get A n w) = Inl e \<and> unserved e) \<and>
     (\<forall>ob w. \<exists>e. fst (call_create A ob w) = Inl e \<and> unserved e) \<and>
     (\<forall>n v w. \<exists>e. fst (call_delete A n v w) = Inl e \<and> unserved e)"

lemma unreachable_calls:
  assumes "unreachable (ka_calls K)"
  shows "\<exists>e. fst (access_get L K n w) = Inl e"
    and "\<exists>e. fst (access_create L K rec w) = Inl e"
    and "\<exists>e. fst (access_delete K n v w) = Inl e"
proof -
  show "\<exists>e. fst (access_get L K n w) = Inl e"
  proof -
    from assms obtain e where "fst (call_get (ka_calls K) n w) = Inl e" "unserved e"
      unfolding unreachable_def by blast
    then show ?thesis by (cases "call_get (ka_calls K) n w") (auto simp: access_get_def)
  qed
  show "\<exists>e. fst (access_create L K rec w) = Inl e"
  proof (cases "access_encode L K rec w")
    case (Pair r w')
    show ?thesis
    proof (cases r)
      case (Inr ob)
      from assms obtain e where "fst (call_create (ka_calls K) ob w') = Inl e" "unserved e"
        unfolding unreachable_def by blast
      then show ?thesis using Pair Inr
        by (cases "call_create (ka_calls K) ob w'") (auto simp: access_create_def)
    qed (use Pair in \<open>simp add: access_create_def\<close>)
  qed
  show "\<exists>e. fst (access_delete K n v w) = Inl e"
  proof -
    from assms obtain e where "fst (call_delete (ka_calls K) n v w) = Inl e" "unserved e"
      unfolding unreachable_def by blast
    then show ?thesis by (cases "call_delete (ka_calls K) n v w") (auto simp: access_delete_def)
  qed
qed

lemma run_get_fails:
  assumes "\<exists>e. fst (access_get L K n w) = Inl e" and "\<And>e. f (Inl e) = KRet (Inl x)"
  shows "fst (run_store L K clock (KGet n f) w) = Inl x"
  using assms by (auto simp: Let_def case_prod_unfold)

lemma run_create_fails:
  assumes "\<exists>e. fst (access_create L K rec w) = Inl e" and "\<And>e. f (Inl e) = KRet (Inl x)"
  shows "fst (run_store L K clock (KCreate rec f) w) = Inl x"
  using assms by (auto simp: Let_def case_prod_unfold)

lemma run_delete_fails:
  assumes "\<exists>e. fst (access_delete K n v w) = Inl e" and "\<And>e. f (Inl e) = KRet (Inl x)"
  shows "fst (run_store L K clock (KDelete n v f) w) = Inl x"
  using assms by (auto simp: Let_def case_prod_unfold)

lemma run_now:
  "fst (run_store L K clock (KNow f) w) = fst (run_store L K clock (f (clock w)) w)"
  by (simp add: Let_def case_prod_unfold)

text \<open>C27 On such an API every operation of the store fails: nothing reads as absent, created or swapped.\<close>

theorem unreachable_store_fails:
  assumes "unreachable (ka_calls K)"
  shows "(\<exists>x. fst (run_store L K clock (kube_put_if_absent C key v ttl) w) = Inl x) \<and>
    (\<exists>x. fst (run_store L K clock (kube_get C key) w) = Inl x) \<and>
    (\<exists>x. fst (run_store L K clock (kube_compare_and_swap C key e v ttl) w) = Inl x) \<and>
    (\<exists>x. fst (run_store L K clock (kube_delete C key) w) = Inl x)"
proof (intro conjI)
  note fails = unreachable_calls [OF assms]
  show "\<exists>x. fst (run_store L K clock (kube_put_if_absent C key v ttl) w) = Inl x"
    unfolding kube_put_if_absent_def inner_put_if_absent_def
    by (auto simp: run_now REPLACE_ROUNDS_def numeral_3_eq_3 simp del: run_store.simps(2-8)
        intro!: exI run_create_fails fails split: sum.split)
  show "\<exists>x. fst (run_store L K clock (kube_get C key) w) = Inl x"
    unfolding kube_get_def inner_get_def
    by (auto simp: run_now simp del: run_store.simps(2-8) intro!: exI run_get_fails fails split: sum.split)
  show "\<exists>x. fst (run_store L K clock (kube_compare_and_swap C key e v ttl) w) = Inl x"
    unfolding kube_compare_and_swap_def inner_compare_and_swap_def
    by (auto simp: run_now simp del: run_store.simps(2-8) intro!: exI run_get_fails fails split: sum.split)
  show "\<exists>x. fst (run_store L K clock (kube_delete C key) w) = Inl x"
    unfolding kube_delete_def inner_delete_def
    by (auto simp: run_now simp del: run_store.simps(2-8) intro!: exI run_delete_fails fails split: sum.split)
qed

end
