(* ===== verification/Dynamo_Store.thy ===== *)
theory Dynamo_Store
  imports Store Text
begin

text \<open>
  The DynamoDB transient store (\<open>oauthrelay-store-dynamodb\<close>): the store over the \<open>DynamoDbClient\<close>
  trait (\<open>lib.rs\<close>) and the client over the AWS SDK (\<open>aws.rs\<close>). The trait's documented behaviour
  is the locale \<open>dynamo_table\<close>, which lets a write that applied be reported as a failed condition
  because its response was lost; the store keeps the contract of \<open>TransientStore\<close> over it. Times
  are nanoseconds since the epoch, of which the store reads whole seconds.
\<close>

section \<open>The client trait\<close>

definition KEY_ATTRIBUTE :: string where "KEY_ATTRIBUTE = ''pk''"
definition VALUE_ATTRIBUTE :: string where "VALUE_ATTRIBUTE = ''value''"
definition EXPIRES_ATTRIBUTE :: string where "EXPIRES_ATTRIBUTE = ''expires_at''"

record item =
  it_value :: bytes
  it_expires :: nat

datatype put_condition = AbsentOrExpired nat | LiveWithValue nat bytes

record put_request =
  pr_key :: string
  pr_item :: item
  pr_condition :: put_condition

datatype put_outcome = Written | ConditionFailed "item option"

record 's dynamo_client =
  dc_put :: "put_request \<Rightarrow> 's \<Rightarrow> (errors + put_outcome) \<times> 's"
  dc_get :: "string \<Rightarrow> 's \<Rightarrow> (errors + item option) \<times> 's"
  dc_delete :: "string \<Rightarrow> 's \<Rightarrow> (errors + unit) \<times> 's"

section \<open>The store\<close>

definition unix_now :: "nat \<Rightarrow> nat" where
  "unix_now t = as_secs t"

definition applied :: "put_outcome \<Rightarrow> bytes \<Rightarrow> nat \<Rightarrow> bool" where
  "applied outcome mine now =
     (case outcome of
        Written \<Rightarrow> True
      | ConditionFailed existing \<Rightarrow>
          (case existing of None \<Rightarrow> False | Some i \<Rightarrow> it_value i = mine \<and> now < it_expires i))"

definition whole_secs :: "duration \<Rightarrow> nat" where
  "whole_secs ttl = as_u64 (as_secs ttl + (if 0 < subsec_nanos ttl then 1 else 0))"

definition dynamo_expiry :: "nat \<Rightarrow> duration \<Rightarrow> nat" where
  "dynamo_expiry now ttl = saturating_add (saturating_add now (whole_secs ttl)) 1"

definition backend :: "errors + 'a \<Rightarrow> store_error + 'a" where
  "backend r = (case r of Inl _ \<Rightarrow> Inl StoreBackend | Inr x \<Rightarrow> Inr x)"

text \<open>The two requests the store makes at \<open>now\<close>.\<close>

definition absent_request :: "nat \<Rightarrow> string \<Rightarrow> bytes \<Rightarrow> duration \<Rightarrow> put_request" where
  "absent_request now key v ttl =
     \<lparr>pr_key = key, pr_item = \<lparr>it_value = v, it_expires = dynamo_expiry now ttl\<rparr>,
      pr_condition = AbsentOrExpired now\<rparr>"

definition swap_request :: "nat \<Rightarrow> string \<Rightarrow> bytes \<Rightarrow> bytes \<Rightarrow> duration \<Rightarrow> put_request" where
  "swap_request now key expected new ttl =
     \<lparr>pr_key = key, pr_item = \<lparr>it_value = new, it_expires = dynamo_expiry now ttl\<rparr>,
      pr_condition = LiveWithValue now expected\<rparr>"

lemma request_simps [simp]:
  "pr_key (absent_request now key v ttl) = key"
  "pr_item (absent_request now key v ttl) = \<lparr>it_value = v, it_expires = dynamo_expiry now ttl\<rparr>"
  "pr_condition (absent_request now key v ttl) = AbsentOrExpired now"
  "pr_key (swap_request now key e v ttl) = key"
  "pr_item (swap_request now key e v ttl) = \<lparr>it_value = v, it_expires = dynamo_expiry now ttl\<rparr>"
  "pr_condition (swap_request now key e v ttl) = LiveWithValue now e"
  by (simp_all add: absent_request_def swap_request_def)

definition dynamo_put_if_absent ::
    "'s dynamo_client \<Rightarrow> nat \<Rightarrow> string \<Rightarrow> bytes \<Rightarrow> duration \<Rightarrow> 's \<Rightarrow> (store_error + bool) \<times> 's" where
  "dynamo_put_if_absent C t key v ttl s =
     (case bind_result (validate_key key) (\<lambda>_. validate_ttl ttl) of
        Inl e \<Rightarrow> (Inl e, s)
      | Inr _ \<Rightarrow>
          let now = unix_now t; (r, s') = dc_put C (absent_request now key v ttl) s in
          (bind_result (backend r) (\<lambda>outcome. Inr (applied outcome v now)), s'))"

definition dynamo_get ::
    "'s dynamo_client \<Rightarrow> nat \<Rightarrow> string \<Rightarrow> 's \<Rightarrow> (store_error + entry option) \<times> 's" where
  "dynamo_get C t key s =
     (case validate_key key of
        Inl e \<Rightarrow> (Inl e, s)
      | Inr _ \<Rightarrow>
          let now = unix_now t; (r, s') = dc_get C key s in
          (bind_result (backend r) (\<lambda>found. Inr (case found of
             None \<Rightarrow> None
           | Some i \<Rightarrow> if now < it_expires i
                       then Some \<lparr>value_of = it_value i, expires_in = from_secs (it_expires i - now)\<rparr>
                       else None)), s'))"

definition dynamo_compare_and_swap ::
    "'s dynamo_client \<Rightarrow> nat \<Rightarrow> string \<Rightarrow> bytes \<Rightarrow> bytes \<Rightarrow> duration \<Rightarrow> 's \<Rightarrow> (store_error + bool) \<times> 's" where
  "dynamo_compare_and_swap C t key expected new ttl s =
     (case bind_result (validate_key key) (\<lambda>_. validate_ttl ttl) of
        Inl e \<Rightarrow> (Inl e, s)
      | Inr _ \<Rightarrow>
          let now = unix_now t; (r, s') = dc_put C (swap_request now key expected new ttl) s in
          (bind_result (backend r) (\<lambda>outcome. Inr (applied outcome new now)), s'))"

definition dynamo_delete :: "'s dynamo_client \<Rightarrow> nat \<Rightarrow> string \<Rightarrow> 's \<Rightarrow> (store_error + unit) \<times> 's" where
  "dynamo_delete C t key s =
     (case validate_key key of
        Inl e \<Rightarrow> (Inl e, s)
      | Inr _ \<Rightarrow> let (r, s') = dc_delete C key s in (backend r, s'))"

section \<open>The client over the AWS SDK\<close>

datatype attribute_value = AttrS string | AttrN string | AttrB bytes | AttrOther

type_synonym attributes = "(string \<times> attribute_value) list"

definition number :: "nat \<Rightarrow> attribute_value" where
  "number n = AttrN (decimal n)"

record condition_parts =
  cp_expression :: string
  cp_names :: "(string \<times> string) list"
  cp_values :: attributes

fun condition_parts_of :: "put_condition \<Rightarrow> condition_parts" where
  "condition_parts_of (AbsentOrExpired now) =
     \<lparr>cp_expression = ''attribute_not_exists(#pk) OR #exp <= :now'',
      cp_names = [(''#pk'', KEY_ATTRIBUTE), (''#exp'', EXPIRES_ATTRIBUTE)],
      cp_values = [('':now'', number now)]\<rparr>"
| "condition_parts_of (LiveWithValue now expected) =
     \<lparr>cp_expression = ''#exp > :now AND #val = :expected'',
      cp_names = [(''#exp'', EXPIRES_ATTRIBUTE), (''#val'', VALUE_ATTRIBUTE)],
      cp_values = [('':now'', number now), ('':expected'', AttrB expected)]\<rparr>"

definition decode_item :: "string \<Rightarrow> attributes \<Rightarrow> errors + item" where
  "decode_item key attrs =
     bind_result (case map_of attrs VALUE_ATTRIBUTE of
        Some (AttrB b) \<Rightarrow> Inr b
      | _ \<Rightarrow> Inl [''item '' @ quoted key @ '' has no binary '' @ VALUE_ATTRIBUTE @ '' attribute'']) (\<lambda>v.
     bind_result (case map_of attrs EXPIRES_ATTRIBUTE of
        Some (AttrN n) \<Rightarrow>
          ok_or [''item '' @ quoted key @ '' has an invalid '' @ EXPIRES_ATTRIBUTE, ''invalid number''] (parse_u64 n)
      | _ \<Rightarrow> Inl [''item '' @ quoted key @ '' has no numeric '' @ EXPIRES_ATTRIBUTE @ '' attribute'']) (\<lambda>e.
     Inr \<lparr>it_value = v, it_expires = e\<rparr>))"

definition key_attribute :: "string \<Rightarrow> attribute_value" where
  "key_attribute key = AttrS key"

text \<open>A \<open>PutItem\<close> call as the SDK's builder assembles it, and the service's answers.\<close>

record put_input =
  pi_table :: string
  pi_item :: attributes
  pi_condition :: condition_parts
  pi_return_old :: bool

datatype put_error = ConditionalCheckFailed "attributes option" | PutError errors

record 's dynamo_sdk =
  sdk_put_item :: "put_input \<Rightarrow> 's \<Rightarrow> (put_error + unit) \<times> 's"
  sdk_get_item :: "string \<Rightarrow> attributes \<Rightarrow> bool \<Rightarrow> 's \<Rightarrow> (errors + attributes option) \<times> 's"
  sdk_delete_item :: "string \<Rightarrow> attributes \<Rightarrow> 's \<Rightarrow> (errors + unit) \<times> 's"

definition put_attributes :: "put_request \<Rightarrow> attributes" where
  "put_attributes req =
     [(KEY_ATTRIBUTE, key_attribute (pr_key req)), (VALUE_ATTRIBUTE, AttrB (it_value (pr_item req))),
      (EXPIRES_ATTRIBUTE, number (it_expires (pr_item req)))]"

definition aws_put_item :: "'s dynamo_sdk \<Rightarrow> string \<Rightarrow> put_request \<Rightarrow> 's \<Rightarrow> (errors + put_outcome) \<times> 's" where
  "aws_put_item D table req s =
     (case sdk_put_item D \<lparr>pi_table = table, pi_item = put_attributes req,
             pi_condition = condition_parts_of (pr_condition req), pi_return_old = True\<rparr> s of
        (Inr _, s') \<Rightarrow> (Inr Written, s')
      | (Inl (ConditionalCheckFailed found), s') \<Rightarrow>
          (Inr (ConditionFailed (case found of
             None \<Rightarrow> None
           | Some attrs \<Rightarrow> (case decode_item (pr_key req) attrs of Inl _ \<Rightarrow> None | Inr i \<Rightarrow> Some i))), s')
      | (Inl (PutError e), s') \<Rightarrow> (Inl (''PutItem'' # e), s'))"

definition aws_get_item :: "'s dynamo_sdk \<Rightarrow> string \<Rightarrow> string \<Rightarrow> 's \<Rightarrow> (errors + item option) \<times> 's" where
  "aws_get_item D table key s =
     (case sdk_get_item D table [(KEY_ATTRIBUTE, key_attribute key)] True s of
        (Inl e, s') \<Rightarrow> (Inl (''GetItem'' # e), s')
      | (Inr None, s') \<Rightarrow> (Inr None, s')
      | (Inr (Some attrs), s') \<Rightarrow> (bind_result (decode_item key attrs) (\<lambda>i. Inr (Some i)), s'))"

definition aws_delete_item :: "'s dynamo_sdk \<Rightarrow> string \<Rightarrow> string \<Rightarrow> 's \<Rightarrow> (errors + unit) \<times> 's" where
  "aws_delete_item D table key s =
     (case sdk_delete_item D table [(KEY_ATTRIBUTE, key_attribute key)] s of
        (Inl e, s') \<Rightarrow> (Inl (''DeleteItem'' # e), s')
      | (Inr _, s') \<Rightarrow> (Inr (), s'))"

definition aws_dynamo_client :: "'s dynamo_sdk \<Rightarrow> string \<Rightarrow> 's dynamo_client" where
  "aws_dynamo_client D table =
     \<lparr>dc_put = aws_put_item D table, dc_get = aws_get_item D table, dc_delete = aws_delete_item D table\<rparr>"

lemma attributes_distinct [simp]:
  "KEY_ATTRIBUTE \<noteq> VALUE_ATTRIBUTE" "KEY_ATTRIBUTE \<noteq> EXPIRES_ATTRIBUTE" "VALUE_ATTRIBUTE \<noteq> EXPIRES_ATTRIBUTE"
  "VALUE_ATTRIBUTE \<noteq> KEY_ATTRIBUTE" "EXPIRES_ATTRIBUTE \<noteq> KEY_ATTRIBUTE" "EXPIRES_ATTRIBUTE \<noteq> VALUE_ATTRIBUTE"
  by (simp_all add: KEY_ATTRIBUTE_def VALUE_ATTRIBUTE_def EXPIRES_ATTRIBUTE_def)

text \<open>What is written decodes to what was meant.\<close>

lemma decode_put_attributes:
  "it_expires (pr_item req) \<le> u64_max \<Longrightarrow> decode_item key (put_attributes req) = Inr (pr_item req)"
  by (simp add: decode_item_def put_attributes_def number_def parse_u64_decimal ok_or_def)

section \<open>The store keeps the contract\<close>

text \<open>When a conditional write may replace the item of its key.\<close>

fun condition_holds :: "put_condition \<Rightarrow> item option \<Rightarrow> bool" where
  "condition_holds (AbsentOrExpired now) ob \<longleftrightarrow> (case ob of None \<Rightarrow> True | Some i \<Rightarrow> it_expires i \<le> now)"
| "condition_holds (LiveWithValue now expected) ob \<longleftrightarrow>
     (case ob of None \<Rightarrow> False | Some i \<Rightarrow> now < it_expires i \<and> it_value i = expected)"

fun condition_now :: "put_condition \<Rightarrow> nat" where
  "condition_now (AbsentOrExpired now) = now"
| "condition_now (LiveWithValue now expected) = now"

definition request_in_range :: "put_request \<Rightarrow> bool" where
  "request_in_range req \<longleftrightarrow> it_expires (pr_item req) \<le> u64_max \<and> condition_now (pr_condition req) \<le> u64_max"

definition dynamo_view :: "('s \<Rightarrow> string \<Rightarrow> item option) \<Rightarrow> 's \<Rightarrow> nat \<Rightarrow> string \<Rightarrow> bytes option" where
  "dynamo_view items s t k =
     (case items s k of None \<Rightarrow> None | Some i \<Rightarrow> if unix_now t < it_expires i then Some (it_value i) else None)"

definition dynamo_until :: "nat \<Rightarrow> duration \<Rightarrow> nat" where
  "dynamo_until t ttl = from_secs (dynamo_expiry (unix_now t) ttl)"

definition dynamo_fits :: "nat \<Rightarrow> duration \<Rightarrow> bool" where
  "dynamo_fits t ttl \<longleftrightarrow> as_secs t + as_secs ttl + 2 \<le> u64_max"

lemma dynamo_expiry_fits:
  assumes "dynamo_fits t ttl"
  shows "dynamo_expiry (unix_now t) ttl = as_secs t + as_secs ttl + (if 0 < subsec_nanos ttl then 2 else 1)"
    and "unix_now t < dynamo_expiry (unix_now t) ttl" and "dynamo_expiry (unix_now t) ttl \<le> u64_max"
    and "unix_now t \<le> u64_max"
  using assms
  by (auto simp: dynamo_fits_def dynamo_expiry_def whole_secs_def saturating_add_def as_u64_def unix_now_def
      min_def not_le)

lemma before_until: "t' < from_secs e \<longleftrightarrow> unix_now t' < e"
  by (simp add: from_secs_def unix_now_def as_secs_def less_mult_imp_div_less div_less_iff_less_mult)

lemma lasts_whole_ttl:
  assumes "dynamo_fits t ttl"
  shows "t + ttl \<le> dynamo_until t ttl"
proof -
  have "t = as_secs t * 1000000000 + t mod 1000000000" "ttl = as_secs ttl * 1000000000 + subsec_nanos ttl"
    by (simp_all add: as_secs_def subsec_nanos_def)
  moreover have "t mod 1000000000 < 1000000000" "subsec_nanos ttl < 1000000000" by (simp_all add: subsec_nanos_def)
  ultimately have "t + ttl \<le> (as_secs t + as_secs ttl + (if 0 < subsec_nanos ttl then 2 else 1)) * 1000000000"
    by (auto simp: algebra_simps)
  then show ?thesis using dynamo_expiry_fits(1) [OF assms] by (simp add: dynamo_until_def from_secs_def)
qed

lemma view_at: "dynamo_view items s t k = Some v \<longleftrightarrow>
    (\<exists>i. items s k = Some i \<and> unix_now t < it_expires i \<and> it_value i = v)"
  by (auto simp: dynamo_view_def split: option.splits)

lemma view_None: "dynamo_view items s t k = None \<longleftrightarrow> (\<forall>i. items s k = Some i \<longrightarrow> it_expires i \<le> unix_now t)"
  by (auto simp: dynamo_view_def split: option.splits)

lemma holds_absent: "condition_holds (AbsentOrExpired (unix_now t)) (items s k) \<longleftrightarrow> dynamo_view items s t k = None"
  by (auto simp: dynamo_view_def split: option.splits)

lemma holds_swap:
  "condition_holds (LiveWithValue (unix_now t) e) (items s k) \<longleftrightarrow> dynamo_view items s t k = Some e"
  by (auto simp: dynamo_view_def split: option.splits)

lemma unix_now_mono: "t \<le> t' \<Longrightarrow> unix_now t \<le> unix_now t'"
  by (simp add: unix_now_def as_secs_def div_le_mono)

text \<open>
  The behaviour of \<open>DynamoDbClient\<close> that its comments document: conditional writes are atomic, a
  failed condition returns the item that was there, and a write that applied may be reported as
  a failed condition that returns the item it wrote itself.
\<close>

locale dynamo_table =
  fixes C :: "'s dynamo_client" and items :: "'s \<Rightarrow> string \<Rightarrow> item option"
  assumes put_applies: "\<lbrakk>request_in_range req; condition_holds (pr_condition req) (items s (pr_key req))\<rbrakk> \<Longrightarrow>
      items (snd (dc_put C req s)) = (items s)(pr_key req \<mapsto> pr_item req) \<and>
      fst (dc_put C req s) \<in> {Inr Written, Inr (ConditionFailed (Some (pr_item req)))}"
    and put_refused: "\<lbrakk>request_in_range req; \<not> condition_holds (pr_condition req) (items s (pr_key req))\<rbrakk> \<Longrightarrow>
      items (snd (dc_put C req s)) = items s \<and>
      fst (dc_put C req s) = Inr (ConditionFailed (items s (pr_key req)))"
    and get_item: "fst (dc_get C k s) = Inr (items s k) \<and> items (snd (dc_get C k s)) = items s"
    and delete_item: "fst (dc_delete C k s) = Inr () \<and> items (snd (dc_delete C k s)) = (items s)(k := None)"
begin

text \<open>The store reads the outcome of a conditional write right, lost responses included.\<close>

lemma put_outcome:
  assumes range: "request_in_range req"
    and now: "condition_now (pr_condition req) = now" "now < it_expires (pr_item req)"
    and new: "\<forall>i. items s (pr_key req) = Some i \<and> now < it_expires i \<longrightarrow> it_value i \<noteq> it_value (pr_item req)"
  shows "\<exists>outcome s'. dc_put C req s = (Inr outcome, s') \<and>
    (applied outcome (it_value (pr_item req)) now \<longleftrightarrow> condition_holds (pr_condition req) (items s (pr_key req))) \<and>
    items s' = (if condition_holds (pr_condition req) (items s (pr_key req))
           then (items s)(pr_key req \<mapsto> pr_item req) else items s)"
proof (cases "condition_holds (pr_condition req) (items s (pr_key req))")
  case True
  from put_applies [OF range True] now show ?thesis
    by (cases "dc_put C req s") (auto simp: applied_def True)
next
  case False
  from put_refused [OF range False] False new show ?thesis
    by (cases "dc_put C req s") (auto simp: applied_def split: option.splits)
qed

lemma put_absent_outcome:
  assumes "dynamo_fits t ttl" and "dynamo_view items s t k \<noteq> Some v"
  shows "\<exists>outcome s'. dc_put C (absent_request (unix_now t) k v ttl) s = (Inr outcome, s') \<and>
    (applied outcome v (unix_now t) \<longleftrightarrow> dynamo_view items s t k = None) \<and>
    items s' = (if dynamo_view items s t k = None
      then (items s)(k \<mapsto> \<lparr>it_value = v, it_expires = dynamo_expiry (unix_now t) ttl\<rparr>) else items s)"
proof -
  have "request_in_range (absent_request (unix_now t) k v ttl)"
    using dynamo_expiry_fits [OF assms(1)] by (simp add: request_in_range_def)
  moreover have "\<forall>i. items s k = Some i \<and> unix_now t < it_expires i \<longrightarrow> it_value i \<noteq> v"
    using assms(2) by (simp add: view_at)
  ultimately show ?thesis
    using put_outcome [of "absent_request (unix_now t) k v ttl" "unix_now t" s] dynamo_expiry_fits(2) [OF assms(1)]
    by (simp add: holds_absent del: condition_holds.simps split del: if_split cong: if_cong)
qed

lemma swap_outcome:
  assumes "dynamo_fits t ttl" and "dynamo_view items s t k \<noteq> Some v"
  shows "\<exists>outcome s'. dc_put C (swap_request (unix_now t) k e v ttl) s = (Inr outcome, s') \<and>
    (applied outcome v (unix_now t) \<longleftrightarrow> dynamo_view items s t k = Some e) \<and>
    items s' = (if dynamo_view items s t k = Some e
      then (items s)(k \<mapsto> \<lparr>it_value = v, it_expires = dynamo_expiry (unix_now t) ttl\<rparr>) else items s)"
proof -
  have "request_in_range (swap_request (unix_now t) k e v ttl)"
    using dynamo_expiry_fits [OF assms(1)] by (simp add: request_in_range_def)
  moreover have "\<forall>i. items s k = Some i \<and> unix_now t < it_expires i \<longrightarrow> it_value i \<noteq> v"
    using assms(2) by (simp add: view_at)
  ultimately show ?thesis
    using put_outcome [of "swap_request (unix_now t) k e v ttl" "unix_now t" s] dynamo_expiry_fits(2) [OF assms(1)]
    by (simp add: holds_swap del: condition_holds.simps split del: if_split cong: if_cong)
qed

end

sublocale dynamo_table \<subseteq> store: transient_store "dynamo_put_if_absent C" "dynamo_get C"
  "dynamo_compare_and_swap C" "dynamo_delete C" "dynamo_view items" dynamo_until dynamo_fits
proof (unfold_locales, goal_cases)
  case (1 k ttl s now v)
  from put_absent_outcome [OF 1(3,2)] valid_requestD [OF 1(1)] show ?case
    by (auto simp: dynamo_put_if_absent_def Let_def backend_def)
next
  case (2 k ttl s now v t k')
  from put_absent_outcome [OF 2(3,2)] valid_requestD [OF 2(1)] show ?case
    by (auto simp: dynamo_put_if_absent_def Let_def dynamo_view_def [of items _ t] dynamo_until_def before_until)
next
  case (3 k now s)
  then show ?case using get_item [of k s]
    by (cases "dc_get C k s")
      (auto simp: dynamo_get_def is_ok_iff backend_def dynamo_view_def split: option.splits)
next
  case (4 k now t s k')
  then show ?case using get_item [of k s]
    by (cases "dc_get C k s") (auto simp: dynamo_get_def is_ok_iff dynamo_view_def Let_def)
next
  case (5 k ttl s now n e)
  from swap_outcome [OF 5(3,2), of e] valid_requestD [OF 5(1)] show ?case
    by (auto simp: dynamo_compare_and_swap_def Let_def backend_def)
next
  case (6 k ttl s now n t e k')
  from swap_outcome [OF 6(3,2), of e] valid_requestD [OF 6(1)] show ?case
    by (auto simp: dynamo_compare_and_swap_def Let_def dynamo_view_def [of items _ t] dynamo_until_def before_until)
next
  case (7 k now s)
  then show ?case using delete_item [of k s]
    by (cases "dc_delete C k s") (auto simp: dynamo_delete_def is_ok_iff backend_def)
next
  case (8 k now t s k')
  then show ?case using delete_item [of k s]
    by (cases "dc_delete C k s") (auto simp: dynamo_delete_def is_ok_iff dynamo_view_def)
next
  case (9 s t k t')
  then show ?case using unix_now_mono [of t t'] by (auto simp: view_None intro: order_trans)
next
  case (10 now ttl)
  then show ?case by (rule lasts_whole_ttl)
qed

section \<open>One winner\<close>

context dynamo_table begin

lemmas swaps_once = store.cas_single_winner

lemmas creates_once = store.put_single_winner

lemmas contract = store.transient_store_axioms

end

text \<open>Over any such table the store keeps the contract, so what rests on the contract holds on it.\<close>

lemma dynamo_keeps_contract:
  "dynamo_table C items \<Longrightarrow>
   transient_store (dynamo_put_if_absent C) (dynamo_get C) (dynamo_compare_and_swap C) (dynamo_delete C)
     (dynamo_view items) dynamo_until dynamo_fits"
  by (rule dynamo_table.contract)

text \<open>
  C21 Of all compare-and-swaps of one value at most one applies, and of all conditional creations of
  one key, while nobody replaces or deletes it and its time to live lasts, at most one applies:
  over any table that behaves as documented, even when the responses of writes are lost.
\<close>

theorem dynamo_single_winner:
  assumes "dynamo_table C items" and "proper_history ops" and "in_range dynamo_fits ops"
    and "unwritten (dynamo_view items) ops now s" and "\<forall>(t, op)\<in>set ops. now \<le> t"
  shows "((k, e) \<notin> set (written ops) \<longrightarrow>
      wins (is_cas_of k e) ops (fst (exec_ops (dynamo_put_if_absent C) (dynamo_get C)
        (dynamo_compare_and_swap C) (dynamo_delete C) ops s)) \<le> 1) \<and>
    ((\<forall>(t, op)\<in>set ops. op_key op = k \<longrightarrow> is_put_on k op \<or> op = SGet k) \<and>
     (\<forall>(t, op)\<in>set ops. \<forall>v ttl. op = SPut k v ttl \<longrightarrow> (\<forall>(t', op')\<in>set ops. t' < t + ttl)) \<longrightarrow>
      wins (is_put_on k) ops (fst (exec_ops (dynamo_put_if_absent C) (dynamo_get C)
        (dynamo_compare_and_swap C) (dynamo_delete C) ops s)) \<le> 1)"
  using dynamo_table.swaps_once [OF assms] dynamo_table.creates_once [OF assms] by blast

end
