(* ===== verification/Dynamo_Service.thy ===== *)
theory Dynamo_Service
  imports Dynamo_Store "HOL-Library.Word"
begin

text \<open>
  The DynamoDB store end to end: the AWS client of the model running on a table service kept in
  memory, which evaluates the condition expressions the client sends, word by word, and which
  can lose the response of a write, after which the SDK sends the request again. The client keeps
  the behaviour that the store relies on, so the store keeps the contract on it.
\<close>

section \<open>A table service\<close>

record table_state =
  tb_rows :: "string \<Rightarrow> (bytes \<times> 64 word) option"
  tb_lost :: "bool list"

text \<open>The part of the condition language that the client uses.\<close>

definition operand :: "(string \<times> string) list \<Rightarrow> attributes \<Rightarrow> attributes \<Rightarrow> string \<Rightarrow> attribute_value option" where
  "operand names vals attrs tok =
     (case map_of vals tok of
        Some v \<Rightarrow> Some v
      | None \<Rightarrow> Option.bind (map_of names tok) (map_of attrs))"

fun compare_operands :: "string \<Rightarrow> attribute_value option \<Rightarrow> attribute_value option \<Rightarrow> bool" where
  "compare_operands cmp (Some (AttrN a)) (Some (AttrN b)) \<longleftrightarrow>
     (cmp = ''<='' \<and> digits_value a \<le> digits_value b) \<or> (cmp = ''>'' \<and> digits_value b < digits_value a) \<or>
     (cmp = ''='' \<and> digits_value a = digits_value b)"
| "compare_operands cmp (Some (AttrB a)) (Some (AttrB b)) \<longleftrightarrow> cmp = ''='' \<and> a = b"
| "compare_operands cmp _ _ \<longleftrightarrow> False"

fun clause_holds :: "(string \<times> string) list \<Rightarrow> attributes \<Rightarrow> attributes \<Rightarrow> string list \<Rightarrow> bool" where
  "clause_holds names vals attrs [a, cmp, b] \<longleftrightarrow>
     compare_operands cmp (operand names vals attrs a) (operand names vals attrs b)"
| "clause_holds names vals attrs [f] \<longleftrightarrow>
     (case strip_prefix ''attribute_not_exists('' f of
        None \<Rightarrow> False
      | Some arg \<Rightarrow> Option.bind (map_of names (butlast arg)) (map_of attrs) = None)"
| "clause_holds names vals attrs _ \<longleftrightarrow> False"

definition evaluates :: "condition_parts \<Rightarrow> attributes \<Rightarrow> bool" where
  "evaluates parts attrs \<longleftrightarrow>
     (let ws = split_on (CHR '' '') (cp_expression parts);
          a = takeWhile (\<lambda>w. w \<noteq> ''OR'' \<and> w \<noteq> ''AND'') ws;
          holds = clause_holds (cp_names parts) (cp_values parts) attrs
      in case drop (length a) ws of
           [] \<Rightarrow> holds a
         | conn # b \<Rightarrow> if conn = ''OR'' then holds a \<or> holds b else holds a \<and> holds b)"

definition row_attributes :: "string \<Rightarrow> (bytes \<times> 64 word) option \<Rightarrow> attributes" where
  "row_attributes key row =
     (case row of
        None \<Rightarrow> []
      | Some (v, e) \<Rightarrow> [(KEY_ATTRIBUTE, AttrS key), (VALUE_ATTRIBUTE, AttrB v), (EXPIRES_ATTRIBUTE, number (unat e))])"

fun attribute_key :: "attributes \<Rightarrow> string" where
  "attribute_key attrs = (case map_of attrs KEY_ATTRIBUTE of Some (AttrS k) \<Rightarrow> k | _ \<Rightarrow> [])"

definition put_attempt :: "put_input \<Rightarrow> table_state \<Rightarrow> (put_error + unit) \<times> table_state" where
  "put_attempt inp w =
     (let key = attribute_key (pi_item inp); row = tb_rows w key in
      if evaluates (pi_condition inp) (row_attributes key row)
      then (case (map_of (pi_item inp) VALUE_ATTRIBUTE, map_of (pi_item inp) EXPIRES_ATTRIBUTE) of
              (Some (AttrB v), Some (AttrN n)) \<Rightarrow>
                (Inr (), w\<lparr>tb_rows := (tb_rows w)(key \<mapsto> (v, of_nat (digits_value n)))\<rparr>)
            | _ \<Rightarrow> (Inl (PutError [''ValidationException'']), w))
      else (Inl (ConditionalCheckFailed
              (if pi_return_old inp \<and> row \<noteq> None then Some (row_attributes key row) else None)), w))"

definition service_put :: "put_input \<Rightarrow> table_state \<Rightarrow> (put_error + unit) \<times> table_state" where
  "service_put inp w =
     (let (r, w') = put_attempt inp w in
      case tb_lost w' of
        [] \<Rightarrow> (r, w')
      | lost # losts \<Rightarrow>
          (let w'' = w'\<lparr>tb_lost := losts\<rparr> in if lost then put_attempt inp w'' else (r, w'')))"

definition service_get :: "attributes \<Rightarrow> table_state \<Rightarrow> (errors + attributes option) \<times> table_state" where
  "service_get key_attrs w =
     (let key = attribute_key key_attrs in
      (Inr (if tb_rows w key = None then None else Some (row_attributes key (tb_rows w key))), w))"

definition service_delete :: "attributes \<Rightarrow> table_state \<Rightarrow> (errors + unit) \<times> table_state" where
  "service_delete key_attrs w = (Inr (), w\<lparr>tb_rows := (tb_rows w)(attribute_key key_attrs := None)\<rparr>)"

definition memory_sdk :: "table_state dynamo_sdk" where
  "memory_sdk =
     \<lparr>sdk_put_item = service_put, sdk_get_item = (\<lambda>table key_attrs consistent. service_get key_attrs),
      sdk_delete_item = (\<lambda>table. service_delete)\<rparr>"

definition table_items :: "table_state \<Rightarrow> string \<Rightarrow> item option" where
  "table_items w key = map_option (\<lambda>(v, e). \<lparr>it_value = v, it_expires = unat e\<rparr>) (tb_rows w key)"

section \<open>The expressions mean what the conditions say\<close>

lemma condition_words:
  "split_on (CHR '' '') ''attribute_not_exists(#pk) OR #exp <= :now'' =
     [''attribute_not_exists(#pk)'', ''OR'', ''#exp'', ''<='', '':now'']"
  "split_on (CHR '' '') ''#exp > :now AND #val = :expected'' =
     [''#exp'', ''>'', '':now'', ''AND'', ''#val'', ''='', '':expected'']"
  by code_simp+

lemma strip_not_exists: "strip_prefix ''attribute_not_exists('' ''attribute_not_exists(#pk)'' = Some ''#pk)''"
  by code_simp

lemma unat_u64 [simp]: "unat (w :: 64 word) \<le> u64_max"
proof -
  have "unat w < 2 ^ 64" using unsigned_less [of w, where 'a = nat] by simp
  then show ?thesis by (simp add: u64_max_def)
qed

lemma unat_of_u64: "n \<le> u64_max \<Longrightarrow> unat (of_nat n :: 64 word) = n"
  by (simp add: u64_max_def unsigned_of_nat take_bit_nat_eq_self)

lemma evaluates_condition:
  "evaluates (condition_parts_of c) (row_attributes key row) \<longleftrightarrow>
     condition_holds c (map_option (\<lambda>(v, e). \<lparr>it_value = v, it_expires = unat e\<rparr>) row)"
  by (cases c; cases row)
    (auto simp: evaluates_def Let_def condition_words strip_not_exists row_attributes_def operand_def number_def)

lemma decode_row:
  "decode_item key (row_attributes key' (Some (v, e))) = Inr \<lparr>it_value = v, it_expires = unat e\<rparr>"
  by (simp add: decode_item_def row_attributes_def number_def parse_u64_decimal ok_or_def)

section \<open>The client keeps the documented behaviour\<close>

definition put_input_of :: "string \<Rightarrow> put_request \<Rightarrow> put_input" where
  "put_input_of table req =
     \<lparr>pi_table = table, pi_item = put_attributes req, pi_condition = condition_parts_of (pr_condition req),
      pi_return_old = True\<rparr>"

lemma attempt_applies:
  assumes "request_in_range req" and "condition_holds (pr_condition req) (table_items w (pr_key req))"
  shows "\<exists>w'. put_attempt (put_input_of table req) w = (Inr (), w') \<and> tb_lost w' = tb_lost w \<and>
    table_items w' = (table_items w)(pr_key req \<mapsto> pr_item req)"
  using assms
  by (auto simp: put_attempt_def put_input_of_def put_attributes_def key_attribute_def number_def
      evaluates_condition table_items_def fun_eq_iff unat_of_u64 request_in_range_def)

lemma attempt_refused:
  assumes "\<not> condition_holds (pr_condition req) (table_items w (pr_key req))"
  shows "put_attempt (put_input_of table req) w =
    (Inl (ConditionalCheckFailed (map_option (\<lambda>r. row_attributes (pr_key req) (Some r)) (tb_rows w (pr_key req)))), w)"
  using assms
  by (cases "tb_rows w (pr_key req)")
    (auto simp: put_attempt_def put_input_of_def put_attributes_def key_attribute_def
      evaluates_condition table_items_def)

lemma aws_put_memory:
  "aws_put_item memory_sdk table req w =
     (case service_put (put_input_of table req) w of
        (Inr _, s') \<Rightarrow> (Inr Written, s')
      | (Inl (ConditionalCheckFailed found), s') \<Rightarrow>
          (Inr (ConditionFailed (case found of
             None \<Rightarrow> None
           | Some attrs \<Rightarrow> (case decode_item (pr_key req) attrs of Inl _ \<Rightarrow> None | Inr i \<Rightarrow> Some i))), s')
      | (Inl (PutError e), s') \<Rightarrow> (Inl (''PutItem'' # e), s'))"
  by (simp add: aws_put_item_def memory_sdk_def put_input_of_def)

text \<open>A refused attempt, as the client reports it.\<close>

lemma refused_found:
  "(case map_option (\<lambda>r. row_attributes key (Some r)) (tb_rows w key) of
      None \<Rightarrow> None
    | Some attrs \<Rightarrow> (case decode_item key attrs of Inl _ \<Rightarrow> None | Inr i \<Rightarrow> Some i)) = table_items w key"
  by (auto simp: table_items_def decode_row split: option.splits)

lemma items_lost [simp]: "table_items (w\<lparr>tb_lost := ls\<rparr>) = table_items w"
  by (simp add: table_items_def fun_eq_iff)

interpretation aws: dynamo_table "aws_dynamo_client memory_sdk table" table_items for table
proof (unfold_locales, goal_cases)
  case (1 req s)
  from attempt_applies [OF 1] obtain w' where w': "put_attempt (put_input_of table req) s = (Inr (), w')"
    "table_items w' = (table_items s)(pr_key req \<mapsto> pr_item req)" by blast
  show ?case
  proof (cases "tb_lost w'")
    case Nil
    then show ?thesis by (simp add: aws_dynamo_client_def aws_put_memory service_put_def w')
  next
    case (Cons lost losts)
    let ?w = "w'\<lparr>tb_lost := losts\<rparr>"
    show ?thesis
    proof (cases "lost \<and> \<not> condition_holds (pr_condition req) (table_items ?w (pr_key req))")
      case True
      then show ?thesis
        using attempt_refused [of req ?w table] refused_found [of "pr_key req" ?w] Cons
        by (simp add: aws_dynamo_client_def aws_put_memory service_put_def w')
    next
      case False
      show ?thesis
      proof (cases lost)
        case True
        with False 1 have "condition_holds (pr_condition req) (table_items ?w (pr_key req))" by simp
        from attempt_applies [OF 1(1) this, of table] Cons True w'(2) show ?thesis
          by (auto simp: aws_dynamo_client_def aws_put_memory service_put_def w'(1))
      qed (simp add: aws_dynamo_client_def aws_put_memory service_put_def w' Cons)
    qed
  qed
next
  case (2 req s)
  let ?w = "\<lambda>ls. s\<lparr>tb_lost := ls\<rparr>"
  have refused: "put_attempt (put_input_of table req) (?w ls) = (Inl (ConditionalCheckFailed
      (map_option (\<lambda>r. row_attributes (pr_key req) (Some r)) (tb_rows s (pr_key req)))), ?w ls)" for ls
    using 2(2) attempt_refused [of req "?w ls" table] by simp
  have found: "(case map_option (\<lambda>r. row_attributes (pr_key req) (Some r)) (tb_rows s (pr_key req)) of
      None \<Rightarrow> None
    | Some attrs \<Rightarrow> (case decode_item (pr_key req) attrs of Inl _ \<Rightarrow> None | Inr i \<Rightarrow> Some i)) = table_items s (pr_key req)"
    by (rule refused_found)
  show ?case
    using 2(2) attempt_refused [of req s table]
    by (cases "tb_lost s")
      (simp_all add: aws_dynamo_client_def aws_put_memory service_put_def Let_def refused found del: case_map_option)
next
  case (3 k s)
  show ?case
    by (auto simp: aws_dynamo_client_def aws_get_item_def memory_sdk_def service_get_def key_attribute_def
        table_items_def decode_row Let_def)
next
  case (4 k s)
  show ?case
    by (auto simp: aws_dynamo_client_def aws_delete_item_def memory_sdk_def service_delete_def key_attribute_def
        table_items_def fun_eq_iff)
qed

end
