(* ===== verification/Store_Examples.thy ===== *)
theory Store_Examples
  imports Kube_Sweep Kube_Client Dynamo_Service Contracts
begin

text \<open>
  The stores on concrete histories: two clients of one Kubernetes record of which the winner loses
  its response, a pass of the sweeper, an API server that does not serve the resource, and a table
  whose writes lose their responses. Then the clock of the Kubernetes store, which reads whole
  milliseconds.
\<close>

section \<open>A Kubernetes API server with one record\<close>

definition demo_kube_client :: kube_client where
  "demo_kube_client =
     \<lparr>kc_object_name = (\<lambda>key. ''oauthrelay-'' @ key), kc_max_expiry = 1000000000000, kc_target = ''records'',
      kc_install_hint = ''the CRD is installed''\<rparr>"

definition demo_object :: "string \<Rightarrow> bytes \<Rightarrow> nat \<Rightarrow> stored" where
  "demo_object version v expires =
     \<lparr>st_name = ''oauthrelay-k'', st_version = version, st_value = v, st_expires = expires\<rparr>"

lemma demo_object_simps [simp]:
  "st_name (demo_object version v expires) = ''oauthrelay-k''" "st_version (demo_object version v expires) = version"
  "st_value (demo_object version v expires) = v" "st_expires (demo_object version v expires) = expires"
  "demo_object a v t = demo_object b w u \<longleftrightarrow> a = b \<and> v = w \<and> t = u"
  by (simp_all add: demo_object_def)

definition demo_record :: "bytes \<Rightarrow> nat \<Rightarrow> new_record" where
  "demo_record v expires = \<lparr>nr_name = ''oauthrelay-k'', nr_key = ''k'', nr_value = v, nr_expires = expires\<rparr>"

lemma demo_record_simps [simp]:
  "nr_name (demo_record v expires) = ''oauthrelay-k''" "nr_value (demo_record v expires) = v"
  "nr_expires (demo_record v expires) = expires"
  by (simp_all add: demo_record_def)

definition demo_server :: "stored list \<Rightarrow> kserver" where
  "demo_server rs =
     \<lparr>objs = (if rs = [] then Map.empty else [''oauthrelay-k'' \<mapsto> last rs]), past = set rs\<rparr>"

lemma demo_write:
  assumes "version \<notin> set (map st_version rs)"
  shows "kwrite (demo_record v expires) (demo_server rs) (demo_server (rs @ [demo_object version v expires]))"
  unfolding kwrite_def
  by (rule exI [of _ "demo_object version v expires"]) (use assms in \<open>auto simp: demo_server_def fun_eq_iff\<close>)

lemma demo_valid: "valid_server (demo_server [demo_object version v expires])"
  by (auto simp: valid_server_def demo_server_def split: if_splits)

lemma demo_valid_empty: "valid_server (demo_server [])"
  by (simp add: valid_server_def demo_server_def)

lemma demo_get: "a = Inr (objs s n) \<Longrightarrow> kstep (GetE n a) s s"
  by (auto intro: kstep.intros)

lemma demo_replace:
  assumes "rs \<noteq> []" and "st_version (last rs) = version" and "version' \<notin> set (map st_version rs)"
  shows "kstep (ReplaceE (demo_record v expires) version a) (demo_server rs)
    (demo_server (rs @ [demo_object version' v expires]))"
  by (rule step_replace [OF _ assms(2) demo_write [OF assms(3)]]) (use assms(1) in \<open>simp add: demo_server_def\<close>)

lemma demo_create:
  "kstep (CreateE (demo_record v expires) a) (demo_server []) (demo_server [demo_object version v expires])"
  using step_create [OF _ demo_write [of version "[]" v expires]] by (simp add: demo_server_def)

lemma short_valid: "key \<noteq> [] \<Longrightarrow> length key \<le> MAX_KEY_BYTES \<Longrightarrow> validate_key key = Inr ()"
  by (simp add: validate_key_def)

lemma demo_key_valid [simp]: "validate_key ''k'' = Inr ()"
  by (rule short_valid) (simp_all add: MAX_KEY_BYTES_def)

section \<open>One winner, although its response is lost\<close>

definition old_object :: stored where "old_object = demo_object ''1'' ''old'' 9000"
definition new_object :: stored where "new_object = demo_object ''2'' ''a'' 6000"

definition demo_race :: "kentry list" where
  "demo_race =
     (let s = demo_server [old_object]; s' = demo_server [old_object, new_object] in
      [(0, NowE 1000, s), (1, NowE 1000, s),
       (0, GetE ''oauthrelay-k'' (Inr (Some old_object)), s), (1, GetE ''oauthrelay-k'' (Inr (Some old_object)), s),
       (0, ReplaceE (demo_record ''a'' 6000) ''1'' (Inr ReplaceConflict), s'),
       (1, ReplaceE (demo_record ''b'' 6000) ''1'' (Inr ReplaceConflict), s'),
       (1, GetE ''oauthrelay-k'' (Inr (Some new_object)), s'), (0, GetE ''oauthrelay-k'' (Inr (Some new_object)), s')])"

lemma demo_race_runs: "kruns (demo_server [old_object]) demo_race"
  unfolding demo_race_def Let_def kruns.simps
  using demo_replace [of "[old_object]" "''1''" "''2''" "''a''" 6000 "Inr ReplaceConflict"]
  by (auto simp: old_object_def new_object_def demo_server_def intro!: kstep.intros demo_get)

lemma demo_race_fresh:
  "fresh_value 0 ''oauthrelay-k'' ''a'' (demo_server [old_object]) demo_race"
  "fresh_value 1 ''oauthrelay-k'' ''b'' (demo_server [old_object]) demo_race"
  by (simp_all add: fresh_value_def Kube_Safety.holds_def demo_server_def demo_race_def Let_def old_object_def)

lemma demo_client_simps [simp]:
  "kc_object_name demo_kube_client key = ''oauthrelay-'' @ key" "kc_max_expiry demo_kube_client = 1000000000000"
  by (simp_all add: demo_kube_client_def)

lemma demo_race_swap:
  "kpath (kube_compare_and_swap demo_kube_client ''k'' ''old'' ''a'' (from_millis 5000)) (events_of 0 demo_race) (Inr True)"
  by (simp add: kube_compare_and_swap_def inner_compare_and_swap_def validate_ttl_def kpath_simps demo_race_def Let_def kube_expiry_def
      checked_add_def millis_def u64_max_def old_object_def new_object_def demo_record_def)

lemma kube_cas_single_winner_witness:
  "\<not> kpath (kube_compare_and_swap demo_kube_client ''k'' ''old'' ''b'' (from_millis 5000)) (events_of 1 demo_race) (Inr True)"
proof (rule kube_cas_single_winner [OF _ demo_race_runs _ _ _ demo_race_swap])
  show "valid_server (demo_server [old_object])" by (simp add: old_object_def demo_valid)
  show "\<forall>(k, ev, s')\<in>set demo_race. \<not> writes (kc_object_name demo_kube_client ''k'') ''old'' ev"
    by (simp add: demo_race_def Let_def)
qed (use demo_race_fresh in simp_all)

section \<open>A pass of the sweeper\<close>

definition stale_object :: stored where "stale_object = demo_object ''1'' ''v'' 1000"

definition demo_sweep :: "kentry list" where
  "demo_sweep =
     (let s = demo_server [stale_object] in
      [(0, NowE 100000000, s), (0, NowE 100000000, s),
       (0, ListE MANAGED_SELECTOR SWEEP_PAGE_SIZE None
             (Inr \<lparr>pg_items = [stale_object], pg_undecodable = [], pg_continue = None\<rparr>), s),
       (0, NowE 100000001, s)])"

definition swept_server :: kserver where
  "swept_server = (demo_server [stale_object])\<lparr>objs := (objs (demo_server [stale_object]))(''oauthrelay-k'' := None)\<rparr>"

definition sweep_entry :: kentry where
  "sweep_entry = (0, DeleteE ''oauthrelay-k'' (Some ''1'') (Inr Deleted), swept_server)"

lemma demo_sweep_after: "after (demo_server [stale_object]) demo_sweep = demo_server [stale_object]"
  by (simp add: demo_sweep_def Let_def)

lemma stale_sweepable: "sweepable 100000001 stale_object"
  by (simp add: sweepable_def stale_object_def saturating_add_def millis_def SWEEP_GRACE_def u64_max_def)

lemma demo_sweep_runs: "kruns (demo_server [stale_object]) (demo_sweep @ [sweep_entry])"
proof -
  have "kstep (DeleteE ''oauthrelay-k'' (Some ''1'') (Inr Deleted)) (demo_server [stale_object]) swept_server"
    unfolding swept_server_def by (rule step_delete) (simp add: demo_server_def stale_object_def)
  moreover have "kruns (demo_server [stale_object]) demo_sweep"
    by (auto simp: demo_sweep_def Let_def demo_server_def intro!: kstep.intros)
  ultimately show ?thesis by (simp add: demo_sweep_after sweep_entry_def)
qed

lemma demo_sweep_path:
  "kpath (sweep_tick 1 None) (events_of 0 (demo_sweep @ [sweep_entry]))
     (Some (Inr (\<lparr>listed = 1, deleted = 1, skipped = 0\<rparr>, Some \<lparr>watermark_hour = settled_hour 100000000, last_full_ms = 100000000\<rparr>)))"
  using stale_sweepable
  by (simp add: sweep_tick_def due_state_def full_sweep_def kpath_simps demo_sweep_def sweep_entry_def Let_def
      empty_report_def stale_object_def)

lemma sweep_removes_expired_witness:
  "objs swept_server ''oauthrelay-k'' = None \<and> (\<exists>now. NowE now \<in> set (events_of 0 demo_sweep) \<and> sweepable now stale_object)"
proof (rule sweep_removes_expired [OF _ demo_sweep_runs demo_sweep_path])
  show "valid_server (demo_server [stale_object])" by (simp add: stale_object_def demo_valid)
  show "demo_sweep @ [sweep_entry]
      = demo_sweep @ (0, DeleteE ''oauthrelay-k'' (Some ''1'') (Inr Deleted), swept_server) # []"
    by (simp add: sweep_entry_def)
  show "objs (after (demo_server [stale_object]) demo_sweep) ''oauthrelay-k'' = Some stale_object"
    unfolding demo_sweep_after by (simp add: demo_server_def)
  show "objs swept_server ''oauthrelay-k'' \<noteq> Some stale_object" by (simp add: swept_server_def)
qed

lemma sweep_misses_nothing_witness:
  "answered_delete stale_object (events_of 0 (demo_sweep @ [sweep_entry]))"
proof -
  have listed: "ListE MANAGED_SELECTOR SWEEP_PAGE_SIZE None
      (Inr \<lparr>pg_items = [stale_object], pg_undecodable = [], pg_continue = None\<rparr>)
      \<in> set (events_of 0 (demo_sweep @ [sweep_entry]))"
    by (simp add: demo_sweep_def Let_def)
  have "sorted (clock (events_of 0 (demo_sweep @ [sweep_entry])))"
    by (simp add: demo_sweep_def sweep_entry_def Let_def)
  moreover have "0 < settled_hour 100000000"
    by (simp add: settled_hour_def expiry_hour_def EXPIRY_BUCKET_MS_def saturating_sub_def millis_def SWEEP_GRACE_def
        u64_max_def)
  moreover have "expiry_hour (st_expires stale_object) = 0"
    by (simp add: stale_object_def expiry_hour_def EXPIRY_BUCKET_MS_def)
  ultimately show ?thesis
    using sweep_misses_nothing [OF demo_sweep_path, of 0] listed by (fastforce simp: due_state_def)
qed

section \<open>A creation that is not reported\<close>

text \<open>
  The last round of a creation does not look whether a replacement that reports a conflict was its
  own. After two rounds lost to other clients, the third can take effect with its response lost:
  the operation reports that the record existed, although the record is its own and nobody else
  was told so.
\<close>

lemma kube_put_unreported:
  "\<exists>tr. kruns (demo_server [demo_object ''1'' ''x'' 10]) tr \<and>
    kpath (kube_put_if_absent demo_kube_client ''k'' ''mine'' (from_millis 5000)) (events_of 0 tr) (Inr False) \<and>
    objs (after (demo_server [demo_object ''1'' ''x'' 10]) tr) ''oauthrelay-k'' = Some (demo_object ''4'' ''mine'' 6000) \<and>
    (\<forall>i. i \<noteq> 0 \<longrightarrow> (\<forall>e\<in>set (events_of i tr). \<not> writes ''oauthrelay-k'' ''mine'' e))"
proof -
  let ?o = "\<lambda>n :: string. demo_object n ''x'' 10"
  let ?mine = "demo_record ''mine'' 6000"
  let ?s1 = "demo_server [?o ''1'']" and ?s2 = "demo_server [?o ''1'', ?o ''2'']"
    and ?s3 = "demo_server [?o ''1'', ?o ''2'', ?o ''3'']"
    and ?s4 = "demo_server [?o ''1'', ?o ''2'', ?o ''3'', demo_object ''4'' ''mine'' 6000]"
  let ?tr = "[(0 :: nat, NowE 1000, ?s1),
      (0, CreateE ?mine (Inr AlreadyExists), ?s1), (0, GetE ''oauthrelay-k'' (Inr (Some (?o ''1''))), ?s1),
      (1, ReplaceE (demo_record ''x'' 10) ''1'' (Inr Replaced), ?s2), (0, ReplaceE ?mine ''1'' (Inr ReplaceConflict), ?s2),
      (0, CreateE ?mine (Inr AlreadyExists), ?s2), (0, GetE ''oauthrelay-k'' (Inr (Some (?o ''2''))), ?s2),
      (1, ReplaceE (demo_record ''x'' 10) ''2'' (Inr Replaced), ?s3), (0, ReplaceE ?mine ''2'' (Inr ReplaceConflict), ?s3),
      (0, CreateE ?mine (Inr AlreadyExists), ?s3), (0, GetE ''oauthrelay-k'' (Inr (Some (?o ''3''))), ?s3),
      (0, ReplaceE ?mine ''3'' (Inr ReplaceConflict), ?s4)]"
  have "kstep (ReplaceE (demo_record ''x'' 10) ''1'' (Inr Replaced)) ?s1 ?s2"
    "kstep (ReplaceE (demo_record ''x'' 10) ''2'' (Inr Replaced)) ?s2 ?s3"
    "kstep (ReplaceE ?mine ''3'' (Inr ReplaceConflict)) ?s3 ?s4"
    using demo_replace [of "[?o ''1'']" "''1''" "''2''" "''x''" 10 "Inr Replaced"]
      demo_replace [of "[?o ''1'', ?o ''2'']" "''2''" "''3''" "''x''" 10 "Inr Replaced"]
      demo_replace [of "[?o ''1'', ?o ''2'', ?o ''3'']" "''3''" "''4''" "''mine''" 6000 "Inr ReplaceConflict"]
    by simp_all
  then have "kruns ?s1 ?tr" by (auto simp: demo_server_def intro!: step_now step_create_not step_replace_not demo_get)
  moreover have "kpath (kube_put_if_absent demo_kube_client ''k'' ''mine'' (from_millis 5000)) (events_of 0 ?tr) (Inr False)"
    by (simp add: kube_put_if_absent_def inner_put_if_absent_def validate_ttl_def kpath_simps kube_expiry_def
        checked_add_def millis_def u64_max_def REPLACE_ROUNDS_def numeral_3_eq_3 demo_record_def)
  moreover have "objs (after ?s1 ?tr) ''oauthrelay-k'' = Some (demo_object ''4'' ''mine'' 6000)"
    by (simp add: demo_server_def)
  moreover have "\<forall>i. i \<noteq> 0 \<longrightarrow> (\<forall>e\<in>set (events_of i ?tr). \<not> writes ''oauthrelay-k'' ''mine'' e)"
    by (auto split: if_splits)
  ultimately show ?thesis by blast
qed

section \<open>A resource that is not served\<close>

definition decimal_time :: time_lib where
  "decimal_time = \<lparr>time_format = (\<lambda>ms. if 0 \<le> ms then Some (decimal (nat ms)) else None), time_parse = (\<lambda>s. Some (int (digits_value s))),
     time_max_second = 1000000000\<rparr>"

definition absent_resource :: api_error where
  "absent_resource = ApiStatus \<lparr>as_code = 404, as_reason = ''NotFound'', as_details_name = None,
     as_message = ''the server could not find the requested resource''\<rparr>"

definition unserved_calls :: "unit kube_calls" where
  "unserved_calls =
     \<lparr>call_get = (\<lambda>n w. (Inl absent_resource, w)), call_create = (\<lambda>ob w. (Inl absent_resource, w)),
      call_replace = (\<lambda>n ob w. (Inl absent_resource, w)), call_delete = (\<lambda>n v w. (Inl absent_resource, w)),
      call_list = (\<lambda>sel lim tok w. (Inl absent_resource, w)), call_review = (\<lambda>r w. (Inr (Some True), w)),
      random32 = (\<lambda>w. (replicate 32 (CHR ''r''), w))\<rparr>"

definition unserved_access :: "unit kube_access" where
  "unserved_access =
     \<lparr>ka_calls = unserved_calls, ka_mapping = TransientRecord, ka_namespace = ''relay'', ka_times = decimal_time\<rparr>"

lemma unreachable_store_fails_witness:
  "\<exists>x. fst (run_store demo_libs unserved_access (\<lambda>_. 1000) (kube_get (store_client demo_libs unserved_access) ''k'') ()) = Inl x"
proof (rule unreachable_store_fails [THEN conjunct2, THEN conjunct1])
  show "unreachable (ka_calls unserved_access)"
    by (simp add: unreachable_def unserved_access_def unserved_calls_def absent_resource_def)
qed

section \<open>A record and its object\<close>

lemma decimal_time_parses: "time_format decimal_time ms = Some stamp \<Longrightarrow> time_parse decimal_time stamp = Some ms"
  by (auto simp: decimal_time_def split: if_splits)

definition demo_stored :: dynamic_object where
  "demo_stored =
     \<lparr>do_name = Some ''oauthrelay-k'', do_namespace = Some ''relay'',
      do_labels = Some (labels ''k'' 6000), do_version = None,
      do_data = encode_data demo_libs DexAuthCode (replicate 32 (CHR ''r'')) (demo_record ''a'' 6000) (decimal 6000)\<rparr>"

lemma demo_stored_encodes:
  "mapping_encode demo_libs decimal_time DexAuthCode (replicate 32 (CHR ''r'')) ''relay'' (demo_record ''a'' 6000) = Inr demo_stored"
  by (simp add: mapping_encode_def format_time_def decimal_time_def i64_max_def ok_or_def demo_stored_def demo_record_def)

lemma record_roundtrip_witness:
  "mapping_decode demo_libs decimal_time DexAuthCode (demo_stored\<lparr>do_version := Some ''7''\<rparr>) =
     Inr \<lparr>st_name = ''oauthrelay-k'', st_version = ''7'', st_value = ''a'', st_expires = 6000\<rparr>"
  using record_roundtrip [OF demo_stored_encodes _ decimal_time_parses, of "''7''"] by (simp add: demo_libs_def)

section \<open>A table whose writes lose their responses\<close>

definition demo_table :: table_state where
  "demo_table = \<lparr>tb_rows = [''k'' \<mapsto> (''old'', 100)], tb_lost = [True, False]\<rparr>"

lemma demo_swaps_fit: "in_range dynamo_fits demo_swaps" "unwritten (dynamo_view table_items) demo_swaps 0 demo_table"
  by (auto simp: in_range_def [of _ "[]"] demo_swaps_def dynamo_fits_def as_secs_def u64_max_def unwritten_def dynamo_view_def
      table_items_def demo_table_def split: if_splits option.splits)

lemma dynamo_single_winner_witness:
  "wins (is_cas_of ''k'' ''old'') demo_swaps
     (fst (exec_ops (dynamo_put_if_absent (aws_dynamo_client memory_sdk ''records''))
        (dynamo_get (aws_dynamo_client memory_sdk ''records''))
        (dynamo_compare_and_swap (aws_dynamo_client memory_sdk ''records''))
        (dynamo_delete (aws_dynamo_client memory_sdk ''records'')) demo_swaps demo_table)) \<le> 1"
proof (rule dynamo_single_winner [THEN conjunct1, THEN mp])
  show "dynamo_table (aws_dynamo_client memory_sdk ''records'') table_items" by (rule aws.dynamo_table_axioms)
  show "proper_history demo_swaps" by (rule demo_swaps_proper)
  show "in_range dynamo_fits demo_swaps" "unwritten (dynamo_view table_items) demo_swaps 0 demo_table"
    by (rule demo_swaps_fit)+
  show "\<forall>(t, op)\<in>set demo_swaps. 0 \<le> t" "(''k'', ''old'') \<notin> set (written demo_swaps)" by (simp_all add: demo_swaps_def)
qed

section \<open>The clock of the Kubernetes store\<close>

text \<open>
  The store floors its clock and the time to live to whole milliseconds, so a record can go up to
  two milliseconds early, and never more.
\<close>

lemma kube_lasts_almost:
  assumes "kube_expiry C (unix_millis (int a)) ttl = Inr expires" and "kc_max_expiry C < u64_max"
    and "b + 2000000 \<le> a + ttl"
  shows "unix_millis (int b) < expires"
proof -
  have b: "b div 1000000 < a div 1000000 + ttl div 1000000" using assms(3) by linarith
  from assms(1) have e: "expires = min (a div 1000000) u64_max + min (ttl div 1000000) u64_max"
      "expires \<le> kc_max_expiry C"
    by (auto simp: kube_expiry_def checked_add_def unix_millis_def millis_def as_millis_def
        split: option.splits if_splits)
  with assms(2) have "expires = a div 1000000 + ttl div 1000000" by linarith
  with b show ?thesis by (simp add: unix_millis_def as_millis_def)
qed

text \<open>
  The contract of the store trait says that a record stays visible for at least its time to live.
  In this store it need not: created at the last nanosecond of a millisecond for \<open>m\<close> milliseconds,
  it is absent \<open>999999\<close> nanoseconds before that time is over.
\<close>

theorem kube_expires_early:
  assumes "validate_key key = Inr ()" and "0 < m" and "t + m \<le> kc_max_expiry C" and "kc_max_expiry C \<le> u64_max"
  shows "\<exists>a b creation reading.
    a \<le> b \<and> b < a + from_millis m \<and>
    kruns \<lparr>objs = Map.empty, past = {}\<rparr> (creation @ reading) \<and>
    kpath (kube_put_if_absent C key v (from_millis m)) (events_of 0 creation) (Inr True) \<and>
    hd (events_of 0 creation) = NowE (unix_millis (int a)) \<and>
    kpath (kube_get C key) (events_of 1 reading) (Inr None) \<and>
    hd (events_of 1 reading) = NowE (unix_millis (int b))"
proof -
  define n where "n = kc_object_name C key"
  define rec where "rec = \<lparr>nr_name = n, nr_key = key, nr_value = v, nr_expires = t + m\<rparr>"
  define ob where "ob = \<lparr>st_name = n, st_version = ''1'', st_value = v, st_expires = t + m\<rparr>"
  define s where "s = \<lparr>objs = [n \<mapsto> ob], past = {ob}\<rparr>"
  let ?a = "t * 1000000 + 999999" and ?b = "(t + m) * 1000000"
  let ?creation = "[(0 :: nat, NowE t, \<lparr>objs = Map.empty, past = {}\<rparr>), (0, CreateE rec (Inr Created), s)]"
  let ?reading = "[(1 :: nat, NowE (t + m), s), (1, GetE n (Inr (Some ob)), s)]"
  have clock: "unix_millis (int ?a) = t" "unix_millis (int ?b) = t + m"
    using assms(3,4) by (simp_all add: unix_millis_def as_millis_def)
  have "kstep (CreateE rec (Inr Created)) \<lparr>objs = Map.empty, past = {}\<rparr> s"
    by (rule step_create) (auto simp: kwrite_def rec_def s_def ob_def fun_eq_iff intro!: exI [of _ ob])
  then have "kruns \<lparr>objs = Map.empty, past = {}\<rparr> (?creation @ ?reading)"
    by (auto simp: s_def intro!: kstep.intros demo_get)
  moreover have "kpath (kube_put_if_absent C key v (from_millis m)) (events_of 0 ?creation) (Inr True)"
    using assms
    by (simp add: kube_put_if_absent_def inner_put_if_absent_def validate_ttl_def from_millis_def kpath_simps kube_expiry_def checked_add_def
        millis_def as_millis_def REPLACE_ROUNDS_def numeral_3_eq_3 rec_def n_def)
  moreover have "kpath (kube_get C key) (events_of 1 ?reading) (Inr None)"
    using assms(1) by (simp add: kube_get_def inner_get_def kpath_simps n_def ob_def)
  moreover have "?a \<le> ?b" "?b < ?a + from_millis m" using assms(2) by (simp_all add: from_millis_def)
  moreover have "hd (events_of 0 ?creation) = NowE (unix_millis (int ?a))"
    "hd (events_of 1 ?reading) = NowE (unix_millis (int ?b))"
    unfolding clock by simp_all
  ultimately show ?thesis by blast
qed

lemma kube_expires_early_witness:
  "\<exists>a b creation reading.
    a \<le> b \<and> b < a + from_millis 1 \<and>
    kruns \<lparr>objs = Map.empty, past = {}\<rparr> (creation @ reading) \<and>
    kpath (kube_put_if_absent demo_kube_client ''k'' ''a'' (from_millis 1)) (events_of 0 creation) (Inr True) \<and>
    hd (events_of 0 creation) = NowE (unix_millis (int a)) \<and>
    kpath (kube_get demo_kube_client ''k'') (events_of 1 reading) (Inr None) \<and>
    hd (events_of 1 reading) = NowE (unix_millis (int b))"
  by (rule kube_expires_early [of _ _ 1999]) (simp_all add: u64_max_def)

end
