(* ===== verification/Crd_Schema.thy ===== *)
theory Crd_Schema
  imports Config
begin

text \<open>
  The schemas of the Kubernetes resources: the rules \<open>oauthrelay-core\<close> adds to the generated ones
  (\<open>config.rs\<close>, \<open>id_token_policy.rs\<close>), and the rewriting of unions into structural schemas
  (\<open>oauthrelay-provider-kubernetes/src/schema.rs\<close>). What the schema generator makes of a type is a
  parameter. An object is the list of its members; comparisons ignore their order, as the map's do.
  \<open>None\<close> is a panic.
\<close>

section \<open>Rules added to generated schemas\<close>

definition required_only :: "string list \<Rightarrow> string \<times> json" where
  "required_only names = (''required'', JArray (map JString names))"

definition jwks_alternatives :: json where
  "jwks_alternatives = JArray
     [JObject [required_only [''jwks''], (''not'', JObject [required_only [''jwksUrl'']])],
      JObject [required_only [''jwksUrl''], (''not'', JObject [required_only [''jwks'']])],
      JObject [required_only [''issuer''],
        (''not'', JObject [(''anyOf'', JArray [JObject [required_only [''jwks'']], JObject [required_only [''jwksUrl'']]])])]]"

definition jwks_variant :: "json \<Rightarrow> json" where
  "jwks_variant variant =
     (case variant of
        JObject kvs \<Rightarrow>
          if Option.bind (json_get variant ''properties'') (\<lambda>p. json_get p ''jwksUrl'') \<noteq> None
          then JObject (al_insert ''oneOf'' jwks_alternatives kvs) else variant
      | _ \<Rightarrow> variant)"

definition require_jwks_source :: "(string \<times> json) list \<Rightarrow> (string \<times> json) list" where
  "require_jwks_source schema =
     (case Option.bind (map_of schema ''oneOf'') as_array of
        Some variants \<Rightarrow> al_insert ''oneOf'' (JArray (map jwks_variant variants)) schema
      | None \<Rightarrow> schema)"

definition section_rule :: "string \<Rightarrow> json" where
  "section_rule name = JObject [required_only [name],
     (''properties'', JObject [(name, JObject [(''not'', JObject [(''enum'', JArray [JNull])])])])]"

definition require_policy_section :: "(string \<times> json) list \<Rightarrow> (string \<times> json) list" where
  "require_policy_section schema =
     al_insert ''anyOf'' (JArray [section_rule ''required'', section_rule ''anyOf'']) schema"

definition non_empty_claim_set :: "(string \<times> json) list \<Rightarrow> (string \<times> json) list" where
  "non_empty_claim_set schema = al_insert ''minProperties'' (JNumber (PosInt 1)) schema"

definition require_rotating_for_public :: "(string \<times> json) list \<Rightarrow> (string \<times> json) list" where
  "require_rotating_for_public schema =
     al_insert ''x-kubernetes-validations'' (JArray [JObject
       [(''rule'', JString (''self.clientAuthentication.type != '' @ [CHR 0x27] @ ''Public'' @ [CHR 0x27] @
          '' || (has(self.refreshTokens) && has(self.refreshTokens.mode) && self.refreshTokens.mode == '' @
          [CHR 0x27] @ ''rotating'' @ [CHR 0x27] @ '')'')),
        (''message'', JString ''clientAuthentication.type: Public requires refreshTokens.mode: rotating'')]]) schema"

section \<open>Validation branches\<close>

definition ANNOTATIONS :: "string list" where
  "ANNOTATIONS = [''type'', ''title'', ''description'', ''default'', ''nullable'', ''additionalProperties'', ''$schema'']"

fun validation_only :: "json \<Rightarrow> json"
  and validation_members :: "(string \<times> json) list \<Rightarrow> (string \<times> json) list"
  and validation_fields :: "(string \<times> json) list \<Rightarrow> (string \<times> json) list"
  and validation_list :: "json list \<Rightarrow> json list" where
  "validation_only (JObject kvs) = JObject (validation_members kvs)"
| "validation_only (JArray vs) = JArray vs"
| "validation_only (JString s) = JString s"
| "validation_only (JNumber n) = JNumber n"
| "validation_only (JBool b) = JBool b"
| "validation_only JNull = JNull"
| "validation_members [] = []"
| "validation_members ((k, v) # kvs) =
     (if k \<in> set ANNOTATIONS then validation_members kvs
      else (k, if k = ''properties'' \<or> k = ''$defs''
               then (case v of JObject ps \<Rightarrow> JObject (validation_fields ps) | _ \<Rightarrow> v)
               else if k = ''items'' \<or> k = ''not'' then validation_only v
               else if k = ''allOf'' \<or> k = ''oneOf'' \<or> k = ''anyOf''
               then (case v of JArray vs \<Rightarrow> JArray (validation_list vs) | _ \<Rightarrow> v)
               else v) # validation_members kvs)"
| "validation_fields [] = []"
| "validation_fields ((name, v) # ps) = (name, validation_only v) # validation_fields ps"
| "validation_list [] = []"
| "validation_list (v # vs) = validation_only v # validation_list vs"

section \<open>Merging the declarations of a property\<close>

text \<open>Equality of values: members are compared by name, whatever their order.\<close>

fun same_json :: "json \<Rightarrow> json \<Rightarrow> bool"
  and same_members :: "(string \<times> json) list \<Rightarrow> (string \<times> json) list \<Rightarrow> bool"
  and same_list :: "json list \<Rightarrow> json list \<Rightarrow> bool" where
  "same_json (JObject a) w = (case w of JObject b \<Rightarrow> length a = length b \<and> same_members a b | _ \<Rightarrow> False)"
| "same_json (JArray vs) w = (case w of JArray ws \<Rightarrow> same_list vs ws | _ \<Rightarrow> False)"
| "same_json (JString s) w = (w = JString s)"
| "same_json (JNumber n) w = (w = JNumber n)"
| "same_json (JBool b) w = (w = JBool b)"
| "same_json JNull w = (w = JNull)"
| "same_members [] b = True"
| "same_members ((k, v) # a) b =
     ((case map_of b k of Some w \<Rightarrow> same_json v w | None \<Rightarrow> False) \<and> same_members a b)"
| "same_list [] ws = (ws = [])"
| "same_list (v # vs) ws = (case ws of [] \<Rightarrow> False | w # ws' \<Rightarrow> same_json v w \<and> same_list vs ws')"

definition same_member :: "json option \<Rightarrow> json option \<Rightarrow> bool" where
  "same_member x y =
     (case x of None \<Rightarrow> y = None | Some v \<Rightarrow> (case y of None \<Rightarrow> False | Some w \<Rightarrow> same_json v w))"

definition DIFFERING :: "string list" where
  "DIFFERING = [''enum'', ''const'', ''allOf'', ''not'', ''minLength'', ''maxLength'', ''pattern'', ''required'']"

definition merge_kind :: "(string \<times> json) list \<Rightarrow> (string \<times> json) list \<Rightarrow> (string \<times> json) list option" where
  "merge_kind a b =
     (case (map_of a ''type'', map_of b ''type'') of
        (None, Some kind) \<Rightarrow> Some (al_insert ''type'' kind a)
      | (Some l, Some r) \<Rightarrow> if same_json l r then Some a else None
      | _ \<Rightarrow> Some a)"

definition drop_differing :: "(string \<times> json) list \<Rightarrow> (string \<times> json) list \<Rightarrow> (string \<times> json) list" where
  "drop_differing a b = fold (\<lambda>key a. if \<not> same_member (map_of a key) (map_of b key) then al_remove key a else a) DIFFERING a"

lemma map_of_size: "map_of kvs k = Some v \<Longrightarrow> size v < size (JObject kvs)"
  by (induction kvs) (auto split: if_splits)

function merge_property :: "json \<Rightarrow> json \<Rightarrow> json option"
  and merge_fields :: "(string \<times> json) list \<Rightarrow> (string \<times> json) list \<Rightarrow> (string \<times> json) list option" where
  "merge_property existing other =
     (if same_json existing other then Some existing
      else case existing of
        JObject a \<Rightarrow>
          (case other of
             JObject b \<Rightarrow>
               (case map_of b ''properties'' of
                  Some (JObject ps) \<Rightarrow>
                    Option.bind (merge_kind a b) (\<lambda>a'.
                    Option.bind (case map_of (drop_differing a' b) ''properties'' of
                        None \<Rightarrow> Some [] | Some (JObject t) \<Rightarrow> Some t | Some _ \<Rightarrow> None) (\<lambda>target.
                    map_option (\<lambda>t. JObject (al_insert ''properties'' (JObject t) (drop_differing a' b)))
                      (merge_fields ps target)))
                | _ \<Rightarrow> map_option (\<lambda>a'. JObject (drop_differing a' b)) (merge_kind a b))
           | _ \<Rightarrow> None)
      | _ \<Rightarrow> None)"
| "merge_fields [] target = Some target"
| "merge_fields ((name, field) # ps) target =
     Option.bind (case map_of target name of Some old \<Rightarrow> merge_property old field | None \<Rightarrow> Some field) (\<lambda>merged.
       merge_fields ps (al_insert name merged target))"
  by pat_completeness auto
termination
  by (relation "measure (\<lambda>x. case x of Inl (a, b) \<Rightarrow> 2 * size b | Inr (ps, t) \<Rightarrow> 2 * size (JObject ps) + 1)")
    (auto dest!: map_of_size)

declare merge_property.simps [simp del]

section \<open>Unions\<close>

definition as_members :: "json option \<Rightarrow> (string \<times> json) list" where
  "as_members v = (case v of Some (JObject kvs) \<Rightarrow> kvs | _ \<Rightarrow> [])"

definition forbids :: "string \<Rightarrow> json" where
  "forbids name = JObject [(''not'', JObject [required_only [name]])]"

text \<open>A closed branch forbids the fields of the other branches.\<close>

definition close_branch :: "string list \<Rightarrow> json \<Rightarrow> json option" where
  "close_branch names branch =
     (if json_get branch ''additionalProperties'' = Some (JBool False)
      then
        let forbidden = map forbids (filter (\<lambda>name. \<not> contains_key (as_members (json_get branch ''properties'')) name) names) in
        if forbidden = [] then Some branch
        else (case branch of
                JObject b \<Rightarrow>
                  (case map_of b ''allOf'' of
                     None \<Rightarrow> Some (JObject (al_insert ''allOf'' (JArray forbidden) b))
                   | Some (JArray vs) \<Rightarrow> Some (JObject (al_insert ''allOf'' (JArray (vs @ forbidden)) b))
                   | Some _ \<Rightarrow> None)
              | _ \<Rightarrow> None)
      else Some branch)"

fun merge_branches :: "json list \<Rightarrow> (string \<times> json) list \<Rightarrow> (string \<times> json) list option" where
  "merge_branches [] ps = Some ps"
| "merge_branches (b # bs) ps =
     Option.bind (merge_fields (as_members (json_get b ''properties'')) ps) (merge_branches bs)"

fun option_map :: "('a \<Rightarrow> 'b option) \<Rightarrow> 'a list \<Rightarrow> 'b list option" where
  "option_map f [] = Some []"
| "option_map f (x # xs) = Option.bind (f x) (\<lambda>y. map_option (Cons y) (option_map f xs))"

definition hoist :: "string \<Rightarrow> (string \<times> json) list \<Rightarrow> (string \<times> json) list option" where
  "hoist kind ob =
     (case map_of ob kind of
        Some (JArray branches) \<Rightarrow>
          let ob' = al_remove kind ob in
          if \<forall>b\<in>set branches. json_get b ''properties'' = None then Some (al_insert kind (JArray branches) ob')
          else
            Option.bind (merge_branches branches (as_members (map_of ob' ''properties''))) (\<lambda>ps.
            Option.bind (option_map (close_branch (map fst ps)) branches) (\<lambda>closed.
              let rules = map (\<lambda>v. JObject [(''allOf'', JArray [validation_only v])]) closed in
              Some (al_insert kind (JArray rules) (al_insert ''properties'' (JObject ps)
                (al_insert ''type'' (JString ''object'') ob')))))
      | _ \<Rightarrow> Some ob)"

fun adapt :: "json \<Rightarrow> json option"
  and adapt_list :: "json list \<Rightarrow> json list option"
  and adapt_members :: "(string \<times> json) list \<Rightarrow> (string \<times> json) list option" where
  "adapt (JArray vs) = map_option JArray (adapt_list vs)"
| "adapt (JObject kvs) =
     Option.bind (adapt_members kvs) (\<lambda>kvs1.
     Option.bind (hoist ''oneOf'' kvs1) (\<lambda>kvs2.
     map_option JObject (hoist ''anyOf'' kvs2)))"
| "adapt (JString s) = Some (JString s)"
| "adapt (JNumber n) = Some (JNumber n)"
| "adapt (JBool b) = Some (JBool b)"
| "adapt JNull = Some JNull"
| "adapt_list [] = Some []"
| "adapt_list (v # vs) = Option.bind (adapt v) (\<lambda>v'. map_option (Cons v') (adapt_list vs))"
| "adapt_members [] = Some []"
| "adapt_members ((k, v) # kvs) = Option.bind (adapt v) (\<lambda>v'. map_option (Cons (k, v')) (adapt_members kvs))"

text \<open>\<open>generated\<close> is the root schema of the type, with its subschemas inlined.\<close>

definition structural :: "json \<Rightarrow> json option" where
  "structural generated =
     Option.bind (adapt generated) (\<lambda>v.
       case v of JObject kvs \<Rightarrow> Some (JObject (al_remove ''$schema'' kvs)) | _ \<Rightarrow> None)"

section \<open>Which fields a schema admits\<close>

text \<open>
  The reading of a schema as a condition on the set of fields an object has: what it requires,
  what it closes, and its boolean combinations. Conditions on the values of fields do not matter.
\<close>

fun admits :: "json \<Rightarrow> string set \<Rightarrow> bool"
  and admits_members :: "string set \<Rightarrow> (string \<times> json) list \<Rightarrow> string set \<Rightarrow> bool"
  and admitted :: "json list \<Rightarrow> string set \<Rightarrow> bool list" where
  "admits (JObject kvs) K = admits_members (fst ` set (as_members (map_of kvs ''properties''))) kvs K"
| "admits (JBool b) K = b"
| "admits (JArray vs) K = True"
| "admits (JString s) K = True"
| "admits (JNumber n) K = True"
| "admits JNull K = True"
| "admits_members declared [] K = True"
| "admits_members declared ((k, v) # kvs) K =
     ((if k = ''required'' then (case v of JArray names \<Rightarrow> \<forall>n\<in>set names. \<forall>s. n = JString s \<longrightarrow> s \<in> K | _ \<Rightarrow> True)
       else if k = ''additionalProperties'' then v = JBool False \<longrightarrow> K \<subseteq> declared
       else if k = ''not'' then \<not> admits v K
       else if k = ''allOf'' then (case v of JArray vs \<Rightarrow> list_all id (admitted vs K) | _ \<Rightarrow> True)
       else if k = ''anyOf'' then (case v of JArray vs \<Rightarrow> list_ex id (admitted vs K) | _ \<Rightarrow> True)
       else if k = ''oneOf'' then (case v of JArray vs \<Rightarrow> length (filter id (admitted vs K)) = 1 | _ \<Rightarrow> True)
       else True) \<and> admits_members declared kvs K)"
| "admitted [] K = []"
| "admitted (v # vs) K = admits v K # admitted vs K"

lemma admitted_map: "admitted vs K = map (\<lambda>v. admits v K) vs"
  by (induction vs) auto

text \<open>The same, member by member.\<close>

definition keyword :: "string set \<Rightarrow> string \<Rightarrow> json \<Rightarrow> string set \<Rightarrow> bool" where
  "keyword declared k v K \<longleftrightarrow> admits_members declared [(k, v)] K"

lemma admits_members_Cons:
  "admits_members d ((k, v) # kvs) K \<longleftrightarrow> keyword d k v K \<and> admits_members d kvs K"
  unfolding keyword_def admits_members.simps by (simp only: simp_thms)

lemma admits_members_iff: "admits_members declared kvs K \<longleftrightarrow> (\<forall>(k, v)\<in>set kvs. keyword declared k v K)"
  by (induction kvs) (auto simp: admits_members_Cons simp del: admits_members.simps(2))

lemma keyword_combined:
  "keyword d ''not'' v K \<longleftrightarrow> \<not> admits v K"
  "keyword d ''allOf'' (JArray vs) K \<longleftrightarrow> list_all id (admitted vs K)"
  "keyword d ''anyOf'' (JArray vs) K \<longleftrightarrow> list_ex id (admitted vs K)"
  "keyword d ''oneOf'' (JArray vs) K \<longleftrightarrow> length (filter id (admitted vs K)) = 1"
  by (simp_all add: keyword_def)

lemma keyword_all: "keyword d ''allOf'' (JArray vs) K \<longleftrightarrow> (\<forall>v\<in>set vs. admits v K)"
  by (simp add: keyword_combined admitted_map list_all_iff)

lemma keyword_closed: "keyword d ''additionalProperties'' v K \<longleftrightarrow> (v = JBool False \<longrightarrow> K \<subseteq> d)"
  by (simp add: keyword_def)

lemma keyword_any_declared:
  "k \<noteq> ''additionalProperties'' \<Longrightarrow> keyword d k v K \<longleftrightarrow> keyword d' k v K"
  unfolding keyword_def admits_members.simps by (simp only: if_False)

lemma keyword_silent:
  "k \<in> {''properties'', ''$defs'', ''items'', ''type'', ''title'', ''description'', ''default'', ''nullable'', ''$schema''} \<Longrightarrow>
   keyword d k v K"
  by (elim insertE emptyE) (simp_all add: keyword_def)

lemma keyword_annotation:
  "k \<in> set ANNOTATIONS \<Longrightarrow> (k = ''additionalProperties'' \<longrightarrow> v \<noteq> JBool False) \<Longrightarrow> keyword d k v K"
  by (cases "k = ''additionalProperties''") (simp add: keyword_closed, rule keyword_silent, simp add: ANNOTATIONS_def)

lemma keyword_not_array:
  "k \<in> {''allOf'', ''anyOf'', ''oneOf''} \<Longrightarrow> \<forall>vs. v \<noteq> JArray vs \<Longrightarrow> keyword d k v K"
  by (elim insertE emptyE; cases v) (simp_all add: keyword_def)

lemma admits_object:
  "admits (JObject kvs) K \<longleftrightarrow> (\<forall>(k, v)\<in>set kvs. keyword (fst ` set (as_members (map_of kvs ''properties''))) k v K)"
  by (simp add: admits_members_iff)

section \<open>Validation branches admit the same fields\<close>

text \<open>Schemas that close nothing in the positions that concern the same object.\<close>

fun open_schema :: "json \<Rightarrow> bool"
  and open_members :: "(string \<times> json) list \<Rightarrow> bool"
  and open_list :: "json list \<Rightarrow> bool" where
  "open_schema (JObject kvs) = open_members kvs"
| "open_schema (JArray vs) = True"
| "open_schema (JString s) = True"
| "open_schema (JNumber n) = True"
| "open_schema (JBool b) = True"
| "open_schema JNull = True"
| "open_members [] = True"
| "open_members ((k, v) # kvs) =
     ((k = ''additionalProperties'' \<longrightarrow> v \<noteq> JBool False) \<and> (k = ''not'' \<longrightarrow> open_schema v) \<and>
      (k \<in> {''allOf'', ''anyOf'', ''oneOf''} \<longrightarrow> (case v of JArray vs \<Rightarrow> open_list vs | _ \<Rightarrow> True)) \<and> open_members kvs)"
| "open_list [] = True"
| "open_list (v # vs) = (open_schema v \<and> open_list vs)"

definition open_member :: "string \<Rightarrow> json \<Rightarrow> bool" where
  "open_member k v \<longleftrightarrow> open_members [(k, v)]"

lemma open_members_Cons: "open_members ((k, v) # kvs) \<longleftrightarrow> open_member k v \<and> open_members kvs"
  unfolding open_member_def open_members.simps by (simp only: simp_thms conj_assoc)

text \<open>One member of a branch, before and after.\<close>

lemma validation_member:
  assumes "k \<notin> set ANNOTATIONS"
    and "k = ''not'' \<longrightarrow> admits (validation_only v) K = admits v K"
    and "\<forall>vs. k \<in> {''allOf'', ''anyOf'', ''oneOf''} \<longrightarrow> v = JArray vs \<longrightarrow>
           admitted (validation_list vs) K = admitted vs K"
  shows "admits_members d (validation_members ((k, v) # kvs)) K \<longleftrightarrow>
     keyword d' k v K \<and> admits_members d (validation_members kvs) K"
proof -
  have ap: "k \<noteq> ''additionalProperties''" using assms(1) by (auto simp: ANNOTATIONS_def)
  consider (silent) "k = ''properties'' \<or> k = ''$defs'' \<or> k = ''items''" | (neg) "k = ''not''"
    | (all) "k = ''allOf''" | (any) "k = ''anyOf''" | (one) "k = ''oneOf''"
    | (other) "k \<notin> {''properties'', ''$defs'', ''items'', ''not'', ''allOf'', ''anyOf'', ''oneOf''}"
    unfolding insert_iff empty_iff by metis
  then show ?thesis
  proof cases
    case silent
    then have "keyword e k w K" for e w by (intro keyword_silent) auto
    then show ?thesis using assms(1) by (simp only: validation_members.simps if_False admits_members_Cons simp_thms)
  next
    case neg
    then show ?thesis using assms(1,2) by (simp add: admits_members_Cons keyword_combined del: admits_members.simps(2))
  next
    case all
    show ?thesis
      by (cases v) (use all assms(1,3) in \<open>simp_all add: admits_members_Cons keyword_combined keyword_not_array
          del: admits_members.simps(2)\<close>)
  next
    case any
    show ?thesis
      by (cases v) (use any assms(1,3) in \<open>simp_all add: admits_members_Cons keyword_combined keyword_not_array
          del: admits_members.simps(2)\<close>)
  next
    case one
    show ?thesis
      by (cases v) (use one assms(1,3) in \<open>simp_all add: admits_members_Cons keyword_combined keyword_not_array
          del: admits_members.simps(2)\<close>)
  next
    case other
    then have "validation_members ((k, v) # kvs) = (k, v) # validation_members kvs" using assms(1) by simp
    then show ?thesis by (simp only: admits_members_Cons keyword_any_declared [OF ap, of d v K d'])
  qed
qed

lemma validation_admits:
  "open_schema v \<Longrightarrow> admits (validation_only v) K = admits v K"
  "open_members kvs \<Longrightarrow> admits_members d (validation_members kvs) K = admits_members d' kvs K"
  "length (validation_fields ps) = length ps"
  "open_list vs \<Longrightarrow> admitted (validation_list vs) K = admitted vs K"
proof (induction v and kvs and ps and vs arbitrary: and d d' and and
    rule: validation_only_validation_members_validation_fields_validation_list.induct)
  case (8 k v kvs)
  show ?case
  proof (cases "k \<in> set ANNOTATIONS")
    case True
    then show ?thesis using 8 keyword_annotation [OF True, of v d' K]
      by (simp add: admits_members_Cons del: admits_members.simps(2))
  next
    case False
    have "admits_members d (validation_members ((k, v) # kvs)) K \<longleftrightarrow>
        keyword d' k v K \<and> admits_members d (validation_members kvs) K"
    proof (rule validation_member [OF False])
      show "k = ''not'' \<longrightarrow> admits (validation_only v) K = admits v K"
      proof
        assume k: "k = ''not''"
        with \<open>open_members ((k, v) # kvs)\<close> have "open_schema v" by simp
        with k False show "admits (validation_only v) K = admits v K" by (intro 8) simp_all
      qed
      show "\<forall>vs. k \<in> {''allOf'', ''anyOf'', ''oneOf''} \<longrightarrow> v = JArray vs \<longrightarrow>
          admitted (validation_list vs) K = admitted vs K"
      proof (intro allI impI)
        fix vs
        assume k: "k \<in> {''allOf'', ''anyOf'', ''oneOf''}" and v: "v = JArray vs"
        have "open_list vs" using \<open>open_members ((k, v) # kvs)\<close> k by (auto simp: v)
        with k False v show "admitted (validation_list vs) K = admitted vs K" by (intro 8) auto
      qed
    qed
    also have "\<dots> \<longleftrightarrow> admits_members d' ((k, v) # kvs) K"
      using 8(5) [OF False, of d d'] False \<open>open_members ((k, v) # kvs)\<close>
      by (simp only: admits_members_Cons open_members_Cons simp_thms)
    finally show ?thesis .
  qed
qed auto

section \<open>A closed branch and its rule admit the same fields\<close>

lemma map_of_set: "distinct (map fst kvs) \<Longrightarrow> (k, v) \<in> set kvs \<longleftrightarrow> map_of kvs k = Some v"
  by (metis map_of_is_SomeI map_of_SomeD)

lemma distinct_al_remove: "distinct (map fst kvs) \<Longrightarrow> distinct (map fst (al_remove k kvs))"
  by (simp add: al_remove_def distinct_map_filter)

lemma admits_members_map:
  "distinct (map fst kvs) \<Longrightarrow> admits_members d kvs K \<longleftrightarrow> (\<forall>k v. map_of kvs k = Some v \<longrightarrow> keyword d k v K)"
  by (simp only: admits_members_iff Ball_def split_paired_All prod.case map_of_set)

lemma open_members_map:
  assumes "distinct (map fst kvs)"
  shows "open_members kvs \<longleftrightarrow> (\<forall>k v. map_of kvs k = Some v \<longrightarrow> open_member k v)"
proof -
  have "open_members kvs \<longleftrightarrow> (\<forall>(k, v)\<in>set kvs. open_member k v)"
    by (induction kvs) (auto simp: open_members_Cons simp del: open_members.simps(2))
  then show ?thesis by (simp only: Ball_def split_paired_All prod.case map_of_set [OF assms])
qed

lemma open_list_all: "open_list vs \<longleftrightarrow> (\<forall>v\<in>set vs. open_schema v)"
  by (induction vs) auto

lemma validation_members_closed:
  "validation_members (al_remove ''additionalProperties'' kvs) = validation_members kvs"
proof (induction kvs)
  case (Cons kv kvs)
  obtain k v where kv: "kv = (k, v)" by fastforce
  show ?case
  proof (cases "k = ''additionalProperties''")
    case True
    then have "k \<in> set ANNOTATIONS" by (simp add: ANNOTATIONS_def)
    then have "validation_members (kv # kvs) = validation_members kvs" by (simp only: kv validation_members.simps if_True)
    with Cons True show ?thesis by (simp add: al_remove_def kv del: validation_members.simps)
  next
    case False
    then have "al_remove ''additionalProperties'' (kv # kvs) = kv # al_remove ''additionalProperties'' kvs"
      by (simp add: al_remove_def kv)
    then show ?thesis by (simp only: Cons kv validation_members.simps)
  qed
qed (simp add: al_remove_def)

lemma forbids_open [simp]: "open_schema (forbids name)"
  by (simp add: forbids_def required_only_def)

lemma admits_forbids [simp]: "admits (forbids name) K \<longleftrightarrow> name \<notin> K"
  by (simp add: forbids_def required_only_def)

lemma all_members_inserted:
  "(\<forall>k v. (m(a \<mapsto> x)) k = Some v \<longrightarrow> P k v) \<longleftrightarrow> P a x \<and> (\<forall>k v. k \<noteq> a \<longrightarrow> m k = Some v \<longrightarrow> P k v)"
  by auto

lemma all_members_removed:
  "(\<forall>k v. (m(a := None)) k = Some v \<longrightarrow> P k v) \<longleftrightarrow> (\<forall>k v. k \<noteq> a \<longrightarrow> m k = Some v \<longrightarrow> P k v)"
  by auto

lemma all_members_at:
  "(\<forall>k v. m k = Some v \<longrightarrow> P k v) \<longleftrightarrow>
   (\<forall>v. m a = Some v \<longrightarrow> P a v) \<and> (\<forall>k v. k \<noteq> a \<longrightarrow> m k = Some v \<longrightarrow> P k v)"
  by metis

text \<open>Adding a rule to the \<open>allOf\<close> of a branch.\<close>

definition declared_fields :: "(string \<times> json) list \<Rightarrow> string set" where
  "declared_fields b = fst ` set (as_members (map_of b ''properties''))"

lemma rules_added:
  assumes dist: "distinct (map fst b)" and opened: "open_members (al_remove ''additionalProperties'' b)"
    and all: "map_of b ''allOf'' = None \<and> vs = [] \<or> map_of b ''allOf'' = Some (JArray vs)"
    and rules: "\<forall>r\<in>set rules. open_schema r"
  shows "admits (validation_only (JObject (al_insert ''allOf'' (JArray (vs @ rules)) b))) K \<longleftrightarrow>
     admits_members d (al_remove ''additionalProperties'' b) K \<and> (\<forall>r\<in>set rules. admits r K)"
proof -
  let ?b = "al_insert ''allOf'' (JArray (vs @ rules)) b"
  let ?r = "al_remove ''additionalProperties'' ?b"
  have db: "distinct (map fst ?b)" using dist by (rule distinct_al_insert)
  note dr = distinct_al_remove [OF db, of "''additionalProperties''"]
    and ds = distinct_al_remove [OF dist, of "''additionalProperties''"]
  have look: "map_of ?r = (map_of (al_remove ''additionalProperties'' b))(''allOf'' \<mapsto> JArray (vs @ rules))"
    by (auto simp: fun_eq_iff)
  have old: "map_of (al_remove ''additionalProperties'' b) ''allOf'' = map_of b ''allOf''" by simp
  have vs: "open_list vs"
  proof (cases "vs = []")
    case False
    then have "open_member ''allOf'' (JArray vs)" using opened all open_members_map [OF ds] old by metis
    then show ?thesis by (simp add: open_member_def)
  qed simp
  have "open_member ''allOf'' (JArray (vs @ rules))"
    using vs rules by (auto simp: open_member_def open_list_all)
  then have opn: "open_members ?r"
    using opened by (simp add: open_members_map [OF dr] open_members_map [OF ds] look del: map_of_al_remove)
  have "admits (validation_only (JObject ?b)) K \<longleftrightarrow> admits_members d ?r K"
    by (simp only: validation_only.simps admits.simps validation_admits(2) [OF opn]
        validation_members_closed [of ?b, symmetric])
  also have "\<dots> \<longleftrightarrow> admits_members d (al_remove ''additionalProperties'' b) K \<and> (\<forall>r\<in>set rules. admits r K)"
  proof -
    have new: "keyword d ''allOf'' (JArray (vs @ rules)) K \<longleftrightarrow>
        keyword d ''allOf'' (JArray vs) K \<and> (\<forall>r\<in>set rules. admits r K)" by (auto simp: keyword_all)
    have none: "keyword d ''allOf'' (JArray []) K" by (simp add: keyword_all)
    have "(\<forall>v. map_of (al_remove ''additionalProperties'' b) ''allOf'' = Some v \<longrightarrow> keyword d ''allOf'' v K) \<longleftrightarrow>
        keyword d ''allOf'' (JArray vs) K"
      using all none unfolding old by (elim disjE conjE) simp_all
    then show ?thesis
      unfolding admits_members_map [OF dr] admits_members_map [OF ds] look all_members_inserted new
        all_members_at [where m = "map_of (al_remove ''additionalProperties'' b)" and a = "''allOf''"]
      by (simp only: conj_ac)
  qed
  finally show ?thesis .
qed

lemma closed_members:
  assumes dist: "distinct (map fst b)"
  shows "admits (JObject b) K \<longleftrightarrow> admits_members (declared_fields b) (al_remove ''additionalProperties'' b) K \<and>
     (map_of b ''additionalProperties'' = Some (JBool False) \<longrightarrow> K \<subseteq> declared_fields b)"
proof -
  note ds = distinct_al_remove [OF dist, of "''additionalProperties''"]
  show ?thesis
    unfolding admits.simps declared_fields_def [symmetric] admits_members_map [OF ds] admits_members_map [OF dist]
      map_of_al_remove all_members_removed keyword_closed
      all_members_at [where m = "map_of b" and a = "''additionalProperties''"]
    by (simp only: conj_ac) blast
qed

lemma close_branch_exact:
  assumes dist: "distinct (map fst b)" and opened: "open_members (al_remove ''additionalProperties'' b)"
    and closed: "close_branch names (JObject b) = Some c" and K: "K \<subseteq> set names"
  shows "admits (validation_only c) K \<longleftrightarrow> admits (JObject b) K"
proof -
  let ?d = "declared_fields b"
  let ?forbidden = "filter (\<lambda>name. \<not> contains_key (as_members (map_of b ''properties'')) name) names"
  have declared: "contains_key (as_members (map_of b ''properties'')) name \<longleftrightarrow> name \<in> ?d" for name
    by (auto simp: declared_fields_def contains_key_def map_of_eq_None_iff)
  have K_iff: "(\<forall>name\<in>set ?forbidden. name \<notin> K) \<longleftrightarrow> K \<subseteq> ?d" using K by (auto simp: declared)
  have keep: "admits (validation_only (JObject b)) K \<longleftrightarrow> admits_members ?d (al_remove ''additionalProperties'' b) K"
    by (simp only: validation_only.simps admits.simps validation_admits(2) [OF opened]
        validation_members_closed [of b, symmetric])
  show ?thesis
  proof (cases "map_of b ''additionalProperties'' = Some (JBool False)")
    case False
    then have "c = JObject b" using closed by (simp add: close_branch_def)
    then show ?thesis using False keep closed_members [OF dist, of K] by simp
  next
    case True
    show ?thesis
    proof (cases "?forbidden = []")
      case empty: True
      then have "c = JObject b" using closed True by (simp add: close_branch_def)
      moreover have "K \<subseteq> ?d" using K_iff empty by simp
      ultimately show ?thesis using keep closed_members [OF dist, of K] by blast
    next
      case False
      have rules: "\<forall>r\<in>set (map forbids ?forbidden). open_schema r" by simp
      obtain vs where all: "map_of b ''allOf'' = None \<and> vs = [] \<or> map_of b ''allOf'' = Some (JArray vs)"
        and c: "c = JObject (al_insert ''allOf'' (JArray (vs @ map forbids ?forbidden)) b)"
        using closed True False by (auto simp: close_branch_def Let_def split: option.splits json.splits)
      show ?thesis
        unfolding c rules_added [OF dist opened all rules, of K ?d] closed_members [OF dist, of K]
        using True K_iff by auto
    qed
  qed
qed

section \<open>The declared fields of a union\<close>

definition names_of :: "(string \<times> json) list \<Rightarrow> string set" where
  "names_of ps = fst ` set ps"

lemma names_of_insert [simp]: "names_of (al_insert k v ps) = insert k (names_of ps)"
  using fst_set_al_insert [of k v ps] by (simp add: names_of_def)

lemma names_of_Cons: "names_of ((name, v) # ps) = insert name (names_of ps)"
  by (simp add: names_of_def)

lemma merge_fields_names:
  "merge_fields ps target = Some merged \<Longrightarrow> names_of merged = names_of target \<union> names_of ps"
proof (induction ps arbitrary: target)
  case (Cons f ps)
  obtain name field where f: "f = (name, field)" by fastforce
  from Cons.prems obtain m where "merge_fields ps (al_insert name m target) = Some merged"
    by (auto simp: f bind_eq_Some_conv)
  from Cons.IH [OF this] show ?case by (simp add: f names_of_Cons)
qed (simp add: names_of_def)

lemma merge_branches_names:
  "merge_branches bs ps = Some merged \<Longrightarrow>
   names_of merged = names_of ps \<union> (\<Union>b\<in>set bs. names_of (as_members (json_get b ''properties'')))"
proof (induction bs arbitrary: ps)
  case (Cons b bs)
  then obtain ps' where m: "merge_fields (as_members (json_get b ''properties'')) ps = Some ps'"
    and rest: "merge_branches bs ps' = Some merged" by (auto simp: bind_eq_Some_conv)
  from Cons.IH [OF rest] merge_fields_names [OF m] show ?case by auto
qed simp

lemma option_map_all:
  "option_map f xs = Some ys \<Longrightarrow> list_all2 (\<lambda>x y. f x = Some y) xs ys"
  by (induction xs arbitrary: ys) (auto simp: bind_eq_Some_conv)

lemma rule_exact:
  assumes "list_all2 (\<lambda>b c. close_branch names b = Some c) branches closed"
    and "\<forall>b\<in>set branches. \<exists>kvs. b = JObject kvs \<and> distinct (map fst kvs) \<and>
           open_members (al_remove ''additionalProperties'' kvs)"
    and K: "K \<subseteq> set names"
  shows "admitted (map (\<lambda>v. JObject [(''allOf'', JArray [validation_only v])]) closed) K = admitted branches K"
  using assms(1,2)
proof (induction branches closed rule: list_all2_induct)
  case (Cons b bs c cs)
  then obtain kvs where b: "b = JObject kvs" and d: "distinct (map fst kvs)"
    and o: "open_members (al_remove ''additionalProperties'' kvs)" and c: "close_branch names (JObject kvs) = Some c"
    by auto
  have "admits (JObject [(''allOf'', JArray [validation_only c])]) K = admits (JObject kvs) K"
    by (simp only: admits_object [of "[_]"] list.set ball_simps simp_thms prod.case keyword_all
        close_branch_exact [OF d o c K])
  with Cons b show ?case by simp
qed simp

text \<open>
  C36 Rewriting a union for the API server keeps its alternatives. Every field of a branch is declared
  beside the union, and on objects with declared fields the \<open>n\<close>th rule admits exactly the field
  sets of the \<open>n\<close>th branch, although rules can no longer close an object. Branches are objects
  that close nothing but themselves.
\<close>

theorem hoist_keeps_alternatives:
  assumes "hoist kind ob = Some ob'" and "kind \<in> {''oneOf'', ''anyOf''}"
    and "map_of ob kind = Some (JArray branches)" and "\<exists>b\<in>set branches. json_get b ''properties'' \<noteq> None"
    and "\<forall>b\<in>set branches. \<exists>kvs. b = JObject kvs \<and> distinct (map fst kvs) \<and>
           open_members (al_remove ''additionalProperties'' kvs)"
  shows "\<exists>ps rules. map_of ob' ''properties'' = Some (JObject ps) \<and> map_of ob' kind = Some (JArray rules) \<and>
    (\<forall>b\<in>set branches. names_of (as_members (json_get b ''properties'')) \<subseteq> names_of ps) \<and>
    (\<forall>K. K \<subseteq> names_of ps \<longrightarrow> admitted rules K = admitted branches K)"
proof -
  let ?rules = "map (\<lambda>v. JObject [(''allOf'', JArray [validation_only v])])"
  have none: "(\<forall>b\<in>set branches. json_get b ''properties'' = None) = False"
    using assms(4) by (simp only: Bex_def Ball_def not_all not_imp eq_False)
  obtain ps closed where
    merged: "merge_branches branches (as_members (map_of (al_remove kind ob) ''properties'')) = Some ps"
    and closed: "option_map (close_branch (map fst ps)) branches = Some closed"
    and ob': "ob' = al_insert kind (JArray (?rules closed)) (al_insert ''properties'' (JObject ps)
      (al_insert ''type'' (JString ''object'') (al_remove kind ob)))"
    using assms(1) unfolding hoist_def assms(3) option.case json.case Let_def none if_False bind_eq_Some_conv
    by (elim exE conjE) (simp only: option.inject)
  have "map_of ob' ''properties'' = Some (JObject ps) \<and> map_of ob' kind = Some (JArray (?rules closed))"
    using assms(2) by (auto simp: ob')
  moreover have "\<forall>b\<in>set branches. names_of (as_members (json_get b ''properties'')) \<subseteq> names_of ps"
    using merge_branches_names [OF merged] by blast
  moreover have "admitted (?rules closed) K = admitted branches K" if "K \<subseteq> names_of ps" for K
    using rule_exact [OF option_map_all [OF closed] assms(5)] that by (simp add: names_of_def)
  ultimately show ?thesis by blast
qed

definition demo_branches :: "json list" where
  "demo_branches =
     [JObject [(''type'', JString ''object''), (''properties'', JObject [(''value'', JObject [])]),
        required_only [''value''], (''additionalProperties'', JBool False)],
      JObject [(''type'', JString ''object''), (''properties'', JObject [(''secretRef'', JObject [])]),
        required_only [''secretRef''], (''additionalProperties'', JBool False)]]"

lemma hoist_keeps_alternatives_witness:
  "\<exists>ob' ps rules. hoist ''oneOf'' [(''oneOf'', JArray demo_branches)] = Some ob' \<and>
     map_of ob' ''properties'' = Some (JObject ps) \<and> map_of ob' ''oneOf'' = Some (JArray rules) \<and>
     (\<forall>b\<in>set demo_branches. names_of (as_members (json_get b ''properties'')) \<subseteq> names_of ps) \<and>
     (\<forall>K. K \<subseteq> names_of ps \<longrightarrow> admitted rules K = admitted demo_branches K)"
proof -
  obtain ob' where h: "hoist ''oneOf'' [(''oneOf'', JArray demo_branches)] = Some ob'"
    by (simp add: hoist_def demo_branches_def as_members_def close_branch_def contains_key_def required_only_def
        al_remove_def)
  have s: "\<exists>b\<in>set demo_branches. json_get b ''properties'' \<noteq> None" by (simp add: demo_branches_def)
  have t: "\<forall>b\<in>set demo_branches. \<exists>kvs. b = JObject kvs \<and> distinct (map fst kvs) \<and>
      open_members (al_remove ''additionalProperties'' kvs)"
    by (simp add: demo_branches_def required_only_def al_remove_def)
  from hoist_keeps_alternatives [OF h _ _ s t] h show ?thesis by auto
qed

section \<open>Key sources\<close>

text \<open>The schema of the key sources of a client admits what compilation accepts.\<close>

definition present :: "string \<Rightarrow> 'a option \<Rightarrow> string set" where
  "present name v = (if v = None then {} else {name})"

lemma jwks_alternatives_exact:
  "admits (JObject [(''oneOf'', jwks_alternatives)])
       (present ''issuer'' issuer \<union> present ''jwks'' jwks \<union> present ''jwksUrl'' jwks_url) \<longleftrightarrow>
   jwks_source L key issuer jwks jwks_url \<noteq>
     Inl [''Relay/'' @ key @ '': PrivateKeyJwt requires exactly one of jwks and jwksUrl, or issuer discovery with neither'']"
  by (cases issuer; cases jwks; cases jwks_url)
    (auto simp: jwks_alternatives_def required_only_def present_def jwks_source_def with_context_def
      ok_or_def split: option.splits)

end
