(* ===== verification/Deployment.thy ===== *)
theory Deployment
  imports Dispatch Server_Safety
begin

text \<open>
  How the binary puts the router to work: the HTTP clients (\<open>oauthrelay-core/src/http_client.rs\<close>,
  \<open>router.rs\<close>), the configuration of the router and its state (\<open>RelayConfig\<close>, \<open>router\<close>), and the
  application \<open>main\<close> serves over the registry, with the refresh that precedes a request on Lambda.
  Building a client from its settings, the root certificates, and the answers of the routing library
  to requests no route takes are parameters.
\<close>

section \<open>HTTP clients\<close>

datatype redirect_policy = FollowNone | FollowLimited nat

record 'tls client_builder =
  cb_redirect :: redirect_policy
  cb_timeout :: "duration option"
  cb_tls :: 'tls

definition default_client_builder :: "'tls \<Rightarrow> 'tls client_builder" where
  "default_client_builder mozilla = \<lparr>cb_redirect = FollowNone, cb_timeout = None, cb_tls = mozilla\<rparr>"

definition upstream_client_new ::
    "('tls client_builder \<Rightarrow> errors + 'c) \<Rightarrow> 'tls client_builder \<Rightarrow> errors + 'c" where
  "upstream_client_new build b = build (b\<lparr>cb_redirect := FollowNone\<rparr>)"

definition assertion_client_new ::
    "('tls client_builder \<Rightarrow> errors + 'c) \<Rightarrow> 'tls client_builder \<Rightarrow> errors + 'c" where
  "assertion_client_new build b = build (b\<lparr>cb_redirect := FollowNone, cb_timeout := Some (from_secs 10)\<rparr>)"

text \<open>\<open>None\<close> is the panic of \<open>expect\<close>.\<close>

definition upstream_client_default :: "('tls client_builder \<Rightarrow> errors + 'c) \<Rightarrow> 'tls \<Rightarrow> 'c option" where
  "upstream_client_default build mozilla = ok (upstream_client_new build (default_client_builder mozilla))"

definition assertion_client_default :: "('tls client_builder \<Rightarrow> errors + 'c) \<Rightarrow> 'tls \<Rightarrow> 'c option" where
  "assertion_client_default build mozilla = ok (assertion_client_new build (default_client_builder mozilla))"

section \<open>The configuration of the router\<close>

record ('c, 'p) relay_config =
  rc_public_url :: url
  rc_sealer :: xchacha_sealer
  rc_store :: "store_plan option"
  rc_http :: 'c
  rc_assertion_http :: 'c
  rc_outbound :: "'p option"
  rc_redirect :: redirect_options

definition relay_config_new ::
    "('tls client_builder \<Rightarrow> errors + 'c) \<Rightarrow> 'tls \<Rightarrow> url \<Rightarrow> xchacha_sealer \<Rightarrow> ('c, 'p) relay_config option" where
  "relay_config_new build mozilla public sealed =
     Option.bind (upstream_client_default build mozilla) (\<lambda>http.
     map_option (\<lambda>assertion_http.
       \<lparr>rc_public_url = public, rc_sealer = sealed, rc_store = None, rc_http = http,
        rc_assertion_http = assertion_http, rc_outbound = None,
        rc_redirect = \<lparr>allow_localhost_loopback = False, allow_http_origins = False\<rparr>\<rparr>)
       (assertion_client_default build mozilla))"

definition with_store :: "store_plan \<Rightarrow> ('c, 'p) relay_config \<Rightarrow> ('c, 'p) relay_config" where
  "with_store store cfg = cfg\<lparr>rc_store := Some store\<rparr>"

definition with_http :: "'c \<Rightarrow> ('c, 'p) relay_config \<Rightarrow> ('c, 'p) relay_config" where
  "with_http http cfg = cfg\<lparr>rc_http := http\<rparr>"

definition with_client_assertion_http :: "'c \<Rightarrow> ('c, 'p) relay_config \<Rightarrow> ('c, 'p) relay_config" where
  "with_client_assertion_http http cfg = cfg\<lparr>rc_assertion_http := http\<rparr>"

definition with_outbound :: "'p \<Rightarrow> ('c, 'p) relay_config \<Rightarrow> ('c, 'p) relay_config" where
  "with_outbound policy cfg = cfg\<lparr>rc_outbound := Some policy\<rparr>"

definition with_redirect :: "redirect_options \<Rightarrow> ('c, 'p) relay_config \<Rightarrow> ('c, 'p) relay_config" where
  "with_redirect options cfg = cfg\<lparr>rc_redirect := options\<rparr>"

text \<open>\<open>router\<close>: its state over a resolver, and the paths its one route takes.\<close>

definition router_state ::
    "(string \<Rightarrow> string + relay option) \<Rightarrow> (string \<Rightarrow> string + upstream option) \<Rightarrow> ('c, 'p) relay_config
       \<Rightarrow> key_strategy \<Rightarrow> app_state" where
  "router_state relays upstreams cfg keys =
     \<lparr>resolve_relay = (\<lambda>key. case relays key of Inl e \<Rightarrow> Inl () | Inr r \<Rightarrow> Inr r),
      resolve_upstream = (\<lambda>key. case upstreams key of Inl e \<Rightarrow> Inl () | Inr u \<Rightarrow> Inr u),
      public_url = rc_public_url cfg, layout_keys = keys, has_store = rc_store cfg \<noteq> None,
      has_policy = rc_outbound cfg \<noteq> None, redirect_opts = rc_redirect cfg\<rparr>"

definition router_takes :: "('c, 'p) relay_config \<Rightarrow> string \<Rightarrow> bool" where
  "router_takes cfg p =
     (case strip_prefix (public_route_prefix (rc_public_url cfg) @ ''/'') p of None \<Rightarrow> False | Some rest \<Rightarrow> rest \<noteq> [])"

section \<open>The application of the binary\<close>

text \<open>The router's configuration in \<open>main\<close>. The inner \<open>None\<close> is a panic of a default client.\<close>

definition server_config ::
    "('tls client_builder \<Rightarrow> errors + 'c) \<Rightarrow> 'tls \<Rightarrow> 's server_plan \<Rightarrow> (errors + ('c, 'p) relay_config) option" where
  "server_config build mozilla p =
     map_option (\<lambda>cfg.
       bind_result (upstream_client_new build (default_client_builder mozilla)) (\<lambda>http.
       bind_result (assertion_client_new build (default_client_builder mozilla)) (\<lambda>assertion_http.
         Inr (with_redirect (sv_redirect p) (with_client_assertion_http assertion_http
           (with_http http (with_store (sv_store p) cfg)))))))
       (relay_config_new build mozilla (sv_public_url p) (sv_sealer p))"

definition registry_state :: "registry \<Rightarrow> ('c, 'p) relay_config \<Rightarrow> app_state" where
  "registry_state g cfg = router_state (registry_relay g) (registry_upstream g) cfg SingleSegment"

text \<open>The health routes and the router. \<open>fallback\<close> is the answer of the routing library.\<close>

definition app_serve ::
    "nat \<Rightarrow> (in_request \<Rightarrow> response) \<Rightarrow> 'z router_libs_scheme \<Rightarrow> ('c, 'p) relay_config \<Rightarrow> registry \<Rightarrow> in_request
       \<Rightarrow> response option prog" where
  "app_serve polls fallback L cfg g req =
     (if in_path req = ''/healthz'' \<or> in_path req = ''/readyz''
      then Ret (Some (if in_method req = GET then status_response 200 else fallback req))
      else if router_takes cfg (in_path req) then dispatch polls L (registry_state g cfg) req
      else Ret (Some (fallback req)))"

text \<open>On Lambda a request first refreshes the configuration: \<open>refresh_lambda_config\<close>.\<close>

definition lambda_serve ::
    "nat \<Rightarrow> (in_request \<Rightarrow> response) \<Rightarrow> 'z router_libs_scheme \<Rightarrow> ('c, 'p) relay_config \<Rightarrow> 's host \<Rightarrow> nat \<Rightarrow> nat
       \<Rightarrow> in_request \<Rightarrow> 's lambda_refresher \<Rightarrow> 's \<Rightarrow> ('s lambda_refresher \<times> 's \<times> response option prog) option" where
  "lambda_serve polls fallback L cfg H now now' req f w =
     map_option (\<lambda>(f', w'). (f', w', app_serve polls fallback L cfg (rf_registry f') req))
       (refresh_if_stale L H now now' f w)"

text \<open>
  The registries requests are served from: those of the process once it serves, or, on Lambda, those of
  the refresher that takes over the providers then, after any number of refreshes. The world may change
  between refreshes.
\<close>

inductive lambda_refreshes :: "'z libs_scheme \<Rightarrow> 's host \<Rightarrow> 's lambda_refresher \<Rightarrow> 's lambda_refresher \<Rightarrow> bool"
  for L H where
  refreshes_none: "lambda_refreshes L H f f"
| refreshes_more: "lambda_refreshes L H f f1 \<Longrightarrow> refresh_if_stale L H now now' f1 w = Some (f2, w') \<Longrightarrow>
    lambda_refreshes L H f f2"

inductive serves_from :: "'z libs_scheme \<Rightarrow> 's host \<Rightarrow> 's server_plan \<Rightarrow> 's \<Rightarrow> registry \<Rightarrow> bool"
  for L H p w where
  from_process: "server_runs L H (sv_redirect p) (server_start p w) s \<Longrightarrow> sr_serving s \<Longrightarrow>
    serves_from L H p w (sr_registry s)"
| from_lambda: "server_runs L H (sv_redirect p) (server_start p w) s \<Longrightarrow> sr_serving s \<Longrightarrow>
    lambda_refreshes L H (refresher_new (sr_registry s) (sr_running s) ttl now) f \<Longrightarrow>
    serves_from L H p w (rf_registry f)"

section \<open>The configuration the router runs with\<close>

text \<open>
  The router runs with what the environment asked for, and its clients never follow a redirect,
  whatever the settings they are built from.
\<close>

lemma server_config_Inr:
  assumes "server_config build mozilla p = Some (Inr cfg)"
  shows "rc_public_url cfg = sv_public_url p \<and> rc_sealer cfg = sv_sealer p \<and> rc_store cfg = Some (sv_store p) \<and>
    rc_outbound cfg = None \<and> rc_redirect cfg = sv_redirect p \<and>
    build \<lparr>cb_redirect = FollowNone, cb_timeout = None, cb_tls = mozilla\<rparr> = Inr (rc_http cfg) \<and>
    build \<lparr>cb_redirect = FollowNone, cb_timeout = Some (from_secs 10), cb_tls = mozilla\<rparr> = Inr (rc_assertion_http cfg)"
  using assms
  by (auto simp: server_config_def relay_config_new_def bind_eq_Some_conv bind_result_Inr_iff with_redirect_def
      with_client_assertion_http_def with_http_def with_store_def upstream_client_new_def
      assertion_client_new_def default_client_builder_def)

lemma registry_state_simps [simp]:
  "resolve_relay (registry_state g cfg) key = Inr (map_of (snap_relays (resources g)) key)"
  "resolve_upstream (registry_state g cfg) key = Inr (map_of (snap_upstreams (resources g)) key)"
  "public_url (registry_state g cfg) = rc_public_url cfg" "layout_keys (registry_state g cfg) = SingleSegment"
  "has_store (registry_state g cfg) \<longleftrightarrow> rc_store cfg \<noteq> None"
  "redirect_opts (registry_state g cfg) = rc_redirect cfg"
  by (simp_all add: registry_state_def router_state_def registry_relay_def registry_upstream_def)

section \<open>The public paths of a resource\<close>

definition public_path :: "url \<Rightarrow> endpoint \<Rightarrow> string \<Rightarrow> string" where
  "public_path u e key = public_route_prefix u @ ''/'' @ layout_path e key"

lemma strip_own_prefix: "strip_prefix p (p @ s) = Some s"
  by (induction p) (auto simp: strip_prefix_def)

lemma layout_path_slash: "1 \<le> count_list (layout_path e key) (CHR ''/'')"
  by (cases e) auto

lemma public_path_routed:
  assumes "in_path req = public_path (rc_public_url cfg) e key"
  shows "app_serve polls fallback L cfg g req = dispatch polls L (registry_state g cfg) req"
    and "dispatch_path (registry_state g cfg) (in_path req) = Some (layout_path e key)"
proof -
  let ?p = "public_route_prefix (rc_public_url cfg)"
  have "2 \<le> count_list (in_path req) (CHR ''/'')"
    using layout_path_slash [of e key] by (simp add: assms public_path_def)
  then have "in_path req \<noteq> ''/healthz'' \<and> in_path req \<noteq> ''/readyz''" by auto
  moreover have "strip_prefix (?p @ ''/'') (in_path req) = Some (layout_path e key)"
    using strip_own_prefix [of "?p @ ''/''" "layout_path e key"] by (simp add: assms public_path_def)
  then have "router_takes cfg (in_path req)" by (cases e) (simp_all add: router_takes_def)
  ultimately show "app_serve polls fallback L cfg g req = dispatch polls L (registry_state g cfg) req"
    by (simp add: app_serve_def)
  show "dispatch_path (registry_state g cfg) (in_path req) = Some (layout_path e key)"
    using strip_own_prefix [of ?p "''/'' @ layout_path e key"] strip_own_prefix [of "''/''" "layout_path e key"]
    by (simp add: dispatch_path_def assms public_path_def)
qed

section \<open>The typing of the registry\<close>

lemma merged_typed: "merged_from L names g \<Longrightarrow> snapshot_typed (resources g)"
  by (auto simp: merged_from_def good_snapshot_def intro!: merge_ordered_typed)

lemma server_step_typed:
  assumes "server_step L H options s s'" and "server_ok L names s" and "snapshot_typed (resources (sr_registry s))"
  shows "snapshot_typed (resources (sr_registry s'))"
proof -
  have "server_ok L names s'" using server_step_ok [OF assms(1,2)] .
  then have "sr_serving s' \<Longrightarrow> snapshot_typed (resources (sr_registry s'))"
    by (auto simp: server_ok_def dest: merged_typed)
  moreover have "sr_serving s' \<or> sr_registry s' = sr_registry s"
    using assms(1) by (cases rule: server_step.cases) auto
  ultimately show ?thesis using assms(3) by auto
qed

lemma server_runs_typed:
  assumes "server_runs L H options s s'" and "server_ok L names s" and "snapshot_typed (resources (sr_registry s))"
  shows "snapshot_typed (resources (sr_registry s'))"
  using assms
proof (induction rule: server_runs.induct)
  case (runs_more s s1 s2)
  then show ?case using server_runs_ok [OF runs_more(1)] server_step_typed by blast
qed simp

lemma server_starts_ok:
  assumes "startup L env H A api kube_default probe = Inr p"
  shows "\<exists>names. server_ok L names (server_start p w)"
proof -
  from startup_running [OF assms] obtain ps where ps: "sv_running p = map start_provider ps" by blast
  have "server_ok L (map provider_name ps) (server_start p w)"
    by (auto simp: server_ok_def server_start_def ps start_ok) (simp add: start_provider_def)
  then show ?thesis ..
qed

lemma lambda_refreshes_ok:
  assumes "lambda_refreshes L H f f'" and "refresher_ok L names f" and "merged_from L names (rf_registry f)"
  shows "refresher_ok L names f' \<and> merged_from L names (rf_registry f')"
  using assms
proof (induction rule: lambda_refreshes.induct)
  case (refreshes_more f f1 now now' w f2 w')
  then have "refresher_ok L names f1" "merged_from L names (rf_registry f1)" by simp_all
  then show ?case using refreshed [OF refreshes_more(2), of names] by (auto split: if_splits)
qed simp

text \<open>Every registry served from is a merge of valid, well-typed snapshots.\<close>

lemma serves_merged:
  assumes "startup L env H A api kube_default probe = Inr p" and "serves_from L H p w g"
  shows "\<exists>names. merged_from L names g"
proof -
  obtain names where start: "server_ok L names (server_start p w)" using server_starts_ok [OF assms(1)] by blast
  from assms(2) have "merged_from L names g"
  proof (cases rule: serves_from.cases)
    case (from_process s)
    with server_runs_ok [OF from_process(2) start] show ?thesis by (simp add: server_ok_def)
  next
    case (from_lambda s ttl now f)
    then have ok: "server_ok L names s" using server_runs_ok start by blast
    then have "refresher_ok L names (refresher_new (sr_registry s) (sr_running s) ttl now)"
      by (auto simp: refresher_ok_def refresher_new_def server_ok_def running_ok_def comp_def)
    moreover have "merged_from L names (rf_registry (refresher_new (sr_registry s) (sr_running s) ttl now))"
      using ok from_lambda by (simp add: refresher_new_def server_ok_def)
    ultimately show ?thesis using lambda_refreshes_ok [OF from_lambda(4)] from_lambda(1) by simp
  qed
  then show ?thesis ..
qed

end
