(* ===== verification/Rotation_Concurrent.thy ===== *)
theory Rotation_Concurrent
  imports Rotation_Safety Admission
begin

text \<open>
  Refreshes of one handle that run at the same time, in one process or on several instances, against
  one store: whatever the interleaving, each of them that asks the upstream has claimed a state of the
  handle's record that no other has claimed.
\<close>

section \<open>Swaps of one value\<close>

text \<open>What a request saw of its swaps of a value, and what the store answered to all of them.\<close>

definition swaps_on :: "string \<Rightarrow> bytes \<Rightarrow> event list \<Rightarrow> bool list" where
  "swaps_on k b es =
     concat (map (\<lambda>e. case e of ECas k' b' n t a \<Rightarrow> if k' = k \<and> b' = b then [a = Inr True] else [] | _ \<Rightarrow> []) es)"

definition swap_results :: "string \<Rightarrow> bytes \<Rightarrow> (nat \<times> store_op) list \<Rightarrow> bool list \<Rightarrow> bool list" where
  "swap_results k b ops bs = map snd (filter (\<lambda>((t, op), r). is_cas_of k b op) (zip ops bs))"

text \<open>Two requests share a store with any number of others.\<close>

definition share_swaps :: "string \<Rightarrow> (nat \<times> store_op) list \<Rightarrow> bool list \<Rightarrow> event list \<Rightarrow> event list \<Rightarrow> bool" where
  "share_swaps k ops bs es es' \<longleftrightarrow>
     (\<forall>b. \<exists>mine others. mine \<in> shuffles (swaps_on k b es) (swaps_on k b es') \<and> swap_results k b ops bs \<in> shuffles mine others)"

lemma swaps_on_won: "ECas k b n t (Inr True) \<in> set es \<Longrightarrow> True \<in> set (swaps_on k b es)"
  by (force simp: swaps_on_def)

lemma wins_swaps: "wins (is_cas_of k b) ops bs = length (filter id (swap_results k b ops bs))"
  by (simp add: wins_def swap_results_def filter_map comp_def case_prod_unfold conj_commute)

lemma shuffled_more: "xs \<in> shuffles ys zs \<Longrightarrow> length (filter id ys) \<le> length (filter id xs)"
proof -
  assume "xs \<in> shuffles ys zs"
  then have "filter id xs \<in> shuffles (filter id ys) (filter id zs)" using filter_shuffles [of id ys zs] by blast
  then show ?thesis using length_shuffles by fastforce
qed

section \<open>One winner for every state\<close>

context transient_store
begin

text \<open>A value is swapped away at most once, also when the history writes it.\<close>

lemma swapped_away_once:
  assumes "proper_history ops" and "in_range fits ops" and "unwritten view ops now s" and "\<forall>(t, op)\<in>set ops. now \<le> t"
  shows "wins (is_cas_of k b) ops (fst (exec_ops put get cas del ops s)) \<le> 1"
  using assms
proof (induction ops arbitrary: now s)
  case (Cons x ops)
  obtain t op where x: "x = (t, op)" by force
  let ?s = "snd (exec_op put get cas del t op s)"
  have le: "now \<le> t" using Cons.prems(4) x by simp
  have un: "unwritten view ((t, op) # ops) t s"
    using Cons.prems(3) le x by (auto simp: unwritten_def)
  have hist: "proper_history ((t, op) # ops)" using Cons.prems(1) x by simp
  have range: "in_range fits ((t, op) # ops)" using Cons.prems(2) x by simp
  note fresh = history_fresh [OF hist range un]
  have rest: "proper_history ops" "in_range fits ops" "unwritten view ops t ?s" "\<forall>(t', op)\<in>set ops. t \<le> t'"
    using hist range unwritten_step [OF hist range un]
    by (auto simp: proper_history_Cons split: option.splits)
  show ?case
  proof (cases "(k, b) \<in> set (written ((t, op) # ops))")
    case False
    then show ?thesis using cas_single_winner [OF Cons.prems] x by simp
  next
    case True
    then have "view s t k \<noteq> Some b" using un by (auto simp: unwritten_def)
    then have "\<not> (is_cas_of k b op \<and> fst (exec_op put get cas del t op s))"
      using exec_op_wins [OF fresh] by (cases op) auto
    with Cons.IH [OF rest] show ?thesis
      unfolding x by (auto simp: case_prod_unfold Let_def wins_def)
  qed
qed (simp add: wins_def)

lemma claimed_apart:
  assumes "proper_history ops" and "in_range fits ops" and "unwritten view ops now s" and "\<forall>(t, op)\<in>set ops. now \<le> t"
    and "share_swaps k ops (fst (exec_ops put get cas del ops s)) es es'"
  shows "ECas k b n t (Inr True) \<notin> set es \<or> ECas k b n' t' (Inr True) \<notin> set es'"
proof -
  obtain mine others where "mine \<in> shuffles (swaps_on k b es) (swaps_on k b es')"
    and "swap_results k b ops (fst (exec_ops put get cas del ops s)) \<in> shuffles mine others"
    using assms(5) unfolding share_swaps_def by metis
  with shuffled_wins [of mine "swaps_on k b es" "swaps_on k b es'"] shuffled_more
    swapped_away_once [OF assms(1-4), of k b] swaps_on_won
  show ?thesis unfolding wins_swaps by fastforce
qed

end

section \<open>Concurrent refreshes\<close>

text \<open>A request claimed the record in the state \<open>b\<close>: it read it, opened it and swapped it away.\<close>

definition claims_state ::
    "'z rotation_libs_scheme \<Rightarrow> rotator \<Rightarrow> string \<Rightarrow> bytes \<Rightarrow> event list \<Rightarrow> bool" where
  "claims_state L R hkey b es \<longleftrightarrow>
     (\<exists>l. loaded_bytes l = b \<and> read_record L R hkey l es \<and> live_token (handle_state (loaded_record l)) \<noteq> None) \<and>
     (\<exists>n ttl. ECas hkey b n ttl (Inr True) \<in> set es)"

lemma asked_claims:
  assumes "path (refresh_rotating polls L R upstream presented) es r" and "e \<in> set es" and "outbound e"
  shows "\<exists>b. claims_state L R (handle_key L R presented) b es"
proof -
  have "wp (asks_after_claim L R (handle_key L R presented)) (refresh_rotating polls L R upstream presented) []
      (\<lambda>r h'. \<forall>out. r = Some (Inr out) \<longrightarrow> answered_ok L R (handle_key L R presented) out h')"
    by (rule wp_refresh_rotating [OF permits_asks refresher_asks claimed_for_in])
  moreover obtain before after where es: "es = before @ e # after" using assms(2) by (meson split_list)
  ultimately have "claimed_in L R (handle_key L R presented) before"
    using wp_pathD(1) [OF _ assms(1)] assms(3) by (fastforce simp: guaranteed_def asks_after_claim_def)
  from claimed_in_mono [OF this] have "claimed_in L R (handle_key L R presented) es" by (simp add: es)
  then show ?thesis by (auto simp: claimed_in_def claims_state_def)
qed

text \<open>
  C5 Two refreshes of one handle that run at the same time on one store that keeps the contract of
  \<open>TransientStore\<close>, in whatever interleaving and among whatever other requests, do not both ask
  the upstream on the same state of the handle's record: each has claimed a state of its own.
\<close>

theorem refreshes_claim_apart:
  assumes "path (refresh_rotating polls L R upstream presented) es r"
    and "path (refresh_rotating polls' L R upstream' presented) es' r'"
    and "\<exists>e\<in>set es. outbound e" and "\<exists>e\<in>set es'. outbound e"
    and "transient_store put get cas del view until in_clock"
    and "proper_history ops" and "in_range in_clock ops" and "unwritten view ops now s" and "\<forall>(t, op)\<in>set ops. now \<le> t"
    and "share_swaps (handle_key L R presented) ops (fst (exec_ops put get cas del ops s)) es es'"
  shows "(\<exists>b. claims_state L R (handle_key L R presented) b es) \<and> (\<exists>b. claims_state L R (handle_key L R presented) b es') \<and>
    (\<forall>b. claims_state L R (handle_key L R presented) b es \<longrightarrow> \<not> claims_state L R (handle_key L R presented) b es')"
proof -
  have "\<not> (claims_state L R (handle_key L R presented) b es \<and> claims_state L R (handle_key L R presented) b es')" for b
    using transient_store.claimed_apart [OF assms(5-10), of b] by (auto simp: claims_state_def)
  then show ?thesis using asked_claims [OF assms(1)] asked_claims [OF assms(2)] assms(3,4) by blast
qed

section \<open>Two refreshes of one handle\<close>

text \<open>A refresh that reads \<open>b\<close>, claims it with \<open>c\<close>, fails upstream and hands the claim back with \<open>a\<close>.\<close>

definition failing_trace :: "bytes \<Rightarrow> bytes \<Rightarrow> bytes \<Rightarrow> event list" where
  "failing_trace b c a =
     [EInstantNow 0, EGet (demo_hkey demo_record) (Inr (Some \<lparr>value_of = b, expires_in = 5\<rparr>)),
      EUnseal b (demo_data demo_record) (Inr []), EDeadline (from_secs 5) False, EClockMs 0,
      EGet (family_key (probe_libs demo_record) demo_rotator (family_id demo_record)) (Inr None),
      EClockMs 0, ERandom 16 (replicate 16 (CHR ''x'')), ESeal [] (demo_data demo_record) (Inr c),
      EDeadline (from_secs 5) False, ECas (demo_hkey demo_record) b c (from_millis 9) (Inr True),
      EExecute probe_request None, EDeadline (from_secs 30) False, ESeal [] (demo_data demo_record) (Inr a),
      EDeadline (from_secs 5) False, EClockMs 0, ECas (demo_hkey demo_record) c a (from_millis 9) (Inr True)]"

lemma failing_path:
  "path (refresh_rotating (Suc 0) (probe_libs demo_record) demo_rotator probe_refresher demo_handle)
     (failing_trace b c a) (Some (Inr (UpstreamFailed FailedRequest)))"
  by (simp add: demo_path_simps failing_trace_def demo_record_def)

definition handle_ops :: "string \<Rightarrow> (nat \<times> store_op) list" where
  "handle_ops k =
     [(1, SCas k ''v'' ''c'' (from_millis 9)), (1, SCas k ''c'' ''a'' (from_millis 9)),
      (2, SCas k ''a'' ''d'' (from_millis 9)), (2, SCas k ''d'' ''f'' (from_millis 9))]"

definition handle_memory :: "string \<Rightarrow> memory_state" where
  "handle_memory k = \<lparr>records = [k \<mapsto> \<lparr>mem_value = ''v'', mem_expires = 10\<rparr>], next_sweep = 30\<rparr>"

lemma handle_ops_run:
  assumes "is_ok (validate_key k)"
  shows "proper_history (handle_ops k)" and "unwritten memory_view (handle_ops k) 0 (handle_memory k)"
    and "fst (exec_ops memory_put_if_absent memory_get memory_compare_and_swap memory_delete (handle_ops k) (handle_memory k)) =
      [True, True, True, True]"
proof -
  have ttl: "is_ok (validate_ttl (from_millis 9))" by (simp add: validate_ttl_def from_millis_def)
  have key: "validate_key k = Inr ()" using assms by (auto simp: is_ok_iff)
  show "proper_history (handle_ops k)" using assms ttl by (simp add: proper_history_def handle_ops_def valid_op_def)
  show "unwritten memory_view (handle_ops k) 0 (handle_memory k)"
    by (auto simp: unwritten_def handle_ops_def memory_view_def handle_memory_def split: if_splits)
  show "fst (exec_ops memory_put_if_absent memory_get memory_compare_and_swap memory_delete (handle_ops k) (handle_memory k)) =
      [True, True, True, True]"
    by (simp add: handle_ops_def handle_memory_def memory_compare_and_swap_def key validate_ttl_def
        memory_lock_def from_millis_def)
qed

lemma append_shuffled: "xs @ ys \<in> shuffles xs ys"
  by (induction xs) (auto intro: Cons_in_shuffles_leftI)

lemma swaps_shared:
  assumes "k = demo_hkey demo_record"
  shows "share_swaps k (handle_ops k) [True, True, True, True] (failing_trace ''v'' ''c'' ''a'') (failing_trace ''a'' ''d'' ''f'')"
  unfolding share_swaps_def
proof
  fix b
  let ?xs = "swaps_on k b (failing_trace ''v'' ''c'' ''a'')" and ?ys = "swaps_on k b (failing_trace ''a'' ''d'' ''f'')"
  have "swap_results k b (handle_ops k) [True, True, True, True] = ?xs @ ?ys"
    by (simp add: swap_results_def handle_ops_def swaps_on_def failing_trace_def assms)
  then show "\<exists>mine others. mine \<in> shuffles ?xs ?ys \<and>
      swap_results k b (handle_ops k) [True, True, True, True] \<in> shuffles mine others"
    by (intro exI [of _ "?xs @ ?ys"] exI [of _ "[]"]) (simp add: append_shuffled)
qed

theorem refreshes_claim_apart_witness:
  "let k = demo_hkey demo_record; claims = claims_state (probe_libs demo_record) demo_rotator k in
   claims ''v'' (failing_trace ''v'' ''c'' ''a'') \<and> \<not> claims ''v'' (failing_trace ''a'' ''d'' ''f'')"
proof -
  let ?k = "demo_hkey demo_record"
  let ?claims = "claims_state (probe_libs demo_record) demo_rotator ?k"
  have key: "is_ok (validate_key ?k)"
    by (simp add: demo_hkey_def handle_key_def digest_key_def HANDLE_KEY_PREFIX_def probe_libs_def demo_rotation_libs_def
        seal_libs.defs demo_libs_def demo_rotator_def rotator_new_def demo_handle_def ROTATING_PREFIX_def
        validate_key_def MAX_KEY_BYTES_def)
  note run = handle_ops_run [OF key]
  have asks: "\<exists>e\<in>set (failing_trace b c a). outbound e" for b c a by (simp add: failing_trace_def)
  have times: "\<forall>(t, op)\<in>set (handle_ops ?k). 0 \<le> t" by simp
  have shared: "share_swaps (handle_key (probe_libs demo_record) demo_rotator demo_handle) (handle_ops ?k)
      (fst (exec_ops memory_put_if_absent memory_get memory_compare_and_swap memory_delete (handle_ops ?k) (handle_memory ?k)))
      (failing_trace ''v'' ''c'' ''a'') (failing_trace ''a'' ''d'' ''f'')"
    using swaps_shared [OF refl] unfolding run(3) by (simp only: demo_hkey_def)
  note apart = refreshes_claim_apart [OF failing_path failing_path asks asks memory.transient_store_axioms
    run(1) in_range_always run(2) times shared]
  obtain b where b: "?claims b (failing_trace ''v'' ''c'' ''a'')" using apart by (auto simp: demo_hkey_def)
  moreover have "b \<in> {''v'', ''c''}" using b by (auto simp: claims_state_def failing_trace_def)
  moreover have "\<not> ?claims ''c'' (failing_trace ''v'' ''c'' ''a'')" by (auto simp: claims_state_def failing_trace_def read_record_def)
  ultimately show ?thesis using apart by (auto simp: demo_hkey_def Let_def)
qed

end
