(* ===== verification/Spec2Isabelle.thy ===== *)
theory Spec2Isabelle
  imports Endpoint_Examples Contracts Router_Safety Rotation_Safety Clients Metadata Login_Flow
    Compilation Config_Examples Store_Examples Crd_Schema Deployment Rotation_Concurrent
begin

text \<open>
  A verification library for the OAuth relay: an HTTP service that stands between applications and
  an OpenID provider (the upstream), redirects logins, exchanges codes, admits users by their
  identity token, and replaces refresh tokens by handles of its own. The theories follow the sources
  under \<open>src/crates/\<close> function by function, under the names of the source.

  \<^bold>\<open>How the program is put together.\<close> The router (\<open>oauthrelay-core/src/router.rs\<close>) serves the
  endpoints of every relay. It reads relays and upstreams from a resolver, seals flows and codes with
  a sealer, keeps single-use markers and refresh-token records in a transient store, and asks the
  upstream over HTTP under an outbound policy. Refresh tokens of a rotating relay go through the
  rotator (\<open>rotation.rs\<close>), a state machine over the store. The resolver of the binary is a registry
  that providers fill (files, SSM parameters, Kubernetes resources), each compiling documents to a
  snapshot and sending it on a channel. The store is in memory, a DynamoDB table or Kubernetes
  objects. \<open>main.rs\<close> chooses all of these from the environment.

  \<^bold>\<open>Conventions.\<close> A Rust \<open>String\<close> or \<open>Vec<u8>\<close> is a list of bytes (\<^typ>\<open>string\<close>); \<open>u64\<close> values are
  naturals with their width written out (\<open>saturating_sub\<close>, \<open>checked\<close> operations, \<open>u64_max\<close>);
  durations and instants are nanoseconds. A \<open>Result\<close> is a sum with the error left, \<open>Option\<close> is
  \<open>option\<close>, a panic is \<open>None\<close>. Structs are records and enums datatypes. A hash map is the list of its
  entries. An error of the crate \<open>anyhow\<close> is its chain of messages. Functions of third-party crates (URL
  parser, codecs, ciphers, hashes, JWT verification, AWS and Kubernetes clients, YAML decoder) are
  arguments: the fields of the record \<open>libs\<close> and its extensions, or records of calls over a world
  \<open>'s\<close>. What the sources rely on is a named hypothesis about these arguments, and the examples
  instantiate them.

  \<^bold>\<open>Effects.\<close> A handler of the router or the rotator is a tree of the calls it makes (\<open>Effects\<close>). A
  statement about all its traces (\<open>path\<close>) holds whatever store, sealer, clocks and upstream answer,
  so also for any interleaving with other requests and instances; \<open>Trace_Logic\<close> computes such
  statements by symbolic execution. \<open>Execution\<close> runs the same programs in one process, for what
  must happen and not only what may. The Kubernetes store has its own call trees (\<open>kprog\<close>), which
  \<open>Kube_Safety\<close> lets any number of clients interleave on one API server.

  \<^bold>\<open>Theories and sources.\<close>
  \<^item> \<open>Prelude\<close>, \<open>Text\<close>, \<open>Libs\<close>: operations of the standard library, decimal numerals, parameters for
    third-party code, the theorem collections, and shared lemmas.
  \<^item> \<open>Model\<close> (\<open>model.rs\<close>), \<open>Layout\<close> (\<open>layout.rs\<close>), \<open>Id_Token_Policy\<close> (\<open>id_token_policy.rs\<close>),
    \<open>Resolver\<close> (\<open>resolver.rs\<close>): resources and their validation, redirect matching, public paths,
    admission rules, snapshots and the registry.
  \<^item> \<open>Config\<close> (\<open>config.rs\<close>, \<open>jwks.rs\<close>), \<open>Crd_Schema\<close> (schema rules, and \<open>schema.rs\<close> of the
    Kubernetes provider), with \<open>Compilation\<close> on what a compiled snapshot satisfies.
  \<^item> \<open>Store\<close> (\<open>store.rs\<close>), \<open>Sealing\<close> (\<open>seal.rs\<close>), \<open>Refresh_Handle\<close> (\<open>refresh_handle.rs\<close>):
    the in-process store, the sealer, handles and their substitution in token responses.
  \<^item> \<open>Rotation\<close> (\<open>rotation.rs\<close>), with \<open>Rotation_Safety\<close> over all traces, \<open>Rotation_Concurrent\<close> on
    requests that share a store, and \<open>Rotation_Run\<close> in one process.
  \<^item> \<open>Requests\<close>, \<open>Outbound\<close>, \<open>Router\<close>, \<open>Dispatch\<close> (\<open>router.rs\<close>, \<open>outbound.rs\<close>): parsing,
    requests to the upstream with their caches, the endpoints, client authentication and the dispatcher.
    \<open>Router_Safety\<close>, \<open>Admission\<close>, \<open>Endpoints\<close>, \<open>Clients\<close>, \<open>Metadata\<close>, \<open>Issuance\<close> (what a redeemed code
    yields in each refresh-token mode) and \<open>Login_Flow\<close> hold their properties, \<open>Contracts\<close> those of the
    components below, \<open>Endpoint_Examples\<close> concrete runs.
  \<^item> \<open>Kube_Mapping\<close>, \<open>Kube_Store\<close>, \<open>Kube_Client\<close> (\<open>oauthrelay-store-kubernetes\<close>), with \<open>Kube_Safety\<close>
    and \<open>Kube_Sweep\<close> on concurrent clients and the sweeper; \<open>Dynamo_Store\<close> (\<open>oauthrelay-store-dynamodb\<close>),
    with \<open>Dynamo_Service\<close> running it on a table; \<open>Store_Examples\<close>.
  \<^item> \<open>Providers\<close> (\<open>oauthrelay-secret-resolver\<close>, \<open>oauthrelay-provider-file\<close>, \<open>oauthrelay-provider-ssm\<close>),
    \<open>Kube_Provider\<close> (\<open>oauthrelay-provider-kubernetes\<close>), \<open>Provider_Loops\<close>: secrets, loads, and the turns
    of the providers' tasks.
  \<^item> \<open>Server\<close> (\<open>oauthrelay/src/main.rs\<close>), \<open>Server_Safety\<close>, \<open>Deployment\<close> (\<open>http_client.rs\<close>, \<open>RelayConfig\<close>
    and \<open>router\<close>, the application), \<open>Config_Examples\<close>; this theory joins the server to the endpoints.

  \<^bold>\<open>Interfaces.\<close> Four traits are locales. \<open>transient_store\<close> is the contract of \<open>TransientStore\<close>; that of
  several conditional writes one wins is proved from it once, and it is interpreted for the in-process
  store and, by \<open>sublocale\<close>, for every table that keeps \<open>dynamo_table\<close>, which the AWS client on the
  table service does; single use of codes and separate claims of refreshes are stated over it, so they
  hold for both. \<open>sealer\<close> is the contract of \<open>Sealer\<close>, kept by \<open>XChaChaSealer\<close> for every
  authenticated cipher (\<open>xchacha_is_sealer\<close>). \<open>path_layout\<close> is the contract of \<open>PathLayout\<close>, kept by both
  strategies of \<open>DefaultLayout\<close>.

  \<^bold>\<open>What is shown.\<close>
  \<^item> Logins: codes are redeemed by the client they were issued to, once, after admission of an identity
    that a key of the upstream verifies; keys and documents come from the URL they are meant to
    (\<open>served_by\<close>), out of a cache or from the network; redirects go only to allowed targets and carry what
    was sealed for this login; a login runs through from end to end in every refresh-token mode
    (\<open>Admission\<close>, \<open>Endpoints\<close>, \<open>Login_Flow\<close>).
  \<^item> Rotation: the upstream is asked only by the holder of a claim, concurrent requests never claim
    the same state, tokens leave only after a commit, reuse revokes the family, only sealed values are
    stored, and the loop returns.
  \<^item> Requests: every outbound request passed the policy, credentials and handles are not forwarded,
    a refresh sends the upstream only the token the client is entitled to, assertions are verified by
    keys of the client and used once, nothing is done for an unknown or invalid resource, and every
    request is answered (\<open>Clients\<close>).
  \<^item> Stores: one winner among conditional writes, on the in-process store, on a table that loses
    responses, and on an API server under concurrent clients; failure instead of a wrong answer when the
    API is unreachable; the sweeper deletes only expired records and misses none; the in-process store
    refines a map.
  \<^item> Configuration: compiled snapshots are valid, complete and typed, secrets are fetched once, the registry
    is always the ordered merge of valid snapshots the providers sent, on Lambda of those it loaded last, the
    settings of the store are all used, and a configured relay is reached at its public paths (below).
  \<^item> Data: matching agrees with reference definitions, handles and records decode to what was encoded,
    and schema rewriting keeps the alternatives of a union.

  \<^bold>\<open>Bounds and fuel.\<close> The loop of \<open>refresh_rotating\<close> takes the number of polls it may make and
  answers \<open>None\<close> when they run out. 51 polls are enough with the default timing, five seconds of waiting
  at 100 milliseconds a poll: in \<open>Clients\<close> over all traces, so under any contention for the claim, in
  which the monotonic clock does not go back and sleeps are not shorter than asked (\<open>steady\<close>), and in
  one process with any timing (\<open>refresh_returns\<close>). Paging
  of SSM parameters and of Kubernetes lists is \<open>partial_function\<close>, so a service that never ends its pages
  is \<open>None\<close>. A sweep takes the number of pages it may read and is \<open>None\<close> when a listing has more. The loops of tasks and of
  the registry updater are given turn by turn, and \<open>server_runs\<close> takes any number of turns in any order.

  \<^bold>\<open>What modelling showed.\<close> The marker of a redeemed code can expire while the code is still fresh by the
  clock of another instance (\<open>Admission\<close>). The Kubernetes store lets a record expire up to two
  milliseconds early (\<open>kube_expires_early\<close>), and its last attempt to create a record can report
  failure for a creation that took effect (\<open>kube_put_unreported\<close>). A path with extra outer slashes is
  served like the path without them, although a comment says that only the canonical one is
  (\<open>layout_ignores_outer_slashes\<close>).

  \<^bold>\<open>Assumptions.\<close> Default features of the crates. A call that hits a deadline is a call that fails with
  its effect unknown. The two listings that the Kubernetes provider makes at the same time are made one after
  the other. An operation of the in-process store reads the clock once, and an instant plus a time to
  live stays in the range of \<open>Instant\<close>. Error texts of libraries are arbitrary.

  \<^bold>\<open>Not modelled.\<close> Tests and test doubles. The decoders and JSON schemas that macros derive: documents start
  as decoded values. Logging, tracing, signals, the HTTP server, TLS and the routing library beyond which routes
  take a request. The subcommands \<open>schema\<close> and \<open>crds\<close>, which print generated text. Debug output, accessors
  and re-exports of \<open>lib.rs\<close>. The watch streams of the \<open>kube\<close> crate, whose events are inputs.
\<close>

section \<open>The served configuration is well typed\<close>

lemma merged_from_valid:
  assumes "merged_from L names g"
  shows "is_ok (snapshot_validate L (resources g))"
  using assms by (auto simp: merged_from_def good_snapshot_def intro!: merge_ordered_valid)

lemma valid_relay_upstream:
  assumes "is_ok (snapshot_validate L s)" and "map_of (snap_relays s) key = Some r"
  shows "\<exists>u. map_of (snap_upstreams s) (r_upstream r) = Some u \<and> is_ok (upstream_validate u)"
proof -
  have "(key, r) \<in> set (snap_relays s)" using assms(2) by (rule map_of_SomeD)
  with assms(1) have "contains_key (snap_upstreams s) (r_upstream r)" by (auto simp: snapshot_validate_ok)
  then obtain u where u: "map_of (snap_upstreams s) (r_upstream r) = Some u" by (auto simp: contains_key_def)
  with assms(1) show ?thesis by (auto simp: snapshot_validate_ok dest: map_of_SomeD)
qed

text \<open>
  C23 In every state the server reaches, and on Lambda after every refresh, the registry and the snapshots
  its providers sent are well typed: keys are unique, every resource is stored under its own key, and
  every key is one segment of a URL path.
\<close>

theorem registry_well_typed:
  assumes "startup L env H A api kube_default probe = Inr p"
    and "server_runs L H (sv_redirect p) (server_start p w) s"
  shows "snapshot_typed (registry_snapshot (sr_registry s)) \<and> (\<forall>r\<in>set (sr_running s). snapshot_typed (rn_value r)) \<and>
    (\<forall>g. serves_from L H p w g \<longrightarrow> snapshot_typed (registry_snapshot g))"
proof -
  obtain names where ok: "server_ok L names (server_start p w)" using server_starts_ok [OF assms(1)] by blast
  have "snapshot_typed (resources (sr_registry (server_start p w)))"
    by (simp add: server_start_def registry_default_def)
  moreover have "\<forall>g. serves_from L H p w g \<longrightarrow> snapshot_typed (resources g)"
    using serves_merged [OF assms(1)] merged_typed by blast
  ultimately show ?thesis
    using server_runs_typed [OF assms(2) ok] server_runs_ok [OF assms(2) ok]
    by (auto simp: registry_snapshot_def server_ok_def running_ok_def good_snapshot_def)
qed

lemma registry_well_typed_witness:
  "snapshot_typed demo_snapshot \<and> r_key demo_relay = ''app'' \<and> single_segment_key ''app''"
proof -
  have "server_runs demo_libs demo_host (sv_redirect demo_plan) (server_start demo_plan ())
     \<lparr>sr_running = [loaded_file], sr_awaiting = 1, sr_registry = \<lparr>resources = demo_snapshot\<rparr>, sr_serving = True, sr_world = ()\<rparr>"
    using demo_serves by (simp add: demo_plan_def)
  from registry_well_typed [OF demo_startup this, THEN conjunct1] have "snapshot_typed demo_snapshot"
    by (simp add: registry_snapshot_def)
  then show ?thesis by (simp add: snapshot_typed_def demo_snapshot_def)
qed

section \<open>From the environment to the endpoints\<close>

text \<open>
  C16 Once the binary serves, as a process or on Lambda, a request for the public path of an endpoint of a
  configured relay reaches that endpoint with that relay and its upstream, which exists and is valid.
  Nothing else on the way answers it, except that a relay which needs a redirect widening that is off
  is refused. \<open>L0\<close> are the library functions of the startup and \<open>L\<close> those of the router.
\<close>

theorem deployed_relay_reached:
  assumes "startup L0 env H A api kube_default probe = Inr p" and "serves_from L0 H p w g"
    and "server_config build mozilla p = Some (Inr cfg)"
    and "registry_relay g key = Inr (Some r)" and "e \<noteq> Callback"
    and "in_path req = public_path (sv_public_url p) e key"
  shows "\<exists>u. registry_upstream g (r_upstream r) = Inr (Some u) \<and> is_ok (upstream_validate u) \<and>
    r_key r = key \<and>
    app_serve polls fallback L cfg g req =
      (if is_ok (relay_validate_for L r (sv_redirect p))
       then dispatch_relay polls L (registry_state g cfg) e r u req
       else Ret (Some (early_failure e 500 ''server_error'' ''relay configuration is invalid'')))"
proof -
  obtain names where merged: "merged_from L0 names g" using serves_merged [OF assms(1,2)] by blast
  have r: "map_of (snap_relays (resources g)) key = Some r" using assms(4) by (simp add: registry_relay_def)
  obtain u where u: "map_of (snap_upstreams (resources g)) (r_upstream r) = Some u" "is_ok (upstream_validate u)"
    using valid_relay_upstream [OF merged_from_valid [OF merged] r] by blast
  have key: "r_key r = key" "single_segment_key key"
    using merged_typed [OF merged] map_of_SomeD [OF r] by (auto simp: snapshot_typed_def)
  have cfg: "rc_public_url cfg = sv_public_url p" "rc_redirect cfg = sv_redirect p"
    using server_config_Inr [OF assms(3)] by simp_all
  have p: "in_path req = public_path (rc_public_url cfg) e key" using assms(6) cfg by simp
  have "app_serve polls fallback L cfg g req =
      (case dispatch_resources L (registry_state g cfg) e key of
         Inl failure \<Rightarrow> Ret (Some failure)
       | Inr (r, u) \<Rightarrow> dispatch_relay polls L (registry_state g cfg) e r u req)"
    unfolding public_path_routed(1) [OF p] dispatch_def public_path_routed(2) [OF p]
    using assms(5) single.parse_path [OF key(2), of e] by (simp del: layout_path.simps)
  moreover have "dispatch_resources L (registry_state g cfg) e key =
      (if is_ok (relay_validate_for L r (sv_redirect p)) then Inr (r, u)
       else Inl (early_failure e 500 ''server_error'' ''relay configuration is invalid''))"
    by (simp add: dispatch_resources_def r u cfg)
  ultimately have "app_serve polls fallback L cfg g req =
      (if is_ok (relay_validate_for L r (sv_redirect p))
       then dispatch_relay polls L (registry_state g cfg) e r u req
       else Ret (Some (early_failure e 500 ''server_error'' ''relay configuration is invalid'')))"
    by simp
  then show ?thesis using u key(1) by (simp add: registry_upstream_def)
qed

definition demo_config :: "(unit client_builder, unit) relay_config" where
  "demo_config =
     \<lparr>rc_public_url = sv_public_url demo_plan, rc_sealer = sv_sealer demo_plan, rc_store = Some PlanMemory,
      rc_http = default_client_builder (),
      rc_assertion_http = (default_client_builder ())\<lparr>cb_timeout := Some (from_secs 10)\<rparr>,
      rc_outbound = None, rc_redirect = demo_options\<rparr>"

lemma demo_configured: "server_config Inr () demo_plan = Some (Inr demo_config)"
  by (simp add: server_config_def relay_config_new_def upstream_client_default_def assertion_client_default_def
      upstream_client_new_def assertion_client_new_def default_client_builder_def with_redirect_def
      with_client_assertion_http_def with_http_def with_store_def demo_plan_def demo_config_def)

lemma deployed_relay_reached_witness:
  "let S = \<lparr>resources = demo_snapshot\<rparr>;
       req = demo_get (public_path (sv_public_url demo_plan) JwksDoc ''app'') in
   \<exists>u. registry_upstream S ''idp'' = Inr (Some u) \<and>
     app_serve 1 (\<lambda>_. status_response 404) demo_router_libs demo_config S req =
       dispatch_relay 1 demo_router_libs (registry_state S demo_config) JwksDoc demo_relay u req"
proof -
  let ?S = "\<lparr>resources = demo_snapshot\<rparr>" and ?req = "demo_get (public_path (sv_public_url demo_plan) JwksDoc ''app'')"
  have runs: "server_runs demo_libs demo_host (sv_redirect demo_plan) (server_start demo_plan ())
     \<lparr>sr_running = [loaded_file], sr_awaiting = 1, sr_registry = ?S, sr_serving = True, sr_world = ()\<rparr>"
    using demo_serves by (simp add: demo_plan_def)
  have relay: "registry_relay ?S ''app'' = Inr (Some demo_relay)"
    by (simp add: registry_relay_def demo_snapshot_def)
  have path: "in_path ?req = public_path (sv_public_url demo_plan) JwksDoc ''app''" by (simp add: demo_get_def)
  have valid: "is_ok (relay_validate_for demo_router_libs demo_relay (sv_redirect demo_plan))"
    using demo_relay_valid_for by (simp add: demo_plan_def)
  have "serves_from demo_libs demo_host demo_plan () ?S" using from_process [OF runs] by simp
  note reached = deployed_relay_reached [OF demo_startup this demo_configured _ _ path,
      where r = demo_relay and fallback = "\<lambda>_. status_response 404" and L = demo_router_libs and polls = 1]
  show ?thesis
    using reached relay valid by (simp add: Let_def) (auto simp: demo_relay_def)
qed

end
